(* ===== verification/Prelude.thy ===== *)
theory Prelude
  imports Main "HOL-Library.Word" "HOL-Library.Multiset" "HOL-Library.AList" "HOL-Library.Sublist"
begin

text \<open>
  Shared vocabulary of the development.

  A Rust \<open>Result<T, E>\<close> is the sum \<open>'e + 'a\<close>, written with the abbreviations \<open>Err\<close> and
  \<open>Ok\<close>. An operation on shared mutable state is a function that returns its result together
  with the new state, and \<open>and_then\<close> is the \<open>?\<close> operator: an error leaves the state as it is
  at that point and skips the rest.

  A Rust \<open>String\<close> is a HOL \<open>string\<close>: HOL characters are bytes, so a string is its UTF-8
  bytes, \<open>length\<close> is Rust's \<open>len\<close> and slicing is by byte offset, as in Rust. A
  \<open>Vec<u8>\<close> is a list of bytes of the same kind.
\<close>

named_theorems state_simps \<open>frame rules: the fields an operation leaves alone\<close>
named_theorems store_laws \<open>what an operation does to the abstract key-value content\<close>

type_synonym bytes = "char list"
type_synonym u64 = "64 word"
type_synonym u32 = "32 word"
type_synonym u16 = "16 word"

section \<open>Results\<close>

abbreviation Ok :: "'a \<Rightarrow> 'e + 'a" where "Ok \<equiv> Inr"
abbreviation Err :: "'e \<Rightarrow> 'e + 'a" where "Err \<equiv> Inl"

definition map_err :: "('e \<Rightarrow> 'f) \<Rightarrow> 'e + 'a \<Rightarrow> 'f + 'a" where
  "map_err f r = (case r of Err e \<Rightarrow> Err (f e) | Ok x \<Rightarrow> Ok x)"

definition result_bind :: "'e + 'a \<Rightarrow> ('a \<Rightarrow> 'e + 'b) \<Rightarrow> 'e + 'b" where
  "result_bind r f = (case r of Err e \<Rightarrow> Err e | Ok x \<Rightarrow> f x)"

definition result_ok :: "'e + 'a \<Rightarrow> 'a option" where
  "result_ok r = (case r of Err _ \<Rightarrow> None | Ok x \<Rightarrow> Some x)"

definition is_ok :: "'e + 'a \<Rightarrow> bool" where
  "is_ok r = (case r of Err _ \<Rightarrow> False | Ok _ \<Rightarrow> True)"

definition and_then :: "('e + 'a) \<times> 's \<Rightarrow> ('a \<Rightarrow> 's \<Rightarrow> ('e + 'b) \<times> 's) \<Rightarrow> ('e + 'b) \<times> 's" where
  "and_then m f = (case m of (Err e, s) \<Rightarrow> (Err e, s) | (Ok x, s) \<Rightarrow> f x s)"

definition map_err_st :: "('e \<Rightarrow> 'f) \<Rightarrow> ('e + 'a) \<times> 's \<Rightarrow> ('f + 'a) \<times> 's" where
  "map_err_st f m = (map_err f (fst m), snd m)"

lemma map_err_simps [simp]:
  "map_err f (Err e) = Err (f e)" "map_err f (Ok x) = Ok x"
  by (simp_all add: map_err_def)

lemma map_err_eq_Ok [simp]: "map_err f r = Ok x \<longleftrightarrow> r = Ok x"
  by (cases r) simp_all

lemma result_bind_simps [simp]:
  "result_bind (Err e) f = Err e" "result_bind (Ok x) f = f x"
  by (simp_all add: result_bind_def)

lemma result_bind_eq_Ok: "result_bind r f = Ok y \<longleftrightarrow> (\<exists>x. r = Ok x \<and> f x = Ok y)"
  by (cases r) simp_all

lemma result_bind_eq_Err: "result_bind r f = Err e \<longleftrightarrow> r = Err e \<or> (\<exists>x. r = Ok x \<and> f x = Err e)"
  by (cases r) auto

lemma result_ok_simps [simp]:
  "result_ok (Err e) = None" "result_ok (Ok x) = Some x"
  by (simp_all add: result_ok_def)

lemma is_ok_simps [simp]: "\<not> is_ok (Err e)" "is_ok (Ok x)"
  by (simp_all add: is_ok_def)

lemma is_ok_map_err [simp]: "is_ok (map_err f r) = is_ok r"
  by (cases r) simp_all

lemma is_ok_result_bind_Ok [simp]: "is_ok (result_bind r (\<lambda>x. Ok (f x))) = is_ok r"
  by (cases r) simp_all

lemma and_then_simps [simp]:
  "and_then (Err e, s) f = (Err e, s)" "and_then (Ok x, s) f = f x s"
  by (simp_all add: and_then_def)

lemma map_err_st_simps [simp]: "map_err_st f (r, s) = (map_err f r, s)"
  by (simp add: map_err_st_def)

lemma snd_map_err_st [simp]: "snd (map_err_st f m) = snd m"
  by (simp add: map_err_st_def)

lemma fst_map_err_st [simp]: "fst (map_err_st f m) = map_err f (fst m)"
  by (simp add: map_err_st_def)

text \<open>Collecting an iterator of results: the first error, or all the values.\<close>

fun collect_results :: "('e + 'a) list \<Rightarrow> 'e + 'a list" where
  "collect_results [] = Ok []"
| "collect_results (Err e # rs) = Err e"
| "collect_results (Ok x # rs) = result_bind (collect_results rs) (\<lambda>xs. Ok (x # xs))"

lemma collect_results_Ok: "collect_results (map (Ok \<circ> f) xs) = Ok (map f xs)"
  by (induction xs) simp_all

lemma collect_results_map_Ok: "(\<And>x. x \<in> set xs \<Longrightarrow> g x = Ok (f x)) \<Longrightarrow> collect_results (map g xs) = Ok (map f xs)"
  by (induction xs) simp_all

lemma collect_results_eq_Err: "collect_results rs = Err e \<Longrightarrow> Err e \<in> set rs"
  by (induction rs rule: collect_results.induct) (auto simp: result_bind_eq_Err)

lemma collect_results_eq_Ok:
  "collect_results rs = Ok xs \<longleftrightarrow> rs = map Ok xs"
proof (induction rs arbitrary: xs)
  case Nil
  then show ?case by auto
next
  case (Cons r rs)
  then show ?case by (cases r; cases xs) (auto simp: result_bind_eq_Ok)
qed

section \<open>Strings\<close>

definition starts_with :: "string \<Rightarrow> string \<Rightarrow> bool" where
  "starts_with s p = (take (length p) s = p)"

lemma starts_with_iff: "starts_with s p \<longleftrightarrow> (\<exists>r. s = p @ r)"
proof
  assume "starts_with s p"
  then have "s = p @ drop (length p) s"
    by (metis append_take_drop_id starts_with_def)
  then show "\<exists>r. s = p @ r" by blast
qed (auto simp: starts_with_def)

lemma starts_with_append [simp]: "starts_with (p @ r) p"
  by (simp add: starts_with_def)

lemma starts_with_Nil [simp]: "starts_with s []"
  by (simp add: starts_with_def)

text \<open>\<open>str::split(c)\<close>: the pieces between the separators; \<open>""\<close> has one empty piece.\<close>

fun split_on :: "char \<Rightarrow> string \<Rightarrow> string list" where
  "split_on c [] = [[]]"
| "split_on c (x # xs) =
     (if x = c then [] # split_on c xs
      else (case split_on c xs of [] \<Rightarrow> [[x]] | p # ps \<Rightarrow> (x # p) # ps))"

text \<open>\<open>str::split_once(c)\<close>: the text before and after the first separator.\<close>

fun split_once :: "char \<Rightarrow> string \<Rightarrow> (string \<times> string) option" where
  "split_once c [] = None"
| "split_once c (x # xs) =
     (if x = c then Some ([], xs)
      else map_option (\<lambda>(p, q). (x # p, q)) (split_once c xs))"

lemma split_on_not_Nil [simp]: "split_on c xs \<noteq> []"
  by (cases xs) (auto split: list.splits)

lemma hd_split_on: "hd (split_on c xs) = takeWhile (\<lambda>x. x \<noteq> c) xs"
proof (induction xs)
  case (Cons x xs)
  then show ?case by (cases "split_on c xs") auto
qed simp

lemma split_on_no_sep: "c \<notin> set xs \<Longrightarrow> split_on c xs = [xs]"
  by (induction xs) auto

lemma split_once_append: "c \<notin> set p \<Longrightarrow> split_once c (p @ c # q) = Some (p, q)"
  by (induction p) auto

lemma split_once_None_iff: "split_once c s = None \<longleftrightarrow> c \<notin> set s"
  by (induction s) auto

lemma split_once_SomeD: "split_once c s = Some (p, q) \<Longrightarrow> s = p @ c # q \<and> c \<notin> set p"
  by (induction s arbitrary: p q) (auto split: if_splits)

text \<open>\<open>[..].join(sep)\<close>\<close>

fun join :: "string \<Rightarrow> string list \<Rightarrow> string" where
  "join sep [] = []"
| "join sep [x] = x"
| "join sep (x # y # xs) = x @ sep @ join sep (y # xs)"

lemma join_Cons_head: "join sep ((x # p) # ps) = x # join sep (p # ps)"
  by (cases ps) simp_all

lemma join_split_on: "join [c] (split_on c s) = s"
proof (induction s)
  case (Cons x xs)
  then show ?case by (cases "split_on c xs") (auto simp: join_Cons_head)
qed simp

text \<open>\<open>str::trim_end_matches(c)\<close>\<close>

definition trim_end_matches :: "char \<Rightarrow> string \<Rightarrow> string" where
  "trim_end_matches c s = rev (dropWhile (\<lambda>x. x = c) (rev s))"

lemma trim_end_matches_last: "trim_end_matches c s \<noteq> [] \<Longrightarrow> last (trim_end_matches c s) \<noteq> c"
  unfolding trim_end_matches_def
  by (metis (full_types) hd_dropWhile last_rev rev_is_Nil_conv)

text \<open>ASCII case\<close>

definition ascii_lower :: "char \<Rightarrow> char" where
  "ascii_lower c = (let n = (of_char c :: nat) in if 65 \<le> n \<and> n \<le> 90 then char_of (n + 32) else c)"

definition to_ascii_lowercase :: "string \<Rightarrow> string" where
  "to_ascii_lowercase s = map ascii_lower s"

definition eq_ignore_ascii_case :: "string \<Rightarrow> string \<Rightarrow> bool" where
  "eq_ignore_ascii_case a b = (to_ascii_lowercase a = to_ascii_lowercase b)"

lemma eq_ignore_ascii_case_refl [simp]: "eq_ignore_ascii_case a a"
  by (simp add: eq_ignore_ascii_case_def)

lemma eq_ignore_ascii_case_sym: "eq_ignore_ascii_case a b = eq_ignore_ascii_case b a"
  by (auto simp: eq_ignore_ascii_case_def)

lemma eq_ignore_ascii_case_length: "eq_ignore_ascii_case a b \<Longrightarrow> length a = length b"
  by (metis eq_ignore_ascii_case_def length_map to_ascii_lowercase_def)

text \<open>Decimal rendering of an unsigned integer, \<open>format!("{}", n)\<close>.\<close>

definition digit_char :: "nat \<Rightarrow> char" where
  "digit_char d = char_of (48 + d)"

fun show_nat :: "nat \<Rightarrow> string" where
  "show_nat n = (if n < 10 then [digit_char n] else show_nat (n div 10) @ [digit_char (n mod 10)])"

declare show_nat.simps [simp del]

text \<open>\<open>format!("'{}'", s)\<close>\<close>

definition quoted :: "string \<Rightarrow> string" where
  "quoted s = [CHR 0x27] @ s @ [CHR 0x27]"

section \<open>UTF-8\<close>

text \<open>
  \<open>String::from_utf8_lossy\<close>: each maximal prefix of an ill-formed sequence becomes one
  U+FFFD (bytes EF BF BD). \<open>utf8_chunk\<close> reads the first character of a non-empty byte
  string: whether it is well formed and how many bytes it takes.
\<close>

definition byte_at :: "bytes \<Rightarrow> nat \<Rightarrow> nat" where
  "byte_at s i = (if i < length s then of_char (s ! i) else 0)"

definition utf8_cont :: "nat \<Rightarrow> bool" where
  "utf8_cont b = (128 \<le> b \<and> b \<le> 191)"

definition utf8_second_ok :: "nat \<Rightarrow> nat \<Rightarrow> bool" where
  "utf8_second_ok b0 b1 =
     (if b0 = 224 then 160 \<le> b1 \<and> b1 \<le> 191
      else if b0 = 237 then 128 \<le> b1 \<and> b1 \<le> 159
      else if b0 = 240 then 144 \<le> b1 \<and> b1 \<le> 191
      else if b0 = 244 then 128 \<le> b1 \<and> b1 \<le> 143
      else utf8_cont b1)"

definition utf8_chunk :: "bytes \<Rightarrow> bool \<times> nat" where
  "utf8_chunk s =
     (let b0 = byte_at s 0 in
      if b0 < 128 then (True, 1)
      else if 194 \<le> b0 \<and> b0 \<le> 223 then
        (if utf8_cont (byte_at s 1) then (True, 2) else (False, 1))
      else if 224 \<le> b0 \<and> b0 \<le> 239 then
        (if \<not> utf8_second_ok b0 (byte_at s 1) then (False, 1)
         else if \<not> utf8_cont (byte_at s 2) then (False, 2) else (True, 3))
      else if 240 \<le> b0 \<and> b0 \<le> 244 then
        (if \<not> utf8_second_ok b0 (byte_at s 1) then (False, 1)
         else if \<not> utf8_cont (byte_at s 2) then (False, 2)
         else if \<not> utf8_cont (byte_at s 3) then (False, 3) else (True, 4))
      else (False, 1))"

lemma utf8_chunk_pos: "0 < snd (utf8_chunk s)"
  by (simp add: utf8_chunk_def Let_def)

definition utf8_replacement :: bytes where
  "utf8_replacement = map char_of [239 :: nat, 191, 189]"

function from_utf8_lossy :: "bytes \<Rightarrow> string" where
  "from_utf8_lossy s =
     (if s = [] then []
      else (if fst (utf8_chunk s) then take (snd (utf8_chunk s)) s else utf8_replacement)
           @ from_utf8_lossy (drop (snd (utf8_chunk s)) s))"
  by pat_completeness auto
termination
  by (relation "measure length") (auto simp: utf8_chunk_pos)

function utf8_valid :: "bytes \<Rightarrow> bool" where
  "utf8_valid s =
     (if s = [] then True
      else fst (utf8_chunk s) \<and> utf8_valid (drop (snd (utf8_chunk s)) s))"
  by pat_completeness auto
termination
  by (relation "measure length") (auto simp: utf8_chunk_pos)

declare from_utf8_lossy.simps [simp del] utf8_valid.simps [simp del]

lemma from_utf8_lossy_valid: "utf8_valid s \<Longrightarrow> from_utf8_lossy s = s"
proof (induction s rule: from_utf8_lossy.induct)
  case (1 s)
  show ?case
  proof (cases "s = []")
    case True
    then show ?thesis by (simp add: from_utf8_lossy.simps)
  next
    case False
    from "1.prems" False have v: "fst (utf8_chunk s)" and r: "utf8_valid (drop (snd (utf8_chunk s)) s)"
      by (subst (asm) utf8_valid.simps; simp)+
    have ih: "from_utf8_lossy (drop (snd (utf8_chunk s)) s) = drop (snd (utf8_chunk s)) s"
      by (rule "1.IH" [OF False r])
    show ?thesis by (subst from_utf8_lossy.simps) (simp add: False v ih)
  qed
qed

text \<open>What \<open>from_utf8_lossy\<close> returns is well formed, so a second decoding changes nothing.\<close>

lemma utf8_chunk_prefix:
  assumes "utf8_chunk s = (True, n)"
  shows "utf8_chunk (take n s @ t) = (True, n) \<and> length (take n s) = n \<or> s = []"
proof (cases "s = []")
  case False
  let ?b = "\<lambda>i. byte_at s i"
  have out: "byte_at s i = 0" if "length s \<le> i" for i using that by (simp add: byte_at_def)
  have n: "n \<le> length s"
  proof (rule ccontr)
    assume "\<not> n \<le> length s"
    then have "?b (n - 1) = 0" "1 < n" using out [of "n - 1"] False by (cases s; auto)+
    with assms show False
      by (auto simp: utf8_chunk_def utf8_cont_def utf8_second_ok_def Let_def split: if_splits)
  qed
  then have b: "byte_at (take n s @ t) i = ?b i" if "i < n" for i
    using that by (simp add: byte_at_def nth_append)
  have p: "0 < n" using utf8_chunk_pos [of s] assms by simp
  have "utf8_chunk (take n s @ t) = (True, n)"
    using assms b [OF p] b [of 1] b [of 2] b [of 3]
    by (simp add: utf8_chunk_def Let_def split: if_splits)
  with n show ?thesis by simp
qed simp

lemma utf8_chunk_replacement: "utf8_chunk (utf8_replacement @ t) = (True, 3)"
  by (simp add: utf8_replacement_def utf8_chunk_def byte_at_def utf8_second_ok_def utf8_cont_def)

lemma utf8_valid_lossy: "utf8_valid (from_utf8_lossy s)"
proof (induction s rule: from_utf8_lossy.induct)
  case (1 s)
  show ?case
  proof (cases "s = []")
    case True
    then show ?thesis by (simp add: from_utf8_lossy.simps utf8_valid.simps)
  next
    case False
    let ?n = "snd (utf8_chunk s)"
    let ?r = "from_utf8_lossy (drop ?n s)"
    have ih: "utf8_valid ?r" by (rule "1.IH" [OF False])
    show ?thesis
    proof (cases "fst (utf8_chunk s)")
      case True
      then have "utf8_chunk s = (True, ?n)" by (metis prod.collapse)
      from utf8_chunk_prefix [OF this, of ?r] False
      have c: "utf8_chunk (take ?n s @ ?r) = (True, ?n)" "length (take ?n s) = ?n" by blast+
      then have "drop ?n (take ?n s @ ?r) = ?r" by simp
      with c ih have "utf8_valid (take ?n s @ ?r)" by (subst utf8_valid.simps) simp
      with True False show ?thesis by (subst from_utf8_lossy.simps) simp
    next
      case f: False
      have "utf8_valid (utf8_replacement @ ?r)"
        using ih utf8_chunk_replacement [of ?r] by (subst utf8_valid.simps) (simp add: utf8_replacement_def)
      with f False show ?thesis by (subst from_utf8_lossy.simps) simp
    qed
  qed
qed

lemma from_utf8_lossy_idem [simp]: "from_utf8_lossy (from_utf8_lossy s) = from_utf8_lossy s"
  by (rule from_utf8_lossy_valid [OF utf8_valid_lossy])

lemma utf8_valid_ascii: "\<forall>c \<in> set s. (of_char c :: nat) < 128 \<Longrightarrow> utf8_valid s"
proof (induction s)
  case Nil
  then show ?case by (simp add: utf8_valid.simps)
next
  case (Cons c s)
  then have "utf8_chunk (c # s) = (True, 1)"
    by (simp add: utf8_chunk_def byte_at_def)
  moreover from Cons have "utf8_valid s" by simp
  ultimately show ?case by (subst utf8_valid.simps) simp
qed

section \<open>Association lists and maps\<close>

text \<open>
  The entries of a map below are listed by an association list with distinct keys. These are
  the facts about such lists that the storage proofs share.
\<close>

lemma map_of_filter_key:
  "map_of (filter (\<lambda>(k, v). P k) xs) k = (if P k then map_of xs k else None)"
  by (induction xs) auto

lemma distinct_keys_filter:
  "distinct (map fst xs) \<Longrightarrow> distinct (map fst (filter P xs))"
  by (simp add: distinct_map_filter)

lemma set_filter_keys_map_of:
  "distinct (map fst xs) \<Longrightarrow>
     set (filter (\<lambda>(k, v). P k) xs) = {(k, v). map_of xs k = Some v \<and> P k}"
  by (auto simp: map_of_eq_Some_iff)

lemma map_of_mset_cong:
  assumes "mset xs = mset ys" and "distinct (map fst xs)"
  shows "map_of xs = map_of ys"
proof -
  have "set xs = set ys" using assms(1) by (metis set_mset_mset)
  moreover have "distinct (map fst ys)"
    using assms by (metis mset_map mset_eq_imp_distinct_iff)
  ultimately show ?thesis
    using assms(2) by (simp add: map_of_inject_set)
qed

end
