(* ===== verification/Resources.thy ===== *)
theory Resources
  imports Prelude "HOL-Library.Char_ord"
begin

text \<open>
  The resource types of \<open>src/resources/mod.rs\<close>: one record per struct, one datatype per
  enum, the constructors \<open>new\<close> and the methods. A \<open>DateTime<Utc>\<close> is its number of
  nanoseconds since the epoch; \<open>Utc::now()\<close> and \<open>Uuid::new_v4()\<close> are arguments.

  \<open>serde_json\<close> is not code of the repository. A JSON value is the type variable \<open>'j\<close>, and
  the four functions the derived \<open>Serialize\<close>/\<open>Deserialize\<close> instances give for a type are a
  record \<open>codec\<close>; \<open>serde\<close> holds the codecs of all the resource types. What the code relies
  on is the predicate \<open>serde_ok\<close>. The same goes for \<open>base64\<close> and \<open>Url::parse\<close>.
\<close>

type_synonym datetime = int

section \<open>Third-party parameters\<close>

record ('j, 't) codec =
  to_value :: "'t \<Rightarrow> string + 'j"
  from_value :: "'j \<Rightarrow> string + 't"
  to_vec :: "'t \<Rightarrow> string + bytes"
  from_slice :: "bytes \<Rightarrow> string + 't"

definition codec_ok :: "('t \<Rightarrow> bool) \<Rightarrow> ('j, 't) codec \<Rightarrow> bool" where
  "codec_ok ok c \<longleftrightarrow>
     (\<forall>x. ok x \<longrightarrow> (\<exists>j. to_value c x = Ok j \<and> from_value c j = Ok x) \<and>
                (\<exists>b. to_vec c x = Ok b \<and> from_slice c b = Ok x))"

record base64 =
  b64_encode :: "bytes \<Rightarrow> string"
  b64_decode :: "string \<Rightarrow> string + bytes"

definition base64_ok :: "base64 \<Rightarrow> bool" where
  "base64_ok b \<longleftrightarrow> (\<forall>x. b64_decode b (b64_encode b x) = Ok x)"

section \<open>Resources\<close>

record namespace =
  ns_name :: string
  ns_tags :: "string list"

definition namespace_new :: "string \<Rightarrow> namespace" where
  "namespace_new name = \<lparr>ns_name = name, ns_tags = []\<rparr>"

definition default_namespace :: namespace where
  "default_namespace = \<lparr>ns_name = ''default'', ns_tags = [''default'']\<rparr>"

record route =
  rt_name :: string
  rt_namespace :: string
  rt_paths :: "string list"
  rt_methods :: "string list"
  rt_strip_path :: bool
  rt_preserve_host :: bool
  rt_service :: "string option"
  rt_modules :: "string list"
  rt_tags :: "string list"

definition route_new :: "string \<Rightarrow> string \<Rightarrow> route" where
  "route_new name namespace =
     \<lparr>rt_name = name, rt_namespace = namespace, rt_paths = [], rt_methods = [''*''],
      rt_strip_path = False, rt_preserve_host = False, rt_service = None, rt_modules = [],
      rt_tags = []\<rparr>"

record service =
  svc_name :: string
  svc_namespace :: string
  svc_urls :: "string list"
  svc_retries :: "u32 option"
  svc_retry_timeout_ms :: "u64 option"
  svc_connect_timeout_ms :: "u64 option"
  svc_request_timeout_ms :: "u64 option"
  svc_tls_skip_verify :: bool
  svc_http2_only :: bool
  svc_hide_dgate_headers :: bool
  svc_disable_query_params :: bool
  svc_tags :: "string list"

definition service_new :: "string \<Rightarrow> string \<Rightarrow> service" where
  "service_new name namespace =
     \<lparr>svc_name = name, svc_namespace = namespace, svc_urls = [], svc_retries = None,
      svc_retry_timeout_ms = None, svc_connect_timeout_ms = None, svc_request_timeout_ms = None,
      svc_tls_skip_verify = False, svc_http2_only = False, svc_hide_dgate_headers = False,
      svc_disable_query_params = False, svc_tags = []\<rparr>"

text \<open>\<open>url_parse\<close> is \<open>Url::parse\<close>.\<close>

definition parsed_urls :: "(string \<Rightarrow> string + 'u) \<Rightarrow> service \<Rightarrow> 'u list" where
  "parsed_urls url_parse svc = List.map_filter (\<lambda>u. result_ok (url_parse u)) (svc_urls svc)"

datatype module_type = Javascript | Typescript

definition module_type_default :: module_type where
  "module_type_default = Javascript"

fun module_type_as_str :: "module_type \<Rightarrow> string" where
  "module_type_as_str Javascript = ''javascript''"
| "module_type_as_str Typescript = ''typescript''"

record module =
  md_name :: string
  md_namespace :: string
  md_payload :: string
  md_module_type :: module_type
  md_tags :: "string list"

definition module_new :: "string \<Rightarrow> string \<Rightarrow> module" where
  "module_new name namespace =
     \<lparr>md_name = name, md_namespace = namespace, md_payload = [], md_module_type = Javascript,
      md_tags = []\<rparr>"

definition decode_payload :: "base64 \<Rightarrow> module \<Rightarrow> string + string" where
  "decode_payload b m =
     result_bind (b64_decode b (md_payload m)) (\<lambda>bs. Ok (from_utf8_lossy bs))"

definition encode_payload :: "base64 \<Rightarrow> string \<Rightarrow> string" where
  "encode_payload b script = b64_encode b script"

record domain =
  dom_name :: string
  dom_namespace :: string
  dom_patterns :: "string list"
  dom_priority :: int \<comment> \<open>\<open>i32\<close>, only compared\<close>
  dom_cert :: string
  dom_key :: string
  dom_tags :: "string list"

definition domain_new :: "string \<Rightarrow> string \<Rightarrow> domain" where
  "domain_new name namespace =
     \<lparr>dom_name = name, dom_namespace = namespace, dom_patterns = [], dom_priority = 0,
      dom_cert = [], dom_key = [], dom_tags = []\<rparr>"

record secret =
  sec_name :: string
  sec_namespace :: string
  sec_data :: string
  sec_tags :: "string list"
  sec_created_at :: datetime
  sec_updated_at :: datetime

definition secret_new :: "datetime \<Rightarrow> string \<Rightarrow> string \<Rightarrow> secret" where
  "secret_new now name namespace =
     \<lparr>sec_name = name, sec_namespace = namespace, sec_data = [], sec_tags = [],
      sec_created_at = now, sec_updated_at = now\<rparr>"

datatype collection_visibility = Private | Public

definition collection_visibility_default :: collection_visibility where
  "collection_visibility_default = Private"

fun is_public :: "collection_visibility \<Rightarrow> bool" where
  "is_public Public = True"
| "is_public Private = False"

record collection =
  col_name :: string
  col_namespace :: string
  col_visibility :: collection_visibility
  col_tags :: "string list"

definition collection_new :: "string \<Rightarrow> string \<Rightarrow> collection" where
  "collection_new name namespace =
     \<lparr>col_name = name, col_namespace = namespace, col_visibility = Private, col_tags = []\<rparr>"

definition is_accessible_from :: "collection \<Rightarrow> string \<Rightarrow> bool" where
  "is_accessible_from c requesting_namespace =
     (case col_visibility c of
        Private \<Rightarrow> col_namespace c = requesting_namespace
      | Public \<Rightarrow> True)"

record 'j document =
  doc_id :: string
  doc_namespace :: string
  doc_collection :: string
  doc_data :: 'j
  doc_created_at :: datetime
  doc_updated_at :: datetime

text \<open>\<open>null\<close> is \<open>serde_json::Value::Null\<close>.\<close>

definition document_new :: "'j \<Rightarrow> datetime \<Rightarrow> string \<Rightarrow> string \<Rightarrow> string \<Rightarrow> 'j document" where
  "document_new null now doc namespace collection =
     \<lparr>doc_id = doc, doc_namespace = namespace, doc_collection = collection, doc_data = null,
      doc_created_at = now, doc_updated_at = now\<rparr>"

section \<open>Change logs\<close>

datatype change_command =
    AddNamespace | DeleteNamespace
  | AddRoute | DeleteRoute
  | AddService | DeleteService
  | AddModule | DeleteModule
  | AddDomain | DeleteDomain
  | AddSecret | DeleteSecret
  | AddCollection | DeleteCollection
  | AddDocument | DeleteDocument

datatype resource_type =
    RT_Namespace | RT_Route | RT_Service | RT_Module | RT_Domain | RT_Secret | RT_Collection
  | RT_Document

fun cmd_resource_type :: "change_command \<Rightarrow> resource_type" where
  "cmd_resource_type AddNamespace = RT_Namespace"
| "cmd_resource_type DeleteNamespace = RT_Namespace"
| "cmd_resource_type AddRoute = RT_Route"
| "cmd_resource_type DeleteRoute = RT_Route"
| "cmd_resource_type AddService = RT_Service"
| "cmd_resource_type DeleteService = RT_Service"
| "cmd_resource_type AddModule = RT_Module"
| "cmd_resource_type DeleteModule = RT_Module"
| "cmd_resource_type AddDomain = RT_Domain"
| "cmd_resource_type DeleteDomain = RT_Domain"
| "cmd_resource_type AddSecret = RT_Secret"
| "cmd_resource_type DeleteSecret = RT_Secret"
| "cmd_resource_type AddCollection = RT_Collection"
| "cmd_resource_type DeleteCollection = RT_Collection"
| "cmd_resource_type AddDocument = RT_Document"
| "cmd_resource_type DeleteDocument = RT_Document"

definition cmd_is_add :: "change_command \<Rightarrow> bool" where
  "cmd_is_add c =
     (c \<in> {AddNamespace, AddRoute, AddService, AddModule, AddDomain, AddSecret, AddCollection,
           AddDocument})"

record 'j changelog =
  cl_id :: string
  cl_cmd :: change_command
  cl_namespace :: string
  cl_name :: string
  cl_item :: 'j
  cl_timestamp :: datetime

record 'j serde =
  sd_null :: 'j
  sd_namespace :: "('j, namespace) codec"
  sd_route :: "('j, route) codec"
  sd_service :: "('j, service) codec"
  sd_module :: "('j, module) codec"
  sd_domain :: "('j, domain) codec"
  sd_secret :: "('j, secret) codec"
  sd_collection :: "('j, collection) codec"
  sd_document :: "('j, 'j document) codec"
  sd_changelog :: "('j, 'j changelog) codec"

text \<open>
  What the derived instances promise: a value that was serialized is read back. A secret with
  empty data is left out: \<open>Secret.data\<close> has \<open>skip_serializing_if = "String::is_empty"\<close> and
  no \<open>default\<close>, so such a secret is written without the field and can not be read back.
\<close>

definition serde_ok :: "'j serde \<Rightarrow> bool" where
  "serde_ok S \<longleftrightarrow>
     codec_ok (\<lambda>_. True) (sd_namespace S) \<and> codec_ok (\<lambda>_. True) (sd_route S) \<and>
     codec_ok (\<lambda>_. True) (sd_service S) \<and> codec_ok (\<lambda>_. True) (sd_module S) \<and>
     codec_ok (\<lambda>_. True) (sd_domain S) \<and> codec_ok (\<lambda>s. sec_data s \<noteq> []) (sd_secret S) \<and>
     codec_ok (\<lambda>_. True) (sd_collection S) \<and> codec_ok (\<lambda>_. True) (sd_document S) \<and>
     codec_ok (\<lambda>_. True) (sd_changelog S)"

text \<open>\<open>ChangeLog::new\<close>; \<open>uuid\<close> and \<open>now\<close> are what \<open>Uuid::new_v4\<close> and \<open>Utc::now\<close> return.\<close>

definition changelog_new ::
  "'j \<Rightarrow> ('j, 't) codec \<Rightarrow> string \<Rightarrow> datetime \<Rightarrow> change_command \<Rightarrow> string \<Rightarrow> string \<Rightarrow> 't \<Rightarrow> 'j changelog" where
  "changelog_new null C uuid now cmd namespace name item =
     \<lparr>cl_id = uuid, cl_cmd = cmd, cl_namespace = namespace, cl_name = name,
      cl_item = (case to_value C item of Ok v \<Rightarrow> v | Err _ \<Rightarrow> null),
      cl_timestamp = now\<rparr>"

record resolved_route =
  rr_route :: route
  rr_namespace :: namespace
  rr_service :: "service option"
  rr_modules :: "module list"

record resolved_domain =
  rd_domain :: domain
  rd_namespace :: namespace

section \<open>Facts about the resources\<close>

instantiation change_command :: enum
begin

definition
  "enum_class.enum =
     [AddNamespace, DeleteNamespace, AddRoute, DeleteRoute, AddService, DeleteService, AddModule,
      DeleteModule, AddDomain, DeleteDomain, AddSecret, DeleteSecret, AddCollection,
      DeleteCollection, AddDocument, DeleteDocument]"

definition
  "enum_class.enum_all P \<longleftrightarrow> list_all P (enum_class.enum :: change_command list)"

definition
  "enum_class.enum_ex P \<longleftrightarrow> list_ex P (enum_class.enum :: change_command list)"

instance
proof
  show u: "UNIV = set (enum_class.enum :: change_command list)"
  proof (rule UNIV_eq_I)
    fix c :: change_command
    show "c \<in> set enum_class.enum" by (cases c) (simp_all add: enum_change_command_def)
  qed
  show "distinct (enum_class.enum :: change_command list)"
    by (simp add: enum_change_command_def)
  show "enum_class.enum_all P \<longleftrightarrow> Ball UNIV P" for P :: "change_command \<Rightarrow> bool"
    by (simp add: enum_all_change_command_def list_all_iff u)
  show "enum_class.enum_ex P \<longleftrightarrow> Bex UNIV P" for P :: "change_command \<Rightarrow> bool"
    by (simp add: enum_ex_change_command_def list_ex_iff u)
qed

end

lemma codec_ok_value:
  assumes "codec_ok ok c" and "ok x"
  obtains j where "to_value c x = Ok j" and "from_value c j = Ok x"
  using assms unfolding codec_ok_def by blast

lemma codec_ok_vec:
  assumes "codec_ok ok c" and "ok x"
  obtains b where "to_vec c x = Ok b" and "from_slice c b = Ok x"
  using assms unfolding codec_ok_def by blast

lemma serde_okD:
  assumes "serde_ok S"
  shows serde_ok_namespace: "codec_ok (\<lambda>_. True) (sd_namespace S)"
    and serde_ok_route: "codec_ok (\<lambda>_. True) (sd_route S)"
    and serde_ok_service: "codec_ok (\<lambda>_. True) (sd_service S)"
    and serde_ok_module: "codec_ok (\<lambda>_. True) (sd_module S)"
    and serde_ok_domain: "codec_ok (\<lambda>_. True) (sd_domain S)"
    and serde_ok_secret: "codec_ok (\<lambda>s. sec_data s \<noteq> []) (sd_secret S)"
    and serde_ok_collection: "codec_ok (\<lambda>_. True) (sd_collection S)"
    and serde_ok_document: "codec_ok (\<lambda>_. True) (sd_document S)"
    and serde_ok_changelog: "codec_ok (\<lambda>_. True) (sd_changelog S)"
  using assms by (simp_all add: serde_ok_def)

lemma changelog_new_item:
  assumes "codec_ok ok c" and "ok x"
  shows "from_value c (cl_item (changelog_new null c uuid now cmd ns name x)) = Ok x"
  by (rule codec_ok_value [OF assms]) (simp add: changelog_new_def)

lemma changelog_new_sel [simp]:
  "cl_id (changelog_new null c uuid now cmd ns name x) = uuid"
  "cl_cmd (changelog_new null c uuid now cmd ns name x) = cmd"
  "cl_namespace (changelog_new null c uuid now cmd ns name x) = ns"
  "cl_name (changelog_new null c uuid now cmd ns name x) = name"
  "cl_timestamp (changelog_new null c uuid now cmd ns name x) = now"
  by (simp_all add: changelog_new_def)

lemma is_accessible_from_iff:
  "is_accessible_from c ns \<longleftrightarrow> is_public (col_visibility c) \<or> col_namespace c = ns"
  by (cases "col_visibility c") (simp_all add: is_accessible_from_def)

lemma decode_encode_payload:
  assumes "base64_ok b" and "utf8_valid script"
  shows "decode_payload b (m\<lparr>md_payload := encode_payload b script\<rparr>) = Ok script"
  using assms(1) from_utf8_lossy_valid [OF assms(2)]
  by (simp add: decode_payload_def encode_payload_def base64_ok_def)

end
