(* ===== verification/Storage.thy ===== *)
theory Storage
  imports Resources
begin

text \<open>
  The storage layer of \<open>src/storage/mod.rs\<close>: the error type, the trait \<open>Storage\<close> as a
  record of operations (the vtable of \<open>dyn Storage\<close>) on a state \<open>'s\<close>, and its two
  implementations. The contract both keep is the locale \<open>kv_storage\<close>: an abstract content
  \<open>table \<Rightarrow> key \<Rightarrow> bytes option\<close> and what each operation returns and changes.
  \<open>MemoryStorage\<close> interprets it; \<open>FileStorage\<close> satisfies it for any database that
  behaves as redb documents (\<open>redb_ok\<close>).
\<close>

section \<open>Errors and the trait\<close>

datatype storage_error =
    SE_NotFound string
  | SE_Internal string
  | SE_Serialization string
  | SE_Database string
  | SE_Io string

fun storage_error_to_string :: "storage_error \<Rightarrow> string" where
  "storage_error_to_string (SE_NotFound s) = ''Key not found: '' @ s"
| "storage_error_to_string (SE_Internal s) = ''Storage error: '' @ s"
| "storage_error_to_string (SE_Serialization s) = ''Serialization error: '' @ s"
| "storage_error_to_string (SE_Database s) = ''Database error: '' @ s"
| "storage_error_to_string (SE_Io s) = ''IO error: '' @ s"

record 's storage =
  st_get :: "'s \<Rightarrow> string \<Rightarrow> string \<Rightarrow> storage_error + bytes option"
  st_set :: "'s \<Rightarrow> string \<Rightarrow> string \<Rightarrow> bytes \<Rightarrow> (storage_error + unit) \<times> 's"
  st_delete :: "'s \<Rightarrow> string \<Rightarrow> string \<Rightarrow> (storage_error + unit) \<times> 's"
  st_list :: "'s \<Rightarrow> string \<Rightarrow> string \<Rightarrow> storage_error + (string \<times> bytes) list"
  st_clear :: "'s \<Rightarrow> string \<Rightarrow> (storage_error + unit) \<times> 's"

section \<open>MemoryStorage\<close>

text \<open>
  A \<open>DashMap\<close> is its entries in iteration order. That order is not specified, and a new
  entry may move the others: \<open>place\<close> gives, for the entries with the new one, the position
  each is put at. Any order can be got this way, and \<open>reorder\<close> keeps the entries whatever
  \<open>place\<close> returns, so every theorem over a free \<open>place\<close> holds for every order.
\<close>

type_synonym dashmap = "(string \<times> bytes) list"
type_synonym placement = "dashmap \<Rightarrow> nat list"

definition insert_at :: "nat \<Rightarrow> 'a \<Rightarrow> 'a list \<Rightarrow> 'a list" where
  "insert_at n x xs = take n xs @ x # drop n xs"

fun reorder :: "nat list \<Rightarrow> 'a list \<Rightarrow> 'a list" where
  "reorder ps [] = []"
| "reorder [] (x # xs) = x # xs"
| "reorder (p # ps) (x # xs) = insert_at p x (reorder ps xs)"

definition dashmap_insert :: "placement \<Rightarrow> string \<Rightarrow> bytes \<Rightarrow> dashmap \<Rightarrow> dashmap" where
  "dashmap_insert place k v m =
     (if k \<in> fst ` set m then AList.update k v m
      else reorder (place ((k, v) # m)) ((k, v) # m))"

definition dashmap_remove :: "string \<Rightarrow> dashmap \<Rightarrow> dashmap" where
  "dashmap_remove k m = AList.delete k m"

record mem_storage =
  mem_tables :: "string \<rightharpoonup> dashmap"

definition mem_new :: mem_storage where
  "mem_new = \<lparr>mem_tables = Map.empty\<rparr>"

definition get_or_create_table :: "mem_storage \<Rightarrow> string \<Rightarrow> dashmap" where
  "get_or_create_table s t = (case mem_tables s t of Some d \<Rightarrow> d | None \<Rightarrow> [])"

definition get_table_for_read :: "mem_storage \<Rightarrow> string \<Rightarrow> dashmap option" where
  "get_table_for_read s t = mem_tables s t"

definition mem_get :: "mem_storage \<Rightarrow> string \<Rightarrow> string \<Rightarrow> storage_error + bytes option" where
  "mem_get s t k =
     (case get_table_for_read s t of Some d \<Rightarrow> Ok (map_of d k) | None \<Rightarrow> Ok None)"

definition mem_set ::
  "placement \<Rightarrow> mem_storage \<Rightarrow> string \<Rightarrow> string \<Rightarrow> bytes \<Rightarrow> (storage_error + unit) \<times> mem_storage" where
  "mem_set place s t k v =
     (Ok (), s\<lparr>mem_tables :=
        (mem_tables s)(t \<mapsto> dashmap_insert place k v (get_or_create_table s t))\<rparr>)"

definition mem_delete :: "mem_storage \<Rightarrow> string \<Rightarrow> string \<Rightarrow> (storage_error + unit) \<times> mem_storage" where
  "mem_delete s t k =
     (case get_table_for_read s t of
        Some d \<Rightarrow> (Ok (), s\<lparr>mem_tables := (mem_tables s)(t \<mapsto> dashmap_remove k d)\<rparr>)
      | None \<Rightarrow> (Ok (), s))"

definition mem_list :: "mem_storage \<Rightarrow> string \<Rightarrow> string \<Rightarrow> storage_error + (string \<times> bytes) list" where
  "mem_list s t p =
     (case get_table_for_read s t of
        Some d \<Rightarrow> Ok (filter (\<lambda>(k, v). starts_with k p) d)
      | None \<Rightarrow> Ok [])"

definition mem_clear :: "mem_storage \<Rightarrow> string \<Rightarrow> (storage_error + unit) \<times> mem_storage" where
  "mem_clear s t =
     (case get_table_for_read s t of
        Some d \<Rightarrow> (Ok (), s\<lparr>mem_tables := (mem_tables s)(t \<mapsto> [])\<rparr>)
      | None \<Rightarrow> (Ok (), s))"

definition mem_ops :: "placement \<Rightarrow> mem_storage storage" where
  "mem_ops place =
     \<lparr>st_get = mem_get, st_set = mem_set place, st_delete = mem_delete, st_list = mem_list,
      st_clear = mem_clear\<rparr>"

section \<open>The contract\<close>

type_synonym kv = "string \<Rightarrow> string \<Rightarrow> bytes option"

definition kv_put :: "string \<Rightarrow> string \<Rightarrow> bytes \<Rightarrow> kv \<Rightarrow> kv" where
  "kv_put t k v m = m(t := (m t)(k \<mapsto> v))"

definition kv_del :: "string \<Rightarrow> string \<Rightarrow> kv \<Rightarrow> kv" where
  "kv_del t k m = m(t := (m t)(k := None))"

definition kv_entries :: "kv \<Rightarrow> string \<Rightarrow> string \<Rightarrow> (string \<times> bytes) set" where
  "kv_entries m t p = {(k, v). m t k = Some v \<and> starts_with k p}"

lemma kv_put_apply: "kv_put t k v m t' k' = (if t' = t \<and> k' = k then Some v else m t' k')"
  by (simp add: kv_put_def)

lemma kv_del_apply: "kv_del t k m t' k' = (if t' = t \<and> k' = k then None else m t' k')"
  by (simp add: kv_del_def)

text \<open>
  An operation that fails leaves the content alone; one that returns \<open>Ok\<close> has exactly the
  effect on the content that its name says. \<open>tables\<close> are the tables the contract covers.
\<close>

locale kv_storage =
  fixes ops :: "'s storage"
    and content :: "'s \<Rightarrow> kv"
    and ok :: "'s \<Rightarrow> bool"
    and tables :: "string set"
  assumes get_Ok: "ok s \<Longrightarrow> t \<in> tables \<Longrightarrow> st_get ops s t k = Ok r \<Longrightarrow> r = content s t k"
    and set_ok: "ok s \<Longrightarrow> t \<in> tables \<Longrightarrow> ok (snd (st_set ops s t k v))"
    and set_content: "ok s \<Longrightarrow> t \<in> tables \<Longrightarrow>
      content (snd (st_set ops s t k v)) =
        (if is_ok (fst (st_set ops s t k v)) then kv_put t k v (content s) else content s)"
    and delete_ok: "ok s \<Longrightarrow> t \<in> tables \<Longrightarrow> ok (snd (st_delete ops s t k))"
    and delete_content: "ok s \<Longrightarrow> t \<in> tables \<Longrightarrow>
      content (snd (st_delete ops s t k)) =
        (if is_ok (fst (st_delete ops s t k)) then kv_del t k (content s) else content s)"
    and list_Ok: "ok s \<Longrightarrow> t \<in> tables \<Longrightarrow> st_list ops s t p = Ok xs \<Longrightarrow>
      distinct (map fst xs) \<and> set xs = kv_entries (content s) t p"
begin

lemmas laws = set_ok set_content delete_ok delete_content

text \<open>What a client sees after a write: the value at the key, and every other key as before.\<close>

lemma get_after_set:
  assumes "ok s" and "t \<in> tables" and "t' \<in> tables"
    and "st_set ops s t k v = (Ok (), s')" and "st_get ops s' t' k' = Ok r"
  shows "r = (if t' = t \<and> k' = k then Some v else content s t' k')"
proof -
  from assms have "ok s'" by (metis set_ok snd_conv)
  with assms(3,5) have "r = content s' t' k'" by (simp add: get_Ok)
  moreover have "content s' = kv_put t k v (content s)"
    using set_content [OF assms(1,2), of k v] assms(4) by simp
  ultimately show ?thesis by (simp add: kv_put_apply)
qed

lemma get_after_delete:
  assumes "ok s" and "t \<in> tables" and "t' \<in> tables"
    and "st_delete ops s t k = (Ok (), s')" and "st_get ops s' t' k' = Ok r"
  shows "r = (if t' = t \<and> k' = k then None else content s t' k')"
proof -
  from assms have "ok s'" by (metis delete_ok snd_conv)
  with assms(3,5) have "r = content s' t' k'" by (simp add: get_Ok)
  moreover have "content s' = kv_del t k (content s)"
    using delete_content [OF assms(1,2), of k] assms(4) by simp
  ultimately show ?thesis by (simp add: kv_del_apply)
qed

end

text \<open>A storage that never fails, as the in-memory one.\<close>

locale total_storage = kv_storage ops content ok tables
  for ops :: "'s storage" and content ok tables +
  assumes get_total: "ok s \<Longrightarrow> t \<in> tables \<Longrightarrow> is_ok (st_get ops s t k)"
    and set_total: "ok s \<Longrightarrow> t \<in> tables \<Longrightarrow> fst (st_set ops s t k v) = Ok ()"
    and delete_total: "ok s \<Longrightarrow> t \<in> tables \<Longrightarrow> fst (st_delete ops s t k) = Ok ()"
    and list_total: "ok s \<Longrightarrow> t \<in> tables \<Longrightarrow> is_ok (st_list ops s t p)"
    and clear_total: "ok s \<Longrightarrow> t \<in> tables \<Longrightarrow> fst (st_clear ops s t) = Ok ()"
    and clear_ok: "ok s \<Longrightarrow> t \<in> tables \<Longrightarrow> ok (snd (st_clear ops s t))"
    and clear_content: "ok s \<Longrightarrow> t \<in> tables \<Longrightarrow>
      content (snd (st_clear ops s t)) = (content s)(t := Map.empty)"
begin

lemma get_eq: "ok s \<Longrightarrow> t \<in> tables \<Longrightarrow> st_get ops s t k = Ok (content s t k)"
  using get_total [of s t k] get_Ok [of s t k] by (cases "st_get ops s t k") auto

lemma set_content_eq: "ok s \<Longrightarrow> t \<in> tables \<Longrightarrow> content (snd (st_set ops s t k v)) = kv_put t k v (content s)"
  by (simp add: set_content set_total)

lemma delete_content_eq: "ok s \<Longrightarrow> t \<in> tables \<Longrightarrow> content (snd (st_delete ops s t k)) = kv_del t k (content s)"
  by (simp add: delete_content delete_total)

lemma list_eq:
  assumes "ok s" and "t \<in> tables"
  obtains xs where "st_list ops s t p = Ok xs" and "distinct (map fst xs)"
    and "set xs = kv_entries (content s) t p"
  using list_total [OF assms, of p] list_Ok [OF assms, of p] by (cases "st_list ops s t p") auto

end

section \<open>MemoryStorage keeps the contract\<close>

lemma mset_insert_at [simp]: "mset (insert_at n x xs) = add_mset x (mset xs)"
  unfolding insert_at_def by (metis append_take_drop_id mset.simps(2) mset_append union_mset_add_mset_right)

lemma mset_reorder [simp]: "mset (reorder ps xs) = mset xs"
  by (induction ps xs rule: reorder.induct) auto

lemma distinct_keys_reorder: "distinct (map fst (reorder ps xs)) = distinct (map fst xs)"
  by (metis mset_eq_imp_distinct_iff mset_map mset_reorder)

lemma map_of_reorder: "distinct (map fst xs) \<Longrightarrow> map_of (reorder ps xs) = map_of xs"
  by (metis distinct_keys_reorder map_of_mset_cong mset_reorder)

lemma dashmap_insert_keys: "distinct (map fst m) \<Longrightarrow> distinct (map fst (dashmap_insert place k v m))"
  by (auto simp: dashmap_insert_def distinct_keys_reorder distinct_update)

lemma dashmap_insert_map_of: "distinct (map fst m) \<Longrightarrow> map_of (dashmap_insert place k v m) = (map_of m)(k \<mapsto> v)"
  by (auto simp: dashmap_insert_def update_conv' map_of_reorder)

lemma dashmap_remove_keys: "distinct (map fst m) \<Longrightarrow> distinct (map fst (dashmap_remove k m))"
  by (simp add: dashmap_remove_def distinct_delete)

lemma dashmap_remove_map_of: "map_of (dashmap_remove k m) = (map_of m)(k := None)"
  by (simp add: dashmap_remove_def delete_conv')

definition mem_content :: "mem_storage \<Rightarrow> kv" where
  "mem_content s t = (case mem_tables s t of Some d \<Rightarrow> map_of d | None \<Rightarrow> Map.empty)"

definition mem_ok :: "mem_storage \<Rightarrow> bool" where
  "mem_ok s \<longleftrightarrow> (\<forall>t d. mem_tables s t = Some d \<longrightarrow> distinct (map fst d))"

lemma mem_ok_new: "mem_ok mem_new"
  by (simp add: mem_ok_def mem_new_def)

lemma mem_content_new: "mem_content mem_new t = Map.empty"
  by (simp add: mem_content_def mem_new_def)

lemma mem_ops_sel [simp]:
  "st_get (mem_ops place) = mem_get" "st_set (mem_ops place) = mem_set place"
  "st_delete (mem_ops place) = mem_delete" "st_list (mem_ops place) = mem_list"
  "st_clear (mem_ops place) = mem_clear"
  by (simp_all add: mem_ops_def)

lemmas mem_defs = mem_get_def mem_set_def mem_delete_def mem_list_def mem_clear_def
  get_table_for_read_def get_or_create_table_def mem_content_def mem_ok_def

lemma mem_set_content:
  "mem_ok s \<Longrightarrow> mem_content (snd (mem_set place s t k v)) = kv_put t k v (mem_content s)"
  by (auto simp: mem_defs kv_put_def fun_eq_iff dashmap_insert_map_of split: option.splits)

lemma mem_delete_content:
  "mem_content (snd (mem_delete s t k)) = kv_del t k (mem_content s)"
  by (auto simp: mem_defs kv_del_def fun_eq_iff dashmap_remove_map_of split: option.splits)

lemma mem_list_entries:
  "mem_ok s \<Longrightarrow> mem_list s t p = Ok xs \<Longrightarrow>
     distinct (map fst xs) \<and> set xs = kv_entries (mem_content s) t p"
  by (auto simp: mem_defs kv_entries_def distinct_keys_filter map_of_eq_Some_iff
      split: option.splits if_splits)

interpretation mem: total_storage "mem_ops place" mem_content mem_ok UNIV for place
proof
  fix s :: mem_storage and t k v p and xs :: "(string \<times> bytes) list" and r
  assume ok: "mem_ok s"
  show "st_get (mem_ops place) s t k = Ok r \<Longrightarrow> r = mem_content s t k"
    by (auto simp: mem_defs split: option.splits)
  show "mem_ok (snd (st_set (mem_ops place) s t k v))"
    using ok by (auto simp: mem_defs dashmap_insert_keys split: option.splits)
  show "mem_content (snd (st_set (mem_ops place) s t k v)) =
      (if is_ok (fst (st_set (mem_ops place) s t k v)) then kv_put t k v (mem_content s)
       else mem_content s)"
    using ok mem_set_content [OF ok, of place t k v] by (simp add: mem_set_def)
  show "mem_ok (snd (st_delete (mem_ops place) s t k))"
    using ok by (auto simp: mem_defs dashmap_remove_keys split: option.splits)
  show "mem_content (snd (st_delete (mem_ops place) s t k)) =
      (if is_ok (fst (st_delete (mem_ops place) s t k)) then kv_del t k (mem_content s)
       else mem_content s)"
    using mem_delete_content [of s t k] by (simp add: mem_delete_def split: option.splits)
  show "st_list (mem_ops place) s t p = Ok xs \<Longrightarrow>
      distinct (map fst xs) \<and> set xs = kv_entries (mem_content s) t p"
    using mem_list_entries [OF ok] by simp
  show "is_ok (st_get (mem_ops place) s t k)" "fst (st_set (mem_ops place) s t k v) = Ok ()"
    "fst (st_delete (mem_ops place) s t k) = Ok ()" "is_ok (st_list (mem_ops place) s t p)"
    "fst (st_clear (mem_ops place) s t) = Ok ()"
    by (simp_all add: mem_defs split: option.splits)
  show "mem_ok (snd (st_clear (mem_ops place) s t))"
    using ok by (auto simp: mem_defs split: option.splits)
  show "mem_content (snd (st_clear (mem_ops place) s t)) = (mem_content s)(t := Map.empty)"
    by (auto simp: mem_defs fun_eq_iff split: option.splits)
qed

text \<open>
  C5. The in-memory storage is a map from table and key to bytes: after \<open>set\<close> a read of that
  table and key returns the value and every other read is as before; after \<open>delete\<close> the key
  is gone and every other read is as before; \<open>list\<close> returns each entry of the table whose key
  starts with the prefix exactly once and nothing else, whatever order the hash map iterates in.
\<close>

theorem memory_storage_contract:
  assumes "mem_ok s"
  shows "mem_get (snd (mem_set place s t k v)) t' k' =
           (if t' = t \<and> k' = k then Ok (Some v) else mem_get s t' k') \<and>
         mem_get (snd (mem_delete s t k)) t' k' =
           (if t' = t \<and> k' = k then Ok None else mem_get s t' k') \<and>
         (\<exists>xs. mem_list s t p = Ok xs \<and> distinct (map fst xs) \<and>
           (\<forall>k v. (k, v) \<in> set xs \<longleftrightarrow> mem_get s t k = Ok (Some v) \<and> starts_with k p))"
proof (intro conjI)
  note get = mem.get_eq [simplified]
  have s1: "mem_ok (snd (mem_set place s t k v))" using mem.set_ok [OF assms] by simp
  have s2: "mem_ok (snd (mem_delete s t k))" using mem.delete_ok [OF assms] by simp
  show "mem_get (snd (mem_set place s t k v)) t' k' =
      (if t' = t \<and> k' = k then Ok (Some v) else mem_get s t' k')"
    using mem.set_content_eq [OF assms, of t place k v] by (simp add: get s1 assms kv_put_apply)
  show "mem_get (snd (mem_delete s t k)) t' k' =
      (if t' = t \<and> k' = k then Ok None else mem_get s t' k')"
    by (simp add: get s2 assms mem_delete_content kv_del_apply)
  obtain xs where xs: "mem_list s t p = Ok xs" "distinct (map fst xs)"
    "set xs = kv_entries (mem_content s) t p"
    using mem.list_eq [OF assms, of t _ p] by auto
  then show "\<exists>xs. mem_list s t p = Ok xs \<and> distinct (map fst xs) \<and>
      (\<forall>k v. (k, v) \<in> set xs \<longleftrightarrow> mem_get s t k = Ok (Some v) \<and> starts_with k p)"
    by (auto simp: kv_entries_def get assms)
qed

theorem memory_storage_contract_witness:
  "mem_get (snd (mem_set (\<lambda>_. []) mem_new ''t'' ''a'' ''1'')) ''t'' ''a'' = Ok (Some ''1'')"
  using memory_storage_contract [OF mem_ok_new, of "\<lambda>_. []" "''t''" "''a''" "''1''" "''t''" "''a''" "[]"]
  by simp

end
