(* ===== verification/File_Storage.thy ===== *)
theory File_Storage
  imports Storage
begin

text \<open>
  \<open>FileStorage\<close> of \<open>src/storage/mod.rs\<close>, over redb as a parameter, and the proof that it
  keeps the contract of \<open>Storage\<close> on the nine tables it knows. Any other table name is
  silently the namespaces table.
\<close>

section \<open>FileStorage\<close>

text \<open>
  redb is not code of the repository: the calls \<open>FileStorage\<close> makes are a record. A write
  transaction and an open table are values; a transaction that is dropped before
  \<open>commit\<close> leaves the database as it was.
\<close>

datatype table_error = TableDoesNotExist string | OtherTableError string

fun table_error_to_string :: "table_error \<Rightarrow> string" where
  "table_error_to_string (TableDoesNotExist s) = s"
| "table_error_to_string (OtherTableError s) = s"

record ('db, 'rtx, 'rtab, 'wtx, 'wtab) redb =
  rdb_begin_read :: "'db \<Rightarrow> string + 'rtx"
  rdb_open_read :: "'rtx \<Rightarrow> string \<Rightarrow> table_error + 'rtab"
  rdb_get :: "'rtab \<Rightarrow> string \<Rightarrow> string + bytes option"
  rdb_iter :: "'rtab \<Rightarrow> string + (string + (string \<times> bytes)) list"
  rdb_begin_write :: "'db \<Rightarrow> string + 'wtx"
  rdb_open_write :: "'wtx \<Rightarrow> string \<Rightarrow> table_error + 'wtab"
  rdb_insert :: "'wtab \<Rightarrow> string \<Rightarrow> bytes \<Rightarrow> string + 'wtab"
  rdb_remove :: "'wtab \<Rightarrow> string \<Rightarrow> string + 'wtab"
  rdb_close :: "'wtab \<Rightarrow> 'wtx"
  rdb_delete_table :: "'wtx \<Rightarrow> string \<Rightarrow> (table_error + bool) \<times> 'wtx"
  rdb_commit :: "'wtx \<Rightarrow> string + 'db"

definition TABLE_NAMESPACES :: string where "TABLE_NAMESPACES = ''namespaces''"
definition TABLE_ROUTES :: string where "TABLE_ROUTES = ''routes''"
definition TABLE_SERVICES :: string where "TABLE_SERVICES = ''services''"
definition TABLE_MODULES :: string where "TABLE_MODULES = ''modules''"
definition TABLE_DOMAINS :: string where "TABLE_DOMAINS = ''domains''"
definition TABLE_SECRETS :: string where "TABLE_SECRETS = ''secrets''"
definition TABLE_COLLECTIONS :: string where "TABLE_COLLECTIONS = ''collections''"
definition TABLE_DOCUMENTS :: string where "TABLE_DOCUMENTS = ''documents''"
definition TABLE_CHANGELOGS :: string where "TABLE_CHANGELOGS = ''changelogs''"

definition get_table_def :: "string \<Rightarrow> string" where
  "get_table_def t =
     (if t = ''namespaces'' then TABLE_NAMESPACES
      else if t = ''routes'' then TABLE_ROUTES
      else if t = ''services'' then TABLE_SERVICES
      else if t = ''modules'' then TABLE_MODULES
      else if t = ''domains'' then TABLE_DOMAINS
      else if t = ''secrets'' then TABLE_SECRETS
      else if t = ''collections'' then TABLE_COLLECTIONS
      else if t = ''documents'' then TABLE_DOCUMENTS
      else if t = ''changelogs'' then TABLE_CHANGELOGS
      else TABLE_NAMESPACES)"

lemmas table_defs = TABLE_NAMESPACES_def TABLE_ROUTES_def TABLE_SERVICES_def TABLE_MODULES_def
  TABLE_DOMAINS_def TABLE_SECRETS_def TABLE_COLLECTIONS_def TABLE_DOCUMENTS_def
  TABLE_CHANGELOGS_def

definition file_get ::
  "('db, 'rtx, 'rtab, 'wtx, 'wtab) redb \<Rightarrow> 'db \<Rightarrow> string \<Rightarrow> string \<Rightarrow> storage_error + bytes option" where
  "file_get R db t k =
     (case rdb_begin_read R db of
        Err e \<Rightarrow> Err (SE_Database e)
      | Ok read_txn \<Rightarrow>
          (case rdb_open_read R read_txn (get_table_def t) of
             Err (TableDoesNotExist _) \<Rightarrow> Ok None
           | Err e \<Rightarrow> Err (SE_Database (table_error_to_string e))
           | Ok table \<Rightarrow>
               (case rdb_get R table k of
                  Ok (Some v) \<Rightarrow> Ok (Some v)
                | Ok None \<Rightarrow> Ok None
                | Err e \<Rightarrow> Err (SE_Database e))))"

definition file_set ::
  "('db, 'rtx, 'rtab, 'wtx, 'wtab) redb \<Rightarrow> 'db \<Rightarrow> string \<Rightarrow> string \<Rightarrow> bytes \<Rightarrow> (storage_error + unit) \<times> 'db" where
  "file_set R db t k v =
     (case rdb_begin_write R db of
        Err e \<Rightarrow> (Err (SE_Database e), db)
      | Ok write_txn \<Rightarrow>
          (case rdb_open_write R write_txn (get_table_def t) of
             Err e \<Rightarrow> (Err (SE_Database (table_error_to_string e)), db)
           | Ok table \<Rightarrow>
               (case rdb_insert R table k v of
                  Err e \<Rightarrow> (Err (SE_Database e), db)
                | Ok table' \<Rightarrow>
                    (case rdb_commit R (rdb_close R table') of
                       Err e \<Rightarrow> (Err (SE_Database e), db)
                     | Ok db' \<Rightarrow> (Ok (), db')))))"

definition file_delete ::
  "('db, 'rtx, 'rtab, 'wtx, 'wtab) redb \<Rightarrow> 'db \<Rightarrow> string \<Rightarrow> string \<Rightarrow> (storage_error + unit) \<times> 'db" where
  "file_delete R db t k =
     (case rdb_begin_write R db of
        Err e \<Rightarrow> (Err (SE_Database e), db)
      | Ok write_txn \<Rightarrow>
          (case rdb_open_write R write_txn (get_table_def t) of
             Err (TableDoesNotExist _) \<Rightarrow> (Ok (), db)
           | Err e \<Rightarrow> (Err (SE_Database (table_error_to_string e)), db)
           | Ok table \<Rightarrow>
               (case rdb_remove R table k of
                  Err e \<Rightarrow> (Err (SE_Database e), db)
                | Ok table' \<Rightarrow>
                    (case rdb_commit R (rdb_close R table') of
                       Err e \<Rightarrow> (Err (SE_Database e), db)
                     | Ok db' \<Rightarrow> (Ok (), db')))))"

definition file_list ::
  "('db, 'rtx, 'rtab, 'wtx, 'wtab) redb \<Rightarrow> 'db \<Rightarrow> string \<Rightarrow> string \<Rightarrow> storage_error + (string \<times> bytes) list" where
  "file_list R db t pre =
     (case rdb_begin_read R db of
        Err e \<Rightarrow> Err (SE_Database e)
      | Ok read_txn \<Rightarrow>
          (case rdb_open_read R read_txn (get_table_def t) of
             Err (TableDoesNotExist _) \<Rightarrow> Ok []
           | Err e \<Rightarrow> Err (SE_Database (table_error_to_string e))
           | Ok table \<Rightarrow>
               (case rdb_iter R table of
                  Err e \<Rightarrow> Err (SE_Database e)
                | Ok entries \<Rightarrow>
                    result_bind (map_err SE_Database (collect_results entries))
                      (\<lambda>xs. Ok (filter (\<lambda>(k, v). starts_with k pre) xs)))))"

definition file_clear ::
  "('db, 'rtx, 'rtab, 'wtx, 'wtab) redb \<Rightarrow> 'db \<Rightarrow> string \<Rightarrow> (storage_error + unit) \<times> 'db" where
  "file_clear R db t =
     (case rdb_begin_write R db of
        Err e \<Rightarrow> (Err (SE_Database e), db)
      | Ok write_txn \<Rightarrow>
          (case rdb_commit R (snd (rdb_delete_table R write_txn (get_table_def t))) of
             Err e \<Rightarrow> (Err (SE_Database e), db)
           | Ok db' \<Rightarrow> (Ok (), db')))"

definition file_ops :: "('db, 'rtx, 'rtab, 'wtx, 'wtab) redb \<Rightarrow> 'db storage" where
  "file_ops R =
     \<lparr>st_get = file_get R, st_set = file_set R, st_delete = file_delete R, st_list = file_list R,
      st_clear = file_clear R\<rparr>"

section \<open>FileStorage keeps the contract\<close>

text \<open>
  What redb documents, with the content that a database, a transaction and a table hold. An
  open table of a write transaction knows its name.
\<close>

record ('db, 'rtx, 'rtab, 'wtx, 'wtab) redb_view =
  v_db :: "'db \<Rightarrow> kv"
  v_rtx :: "'rtx \<Rightarrow> kv"
  v_rtab :: "'rtab \<Rightarrow> string \<rightharpoonup> bytes"
  v_wtx :: "'wtx \<Rightarrow> kv"
  v_wtab :: "'wtab \<Rightarrow> kv"
  v_name :: "'wtab \<Rightarrow> string"

definition redb_reads_ok ::
  "('db, 'rtx, 'rtab, 'wtx, 'wtab) redb \<Rightarrow> ('db, 'rtx, 'rtab, 'wtx, 'wtab) redb_view \<Rightarrow> bool" where
  "redb_reads_ok R V \<longleftrightarrow>
     (\<forall>d x. rdb_begin_read R d = Ok x \<longrightarrow> v_rtx V x = v_db V d) \<and>
     (\<forall>x t y. rdb_open_read R x t = Ok y \<longrightarrow> v_rtab V y = v_rtx V x t) \<and>
     (\<forall>x t m. rdb_open_read R x t = Err (TableDoesNotExist m) \<longrightarrow> v_rtx V x t = Map.empty) \<and>
     (\<forall>y k r. rdb_get R y k = Ok r \<longrightarrow> r = v_rtab V y k) \<and>
     (\<forall>y xs. rdb_iter R y = Ok (map Ok xs) \<longrightarrow>
        distinct (map fst xs) \<and> set xs = {(k, v). v_rtab V y k = Some v})"

definition redb_writes_ok ::
  "('db, 'rtx, 'rtab, 'wtx, 'wtab) redb \<Rightarrow> ('db, 'rtx, 'rtab, 'wtx, 'wtab) redb_view \<Rightarrow> bool" where
  "redb_writes_ok R V \<longleftrightarrow>
     (\<forall>d x. rdb_begin_write R d = Ok x \<longrightarrow> v_wtx V x = v_db V d) \<and>
     (\<forall>x t y. rdb_open_write R x t = Ok y \<longrightarrow> v_wtab V y = v_wtx V x \<and> v_name V y = t) \<and>
     (\<forall>x t m. rdb_open_write R x t = Err (TableDoesNotExist m) \<longrightarrow> v_wtx V x t = Map.empty) \<and>
     (\<forall>y k v y'. rdb_insert R y k v = Ok y' \<longrightarrow> v_wtab V y' = kv_put (v_name V y) k v (v_wtab V y)) \<and>
     (\<forall>y k y'. rdb_remove R y k = Ok y' \<longrightarrow> v_wtab V y' = kv_del (v_name V y) k (v_wtab V y)) \<and>
     (\<forall>y. v_wtx V (rdb_close R y) = v_wtab V y) \<and>
     (\<forall>x d. rdb_commit R x = Ok d \<longrightarrow> v_db V d = v_wtx V x)"

definition known_tables :: "string set" where
  "known_tables =
     {''namespaces'', ''routes'', ''services'', ''modules'', ''domains'', ''secrets'',
      ''collections'', ''documents'', ''changelogs''}"

definition file_content :: "('db, 'rtx, 'rtab, 'wtx, 'wtab) redb_view \<Rightarrow> 'db \<Rightarrow> kv" where
  "file_content V d t = (if t \<in> known_tables then v_db V d t else Map.empty)"

lemma get_table_def_known: "t \<in> known_tables \<Longrightarrow> get_table_def t = t"
  by (auto simp: known_tables_def get_table_def_def table_defs)

text \<open>The fallback: an unknown table name reads and writes the namespaces.\<close>

lemma get_table_def_fallback: "t \<notin> known_tables \<Longrightarrow> get_table_def t = ''namespaces''"
  by (auto simp: known_tables_def get_table_def_def table_defs)

lemma file_ops_sel [simp]:
  "st_get (file_ops R) = file_get R" "st_set (file_ops R) = file_set R"
  "st_delete (file_ops R) = file_delete R" "st_list (file_ops R) = file_list R"
  "st_clear (file_ops R) = file_clear R"
  by (simp_all add: file_ops_def)

lemma file_get_content:
  assumes R: "redb_reads_ok R V" and t: "t \<in> known_tables" and g: "file_get R d t k = Ok r"
  shows "r = file_content V d t k"
proof -
  note D = R [unfolded redb_reads_ok_def]
  from g t obtain x where x: "rdb_begin_read R d = Ok x"
    by (auto simp: file_get_def split: sum.splits)
  with D have vx: "v_rtx V x = v_db V d" by blast
  show ?thesis
  proof (cases "rdb_open_read R x t")
    case (Inl e)
    with g x t obtain m where "e = TableDoesNotExist m" "r = None"
      by (cases e) (auto simp: file_get_def get_table_def_known)
    with D Inl have "v_rtx V x t = Map.empty" by blast
    with \<open>r = None\<close> vx t show ?thesis by (simp add: file_content_def)
  next
    case (Inr y)
    with D have "v_rtab V y = v_rtx V x t" by blast
    moreover from g x t Inr have "rdb_get R y k = Ok r"
      by (auto simp: file_get_def get_table_def_known split: sum.splits option.splits)
    with D have "r = v_rtab V y k" by blast
    ultimately show ?thesis using vx t by (simp add: file_content_def)
  qed
qed

lemma file_list_content:
  assumes R: "redb_reads_ok R V" and t: "t \<in> known_tables" and l: "file_list R d t p = Ok xs"
  shows "distinct (map fst xs) \<and> set xs = kv_entries (file_content V d) t p"
proof -
  note D = R [unfolded redb_reads_ok_def]
  from l t obtain x where x: "rdb_begin_read R d = Ok x"
    by (auto simp: file_list_def split: sum.splits)
  with D have vx: "v_rtx V x = v_db V d" by blast
  show ?thesis
  proof (cases "rdb_open_read R x t")
    case (Inl e)
    with l x t obtain m where "e = TableDoesNotExist m" "xs = []"
      by (cases e) (auto simp: file_list_def get_table_def_known)
    with D Inl have "v_rtx V x t = Map.empty" by blast
    with \<open>xs = []\<close> vx t show ?thesis by (simp add: file_content_def kv_entries_def)
  next
    case (Inr y)
    with D have vy: "v_rtab V y = v_rtx V x t" by blast
    from l x t Inr obtain ys where ys: "rdb_iter R y = Ok (map Ok ys)"
      and xs: "xs = filter (\<lambda>(k, v). starts_with k p) ys"
      by (auto simp: file_list_def get_table_def_known result_bind_eq_Ok collect_results_eq_Ok
          split: sum.splits)
    from D ys have "distinct (map fst ys)" and "set ys = {(k, v). v_rtab V y k = Some v}" by blast+
    with xs vx vy t show ?thesis
      by (auto simp: file_content_def kv_entries_def distinct_keys_filter)
  qed
qed

lemma file_set_content:
  assumes R: "redb_writes_ok R V" and t: "t \<in> known_tables"
  shows "file_content V (snd (file_set R d t k v)) =
    (if is_ok (fst (file_set R d t k v)) then kv_put t k v (file_content V d) else file_content V d)"
proof (cases "is_ok (fst (file_set R d t k v))")
  case True
  then obtain x y y' d' where s: "rdb_begin_write R d = Ok x" "rdb_open_write R x t = Ok y"
    "rdb_insert R y k v = Ok y'" "rdb_commit R (rdb_close R y') = Ok d'"
    and d': "snd (file_set R d t k v) = d'"
    using t by (auto simp: file_set_def get_table_def_known split: sum.splits)
  note D = R [unfolded redb_writes_ok_def]
  have "v_db V d' = v_wtab V y'" using D s(4) by metis
  also have "\<dots> = kv_put (v_name V y) k v (v_wtab V y)" using D s(3) by blast
  also have "\<dots> = kv_put t k v (v_db V d)" using D s(1,2) by metis
  finally show ?thesis using True t d'
    by (auto simp: file_content_def kv_put_def fun_eq_iff)
next
  case False
  then have "snd (file_set R d t k v) = d"
    by (auto simp: file_set_def split: sum.splits)
  with False show ?thesis by simp
qed

lemma file_delete_content:
  assumes R: "redb_writes_ok R V" and t: "t \<in> known_tables"
  shows "file_content V (snd (file_delete R d t k)) =
    (if is_ok (fst (file_delete R d t k)) then kv_del t k (file_content V d) else file_content V d)"
proof (cases "is_ok (fst (file_delete R d t k))")
  case True
  note D = R [unfolded redb_writes_ok_def]
  from True obtain x where x: "rdb_begin_write R d = Ok x"
    by (auto simp: file_delete_def split: sum.splits)
  show ?thesis
  proof (cases "rdb_open_write R x t")
    case (Inl e)
    with True x t obtain m where "e = TableDoesNotExist m"
      by (cases e) (auto simp: file_delete_def get_table_def_known)
    moreover from this D Inl have "v_wtx V x t = Map.empty" by blast
    moreover from D x have "v_wtx V x = v_db V d" by blast
    ultimately show ?thesis using x Inl t True
      by (auto simp: file_delete_def get_table_def_known file_content_def kv_del_def fun_eq_iff)
  next
    case (Inr y)
    with True x t obtain y' d' where s: "rdb_remove R y k = Ok y'"
      "rdb_commit R (rdb_close R y') = Ok d'" and d': "snd (file_delete R d t k) = d'"
      by (auto simp: file_delete_def get_table_def_known split: sum.splits)
    have "v_db V d' = v_wtab V y'" using D s(2) by metis
    also have "\<dots> = kv_del (v_name V y) k (v_wtab V y)" using D s(1) by blast
    also have "\<dots> = kv_del t k (v_db V d)" using D x Inr by metis
    finally show ?thesis using True t d'
      by (auto simp: file_content_def kv_del_def fun_eq_iff)
  qed
next
  case False
  then have "snd (file_delete R d t k) = d"
    by (auto simp: file_delete_def split: sum.splits table_error.splits)
  with False show ?thesis by simp
qed

text \<open>
  C6. \<open>FileStorage\<close> keeps the storage contract: whatever redb returns at each call, an operation
  that answers \<open>Ok\<close> has its documented effect on the nine tables of the program and one that
  answers an error leaves every table as it was; \<open>get\<close> and \<open>list\<close> answer with the stored
  entries.
\<close>

theorem file_storage_refines:
  assumes "redb_reads_ok R V" and "redb_writes_ok R V"
  shows "kv_storage (file_ops R) (file_content V) (\<lambda>_. True) known_tables"
proof
  fix s :: 'a and t k v p xs r
  assume t: "t \<in> known_tables"
  show "st_get (file_ops R) s t k = Ok r \<Longrightarrow> r = file_content V s t k"
    using file_get_content [OF assms(1) t] by simp
  show "file_content V (snd (st_set (file_ops R) s t k v)) =
      (if is_ok (fst (st_set (file_ops R) s t k v)) then kv_put t k v (file_content V s)
       else file_content V s)"
    using file_set_content [OF assms(2) t] by simp
  show "file_content V (snd (st_delete (file_ops R) s t k)) =
      (if is_ok (fst (st_delete (file_ops R) s t k)) then kv_del t k (file_content V s)
       else file_content V s)"
    using file_delete_content [OF assms(2) t] by simp
  show "st_list (file_ops R) s t p = Ok xs \<Longrightarrow>
      distinct (map fst xs) \<and> set xs = kv_entries (file_content V s) t p"
    using file_list_content [OF assms(1) t] by simp
qed simp_all

text \<open>The hypotheses are satisfiable: a database that is a table of association lists.\<close>

definition alist_redb ::
  "(string \<Rightarrow> dashmap, string \<Rightarrow> dashmap, dashmap, string \<Rightarrow> dashmap, string \<times> (string \<Rightarrow> dashmap)) redb" where
  "alist_redb =
     \<lparr>rdb_begin_read = (\<lambda>d. Ok d),
      rdb_open_read = (\<lambda>x t. if x t = [] then Err (TableDoesNotExist t) else Ok (x t)),
      rdb_get = (\<lambda>y k. Ok (map_of y k)),
      rdb_iter = (\<lambda>y. Ok (map Ok (AList.clearjunk y))),
      rdb_begin_write = (\<lambda>d. Ok d),
      rdb_open_write = (\<lambda>x t. Ok (t, x)),
      rdb_insert = (\<lambda>(t, x) k v. Ok (t, x(t := AList.update k v (x t)))),
      rdb_remove = (\<lambda>(t, x) k. Ok (t, x(t := AList.delete k (x t)))),
      rdb_close = snd,
      rdb_delete_table = (\<lambda>x t. (Ok True, x(t := []))),
      rdb_commit = (\<lambda>x. Ok x)\<rparr>"

definition alist_redb_view ::
  "(string \<Rightarrow> dashmap, string \<Rightarrow> dashmap, dashmap, string \<Rightarrow> dashmap, string \<times> (string \<Rightarrow> dashmap)) redb_view" where
  "alist_redb_view =
     \<lparr>v_db = (\<lambda>d t. map_of (d t)), v_rtx = (\<lambda>d t. map_of (d t)), v_rtab = map_of,
      v_wtx = (\<lambda>d t. map_of (d t)), v_wtab = (\<lambda>(_, d) t. map_of (d t)), v_name = fst\<rparr>"

lemma alist_redb_reads: "redb_reads_ok alist_redb alist_redb_view"
proof -
  have "distinct (map fst xs) \<and> set xs = {(k, v). map_of y k = Some v}"
    if "map Ok (AList.clearjunk y) = (map Ok xs :: (string + (string \<times> bytes)) list)" for y xs
  proof -
    from that have "xs = AList.clearjunk y"
      by (metis inj_Inr map_injective)
    then have "distinct (map fst xs)" and "map_of xs = map_of y"
      by (simp_all add: distinct_clearjunk map_of_clearjunk)
    then show ?thesis by (auto simp flip: map_of_eq_Some_iff)
  qed
  then show ?thesis
    by (auto simp: redb_reads_ok_def alist_redb_def alist_redb_view_def split: if_splits)
qed

lemma alist_redb_writes: "redb_writes_ok alist_redb alist_redb_view"
  by (auto simp: redb_writes_ok_def alist_redb_def alist_redb_view_def kv_put_def kv_del_def
      update_conv' delete_conv' intro!: ext)

theorem file_storage_refines_witness:
  "kv_storage (file_ops alist_redb) (file_content alist_redb_view) (\<lambda>_. True) known_tables"
  by (rule file_storage_refines [OF alist_redb_reads alist_redb_writes])

end
