(* ===== verification/Tempo_Clock.thy ===== *)
theory Tempo_Clock
  imports Prelude
begin

text \<open>
  The logical clock of \<open>src/cluster/tempo/clock.rs\<close>. The clock is a \<open>u64\<close>, so \<open>current + 1\<close>
  wraps (release builds); \<open>physical\<close> is what \<open>physical_time\<close> reads. \<open>clock_tick\<close> and
  \<open>clock_update\<close> are a call that is not disturbed by another thread. The retry loops are the
  step relation \<open>clock_step\<close> on the shared word and one program counter per call, a step
  being the loads before the compare-exchange, or the compare-exchange.
\<close>

section \<open>Operations\<close>

record logical_clock =
  lc_node_id :: u64
  lc_clock :: u64

text \<open>\<open>physical_time\<close>: the milliseconds since the epoch truncated to 64 bits, 0 before it.\<close>

definition physical_time :: "int \<Rightarrow> u64" where
  "physical_time millis_since_epoch = (if millis_since_epoch < 0 then 0 else word_of_int millis_since_epoch)"

definition clock_new :: "u64 \<Rightarrow> u64 \<Rightarrow> logical_clock" where
  "clock_new node_id now = \<lparr>lc_node_id = node_id, lc_clock = now\<rparr>"

definition clock_current :: "logical_clock \<Rightarrow> u64" where
  "clock_current c = lc_clock c"

definition tick_value :: "u64 \<Rightarrow> u64 \<Rightarrow> u64" where
  "tick_value current physical = max (current + 1) physical"

definition clock_tick :: "u64 \<Rightarrow> logical_clock \<Rightarrow> u64 \<times> logical_clock" where
  "clock_tick physical c =
     (let new_value = tick_value (lc_clock c) physical
      in (new_value, c\<lparr>lc_clock := new_value\<rparr>))"

definition update_value :: "u64 \<Rightarrow> u64 \<Rightarrow> u64 \<Rightarrow> u64" where
  "update_value current received physical = max (max current received) physical"

definition clock_update :: "u64 \<Rightarrow> u64 \<Rightarrow> logical_clock \<Rightarrow> logical_clock" where
  "clock_update physical received c =
     (let new_value = update_value (lc_clock c) received physical
      in if new_value \<le> lc_clock c then c else c\<lparr>lc_clock := new_value\<rparr>)"

section \<open>Concurrent calls\<close>

datatype clock_op = Op_Tick | Op_Update u64

datatype clock_call =
    At_Load clock_op
  | At_Cas clock_op u64 u64 \<comment> \<open>the value loaded and the new value\<close>
  | Ticked u64
  | Updated

fun finish_call :: "clock_op \<Rightarrow> u64 \<Rightarrow> clock_call" where
  "finish_call Op_Tick v = Ticked v"
| "finish_call (Op_Update r) v = Updated"

inductive clock_step :: "u64 \<Rightarrow> u64 \<times> (nat \<Rightarrow> clock_call) \<Rightarrow> u64 \<times> (nat \<Rightarrow> clock_call) \<Rightarrow> bool"
  for physical :: u64 where
  load_tick: "calls t = At_Load Op_Tick \<Longrightarrow>
    clock_step physical (c, calls) (c, calls(t := At_Cas Op_Tick c (tick_value c physical)))"
| load_update: "calls t = At_Load (Op_Update r) \<Longrightarrow> c < update_value c r physical \<Longrightarrow>
    clock_step physical (c, calls) (c, calls(t := At_Cas (Op_Update r) c (update_value c r physical)))"
| update_not_needed: "calls t = At_Load (Op_Update r) \<Longrightarrow> update_value c r physical \<le> c \<Longrightarrow>
    clock_step physical (c, calls) (c, calls(t := Updated))"
| cas_ok: "calls t = At_Cas opn c v \<Longrightarrow>
    clock_step physical (c, calls) (v, calls(t := finish_call opn v))"
| cas_retry: "calls t = At_Cas opn current v \<Longrightarrow> c \<noteq> current \<Longrightarrow>
    clock_step physical (c, calls) (c, calls(t := At_Load opn))"

text \<open>
  \<open>clock_reach B n s\<close>: \<open>s\<close> is reached by \<open>n\<close> steps from a state in which every call is
  about to start, with the clock, the physical time and the received values at most \<open>B\<close>.
\<close>

inductive clock_reach :: "nat \<Rightarrow> nat \<Rightarrow> u64 \<times> (nat \<Rightarrow> clock_call) \<Rightarrow> bool" for B where
  start: "unat c \<le> B \<Longrightarrow> (\<And>t. calls t = At_Load Op_Tick \<or> (\<exists>r. calls t = At_Load (Op_Update r) \<and> unat r \<le> B)) \<Longrightarrow>
    clock_reach B 0 (c, calls)"
| step: "clock_reach B n s \<Longrightarrow> unat physical \<le> B \<Longrightarrow> clock_step physical s s' \<Longrightarrow>
    clock_reach B (Suc n) s'"

section \<open>A single call\<close>

lemma unat_plus_one: "unat (c :: u64) + 1 < 2 ^ 64 \<Longrightarrow> unat (c + 1) = unat c + 1"
  by (simp add: unat_word_ariths)

lemma tick_value_bounds:
  assumes "unat c + 1 < 2 ^ 64"
  shows "c < tick_value c p" and "p \<le> tick_value c p"
    and "unat (tick_value c p) = max (unat c + 1) (unat p)"
proof -
  have u: "unat (c + 1) = unat c + 1" by (rule unat_plus_one [OF assms])
  then have "c < c + 1" by (simp add: word_less_nat_alt)
  then show "c < tick_value c p" by (simp add: tick_value_def less_max_iff_disj)
  show "p \<le> tick_value c p" by (simp add: tick_value_def)
  show "unat (tick_value c p) = max (unat c + 1) (unat p)"
    using u by (auto simp: tick_value_def max_def word_le_nat_alt)
qed

lemma unat_update_value: "unat (update_value c r p) = max (max (unat c) (unat r)) (unat p)"
  by (auto simp: update_value_def max_def word_le_nat_alt)

lemma clock_update_value: "lc_clock (clock_update p r c) = update_value (lc_clock c) r p"
  by (auto simp: clock_update_def Let_def update_value_def)

lemma clock_update_ge:
  "lc_clock c \<le> lc_clock (clock_update p r c)" "r \<le> lc_clock (clock_update p r c)"
  by (simp_all add: clock_update_value update_value_def le_max_iff_disj)

lemma clock_tick_fst: "fst (clock_tick p c) = lc_clock (snd (clock_tick p c))"
  by (simp add: clock_tick_def Let_def)

section \<open>Invariant of the concurrent calls\<close>

definition clock_inv :: "nat \<Rightarrow> nat \<Rightarrow> u64 \<times> (nat \<Rightarrow> clock_call) \<Rightarrow> bool" where
  "clock_inv B n s \<longleftrightarrow>
     (let (c, calls) = s in
      unat c \<le> B + n \<and>
      (\<forall>t r. calls t = At_Load (Op_Update r) \<longrightarrow> unat r \<le> B) \<and>
      (\<forall>t opn cur v. calls t = At_Cas opn cur v \<longrightarrow>
         cur < v \<and> unat v \<le> B + n \<and> (\<forall>r. opn = Op_Update r \<longrightarrow> unat r \<le> B)) \<and>
      (\<forall>t v. calls t = Ticked v \<longrightarrow> v \<le> c) \<and>
      (\<forall>t t' v. t \<noteq> t' \<longrightarrow> calls t = Ticked v \<longrightarrow> calls t' \<noteq> Ticked v))"

lemma clock_invD:
  assumes "clock_inv B n (c, calls)"
  shows "unat c \<le> B + n"
    and "calls t = At_Load (Op_Update r) \<Longrightarrow> unat r \<le> B"
    and "calls t = At_Cas opn cur v \<Longrightarrow> cur < v"
    and "calls t = At_Cas opn cur v \<Longrightarrow> unat v \<le> B + n"
    and "calls t = At_Cas (Op_Update r) cur v \<Longrightarrow> unat r \<le> B"
    and "calls t = Ticked v \<Longrightarrow> v \<le> c"
    and "t \<noteq> t' \<Longrightarrow> calls t = Ticked v \<Longrightarrow> calls t' \<noteq> Ticked v"
  using assms unfolding clock_inv_def Let_def prod.case by blast+

lemma clock_inv_intro:
  assumes "unat c \<le> B + n"
    and "\<And>t r. calls t = At_Load (Op_Update r) \<Longrightarrow> unat r \<le> B"
    and "\<And>t opn cur v. calls t = At_Cas opn cur v \<Longrightarrow> cur < v \<and> unat v \<le> B + n \<and> (\<forall>r. opn = Op_Update r \<longrightarrow> unat r \<le> B)"
    and "\<And>t v. calls t = Ticked v \<Longrightarrow> v \<le> c"
    and "\<And>t t' v. t \<noteq> t' \<Longrightarrow> calls t = Ticked v \<Longrightarrow> calls t' \<noteq> Ticked v"
  shows "clock_inv B n (c, calls)"
  unfolding clock_inv_def Let_def prod.case using assms by blast

text \<open>A call that is not finished by the step keeps the invariant when its new counter does.\<close>

lemma clock_inv_local:
  assumes inv: "clock_inv B n (c, calls)"
    and new: "case pc of At_Load (Op_Update r) \<Rightarrow> unat r \<le> B
              | At_Cas opn cur v \<Rightarrow> cur < v \<and> unat v \<le> B + Suc n \<and> (\<forall>r. opn = Op_Update r \<longrightarrow> unat r \<le> B)
              | Ticked v \<Rightarrow> False | _ \<Rightarrow> True"
  shows "clock_inv B (Suc n) (c, calls(t := pc))"
proof (rule clock_inv_intro)
  show "unat c \<le> B + Suc n" using clock_invD(1) [OF inv] by simp
  show "unat r \<le> B" if "(calls(t := pc)) u = At_Load (Op_Update r)" for u r
    using that new clock_invD(2) [OF inv] by (auto split: if_splits)
  show "cur < v \<and> unat v \<le> B + Suc n \<and> (\<forall>r. opn = Op_Update r \<longrightarrow> unat r \<le> B)"
    if "(calls(t := pc)) u = At_Cas opn cur v" for u opn cur v
    using that new clock_invD(3,4,5) [OF inv]
    by (cases "u = t") (auto intro: le_SucI)
  show "v \<le> c" if "(calls(t := pc)) u = Ticked v" for u v
    using that new clock_invD(6) [OF inv] by (cases "u = t") auto
  show "(calls(t := pc)) u' \<noteq> Ticked v" if "u \<noteq> u'" "(calls(t := pc)) u = Ticked v" for u u' v
    using that new clock_invD(7) [OF inv] by (cases "u = t"; cases "u' = t") auto
qed

text \<open>A compare-exchange that succeeds moves the clock up and finishes one call.\<close>

lemma clock_inv_cas:
  assumes inv: "clock_inv B n (c, calls)" and t: "calls t = At_Cas opn c v"
  shows "clock_inv B (Suc n) (v, calls(t := finish_call opn v))"
proof (rule clock_inv_intro)
  have cv: "c < v" using clock_invD(3) [OF inv t] .
  have old: "w < v" if "calls u = Ticked w" for u w
    using clock_invD(6) [OF inv that] cv by simp
  show "unat v \<le> B + Suc n" using clock_invD(4) [OF inv t] by simp
  show "unat r \<le> B" if "(calls(t := finish_call opn v)) u = At_Load (Op_Update r)" for u r
    using that clock_invD(2) [OF inv] by (cases opn) (auto split: if_splits)
  show "cur < w \<and> unat w \<le> B + Suc n \<and> (\<forall>r. p = Op_Update r \<longrightarrow> unat r \<le> B)"
    if "(calls(t := finish_call opn v)) u = At_Cas p cur w" for u p cur w
    using that clock_invD(3,4,5) [OF inv] by (cases opn) (auto split: if_splits intro: le_SucI)
  show "w \<le> v" if "(calls(t := finish_call opn v)) u = Ticked w" for u w
    using that old by (cases opn) (auto split: if_splits intro: less_imp_le)
  show "(calls(t := finish_call opn v)) u' \<noteq> Ticked w"
    if ne: "u \<noteq> u'" and tk: "(calls(t := finish_call opn v)) u = Ticked w" for u u' w
  proof
    assume u': "(calls(t := finish_call opn v)) u' = Ticked w"
    have fin: "finish_call opn v = Ticked w \<Longrightarrow> w = v" by (cases opn) simp_all
    consider "u = t" "u' \<noteq> t" | "u' = t" "u \<noteq> t" | "u \<noteq> t" "u' \<noteq> t" using ne by blast
    then show False
    proof cases
      case 1
      with tk u' fin old [of u' w] show False by simp
    next
      case 2
      with tk u' fin old [of u w] show False by simp
    next
      case 3
      with tk u' clock_invD(7) [OF inv ne, of w] show False by simp
    qed
  qed
qed

lemma clock_inv_step:
  assumes "clock_step p s s'" and "clock_inv B n s" and "unat p \<le> B" and "B + Suc n < 2 ^ 64"
  shows "clock_inv B (Suc n) s'" and "fst s \<le> fst s'"
proof -
  have "clock_inv B (Suc n) s' \<and> fst s \<le> fst s'"
    using assms
  proof (cases rule: clock_step.cases)
    case (load_tick calls t c)
    from assms(2,4) load_tick(1) have b: "unat c + 1 < 2 ^ 64" using clock_invD(1) by force
    have "unat (tick_value c p) \<le> B + Suc n"
      using tick_value_bounds(3) [OF b] clock_invD(1) assms(2,3) load_tick(1) by force
    with load_tick assms(2) tick_value_bounds(1) [OF b] show ?thesis
      by (auto intro!: clock_inv_local)
  next
    case (load_update calls t r c)
    have r: "unat r \<le> B" using clock_invD(2) assms(2) load_update(1,3) by blast
    have "unat (update_value c r p) \<le> B + Suc n"
      using unat_update_value [of c r p] r assms(3) clock_invD(1) assms(2) load_update(1) by force
    with load_update assms(2) r show ?thesis by (auto intro!: clock_inv_local)
  next
    case (update_not_needed calls t r c)
    with assms(2) show ?thesis by (auto intro!: clock_inv_local)
  next
    case (cas_ok calls t opn c v)
    with assms(2) clock_invD(3) show ?thesis by (fastforce intro!: clock_inv_cas)
  next
    case (cas_retry calls t opn current v c)
    have "case opn of Op_Tick \<Rightarrow> True | Op_Update r \<Rightarrow> unat r \<le> B"
      using clock_invD(5) assms(2) cas_retry(1,3) by (cases opn) auto
    with cas_retry assms(2) show ?thesis
      by (cases opn) (auto intro!: clock_inv_local)
  qed
  then show "clock_inv B (Suc n) s'" and "fst s \<le> fst s'" by blast+
qed

lemma clock_reach_inv: "clock_reach B n s \<Longrightarrow> B + n < 2 ^ 64 \<Longrightarrow> clock_inv B n s"
proof (induction rule: clock_reach.induct)
  case (start c calls)
  show ?case
  proof (rule clock_inv_intro)
    show "unat c \<le> B + 0" using start by simp
  qed (metis clock_call.distinct clock_call.inject clock_op.inject clock_op.distinct start(2))+
next
  case (step n s physical s')
  then show ?case using clock_inv_step by simp
qed

section \<open>Properties\<close>

text \<open>
  C33. Any number of threads may call \<open>tick\<close> and \<open>update\<close> at the same time: as long as the
  physical times, the received values and the number of steps leave room below \<open>2^64\<close>, the
  clock never goes back, no two calls of \<open>tick\<close> return the same value, and every value
  returned is at most the clock.
\<close>

theorem clock_concurrent_safe:
  assumes "clock_reach B n (c, calls)" and "B + n + 1 < 2 ^ 64"
  shows "(\<forall>t t' v. calls t = Ticked v \<longrightarrow> calls t' = Ticked v \<longrightarrow> t = t') \<and>
         (\<forall>t v. calls t = Ticked v \<longrightarrow> v \<le> c) \<and>
         (\<forall>p s'. unat p \<le> B \<longrightarrow> clock_step p (c, calls) s' \<longrightarrow> c \<le> fst s')"
proof -
  from assms(2) have n: "B + n < 2 ^ 64" and sn: "B + Suc n < 2 ^ 64" by simp_all
  note inv = clock_reach_inv [OF assms(1) n]
  have "c \<le> fst s'" if "unat p \<le> B" "clock_step p (c, calls) s'" for p s'
    using clock_inv_step(2) [OF that(2) inv that(1) sn] by simp
  with clock_invD(6,7) [OF inv] show ?thesis by blast
qed

theorem clock_concurrent_safe_witness:
  "\<exists>calls. clock_reach 7 4 (8, calls) \<and> calls 0 = Ticked 7 \<and> calls 1 = Ticked 8 \<and>
     (\<forall>p s'. unat p \<le> 7 \<longrightarrow> clock_step p (8, calls) s' \<longrightarrow> 8 \<le> fst s')"
proof -
  define c0 where "c0 = (\<lambda>_ :: nat. At_Load Op_Tick)"
  define c1 where "c1 = c0(0 := At_Cas Op_Tick 5 7)"
  define c2 where "c2 = c1(0 := Ticked 7)"
  define c3 where "c3 = c2(1 := At_Cas Op_Tick 7 8)"
  define c4 where "c4 = c3(1 := Ticked 8)"
  have 0: "clock_reach 7 0 (5, c0)" by (rule clock_reach.start) (simp_all add: c0_def)
  have "clock_step 7 (5, c0) (5, c1)"
    using clock_step.load_tick [of c0 0 7 5] by (simp add: c0_def c1_def tick_value_def max_def)
  with 0 have 1: "clock_reach 7 1 (5, c1)" using clock_reach.step [OF 0, of 7] by simp
  have "clock_step 7 (5, c1) (7, c2)"
    using clock_step.cas_ok [of c1 0 Op_Tick 5 7 7] by (simp add: c1_def c2_def)
  then have 2: "clock_reach 7 2 (7, c2)" using clock_reach.step [OF 1, of 7] by (simp add: numeral_2_eq_2)
  have "clock_step 7 (7, c2) (7, c3)"
    using clock_step.load_tick [of c2 1 7 7]
    by (simp add: c0_def c1_def c2_def c3_def tick_value_def max_def)
  then have 3: "clock_reach 7 3 (7, c3)" using clock_reach.step [OF 2, of 7] by (simp add: numeral_3_eq_3 numeral_2_eq_2)
  have "clock_step 7 (7, c3) (8, c4)"
    using clock_step.cas_ok [of c3 1 Op_Tick 7 8 7] by (simp add: c3_def c4_def)
  then have 4: "clock_reach 7 4 (8, c4)" using clock_reach.step [OF 3, of 7] by (simp add: eval_nat_numeral)
  show ?thesis
    using clock_concurrent_safe [OF 4] 4 by (intro exI [of _ c4]) (simp add: c2_def c3_def c4_def)
qed

text \<open>
  \<open>update\<close> makes the clock at least the received value, but not greater than it: a clock
  that was behind becomes exactly the received value, where the comment promises one more.
  Only the next \<open>tick\<close> is greater, as long as the clock is not at its maximum.
\<close>

lemma clock_update_then_tick:
  assumes "lc_clock c \<le> r" and "p \<le> r" and "unat r + 1 < 2 ^ 64"
  shows "lc_clock (clock_update p r c) = r \<and> r < fst (clock_tick p' (clock_update p r c))"
proof -
  have "lc_clock (clock_update p r c) = r"
    using assms(1,2) by (simp add: clock_update_value update_value_def max_def)
  moreover from this have "r < fst (clock_tick p' (clock_update p r c))"
    using tick_value_bounds(1) [OF assms(3)] by (simp add: clock_tick_def Let_def)
  ultimately show ?thesis ..
qed

end
