(* ===== verification/Regex_Engine.thy ===== *)
theory Regex_Engine
  imports Prelude
begin

text \<open>
  What the \<open>regex\<close> crate documents of the syntax the program uses, for texts and patterns of
  ASCII characters: literals, escaped punctuation, \<open>.\<close>, bracketed classes without ranges, the
  greedy quantifiers after a single character, numbered and named groups, optional groups
  \<open>(?:...)?\<close>, and the two anchors. \<open>rx_compile\<close> reads a pattern, and is an error for syntax it
  does not cover; \<open>rx_seq\<close> lists the ways a sequence can match from a position, the preferred
  one first, and a search takes the first way at the leftmost position that has one. The
  limit the crate sets to the size of a compiled expression is left out. The
  hypotheses of the development that speak of the crate say that it agrees with these functions
  on every pattern they read.
\<close>

section \<open>Characters\<close>

definition ascii :: "string \<Rightarrow> bool" where
  "ascii s = list_all (\<lambda>c. (of_char c :: nat) < 128) s"

definition ascii_alphanumeric :: "char \<Rightarrow> bool" where
  "ascii_alphanumeric c =
     (let n = (of_char c :: nat) in (48 \<le> n \<and> n \<le> 57) \<or> (65 \<le> n \<and> n \<le> 90) \<or> (97 \<le> n \<and> n \<le> 122))"

definition name_byte :: "char \<Rightarrow> bool" where
  "name_byte c = (ascii_alphanumeric c \<or> c = CHR ''_'')"

text \<open>Group names start with a letter or underscore.\<close>

definition valid_name :: "string \<Rightarrow> bool" where
  "valid_name n =
     (case n of [] \<Rightarrow> False | c # _ \<Rightarrow> list_all name_byte n \<and> \<not> (48 \<le> (of_char c :: nat) \<and> (of_char c :: nat) \<le> 57))"

lemma asciiI: "\<forall>c \<in> set s. (of_char c :: nat) < 128 \<Longrightarrow> ascii s"
  by (simp add: ascii_def list_all_iff)

lemma ascii_Cons [simp]: "ascii (c # s) \<longleftrightarrow> (of_char c :: nat) < 128 \<and> ascii s"
  by (simp add: ascii_def)

lemma ascii_Nil [simp]: "ascii []"
  by (simp add: ascii_def)

lemma ascii_append [simp]: "ascii (s @ t) \<longleftrightarrow> ascii s \<and> ascii t"
  by (simp add: ascii_def)

lemma valid_name_no_gt: "valid_name n \<Longrightarrow> CHR ''>'' \<notin> set n"
  by (cases n) (auto simp: valid_name_def list_all_iff name_byte_def ascii_alphanumeric_def Let_def)

section \<open>Expressions\<close>

datatype char_class = CC_Char char | CC_Any | CC_In string | CC_Not string

fun cc_has :: "char_class \<Rightarrow> char \<Rightarrow> bool" where
  "cc_has (CC_Char d) c = (c = d)"
| "cc_has CC_Any c = (c \<noteq> CHR 0x0A)"
| "cc_has (CC_In cs) c = (c \<in> set cs)"
| "cc_has (CC_Not cs) c = (c \<notin> set cs)"

text \<open>A group has its number and, when it is named, its name.\<close>

datatype rx =
    RX_One char_class
  | RX_Star char_class
  | RX_Plus char_class
  | RX_Begin
  | RX_End
  | RX_Group nat "string option" "rx list"
  | RX_Opt "rx list"

section \<open>Reading a pattern\<close>

definition rx_meta :: string where
  "rx_meta = [CHR 0x5C] @ ''.+*?()|[]{}^$''"

text \<open>One character or class at the front of a pattern, and the rest of the pattern.\<close>

definition rx_atom :: "string \<Rightarrow> (char_class \<times> string) option" where
  "rx_atom s =
     (case s of
        [] \<Rightarrow> None
      | c # cs \<Rightarrow>
          if c = CHR ''.'' then Some (CC_Any, cs)
          else if c = CHR 0x5C then
            (case cs of [] \<Rightarrow> None
             | d # ds \<Rightarrow>
                 if ascii_alphanumeric d \<or> d \<in> set ''<>'' \<or> 128 \<le> (of_char d :: nat) then None
                 else Some (CC_Char d, ds))
          else if c = CHR ''['' then
            (let negated = starts_with cs ''^'';
                 from = (if negated then drop 1 cs else cs);
                 body = takeWhile (\<lambda>x. x \<noteq> CHR '']'') from;
                 rest = drop (length body) from
             in if rest = [] \<or> body = [] \<or> \<not> ascii body \<or> list_ex (\<lambda>x. x \<in> set ([CHR 0x5C] @ ''[-&~^'')) body
                then None
                else Some (if negated then CC_Not body else CC_In body, drop 1 rest))
          else if c \<in> set rx_meta \<or> 128 \<le> (of_char c :: nat) then None
          else Some (CC_Char c, cs))"

definition rx_quantifier :: "string \<Rightarrow> bool" where
  "rx_quantifier s = (case s of [] \<Rightarrow> False | c # _ \<Rightarrow> c \<in> set ''*+?{'')"

text \<open>The quantifier after a character or class; a second one (a lazy one, say) is not covered.\<close>

definition rx_quantified :: "char_class \<Rightarrow> string \<Rightarrow> (rx \<times> string) option" where
  "rx_quantified cc s =
     (if \<not> rx_quantifier s then Some (RX_One cc, s)
      else if rx_quantifier (drop 1 s) then None
      else if starts_with s ''*'' then Some (RX_Star cc, drop 1 s)
      else if starts_with s ''+'' then Some (RX_Plus cc, drop 1 s)
      else if starts_with s ''?'' then Some (RX_Opt [RX_One cc], drop 1 s)
      else None)"

lemma rx_atom_shorter: "rx_atom s = Some (cc, r) \<Longrightarrow> length r < length s"
  by (auto simp: rx_atom_def Let_def split: list.splits if_splits)

lemma rx_quantified_shorter: "rx_quantified cc s = Some (x, r) \<Longrightarrow> length r \<le> length s"
  by (auto simp: rx_quantified_def split: if_splits)

text \<open>
  \<open>k\<close> is the number of the next group, \<open>acc\<close> the items read so far, last first, and the stack
  has what was read outside of each group that is open.
\<close>

function rx_parse ::
  "string \<Rightarrow> nat \<Rightarrow> rx list \<Rightarrow> ((nat \<times> string option) option \<times> rx list) list \<Rightarrow> rx list option" where
  "rx_parse s k acc stack =
     (if s = [] then (if stack = [] then Some (rev acc) else None)
      else if starts_with s ''(?:'' then rx_parse (drop 3 s) k [] ((None, acc) # stack)
      else if starts_with s ''(?P<'' then
        (let name = takeWhile (\<lambda>c. c \<noteq> CHR ''>'') (drop 4 s)
         in if valid_name name \<and> starts_with (drop (4 + length name) s) ''>''
            then rx_parse (drop (5 + length name) s) (Suc k) [] ((Some (k, Some name), acc) # stack)
            else None)
      else if starts_with s ''(?'' then None
      else if starts_with s ''('' then rx_parse (drop 1 s) (Suc k) [] ((Some (k, None), acc) # stack)
      else if starts_with s '')'' then
        (case stack of
           [] \<Rightarrow> None
         | (opened, outer) # stack' \<Rightarrow>
             (case opened of
                Some (number, name) \<Rightarrow>
                  if rx_quantifier (drop 1 s) then None
                  else rx_parse (drop 1 s) k (RX_Group number name (rev acc) # outer) stack'
              | None \<Rightarrow>
                  if \<not> rx_quantifier (drop 1 s) then rx_parse (drop 1 s) k (acc @ outer) stack'
                  else if starts_with (drop 1 s) ''?'' \<and> \<not> rx_quantifier (drop 2 s)
                  then rx_parse (drop 2 s) k (RX_Opt (rev acc) # outer) stack'
                  else None))
      else if starts_with s ''^'' then
        (if rx_quantifier (drop 1 s) then None else rx_parse (drop 1 s) k (RX_Begin # acc) stack)
      else if starts_with s ''$'' then
        (if rx_quantifier (drop 1 s) then None else rx_parse (drop 1 s) k (RX_End # acc) stack)
      else
        (case rx_atom s of
           None \<Rightarrow> None
         | Some (cc, r) \<Rightarrow>
             (case rx_quantified cc r of
                None \<Rightarrow> None
              | Some (x, r') \<Rightarrow> rx_parse r' k (x # acc) stack)))"
  by pat_completeness auto
termination
  by (relation "measure (\<lambda>(s, _). length s)")
    (auto dest!: rx_atom_shorter rx_quantified_shorter)

declare rx_parse.simps [simp del]

text \<open>The named groups, in the order of their numbers.\<close>

fun rx_names :: "rx list \<Rightarrow> (string \<times> nat) list" where
  "rx_names [] = []"
| "rx_names (RX_Group k n xs # ys) =
     (case n of Some name \<Rightarrow> [(name, k)] | None \<Rightarrow> []) @ rx_names xs @ rx_names ys"
| "rx_names (RX_Opt xs # ys) = rx_names xs @ rx_names ys"
| "rx_names (_ # ys) = rx_names ys"

definition rx_compile :: "string \<Rightarrow> string + rx list" where
  "rx_compile pattern =
     (case rx_parse pattern 1 [] [] of
        Some xs \<Rightarrow> if distinct (map fst (rx_names xs)) then Ok xs else Err ''duplicate group name''
      | None \<Rightarrow> Err ''unsupported expression'')"

section \<open>Matching\<close>

text \<open>The ways to cut off a prefix of characters that satisfy \<open>p\<close>, longest first.\<close>

definition greedy_splits :: "(char \<Rightarrow> bool) \<Rightarrow> string \<Rightarrow> (string \<times> string) list" where
  "greedy_splits p s = map (\<lambda>n. (take n s, drop n s)) (rev [0..<Suc (length (takeWhile p s))])"

text \<open>The position in the text, what is left of it, and the groups that took part, last first.\<close>

type_synonym rx_state = "nat \<times> string \<times> (nat \<times> string) list"

fun rx_ways :: "rx \<Rightarrow> rx_state \<Rightarrow> rx_state list"
  and rx_seq :: "rx list \<Rightarrow> rx_state \<Rightarrow> rx_state list" where
  "rx_ways (RX_One cc) (i, s, g) =
     (case s of [] \<Rightarrow> [] | c # cs \<Rightarrow> if cc_has cc c then [(Suc i, cs, g)] else [])"
| "rx_ways (RX_Star cc) (i, s, g) = map (\<lambda>(p, r). (i + length p, r, g)) (greedy_splits (cc_has cc) s)"
| "rx_ways (RX_Plus cc) (i, s, g) =
     map (\<lambda>(p, r). (i + length p, r, g)) (filter (\<lambda>(p, r). p \<noteq> []) (greedy_splits (cc_has cc) s))"
| "rx_ways RX_Begin (i, s, g) = (if i = 0 then [(i, s, g)] else [])"
| "rx_ways RX_End (i, s, g) = (if s = [] then [(i, s, g)] else [])"
| "rx_ways (RX_Group k _ xs) (i, s, g) =
     map (\<lambda>(j, r, g'). (j, r, (k, take (j - i) s) # g')) (rx_seq xs (i, s, g))"
| "rx_ways (RX_Opt xs) st = rx_seq xs st @ [st]"
| "rx_seq [] st = [st]"
| "rx_seq (x # xs) st = concat (map (rx_seq xs) (rx_ways x st))"

text \<open>The match of a state: group 0 is the whole match, which starts where \<open>s\<close> does.\<close>

definition rx_groups :: "string \<Rightarrow> rx_state \<Rightarrow> nat \<rightharpoonup> string" where
  "rx_groups s st = (case st of (_, r, g) \<Rightarrow> (map_of g)(0 \<mapsto> take (length s - length r) s))"

text \<open>The leftmost match from position \<open>i\<close> on: where it starts, the text from there, and its end.\<close>

fun rx_search :: "rx list \<Rightarrow> nat \<Rightarrow> string \<Rightarrow> (nat \<times> string \<times> rx_state) option" where
  "rx_search xs i s =
     (case rx_seq xs (i, s, []) of
        st # _ \<Rightarrow> Some (i, s, st)
      | [] \<Rightarrow> (case s of [] \<Rightarrow> None | c # cs \<Rightarrow> rx_search xs (Suc i) cs))"

declare rx_search.simps [simp del]

text \<open>
  \<open>replace_all\<close> with a function of the groups, which may panic (None). Only for expressions that
  match no empty text, \<open>rx_consuming\<close>.
\<close>

definition rx_consuming :: "rx list \<Rightarrow> bool" where
  "rx_consuming xs = list_ex (\<lambda>x. case x of RX_One _ \<Rightarrow> True | RX_Plus _ \<Rightarrow> True | _ \<Rightarrow> False) xs"

function rx_replace_all ::
  "rx list \<Rightarrow> ((nat \<rightharpoonup> string) \<Rightarrow> string option) \<Rightarrow> nat \<Rightarrow> string \<Rightarrow> string option" where
  "rx_replace_all xs f i s =
     (case rx_seq xs (i, s, []) of
        (j, r, g) # _ \<Rightarrow>
          if length r < length s then
            (case f (rx_groups s (j, r, g)) of
               None \<Rightarrow> None
             | Some new \<Rightarrow> map_option (\<lambda>t. new @ t) (rx_replace_all xs f j r))
          else None
      | [] \<Rightarrow>
          (case s of
             [] \<Rightarrow> Some []
           | c # cs \<Rightarrow> map_option (\<lambda>t. c # t) (rx_replace_all xs f (Suc i) cs)))"
  by pat_completeness auto
termination
  by (relation "measure (\<lambda>(xs, f, i, s). length s)") auto

declare rx_replace_all.simps [simp del]

section \<open>The first way\<close>

definition first_way :: "'a list \<Rightarrow> 'a option" where
  "first_way xs = (case xs of [] \<Rightarrow> None | x # _ \<Rightarrow> Some x)"

fun first_some :: "('a \<Rightarrow> 'b option) \<Rightarrow> 'a list \<Rightarrow> 'b option" where
  "first_some f [] = None"
| "first_some f (x # xs) = (case f x of Some y \<Rightarrow> Some y | None \<Rightarrow> first_some f xs)"

lemma first_way_simps [simp]: "first_way [] = None" "first_way (x # xs) = Some x"
  by (simp_all add: first_way_def)

lemma first_way_None [simp]: "first_way xs = None \<longleftrightarrow> xs = []"
  by (cases xs) simp_all

lemma first_way_append: "first_way (xs @ ys) = (case first_way xs of Some x \<Rightarrow> Some x | None \<Rightarrow> first_way ys)"
  by (cases xs) simp_all

lemma first_way_map: "first_way (map f xs) = map_option f (first_way xs)"
  by (cases xs) simp_all

lemma first_way_concat: "first_way (concat (map f xs)) = first_some (\<lambda>x. first_way (f x)) xs"
  by (induction xs) (simp_all add: first_way_append split: option.split)

lemma first_some_map: "first_some f (map g xs) = first_some (\<lambda>x. f (g x)) xs"
  by (induction xs) (simp_all split: option.split)

lemma first_some_filter: "first_some f (filter P xs) = first_some (\<lambda>x. if P x then f x else None) xs"
  by (induction xs) (simp_all split: option.split)

lemma first_some_cong: "(\<And>x. x \<in> set xs \<Longrightarrow> f x = g x) \<Longrightarrow> first_some f xs = first_some g xs"
  by (induction xs) (simp_all split: option.split)

lemma first_some_map_option: "first_some (\<lambda>x. map_option h (f x)) xs = map_option h (first_some f xs)"
  by (induction xs) (simp_all split: option.split)

lemma first_some_None: "first_some f xs = None \<longleftrightarrow> (\<forall>x \<in> set xs. f x = None)"
  by (induction xs) (auto split: option.splits)

lemma first_some_Some: "first_some f xs = Some y \<Longrightarrow> \<exists>x \<in> set xs. f x = Some y"
  by (induction xs) (auto split: option.splits)

lemma first_some_not_None: "x \<in> set xs \<Longrightarrow> f x \<noteq> None \<Longrightarrow> first_some f xs \<noteq> None"
  by (auto simp: first_some_None)

lemma set_greedy_splits: "(p, r) \<in> set (greedy_splits P s) \<longleftrightarrow> s = p @ r \<and> list_all P p"
proof
  assume "(p, r) \<in> set (greedy_splits P s)"
  then obtain n where n: "n \<le> length (takeWhile P s)" "p = take n s" "r = drop n s"
    by (auto simp: greedy_splits_def less_Suc_eq_le simp del: upt_Suc)
  have "take n s = take n (takeWhile P s @ dropWhile P s)" by (simp only: takeWhile_dropWhile_id)
  also have "\<dots> = take n (takeWhile P s)" using n(1) by (simp only: take_append diff_is_0_eq' take_0 append_Nil2)
  finally have "set (take n s) \<subseteq> set (takeWhile P s)" by (simp add: set_take_subset)
  with n show "s = p @ r \<and> list_all P p" by (auto simp: list_all_iff dest: set_takeWhileD)
next
  assume s: "s = p @ r \<and> list_all P p"
  then have "takeWhile P s = p @ takeWhile P r" by (simp add: list_all_iff takeWhile_append2)
  then have "length p < Suc (length (takeWhile P s))" by simp
  moreover have "(p, r) = (take (length p) s, drop (length p) s)" using s by simp
  ultimately show "(p, r) \<in> set (greedy_splits P s)"
    unfolding greedy_splits_def by (metis (no_types, lifting) atLeastLessThan_iff image_eqI set_map set_rev set_upt le0)
qed

text \<open>The longest way comes first, and every other one leaves a character of the class.\<close>

lemma greedy_splits_longest:
  obtains others where "greedy_splits P s = (takeWhile P s, dropWhile P s) # others"
    and "\<And>p r. (p, r) \<in> set others \<Longrightarrow> \<exists>c r'. r = c # r' \<and> P c"
proof -
  let ?n = "length (takeWhile P s)" and ?f = "\<lambda>n. (take n s, drop n s)"
  have t: "take ?n s = takeWhile P s" "drop ?n s = dropWhile P s"
    by (metis append_eq_conv_conj takeWhile_dropWhile_id)+
  have "greedy_splits P s = (takeWhile P s, dropWhile P s) # map ?f (rev [0..<?n])"
    by (simp add: greedy_splits_def t)
  moreover have "\<exists>c r'. r = c # r' \<and> P c" if "(p, r) \<in> set (map ?f (rev [0..<?n]))" for p r
  proof -
    from that obtain n where n: "n < ?n" "r = drop n s" by auto
    have "n < length s" using n(1) length_takeWhile_le [of P s] by linarith
    moreover have "P (s ! n)" using n(1) by (metis nth_mem set_takeWhileD takeWhile_nth)
    ultimately show ?thesis using n(2) by (metis Cons_nth_drop_Suc)
  qed
  ultimately show thesis by (rule that)
qed

end
