(* ===== verification/Config.thy ===== *)
theory Config
  imports Resources Regex_Engine
begin

text \<open>
  The configuration of \<open>src/config/mod.rs\<close>: a record per struct with its \<open>Default\<close>, the
  expansion of environment variables, the search for the configuration file and the
  resolution of module payloads. A path is its string (Unix), and the file system, the
  environment, \<open>serde_yaml\<close>, \<open>regex\<close> and \<open>base64\<close> are arguments. A \<open>HashMap\<close> that is only
  iterated over is the list of its entries.
\<close>

section \<open>Storage, proxy, admin and test server\<close>

datatype storage_type = ST_Memory | ST_File

definition default_storage_type :: storage_type where
  "default_storage_type = ST_Memory"

record 'j storage_config =
  stc_storage_type :: storage_type
  stc_dir :: "string option"
  stc_extra :: "(string \<times> 'j) list"

definition storage_config_default :: "'j storage_config" where
  "storage_config_default = \<lparr>stc_storage_type = ST_Memory, stc_dir = None, stc_extra = []\<rparr>"

record tls_config =
  tls_port :: u16
  tls_cert_file :: "string option"
  tls_key_file :: "string option"
  tls_auto_generate :: bool

definition default_tls_port :: u16 where "default_tls_port = 443"

definition tls_config_default :: tls_config where
  "tls_config_default =
     \<lparr>tls_port = default_tls_port, tls_cert_file = None, tls_key_file = None,
      tls_auto_generate = False\<rparr>"

record transport_config =
  tc_dns_server :: "string option"
  tc_dns_timeout_ms :: "u64 option"
  tc_dns_prefer_go :: bool
  tc_max_idle_conns :: "nat option"
  tc_max_idle_conns_per_host :: "nat option"
  tc_max_conns_per_host :: "nat option"
  tc_idle_conn_timeout_ms :: "u64 option"
  tc_disable_compression :: bool
  tc_disable_keep_alives :: bool
  tc_disable_private_ips :: bool

definition transport_config_default :: transport_config where
  "transport_config_default =
     \<lparr>tc_dns_server = None, tc_dns_timeout_ms = None, tc_dns_prefer_go = False,
      tc_max_idle_conns = None, tc_max_idle_conns_per_host = None, tc_max_conns_per_host = None,
      tc_idle_conn_timeout_ms = None, tc_disable_compression = False,
      tc_disable_keep_alives = False, tc_disable_private_ips = False\<rparr>"

datatype auth_method = Auth_None | Auth_Basic | Auth_Key

record user_credentials =
  uc_username :: string
  uc_password :: string

record basic_auth_config =
  ba_users :: "user_credentials list"

record key_auth_config =
  ka_query_param_name :: "string option"
  ka_header_name :: "string option"
  ka_keys :: "string list"

record admin_config =
  ac_host :: string
  ac_port :: u16
  ac_allow_list :: "string list"
  ac_x_forwarded_for_depth :: nat
  ac_watch_only :: bool
  ac_tls :: "tls_config option"
  ac_auth_method :: auth_method
  ac_basic_auth :: "basic_auth_config option"
  ac_key_auth :: "key_auth_config option"

definition default_admin_host :: string where "default_admin_host = ''0.0.0.0''"
definition default_admin_port :: u16 where "default_admin_port = 9080"

definition admin_config_default :: admin_config where
  "admin_config_default =
     \<lparr>ac_host = default_admin_host, ac_port = default_admin_port, ac_allow_list = [],
      ac_x_forwarded_for_depth = 0, ac_watch_only = False, ac_tls = None,
      ac_auth_method = Auth_None, ac_basic_auth = None, ac_key_auth = None\<rparr>"

definition default_proxy_host :: string where "default_proxy_host = ''0.0.0.0''"
definition default_proxy_port :: u16 where "default_proxy_port = 80"
definition default_console_log_level :: string where "default_console_log_level = ''info''"
definition default_test_port :: u16 where "default_test_port = 8888"

record test_server_config =
  tsc_host :: string
  tsc_port :: u16
  tsc_enable_h2c :: bool
  tsc_enable_http2 :: bool
  tsc_enable_env_vars :: bool
  tsc_global_headers :: "(string \<times> string) list"

definition test_server_config_default :: test_server_config where
  "test_server_config_default =
     \<lparr>tsc_host = default_proxy_host, tsc_port = default_test_port, tsc_enable_h2c = False,
      tsc_enable_http2 = False, tsc_enable_env_vars = False, tsc_global_headers = []\<rparr>"

section \<open>Initial resources\<close>

record module_spec =
  ms_name :: string
  ms_namespace :: string
  ms_payload :: "string option"
  ms_payload_raw :: "string option"
  ms_payload_file :: "string option"
  ms_module_type :: module_type
  ms_tags :: "string list"

record domain_spec =
  ds_domain :: domain
  ds_cert_file :: "string option"
  ds_key_file :: "string option"

record 'j init_resources =
  ir_skip_validation :: bool
  ir_namespaces :: "namespace list"
  ir_services :: "service list"
  ir_routes :: "route list"
  ir_modules :: "module_spec list"
  ir_domains :: "domain_spec list"
  ir_collections :: "collection list"
  ir_documents :: "'j document list"
  ir_secrets :: "secret list"

definition init_resources_default :: "'j init_resources" where
  "init_resources_default =
     \<lparr>ir_skip_validation = False, ir_namespaces = [], ir_services = [], ir_routes = [],
      ir_modules = [], ir_domains = [], ir_collections = [], ir_documents = [], ir_secrets = []\<rparr>"

record 'j proxy_config =
  pc_host :: string
  pc_port :: u16
  pc_tls :: "tls_config option"
  pc_enable_h2c :: bool
  pc_enable_http2 :: bool
  pc_console_log_level :: string
  pc_redirect_https :: "string list"
  pc_allowed_domains :: "string list"
  pc_global_headers :: "(string \<times> string) list"
  pc_strict_mode :: bool
  pc_disable_x_forwarded_headers :: bool
  pc_x_forwarded_for_depth :: nat
  pc_allow_list :: "string list"
  pc_client_transport :: transport_config
  pc_init_resources :: "'j init_resources option"

definition proxy_config_default :: "'j proxy_config" where
  "proxy_config_default =
     \<lparr>pc_host = default_proxy_host, pc_port = default_proxy_port, pc_tls = None,
      pc_enable_h2c = False, pc_enable_http2 = False,
      pc_console_log_level = default_console_log_level, pc_redirect_https = [],
      pc_allowed_domains = [], pc_global_headers = [], pc_strict_mode = False,
      pc_disable_x_forwarded_headers = False, pc_x_forwarded_for_depth = 0, pc_allow_list = [],
      pc_client_transport = transport_config_default, pc_init_resources = None\<rparr>"

section \<open>Cluster\<close>

datatype cluster_mode = CM_Simple | CM_Raft | CM_Tempo

definition cluster_mode_default :: cluster_mode where "cluster_mode_default = CM_Simple"

record cluster_member =
  cmb_id :: u64
  cmb_addr :: string
  cmb_admin_port :: "u16 option"
  cmb_tls :: bool

datatype discovery_type = DT_Static | DT_Dns

definition discovery_type_default :: discovery_type where "discovery_type_default = DT_Static"

record discovery_config =
  dc_discovery_type :: discovery_type
  dc_dns_name :: "string option"
  dc_dns_port :: u16
  dc_refresh_interval_secs :: u64

definition default_dns_port :: u16 where "default_dns_port = 9090"
definition default_refresh_interval :: u64 where "default_refresh_interval = 30"

definition discovery_config_default :: discovery_config where
  "discovery_config_default =
     \<lparr>dc_discovery_type = discovery_type_default, dc_dns_name = None,
      dc_dns_port = default_dns_port, dc_refresh_interval_secs = default_refresh_interval\<rparr>"

record tempo_config =
  tmc_fast_quorum_size :: "nat option"
  tmc_write_quorum_size :: "nat option"
  tmc_clock_bump_interval_ms :: u64
  tmc_detached_send_interval_ms :: u64
  tmc_gc_interval_ms :: u64
  tmc_skip_fast_ack :: bool

definition default_clock_bump_interval :: u64 where "default_clock_bump_interval = 50"
definition default_detached_send_interval :: u64 where "default_detached_send_interval = 100"
definition default_gc_interval :: u64 where "default_gc_interval = 1000"

definition tempo_config_default :: tempo_config where
  "tempo_config_default =
     \<lparr>tmc_fast_quorum_size = None, tmc_write_quorum_size = None,
      tmc_clock_bump_interval_ms = default_clock_bump_interval,
      tmc_detached_send_interval_ms = default_detached_send_interval,
      tmc_gc_interval_ms = default_gc_interval, tmc_skip_fast_ack = False\<rparr>"

record cluster_config =
  cc_enabled :: bool
  cc_mode :: cluster_mode
  cc_node_id :: u64
  cc_advertise_addr :: string
  cc_bootstrap :: bool
  cc_initial_members :: "cluster_member list"
  cc_discovery :: "discovery_config option"
  cc_tempo :: "tempo_config option"

definition default_node_id :: u64 where "default_node_id = 1"
definition default_advertise_addr :: string where "default_advertise_addr = ''127.0.0.1:9090''"

definition cluster_config_default :: cluster_config where
  "cluster_config_default =
     \<lparr>cc_enabled = False, cc_mode = cluster_mode_default, cc_node_id = default_node_id,
      cc_advertise_addr = default_advertise_addr, cc_bootstrap = False, cc_initial_members = [],
      cc_discovery = None, cc_tempo = None\<rparr>"

section \<open>The configuration and its file\<close>

record 'j dgate_config =
  cfg_version :: string
  cfg_log_level :: string
  cfg_log_json :: bool
  cfg_debug :: bool
  cfg_disable_default_namespace :: bool
  cfg_disable_metrics :: bool
  cfg_tags :: "string list"
  cfg_storage :: "'j storage_config"
  cfg_proxy :: "'j proxy_config"
  cfg_admin :: "admin_config option"
  cfg_test_server :: "test_server_config option"
  cfg_cluster :: "cluster_config option"
  cfg_config_dir :: string

definition default_version :: string where "default_version = ''v1''"
definition default_log_level :: string where "default_log_level = ''info''"

text \<open>
  The world the loader reads: current directory, environment, files, and the parsers.
  \<open>ce_regex\<close> is \<open>Regex::new\<close> of a pattern with \<open>replace_all\<close> of the expression, which takes a function
  of the groups; a panic of that function (None) is one of \<open>replace_all\<close>.
\<close>

record 'j config_env =
  ce_current_dir :: "string + string"
  ce_env_var :: "string \<Rightarrow> string option"
  ce_read_to_string :: "string \<Rightarrow> string + string"
  ce_exists :: "string \<Rightarrow> bool"
  ce_from_yaml :: "string \<Rightarrow> string + 'j dgate_config"
  ce_regex :: "string \<Rightarrow> string + (((nat \<rightharpoonup> string) \<Rightarrow> string option) \<Rightarrow> string \<Rightarrow> string option)"

definition unwrap_or :: "'e + 'a \<Rightarrow> 'a \<Rightarrow> 'a" where
  "unwrap_or r d = (case r of Err _ \<Rightarrow> d | Ok x \<Rightarrow> x)"

definition dgate_config_default :: "'j config_env \<Rightarrow> 'j dgate_config" where
  "dgate_config_default W =
     \<lparr>cfg_version = default_version, cfg_log_level = default_log_level, cfg_log_json = False,
      cfg_debug = False, cfg_disable_default_namespace = False, cfg_disable_metrics = False,
      cfg_tags = [], cfg_storage = storage_config_default, cfg_proxy = proxy_config_default,
      cfg_admin = None, cfg_test_server = None, cfg_cluster = None,
      cfg_config_dir = unwrap_or (ce_current_dir W) []\<rparr>"

text \<open>
  \<open>expand_env_vars\<close>, with the raw string literal of its pattern. None is a panic: of \<open>unwrap\<close>
  when the pattern is not accepted, or of the index into the groups.
\<close>

definition env_pattern :: string where
  "env_pattern = CHR 0x5C # ''$'' @ CHR 0x5C # ''{([^}:]+)(?::-([^}]*))?'' @ CHR 0x5C # ''}''"

definition expand_env_vars :: "'j config_env \<Rightarrow> string \<Rightarrow> string option" where
  "expand_env_vars W content =
     (case ce_regex W env_pattern of
        Err _ \<Rightarrow> None
      | Ok replace_all \<Rightarrow>
          replace_all (\<lambda>caps.
            case caps 1 of
              None \<Rightarrow> None
            | Some var_name \<Rightarrow>
                let default_value = (case caps 2 of Some m \<Rightarrow> m | None \<Rightarrow> [])
                in Some (case ce_env_var W var_name of Some v \<Rightarrow> v | None \<Rightarrow> default_value)) content)"

text \<open>
  \<open>Path::parent\<close> on Unix: without the last component, \<open>None\<close> for the root and the empty
  path. Trailing and repeated separators and \<open>.\<close> components are not components.
\<close>

fun path_trim_rev :: "string list \<Rightarrow> string list" where
  "path_trim_rev (x # y # ys) = (if x = [] \<or> x = ''.'' then path_trim_rev (y # ys) else x # y # ys)"
| "path_trim_rev xs = xs"

definition path_parent :: "string \<Rightarrow> string option" where
  "path_parent p =
     (case path_trim_rev (rev (split_on (CHR ''/'') p)) of
        [] \<Rightarrow> None
      | [x] \<Rightarrow> if x = [] then None else Some []
      | x # ys \<Rightarrow>
          let ys' = path_trim_rev ys
          in Some (if ys' = [[]] then ''/'' else join ''/'' (rev ys')))"

text \<open>\<open>Path::join\<close>: an absolute path replaces the directory.\<close>

definition path_join :: "string \<Rightarrow> string \<Rightarrow> string" where
  "path_join dir p =
     (if starts_with p ''/'' then p
      else if dir = [] then p
      else if last dir = CHR ''/'' then dir @ p
      else dir @ ''/'' @ p)"

text \<open>How loading fails: with an error, or with a panic.\<close>

datatype load_failure = Load_Error string | Load_Panic

definition load_from_file :: "'j config_env \<Rightarrow> string \<Rightarrow> load_failure + 'j dgate_config" where
  "load_from_file W path =
     result_bind (map_err Load_Error (ce_read_to_string W path)) (\<lambda>content.
       case expand_env_vars W content of
         None \<Rightarrow> Err Load_Panic
       | Some content \<Rightarrow>
          result_bind (map_err Load_Error (ce_from_yaml W content)) (\<lambda>config.
            Ok (config\<lparr>cfg_config_dir :=
                  (case path_parent path of
                     Some p \<Rightarrow> p
                   | None \<Rightarrow> unwrap_or (ce_current_dir W) [])\<rparr>)))"

definition config_locations :: "string list" where
  "config_locations = [''config.dgate.yaml'', ''dgate.yaml'', ''/etc/dgate/config.yaml'']"

fun load_first :: "'j config_env \<Rightarrow> string list \<Rightarrow> load_failure + 'j dgate_config" where
  "load_first W [] = Ok (dgate_config_default W)"
| "load_first W (path # paths) =
     (if ce_exists W path then load_from_file W path else load_first W paths)"

definition load_config :: "'j config_env \<Rightarrow> string option \<Rightarrow> load_failure + 'j dgate_config" where
  "load_config W path =
     (case path of
        Some p \<Rightarrow> if p \<noteq> [] then load_from_file W p else load_first W config_locations
      | None \<Rightarrow> load_first W config_locations)"

section \<open>Module payloads\<close>

definition resolve_payload :: "base64 \<Rightarrow> 'j config_env \<Rightarrow> module_spec \<Rightarrow> string \<Rightarrow> string + string" where
  "resolve_payload b W m config_dir =
     (case ms_payload_file m of
        Some file_path \<Rightarrow>
          let full_path = path_join config_dir file_path
          in result_bind
               (map_err (\<lambda>e. ''Failed to read module file '' @ quoted full_path @ '': '' @ e)
                  (ce_read_to_string W full_path))
               (\<lambda>content. Ok (b64_encode b content))
      | None \<Rightarrow>
     (case ms_payload_raw m of
        Some raw \<Rightarrow> Ok (b64_encode b raw)
      | None \<Rightarrow>
     (case ms_payload m of
        Some payload \<Rightarrow> Ok payload
      | None \<Rightarrow>
          Err (''Module '' @ quoted (ms_name m) @
               '' has no payload specified (use payload, payloadRaw, or payloadFile)''))))"

definition to_module :: "base64 \<Rightarrow> 'j config_env \<Rightarrow> module_spec \<Rightarrow> string \<Rightarrow> string + module" where
  "to_module b W m config_dir =
     result_bind (resolve_payload b W m config_dir)
       (\<lambda>payload. Ok \<lparr>md_name = ms_name m, md_namespace = ms_namespace m, md_payload = payload,
                     md_module_type = ms_module_type m, md_tags = ms_tags m\<rparr>)"

section \<open>Environment variables\<close>

text \<open>
  The documented behaviour the loader relies on: \<open>Regex::new\<close> accepts what the engine reads, and
  \<open>replace_all\<close> in an ASCII text is the engine's, for expressions that match no empty text.
\<close>

definition env_regex_ok :: "'j config_env \<Rightarrow> bool" where
  "env_regex_ok W \<longleftrightarrow>
     (\<forall>pattern xs. rx_compile pattern = Ok xs \<longrightarrow> rx_consuming xs \<longrightarrow>
        (\<exists>replace_all. ce_regex W pattern = Ok replace_all \<and>
           (\<forall>f s. ascii s \<longrightarrow> replace_all f s = rx_replace_all xs f 0 s)))"

text \<open>
  What the references in a text are: at each position, the longest name without \<open>}\<close> and \<open>:\<close>,
  then a closing brace or \<open>:-\<close>, a default without \<open>}\<close> and the brace; what is inserted for a
  reference is not scanned again.
\<close>

definition env_match :: "string \<Rightarrow> (string \<times> string option \<times> string) option" where
  "env_match s =
     (if \<not> starts_with s ''${'' then None
      else let body = drop 2 s;
               name = takeWhile (\<lambda>c. c \<noteq> CHR ''}'' \<and> c \<noteq> CHR '':'') body;
               rest = drop (length name) body
           in if name = [] then None
              else if starts_with rest ''}'' then Some (name, None, drop 1 rest)
              else if starts_with rest '':-'' then
                let d = takeWhile (\<lambda>c. c \<noteq> CHR ''}'') (drop 2 rest);
                    rest' = drop (length d) (drop 2 rest)
                in if starts_with rest' ''}'' then Some (name, Some d, drop 1 rest') else None
              else None)"

lemma env_match_shorter: "env_match s = Some (n, d, r) \<Longrightarrow> length r < length s"
proof -
  assume "env_match s = Some (n, d, r)"
  moreover from this obtain t where "s = ''${'' @ t"
    by (auto simp: env_match_def starts_with_iff split: if_splits)
  ultimately show ?thesis by (auto simp: env_match_def Let_def split: if_splits)
qed

function env_replace :: "(string \<Rightarrow> string option \<Rightarrow> string) \<Rightarrow> string \<Rightarrow> string" where
  "env_replace f s =
     (case s of
        [] \<Rightarrow> []
      | c # cs \<Rightarrow>
          (case env_match s of
             Some (n, d, r) \<Rightarrow> f n d @ env_replace f r
           | None \<Rightarrow> c # env_replace f cs))"
  by pat_completeness auto
termination
  by (relation "measure (\<lambda>(f, s). length s)") (auto dest: env_match_shorter)

declare env_replace.simps [simp del]

lemma env_match_var:
  assumes "n \<noteq> []" and "CHR ''}'' \<notin> set n" and "CHR '':'' \<notin> set n"
  shows "env_match (''${'' @ n @ ''}'' @ r) = Some (n, None, r)"
    and "CHR ''}'' \<notin> set d \<Longrightarrow> env_match (''${'' @ n @ '':-'' @ d @ ''}'' @ r) = Some (n, Some d, r)"
proof -
  have "\<forall>c \<in> set n. c \<noteq> CHR ''}'' \<and> c \<noteq> CHR '':''" using assms(2,3) by auto
  then have t: "takeWhile (\<lambda>c. c \<noteq> CHR ''}'' \<and> c \<noteq> CHR '':'') (n @ x # xs) = n"
    if "x = CHR ''}'' \<or> x = CHR '':''" for x xs
    using that by (auto simp: takeWhile_append)
  show "env_match (''${'' @ n @ ''}'' @ r) = Some (n, None, r)"
    using assms(1) by (simp add: env_match_def starts_with_def t)
  assume "CHR ''}'' \<notin> set d"
  then have "\<forall>c \<in> set d. c \<noteq> CHR ''}''" by auto
  then have "takeWhile (\<lambda>c. c \<noteq> CHR ''}'') (d @ CHR ''}'' # r) = d" by (simp add: takeWhile_append)
  then show "env_match (''${'' @ n @ '':-'' @ d @ ''}'' @ r) = Some (n, Some d, r)"
    using assms(1) by (simp add: env_match_def starts_with_def t)
qed

lemma env_match_no_dollar: "c \<noteq> CHR ''$'' \<Longrightarrow> env_match (c # s) = None"
  by (simp add: env_match_def starts_with_def)

lemma env_replace_skip: "CHR ''$'' \<notin> set p \<Longrightarrow> env_replace f (p @ s) = p @ env_replace f s"
proof (induction p)
  case (Cons c p)
  then have "env_match (c # p @ s) = None" by (intro env_match_no_dollar) auto
  with Cons show ?case by (subst env_replace.simps) simp
qed simp

lemma env_replace_Nil [simp]: "env_replace f [] = []"
  by (simp add: env_replace.simps)

lemma env_replace_match:
  "env_match s = Some (n, d, r) \<Longrightarrow> env_replace f s = f n d @ env_replace f r"
  by (subst env_replace.simps) (cases s; simp add: env_match_def starts_with_def)

section \<open>What the expression matches\<close>

definition env_rx :: "rx list" where
  "env_rx =
     [RX_One (CC_Char (CHR ''$'')), RX_One (CC_Char (CHR ''{'')), RX_Group 1 None [RX_Plus (CC_Not ''}:'')],
      RX_Opt [RX_One (CC_Char (CHR '':'')), RX_One (CC_Char (CHR ''-'')), RX_Group 2 None [RX_Star (CC_Not ''}'')]],
      RX_One (CC_Char (CHR ''}''))]"

lemma env_pattern_rx: "rx_compile env_pattern = Ok env_rx" "rx_consuming env_rx"
  by code_simp+

lemma cc_has_in [simp]: "cc_has (CC_Not ''}:'') = (\<lambda>c. c \<noteq> CHR ''}'' \<and> c \<noteq> CHR '':'')" "cc_has (CC_Not ''}'') = (\<lambda>c. c \<noteq> CHR ''}'')"
  by (auto simp: fun_eq_iff)

lemma drop_takeWhile: "drop (length (takeWhile P s)) s = dropWhile P s"
  by (metis dropWhile_eq_drop)

lemma rx_seq_parts:
  "rx_seq (RX_One (CC_Char c) # xs) (i, s, g) =
     (if starts_with s [c] then rx_seq xs (Suc i, drop 1 s, g) else [])"
  "rx_seq (RX_Opt ys # xs) st = concat (map (rx_seq xs) (rx_seq ys st)) @ rx_seq xs st"
  "rx_seq [x] st = rx_ways x st"
proof -
  show "rx_seq (RX_One (CC_Char c) # xs) (i, s, g) =
     (if starts_with s [c] then rx_seq xs (Suc i, drop 1 s, g) else [])"
    by (cases s) (auto simp: starts_with_def)
  have "concat (map (rx_seq []) sts) = sts" for sts by (induction sts) simp_all
  then show "rx_seq [x] st = rx_ways x st" by simp
qed simp

text \<open>Of the ways to cut off a name or a default only the longest can go on.\<close>

lemma first_some_longest:
  assumes "\<And>p r c. P c \<Longrightarrow> f (p, c # r) = None"
  shows "first_some f (greedy_splits P s) = f (takeWhile P s, dropWhile P s)"
proof (rule greedy_splits_longest [of P s])
  fix others
  assume o: "greedy_splits P s = (takeWhile P s, dropWhile P s) # others"
    "\<And>p r. (p, r) \<in> set others \<Longrightarrow> \<exists>c r'. r = c # r' \<and> P c"
  have "first_some f others = None"
    unfolding first_some_None using o(2) assms by fastforce
  with o(1) show ?thesis by (simp split: option.split)
qed

text \<open>The part after the name: the default, if there is one, and the closing brace.\<close>

definition env_tail :: "rx list" where
  "env_tail = drop 3 env_rx"

lemma group_ways:
  "rx_ways (RX_Group k n [RX_Star cc]) (i, s, g) =
     map (\<lambda>(p, r). (i + length p, r, (k, p) # g)) (greedy_splits (cc_has cc) s)"
  "rx_ways (RX_Group k n [RX_Plus cc]) (i, s, g) =
     map (\<lambda>(p, r). (i + length p, r, (k, p) # g)) (filter (\<lambda>(p, r). p \<noteq> []) (greedy_splits (cc_has cc) s))"
proof -
  have take: "take (length p) s = p" if "(p, r) \<in> set (greedy_splits P s)" for p r P
    using that by (auto simp: set_greedy_splits)
  show "rx_ways (RX_Group k n [RX_Star cc]) (i, s, g) =
      map (\<lambda>(p, r). (i + length p, r, (k, p) # g)) (greedy_splits (cc_has cc) s)"
    using take by (auto simp: rx_seq_parts(3) simp del: rx_seq.simps)
  show "rx_ways (RX_Group k n [RX_Plus cc]) (i, s, g) =
      map (\<lambda>(p, r). (i + length p, r, (k, p) # g)) (filter (\<lambda>(p, r). p \<noteq> []) (greedy_splits (cc_has cc) s))"
    using take by (auto simp: rx_seq_parts(3) simp del: rx_seq.simps)
qed

lemma env_tail_first:
  "first_way (rx_seq env_tail (i, s, g)) =
     (if starts_with s ''}'' then Some (Suc i, drop 1 s, g)
      else if starts_with s '':-'' \<and> starts_with (dropWhile (\<lambda>c. c \<noteq> CHR ''}'') (drop 2 s)) ''}''
      then Some (i + 3 + length (takeWhile (\<lambda>c. c \<noteq> CHR ''}'') (drop 2 s)),
                 drop 1 (dropWhile (\<lambda>c. c \<noteq> CHR ''}'') (drop 2 s)),
                 (2, takeWhile (\<lambda>c. c \<noteq> CHR ''}'') (drop 2 s)) # g)
      else None)"
proof -
  let ?d = "drop 2 s" and ?k = "Suc (Suc i)"
  let ?f = "\<lambda>(p, r). if starts_with r ''}'' then Some (Suc (?k + length p), drop 1 r, (2 :: nat, p) # g) else None"
  have "first_some ?f (greedy_splits (\<lambda>c. c \<noteq> CHR ''}'') ?d) =
      ?f (takeWhile (\<lambda>c. c \<noteq> CHR ''}'') ?d, dropWhile (\<lambda>c. c \<noteq> CHR ''}'') ?d)"
    by (rule first_some_longest) (simp add: starts_with_def)
  moreover have "first_way (concat (map (rx_seq [RX_One (CC_Char (CHR ''}''))])
      (rx_ways (RX_Group 2 None [RX_Star (CC_Not ''}'')]) (?k, ?d, g)))) =
      first_some ?f (greedy_splits (\<lambda>c. c \<noteq> CHR ''}'') ?d)"
    unfolding group_ways first_way_concat first_some_map cc_has_in
    by (rule first_some_cong) (auto simp: rx_seq_parts(1) simp del: rx_seq.simps(2))
  moreover have "starts_with s '':-'' \<longleftrightarrow> starts_with s '':'' \<and> starts_with (drop 1 s) ''-''"
    by (cases s; cases "drop 1 s") (auto simp: starts_with_def)
  moreover have "\<not> (starts_with s '':'' \<and> starts_with s ''}'')" by (cases s) (auto simp: starts_with_def)
  ultimately show ?thesis
    by (auto simp: env_tail_def env_rx_def rx_seq_parts(1,2) rx_seq_parts(3) [of "RX_Group k n ys" for k n ys]
        first_way_append numeral_2_eq_2 [symmetric] simp del: rx_ways.simps rx_seq.simps(2))
qed

lemma env_rx_first:
  "map_option snd (first_way (rx_seq env_rx (i, s, []))) =
     map_option (\<lambda>(n, d, r). (r, (case d of Some d \<Rightarrow> [(2, d)] | None \<Rightarrow> []) @ [(1, n)])) (env_match s)"
proof (cases "starts_with s ''${''")
  case False
  then have "rx_seq env_rx (i, s, []) = []"
    by (cases s; cases "drop 1 s") (auto simp: env_rx_def starts_with_def rx_seq_parts(1) simp del: rx_seq.simps(2))
  with False show ?thesis by (simp add: env_match_def)
next
  case True
  let ?body = "drop 2 s" and ?k = "Suc (Suc i)" and ?P = "\<lambda>c. c \<noteq> CHR ''}'' \<and> c \<noteq> CHR '':''"
  let ?f = "\<lambda>(p, r). if p = [] then None else first_way (rx_seq env_tail (?k + length p, r, [(1, p)]))"
  have "starts_with s ''$''" "starts_with (drop 1 s) ''{''" "drop 1 (drop 1 s) = ?body"
    using True by (auto simp: starts_with_iff)
  then have ways: "rx_seq env_rx (i, s, []) =
      rx_seq (RX_Group 1 None [RX_Plus (CC_Not ''}:'')] # env_tail) (?k, ?body, [])"
    unfolding env_rx_def env_tail_def by (simp add: rx_seq_parts(1) del: rx_seq.simps(2))
  have "first_way (rx_seq env_rx (i, s, [])) = first_some ?f (greedy_splits ?P ?body)"
    unfolding ways rx_seq.simps(2) group_ways first_way_concat first_some_map first_some_filter cc_has_in
    by (rule first_some_cong) (simp add: case_prod_unfold)
  also have "\<dots> = ?f (takeWhile ?P ?body, dropWhile ?P ?body)"
    by (rule first_some_longest) (simp add: env_tail_first starts_with_def)
  finally show ?thesis
    using True by (simp add: env_tail_first env_match_def Let_def drop_takeWhile del: drop_drop)
qed

lemma rx_replace_env:
  "rx_replace_all env_rx (\<lambda>caps. case caps 1 of None \<Rightarrow> None | Some n \<Rightarrow> Some (f n (caps 2))) i s =
     Some (env_replace f s)"
proof (induction "length s" arbitrary: i s rule: less_induct)
  case less
  show ?case
  proof (cases "rx_seq env_rx (i, s, [])")
    case Nil
    with env_rx_first [of i s] have "env_match s = None" by simp
    then show ?thesis
      using less Nil by (cases s) (simp_all add: rx_replace_all.simps env_replace.simps)
  next
    case (Cons st sts)
    with env_rx_first [of i s] obtain n d r j where m: "env_match s = Some (n, d, r)"
      "st = (j, r, (case d of Some d \<Rightarrow> [(2, d)] | None \<Rightarrow> []) @ [(1, n)])"
      by (cases st; cases "env_match s") auto
    have shorter: "length r < length s" by (rule env_match_shorter [OF m(1)])
    have groups: "rx_groups s st 1 = Some n" "rx_groups s st 2 = d"
      by (cases d; simp add: m(2) rx_groups_def)+
    have "rx_replace_all env_rx (\<lambda>caps. case caps 1 of None \<Rightarrow> None | Some n \<Rightarrow> Some (f n (caps 2))) i s =
        map_option (\<lambda>t. f n d @ t)
          (rx_replace_all env_rx (\<lambda>caps. case caps 1 of None \<Rightarrow> None | Some n \<Rightarrow> Some (f n (caps 2))) j r)"
      using Cons shorter groups unfolding m(2) by (subst rx_replace_all.simps) simp
    with less [OF shorter] env_replace_match [OF m(1)] show ?thesis by simp
  qed
qed

lemma expand_env_vars_spec:
  assumes "env_regex_ok W" and "ascii s"
  shows "expand_env_vars W s =
    Some (env_replace (\<lambda>n d. case ce_env_var W n of Some v \<Rightarrow> v | None \<Rightarrow> (case d of Some d \<Rightarrow> d | None \<Rightarrow> [])) s)"
proof -
  obtain replace_all where "ce_regex W env_pattern = Ok replace_all"
    "\<And>f. replace_all f s = rx_replace_all env_rx f 0 s"
    using assms env_pattern_rx unfolding env_regex_ok_def by blast
  then show ?thesis
    unfolding expand_env_vars_def Let_def
    using rx_replace_env [of "\<lambda>n d. case ce_env_var W n of Some v \<Rightarrow> v | None \<Rightarrow> (case d of Some d \<Rightarrow> d | None \<Rightarrow> [])" 0 s]
    by simp
qed

section \<open>Properties\<close>

text \<open>
  C38. \<open>expand_env_vars\<close> never panics. It leaves ASCII text without a dollar sign alone, and
  replaces \<open>${N}\<close> by the variable or nothing and \<open>${N:-d}\<close> by the variable or \<open>d\<close>; what it inserts is
  not expanded again, and the text after the reference is expanded in the same way. The
  crate enters only through what it documents of regular expressions in general: that the
  pattern in the code means this is proved.
\<close>

theorem expand_env_vars_replaces:
  assumes "env_regex_ok W" and "CHR ''$'' \<notin> set pre" and "ascii (pre @ n @ d @ rest)"
    and "n \<noteq> []" and "CHR ''}'' \<notin> set n" and "CHR '':'' \<notin> set n" and "CHR ''}'' \<notin> set d"
  shows "expand_env_vars W pre = Some pre \<and>
         (\<exists>expanded. expand_env_vars W rest = Some expanded \<and>
            expand_env_vars W (pre @ ''${'' @ n @ ''}'' @ rest) =
              Some (pre @ (case ce_env_var W n of Some v \<Rightarrow> v | None \<Rightarrow> []) @ expanded) \<and>
            expand_env_vars W (pre @ ''${'' @ n @ '':-'' @ d @ ''}'' @ rest) =
              Some (pre @ (case ce_env_var W n of Some v \<Rightarrow> v | None \<Rightarrow> d) @ expanded))"
  using assms(3) env_replace_skip [OF assms(2)] env_replace_skip [OF assms(2), of _ "[]"]
    env_replace_match [OF env_match_var(1) [OF assms(4-6)]]
    env_replace_match [OF env_match_var(2) [OF assms(4-7)]]
  by (simp add: expand_env_vars_spec [OF assms(1)] split: option.split)

definition sample_config_env :: "string config_env" where
  "sample_config_env =
     \<lparr>ce_current_dir = Ok ''/work'',
      ce_env_var = (\<lambda>v. if v = ''HOST'' then Some ''${X}'' else None),
      ce_read_to_string = (\<lambda>p. if p = ''/etc/dgate/m.js'' then Ok ''code'' else Err ''no such file''),
      ce_exists = (\<lambda>p. p = ''dgate.yaml''),
      ce_from_yaml = (\<lambda>_. Err ''bad yaml''),
      ce_regex = (\<lambda>pattern. result_bind (rx_compile pattern) (\<lambda>xs. Ok (\<lambda>f s. rx_replace_all xs f 0 s)))\<rparr>"

lemma sample_config_regex: "env_regex_ok sample_config_env"
  by (simp add: env_regex_ok_def sample_config_env_def)

theorem expand_env_vars_replaces_witness:
  "expand_env_vars sample_config_env (''a: '' @ ''${'' @ ''HOST'' @ '':-'' @ ''x'' @ ''}'' @ '' b'') = Some ''a: ${X} b''"
proof -
  note ex = expand_env_vars_replaces [OF sample_config_regex]
  have "expand_env_vars sample_config_env '' b'' = Some '' b''"
    using ex [of "'' b''" "''n''" "''d''" "[]"] by simp
  then show ?thesis using ex [of "''a: ''" "''HOST''" "''x''" "'' b''"] by (simp add: sample_config_env_def)
qed

text \<open>
  A module specification is resolved in the order file, raw text, base64 payload: the
  decoded payload of the module is the text of the file or the raw text, the base64 payload is
  taken as it is, and an unreadable file or a specification without payload is an error even
  when a source of lower priority is given.
\<close>

lemma to_module_priority:
  assumes "base64_ok b"
  shows "(\<forall>file. ms_payload_file m = Some file \<longrightarrow>
            (case ce_read_to_string W (path_join dir file) of
               Ok text \<Rightarrow> (\<exists>md. to_module b W m dir = Ok md \<and> md_name md = ms_name m \<and>
                               decode_payload b md = Ok (from_utf8_lossy text))
             | Err e \<Rightarrow> \<not> is_ok (to_module b W m dir))) \<and>
         (\<forall>raw. ms_payload_file m = None \<longrightarrow> ms_payload_raw m = Some raw \<longrightarrow>
            (\<exists>md. to_module b W m dir = Ok md \<and> decode_payload b md = Ok (from_utf8_lossy raw))) \<and>
         (\<forall>p. ms_payload_file m = None \<longrightarrow> ms_payload_raw m = None \<longrightarrow> ms_payload m = Some p \<longrightarrow>
            map_err (\<lambda>_. ()) (to_module b W m dir) =
              Ok \<lparr>md_name = ms_name m, md_namespace = ms_namespace m, md_payload = p,
                  md_module_type = ms_module_type m, md_tags = ms_tags m\<rparr>) \<and>
         (ms_payload_file m = None \<longrightarrow> ms_payload_raw m = None \<longrightarrow> ms_payload m = None \<longrightarrow>
            \<not> is_ok (to_module b W m dir))"
proof -
  have d: "decode_payload b md = Ok (from_utf8_lossy t)" if "md_payload md = b64_encode b t" for md t
    using assms that by (simp add: decode_payload_def base64_ok_def)
  show ?thesis
    by (auto simp: to_module_def resolve_payload_def Let_def intro!: d split: sum.splits)
qed

definition identity_base64 :: base64 where
  "identity_base64 = \<lparr>b64_encode = (\<lambda>x. x), b64_decode = Ok\<rparr>"

lemma identity_base64_ok: "base64_ok identity_base64"
  by (simp add: base64_ok_def identity_base64_def)

text \<open>
  \<open>load\<close> with a non-empty path reads that file, otherwise the first of the three
  locations that exists, and falls back to the defaults only when none exists; a file that
  exists but can not be read or parsed is an error. A loaded configuration has the directory
  of its file as \<open>config_dir\<close>.
\<close>

lemma load_config_order:
  "(\<forall>p. p \<noteq> [] \<longrightarrow> load_config W (Some p) = load_from_file W p) \<and>
   load_config W (Some []) = load_config W None \<and>
   (\<forall>before p after. config_locations = before @ p # after \<longrightarrow> ce_exists W p \<longrightarrow>
      (\<forall>q \<in> set before. \<not> ce_exists W q) \<longrightarrow> load_config W None = load_from_file W p) \<and>
   ((\<forall>p \<in> set config_locations. \<not> ce_exists W p) \<longrightarrow>
      load_config W None = Ok (dgate_config_default W)) \<and>
   (\<forall>p c. load_from_file W p = Ok c \<longrightarrow> path_parent p \<noteq> None \<longrightarrow>
      cfg_config_dir c = the (path_parent p))"
proof -
  have first: "load_first W (before @ p # after) = load_from_file W p"
    if "ce_exists W p" "\<forall>q \<in> set before. \<not> ce_exists W q" for before p after
    using that by (induction before) simp_all
  have none: "load_first W ps = Ok (dgate_config_default W)" if "\<forall>p \<in> set ps. \<not> ce_exists W p" for ps
    using that by (induction ps) simp_all
  have dir: "cfg_config_dir c = the (path_parent p)"
    if "load_from_file W p = Ok c" "path_parent p \<noteq> None" for p c
    using that by (auto simp: load_from_file_def result_bind_eq_Ok split: option.splits)
  have loc: "load_first W config_locations = load_from_file W p"
    if "config_locations = before @ p # after" "ce_exists W p" "\<forall>q \<in> set before. \<not> ce_exists W q"
    for before p after
    unfolding that(1) by (rule first [OF that(2,3)])
  show ?thesis using loc none dir by (auto simp: load_config_def)
qed

end
