(* ===== verification/Tempo_State.thy ===== *)
theory Tempo_State
  imports Storage Config
begin

text \<open>
  The command table of a Tempo node, \<open>src/cluster/tempo/state.rs\<close>. A \<open>HashMap\<close> is the
  association list of its entries with distinct keys; where the code iterates over one in an
  order that can be seen (garbage collection), the order is an argument. \<open>usize\<close> counts are
  natural numbers, \<open>u64\<close> counters are words.
\<close>

section \<open>State\<close>

record dot =
  dot_node_id :: u64
  dot_sequence :: u64

definition dot_new :: "u64 \<Rightarrow> u64 \<Rightarrow> dot" where
  "dot_new node_id sequence = \<lparr>dot_node_id = node_id, dot_sequence = sequence\<rparr>"

datatype command_status = Collecting | Committed | Applied

record 'j command_info =
  ci_dot :: dot
  ci_changelog :: "'j changelog"
  ci_clock :: u64
  ci_status :: command_status
  ci_acks :: "(u64 \<times> u64) list"
  ci_committed :: bool

definition command_info_new :: "dot \<Rightarrow> 'j changelog \<Rightarrow> u64 \<Rightarrow> 'j command_info" where
  "command_info_new dot changelog clock =
     \<lparr>ci_dot = dot, ci_changelog = changelog, ci_clock = clock, ci_status = Collecting,
      ci_acks = [], ci_committed = False\<rparr>"

definition ci_add_ack :: "u64 \<Rightarrow> u64 \<Rightarrow> 'j command_info \<Rightarrow> 'j command_info" where
  "ci_add_ack node_id clock c = c\<lparr>ci_acks := AList.update node_id clock (ci_acks c)\<rparr>"

definition has_fast_quorum :: "'j command_info \<Rightarrow> nat \<Rightarrow> bool" where
  "has_fast_quorum c quorum = (quorum \<le> length (ci_acks c))"

definition acks_agree :: "'j command_info \<Rightarrow> bool" where
  "acks_agree c =
     (case ci_acks c of
        [] \<Rightarrow> False
      | (_, first) # _ \<Rightarrow> list_all (\<lambda>(_, clk). clk = first) (ci_acks c))"

record 'j tempo_state =
  ts_node_id :: u64
  ts_fast_quorum_size :: nat
  ts_write_quorum_size :: nat
  ts_commands :: "(dot \<times> 'j command_info) list"
  ts_committed_dots :: "dot set"
  ts_committed_count :: u64
  ts_last_applied :: u64

definition tempo_state_new :: "u64 \<Rightarrow> nat \<Rightarrow> nat \<Rightarrow> 'j tempo_state" where
  "tempo_state_new node_id fast_quorum_size write_quorum_size =
     \<lparr>ts_node_id = node_id, ts_fast_quorum_size = fast_quorum_size,
      ts_write_quorum_size = write_quorum_size, ts_commands = [], ts_committed_dots = {},
      ts_committed_count = 0, ts_last_applied = 0\<rparr>"

section \<open>Operations\<close>

definition get_command :: "'j tempo_state \<Rightarrow> dot \<Rightarrow> 'j command_info option" where
  "get_command st d = map_of (ts_commands st) d"

definition add_command :: "dot \<Rightarrow> 'j changelog \<Rightarrow> u64 \<Rightarrow> 'j tempo_state \<Rightarrow> 'j tempo_state" where
  "add_command d changelog clock st =
     (case get_command st d of
        Some _ \<Rightarrow> st
      | None \<Rightarrow> st\<lparr>ts_commands := (d, command_info_new d changelog clock) # ts_commands st\<rparr>)"

definition add_ack :: "dot \<Rightarrow> u64 \<Rightarrow> u64 \<Rightarrow> 'j tempo_state \<Rightarrow> bool \<times> 'j tempo_state" where
  "add_ack d node_id clock st =
     (case get_command st d of
        Some cmd \<Rightarrow>
          let cmd = ci_add_ack node_id clock cmd
          in (ts_fast_quorum_size st \<le> length (ci_acks cmd) \<and> \<not> ci_committed cmd,
              st\<lparr>ts_commands := AList.update d cmd (ts_commands st)\<rparr>)
      | None \<Rightarrow> (False, st))"

definition has_quorum :: "'j tempo_state \<Rightarrow> dot \<Rightarrow> bool" where
  "has_quorum st d =
     (case get_command st d of
        Some cmd \<Rightarrow> ts_fast_quorum_size st \<le> length (ci_acks cmd) \<and> \<not> ci_committed cmd
      | None \<Rightarrow> False)"

definition mark_committed :: "dot \<Rightarrow> 'j tempo_state \<Rightarrow> 'j tempo_state" where
  "mark_committed d st =
     (case get_command st d of
        Some cmd \<Rightarrow>
          if \<not> ci_committed cmd then
            let cmd = cmd\<lparr>ci_committed := True, ci_status := Committed\<rparr>;
                st = st\<lparr>ts_commands := AList.update d cmd (ts_commands st),
                        ts_committed_dots := insert d (ts_committed_dots st),
                        ts_committed_count := ts_committed_count st + 1\<rparr>
            in if dot_node_id d = ts_node_id st
               then st\<lparr>ts_last_applied := max (ts_last_applied st) (dot_sequence d)\<rparr>
               else st
          else st
      | None \<Rightarrow>
          st\<lparr>ts_committed_dots := insert d (ts_committed_dots st),
             ts_committed_count := ts_committed_count st + 1\<rparr>)"

definition is_committed :: "'j tempo_state \<Rightarrow> dot \<Rightarrow> bool" where
  "is_committed st d = (d \<in> ts_committed_dots st)"

definition committed_count :: "'j tempo_state \<Rightarrow> u64" where
  "committed_count st = ts_committed_count st"

definition pending_count :: "'j tempo_state \<Rightarrow> nat" where
  "pending_count st = length (filter (\<lambda>(_, c). \<not> ci_committed c) (ts_commands st))"

definition last_applied_sequence :: "'j tempo_state \<Rightarrow> u64" where
  "last_applied_sequence st = ts_last_applied st"

text \<open>\<open>order\<close> is the iteration order of the map; \<open>sort_by_key\<close> is stable.\<close>

definition gc :: "nat list \<Rightarrow> nat \<Rightarrow> 'j tempo_state \<Rightarrow> 'j tempo_state" where
  "gc order keep_recent st =
     (if length (ts_commands st) \<le> keep_recent then st
      else let to_remove = map fst (filter (\<lambda>(_, cmd). ci_committed cmd) (reorder order (ts_commands st)));
               to_remove = sort_key dot_sequence to_remove;
               remove_count = length to_remove - keep_recent
           in st\<lparr>ts_commands := fold AList.delete (take remove_count to_remove) (ts_commands st)\<rparr>)"

section \<open>Invariant\<close>

text \<open>
  Keys are distinct and name their command, nodes are counted once among the
  acknowledgements, and the committed flag, the status and the set of committed dots agree.
\<close>

definition command_wf :: "dot \<Rightarrow> 'j command_info \<Rightarrow> bool" where
  "command_wf d c \<longleftrightarrow>
     ci_dot c = d \<and> distinct (map fst (ci_acks c)) \<and>
     ci_status c = (if ci_committed c then Committed else Collecting)"

definition ts_inv :: "'j tempo_state \<Rightarrow> bool" where
  "ts_inv st \<longleftrightarrow>
     distinct (map fst (ts_commands st)) \<and>
     (\<forall>d c. get_command st d = Some c \<longrightarrow> command_wf d c \<and> (ci_committed c \<longrightarrow> d \<in> ts_committed_dots st))"

lemma ts_invD:
  assumes "ts_inv st"
  shows "distinct (map fst (ts_commands st))"
    and "get_command st d = Some c \<Longrightarrow> command_wf d c"
    and "get_command st d = Some c \<Longrightarrow> ci_committed c \<Longrightarrow> d \<in> ts_committed_dots st"
  using assms by (auto simp: ts_inv_def)

lemma ts_inv_new: "ts_inv (tempo_state_new n f w)"
  by (simp add: ts_inv_def tempo_state_new_def get_command_def)

lemma get_command_add_command:
  "get_command (add_command d cl clk st) e =
     (if e = d \<and> get_command st d = None then Some (command_info_new d cl clk) else get_command st e)"
  by (auto simp: add_command_def get_command_def split: option.splits)

lemma get_command_add_ack:
  "get_command (snd (add_ack d n clk st)) e =
     (if e = d then map_option (ci_add_ack n clk) (get_command st d) else get_command st e)"
  by (auto simp: add_ack_def get_command_def Let_def update_conv' split: option.splits)

lemma get_command_mark_committed:
  "get_command (mark_committed d st) e =
     (if e = d then map_option (\<lambda>c. if ci_committed c then c else c\<lparr>ci_committed := True, ci_status := Committed\<rparr>)
        (get_command st d)
      else get_command st e)"
  by (auto simp: mark_committed_def get_command_def Let_def update_conv' split: option.splits)

lemma committed_dots_frame [state_simps]:
  "ts_committed_dots (add_command d cl clk st) = ts_committed_dots st"
  "ts_committed_dots (snd (add_ack d n clk st)) = ts_committed_dots st"
  "ts_committed_dots (gc order keep st) = ts_committed_dots st"
  by (auto simp: add_command_def add_ack_def gc_def Let_def split: option.splits)

lemma quorum_sizes_frame [state_simps]:
  "ts_fast_quorum_size (add_command d cl clk st) = ts_fast_quorum_size st"
  "ts_fast_quorum_size (snd (add_ack d n clk st)) = ts_fast_quorum_size st"
  "ts_fast_quorum_size (mark_committed d st) = ts_fast_quorum_size st"
  "ts_fast_quorum_size (gc order keep st) = ts_fast_quorum_size st"
  by (auto simp: add_command_def add_ack_def mark_committed_def gc_def Let_def split: option.splits)

lemma keys_add_command:
  "distinct (map fst (ts_commands st)) \<Longrightarrow> distinct (map fst (ts_commands (add_command d cl clk st)))"
  by (auto simp: add_command_def get_command_def map_of_eq_None_iff split: option.splits)

lemma keys_add_ack:
  "distinct (map fst (ts_commands st)) \<Longrightarrow> distinct (map fst (ts_commands (snd (add_ack d n clk st))))"
  by (auto simp: add_ack_def Let_def distinct_update split: option.splits)

lemma keys_mark_committed:
  "distinct (map fst (ts_commands st)) \<Longrightarrow> distinct (map fst (ts_commands (mark_committed d st)))"
  by (auto simp: mark_committed_def Let_def distinct_update split: option.splits)

lemma is_committed_mark: "ts_committed_dots (mark_committed d st) \<supseteq> ts_committed_dots st"
  by (auto simp: mark_committed_def Let_def split: option.splits)

lemma mark_committed_dots:
  "ts_inv st \<Longrightarrow> ts_committed_dots (mark_committed d st) = insert d (ts_committed_dots st)"
  by (auto simp: mark_committed_def Let_def dest: ts_invD(3) split: option.splits)

lemma command_wf_new: "command_wf d (command_info_new d cl clk)"
  by (simp add: command_wf_def command_info_new_def)

lemma command_wf_add_ack: "command_wf d c \<Longrightarrow> command_wf d (ci_add_ack n clk c)"
  by (simp add: command_wf_def ci_add_ack_def distinct_update)

lemma ci_add_ack_sel [simp]:
  "ci_committed (ci_add_ack n clk c) = ci_committed c"
  "ci_changelog (ci_add_ack n clk c) = ci_changelog c"
  "ci_clock (ci_add_ack n clk c) = ci_clock c"
  by (simp_all add: ci_add_ack_def)

lemma command_info_new_sel [simp]:
  "ci_dot (command_info_new d cl clk) = d"
  "ci_committed (command_info_new d cl clk) = False"
  "ci_changelog (command_info_new d cl clk) = cl"
  "ci_clock (command_info_new d cl clk) = clk"
  "ci_acks (command_info_new d cl clk) = []"
  by (simp_all add: command_info_new_def)

lemma ts_inv_add_command: "ts_inv st \<Longrightarrow> ts_inv (add_command d cl clk st)"
  unfolding ts_inv_def [of "add_command d cl clk st"]
  using keys_add_command [of st d cl clk]
  by (auto simp: get_command_add_command state_simps command_wf_new
      dest: ts_invD split: if_splits)

lemma ts_inv_add_ack: "ts_inv st \<Longrightarrow> ts_inv (snd (add_ack d n clk st))"
  unfolding ts_inv_def [of "snd (add_ack d n clk st)"]
  using keys_add_ack [of st d n clk]
  by (auto simp: get_command_add_ack state_simps command_wf_add_ack dest: ts_invD split: if_splits)

lemma ts_inv_mark_committed: "ts_inv st \<Longrightarrow> ts_inv (mark_committed d st)"
  unfolding ts_inv_def [of "mark_committed d st"]
  using keys_mark_committed [of st d]
  by (auto simp: get_command_mark_committed mark_committed_dots command_wf_def
      dest: ts_invD split: if_splits)

lemma add_ack_has_quorum: "has_quorum (snd (add_ack d n clk st)) d = fst (add_ack d n clk st)"
proof (cases "get_command st d")
  case None
  then show ?thesis by (simp add: has_quorum_def get_command_add_ack) (simp add: add_ack_def)
next
  case (Some c)
  show ?thesis
    by (simp add: has_quorum_def get_command_add_ack Some state_simps) (simp add: add_ack_def Some Let_def)
qed

section \<open>Garbage collection\<close>

lemma map_of_fold_delete:
  "map_of (fold AList.delete ks al) k = (if k \<in> set ks then None else map_of al k)"
  by (induction ks arbitrary: al) (auto simp: delete_conv')

lemma keys_fold_delete:
  "distinct (map fst al) \<Longrightarrow> distinct (map fst (fold AList.delete ks al))"
  by (induction ks arbitrary: al) (simp_all add: distinct_delete)

definition gc_victims :: "nat list \<Rightarrow> nat \<Rightarrow> 'j tempo_state \<Rightarrow> dot list" where
  "gc_victims order keep st =
     (if length (ts_commands st) \<le> keep then []
      else let cs = sort_key dot_sequence (map fst (filter (\<lambda>(_, c). ci_committed c) (reorder order (ts_commands st))))
           in take (length cs - keep) cs)"

lemma get_command_gc:
  "get_command (gc order keep st) d =
     (if d \<in> set (gc_victims order keep st) then None else get_command st d)"
  by (simp add: gc_def get_command_def gc_victims_def Let_def map_of_fold_delete)

lemma ts_inv_gc: "ts_inv st \<Longrightarrow> ts_inv (gc order keep st)"
proof -
  assume inv: "ts_inv st"
  have "distinct (map fst (ts_commands (gc order keep st)))"
    using ts_invD(1) [OF inv] by (simp add: gc_def Let_def keys_fold_delete)
  with inv show ?thesis
    by (auto simp: ts_inv_def [of "gc order keep st"] get_command_gc state_simps dest: ts_invD split: if_splits)
qed

lemma gc_candidates:
  assumes "ts_inv st"
  shows "set (map fst (filter (\<lambda>(_, c). ci_committed c) (reorder order (ts_commands st)))) =
      {d. \<exists>c. get_command st d = Some c \<and> ci_committed c}"
    and "distinct (map fst (filter (\<lambda>(_, c). ci_committed c) (reorder order (ts_commands st))))"
proof -
  have d: "distinct (map fst (ts_commands st))" by (rule ts_invD(1) [OF assms])
  have s: "set (reorder order (ts_commands st)) = set (ts_commands st)"
    by (metis mset_reorder set_mset_mset)
  show "set (map fst (filter (\<lambda>(_, c). ci_committed c) (reorder order (ts_commands st)))) =
      {d. \<exists>c. get_command st d = Some c \<and> ci_committed c}"
    using d by (force simp: s get_command_def map_of_eq_Some_iff)
  show "distinct (map fst (filter (\<lambda>(_, c). ci_committed c) (reorder order (ts_commands st))))"
    using d by (simp add: distinct_keys_filter distinct_keys_reorder)
qed

lemma gc_victims_oldest:
  assumes inv: "ts_inv st" and v: "v \<in> set (gc_victims order keep st)"
  shows "\<exists>c. get_command st v = Some c \<and> ci_committed c"
    and "get_command st d = Some c \<Longrightarrow> ci_committed c \<Longrightarrow> d \<notin> set (gc_victims order keep st) \<Longrightarrow>
      dot_sequence v \<le> dot_sequence d"
proof -
  let ?l = "map fst (filter (\<lambda>(_, c). ci_committed c) (reorder order (ts_commands st)))"
  let ?cs = "sort_key dot_sequence ?l"
  have vic: "gc_victims order keep st = take (length ?cs - keep) ?cs"
    using v by (auto simp: gc_victims_def Let_def split: if_splits)
  from v vic have "v \<in> set ?cs" by (metis in_set_takeD)
  then show "\<exists>c. get_command st v = Some c \<and> ci_committed c"
    using gc_candidates(1) [OF inv, of order] by auto
  assume "get_command st d = Some c" "ci_committed c" "d \<notin> set (gc_victims order keep st)"
  then have "d \<in> set ?cs" using gc_candidates(1) [OF inv, of order] by auto
  moreover have "?cs = take (length ?cs - keep) ?cs @ drop (length ?cs - keep) ?cs" by simp
  ultimately have dd: "d \<in> set (drop (length ?cs - keep) ?cs)"
    using \<open>d \<notin> set (gc_victims order keep st)\<close> vic by (metis Un_iff set_append)
  have "sorted (map dot_sequence (take (length ?cs - keep) ?cs @ drop (length ?cs - keep) ?cs))"
    by simp
  with v vic dd show "dot_sequence v \<le> dot_sequence d"
    unfolding map_append sorted_append by auto
qed

lemma gc_kept_count:
  assumes "ts_inv st" and "\<not> length (ts_commands st) \<le> keep"
  shows "card {d. \<exists>c. get_command (gc order keep st) d = Some c \<and> ci_committed c} =
    min keep (card {d. \<exists>c. get_command st d = Some c \<and> ci_committed c})"
proof -
  let ?l = "map fst (filter (\<lambda>(_, c). ci_committed c) (reorder order (ts_commands st)))"
  let ?cs = "sort_key dot_sequence ?l"
  let ?C = "{d. \<exists>c. get_command st d = Some c \<and> ci_committed c}"
  have vic: "gc_victims order keep st = take (length ?cs - keep) ?cs"
    using assms(2) by (simp add: gc_victims_def Let_def)
  have setC: "set ?cs = ?C" using gc_candidates(1) [OF assms(1), of order] by simp
  have dist: "distinct ?cs" using gc_candidates(2) [OF assms(1), of order] by simp
  have card: "card ?C = length ?cs" unfolding setC [symmetric] by (rule distinct_card [OF dist])
  have "{d. \<exists>c. get_command (gc order keep st) d = Some c \<and> ci_committed c} =
      ?C - set (take (length ?cs - keep) ?cs)"
    by (auto simp: get_command_gc vic split: if_splits)
  moreover have "set (take (length ?cs - keep) ?cs) \<subseteq> ?C"
    using set_take_subset setC by metis
  moreover have "card (set (take (length ?cs - keep) ?cs)) = length ?cs - keep"
    using dist by (simp add: distinct_card)
  ultimately have "card {d. \<exists>c. get_command (gc order keep st) d = Some c \<and> ci_committed c} =
      length ?cs - (length ?cs - keep)"
    using card by (simp add: card_Diff_subset)
  then show ?thesis using card by (simp add: min_def)
qed

section \<open>Properties\<close>

text \<open>
  C24. For a tracked command, \<open>add_ack\<close> reports that it can be committed exactly when it is
  not committed yet and the distinct nodes that have acknowledged it, this one included,
  reach the fast quorum: a node that acknowledges twice counts once. It agrees with
  \<open>has_quorum\<close> afterwards and keeps the table well formed.
\<close>

theorem add_ack_quorum:
  assumes "ts_inv st" and "get_command st d = Some c"
  shows "(fst (add_ack d n clk st) \<longleftrightarrow>
            \<not> ci_committed c \<and> ts_fast_quorum_size st \<le> card (insert n (fst ` set (ci_acks c)))) \<and>
         has_quorum (snd (add_ack d n clk st)) d = fst (add_ack d n clk st) \<and>
         ts_inv (snd (add_ack d n clk st))"
proof -
  have d: "distinct (map fst (ci_acks c))"
    using ts_invD(2) [OF assms] by (simp add: command_wf_def)
  have "length (ci_acks (ci_add_ack n clk c)) = card (fst ` set (AList.update n clk (ci_acks c)))"
    using distinct_update [OF d, of n clk]
    by (metis ci_add_ack_def command_info.select_convs(5) command_info.surjective command_info.update_convs(5)
        distinct_card length_map set_map)
  also have "fst ` set (AList.update n clk (ci_acks c)) = insert n (fst ` set (ci_acks c))"
    by (simp add: dom_update)
  finally have len: "length (ci_acks (ci_add_ack n clk c)) = card (insert n (fst ` set (ci_acks c)))" .
  note add_ack_has_quorum [of d n clk st]
  moreover have "fst (add_ack d n clk st) \<longleftrightarrow>
      \<not> ci_committed c \<and> ts_fast_quorum_size st \<le> card (insert n (fst ` set (ci_acks c)))"
    using len by (auto simp: add_ack_def assms(2) Let_def)
  ultimately show ?thesis using ts_inv_add_ack [OF assms(1)] by blast
qed

definition sample_log :: "string changelog" where
  "sample_log =
     \<lparr>cl_id = ''id'', cl_cmd = DeleteNamespace, cl_namespace = ''ns'', cl_name = ''ns'', cl_item = [],
      cl_timestamp = 0\<rparr>"

theorem add_ack_quorum_witness:
  "fst (add_ack (dot_new 1 1) 2 7 (snd (add_ack (dot_new 1 1) 1 7
     (add_command (dot_new 1 1) sample_log 7 (tempo_state_new 1 2 2))))) \<and>
   \<not> fst (add_ack (dot_new 1 1) 1 8 (snd (add_ack (dot_new 1 1) 1 7
     (add_command (dot_new 1 1) sample_log 7 (tempo_state_new 1 2 2)))))"
proof -
  let ?d = "dot_new 1 1"
  let ?st = "snd (add_ack ?d 1 7 (add_command ?d sample_log 7 (tempo_state_new 1 2 2)))"
  have inv: "ts_inv ?st" by (intro ts_inv_add_ack ts_inv_add_command ts_inv_new)
  have c: "get_command ?st ?d = Some (ci_add_ack 1 7 (command_info_new ?d sample_log 7))"
    by (simp add: get_command_add_ack get_command_add_command)
      (simp add: get_command_def tempo_state_new_def)
  have q: "ts_fast_quorum_size ?st = 2" by (simp add: state_simps) (simp add: tempo_state_new_def)
  have a: "fst ` set (ci_acks (ci_add_ack 1 7 (command_info_new ?d sample_log 7))) = {1}"
    by (simp add: ci_add_ack_def)
  from add_ack_quorum [OF inv c, of 2 7] add_ack_quorum [OF inv c, of 1 8] show ?thesis
    by (simp add: q a)
qed

text \<open>
  C31. Garbage collection only removes committed commands, the oldest sequence numbers
  first, in whatever order the map is iterated: every command it removes is committed and not
  newer than any committed command it keeps, commands that are not committed stay, at most
  \<open>keep_recent\<close> committed ones are left when the table was larger, and a removed command
  still counts as committed.
\<close>

theorem gc_removes_oldest_committed:
  assumes "ts_inv st"
  shows "ts_inv (gc order keep st) \<and>
         (\<forall>d. get_command (gc order keep st) d \<noteq> get_command st d \<longrightarrow>
            get_command (gc order keep st) d = None \<and> is_committed (gc order keep st) d \<and>
            (\<exists>c. get_command st d = Some c \<and> ci_committed c) \<and>
            (\<forall>e c. get_command (gc order keep st) e = Some c \<longrightarrow> ci_committed c \<longrightarrow>
               dot_sequence d \<le> dot_sequence e)) \<and>
         (keep < length (ts_commands st) \<longrightarrow>
            card {d. \<exists>c. get_command (gc order keep st) d = Some c \<and> ci_committed c} =
              min keep (card {d. \<exists>c. get_command st d = Some c \<and> ci_committed c}))"
proof -
  have v: "d \<in> set (gc_victims order keep st)" if "get_command (gc order keep st) d \<noteq> get_command st d" for d
    using that by (auto simp: get_command_gc split: if_splits)
  have "get_command (gc order keep st) d = None \<and> is_committed (gc order keep st) d \<and>
      (\<exists>c. get_command st d = Some c \<and> ci_committed c) \<and>
      (\<forall>e c. get_command (gc order keep st) e = Some c \<longrightarrow> ci_committed c \<longrightarrow> dot_sequence d \<le> dot_sequence e)"
    if "get_command (gc order keep st) d \<noteq> get_command st d" for d
  proof (intro conjI allI impI)
    note d = v [OF that]
    show "get_command (gc order keep st) d = None" using d by (simp add: get_command_gc)
    obtain c where c: "get_command st d = Some c" "ci_committed c"
      using gc_victims_oldest(1) [OF assms d] by blast
    then show "\<exists>c. get_command st d = Some c \<and> ci_committed c" by blast
    show "is_committed (gc order keep st) d"
      using ts_invD(3) [OF assms c] by (simp add: is_committed_def state_simps)
    show "dot_sequence d \<le> dot_sequence e"
      if "get_command (gc order keep st) e = Some c" "ci_committed c" for e c
      using gc_victims_oldest(2) [OF assms d] that by (auto simp: get_command_gc split: if_splits)
  qed
  with ts_inv_gc [OF assms] gc_kept_count [OF assms] show ?thesis by (simp add: not_le)
qed

theorem gc_removes_oldest_committed_witness:
  "is_committed (gc [1, 0] 1
     (mark_committed (dot_new 1 1) (add_command (dot_new 1 1) sample_log 7
     (mark_committed (dot_new 1 2) (add_command (dot_new 1 2) sample_log 8 (tempo_state_new 1 2 2)))))) (dot_new 1 1) \<and>
   get_command (gc [1, 0] 1
     (mark_committed (dot_new 1 1) (add_command (dot_new 1 1) sample_log 7
     (mark_committed (dot_new 1 2) (add_command (dot_new 1 2) sample_log 8 (tempo_state_new 1 2 2)))))) (dot_new 1 1) = None"
proof -
  let ?st = "mark_committed (dot_new 1 1) (add_command (dot_new 1 1) sample_log 7
     (mark_committed (dot_new 1 2) (add_command (dot_new 1 2) sample_log 8 (tempo_state_new 1 2 2))))"
  have inv: "ts_inv ?st" by (intro ts_inv_mark_committed ts_inv_add_command ts_inv_new)
  have g: "get_command (gc [1, 0] 1 ?st) (dot_new 1 1) = None" by code_simp
  have s: "get_command ?st (dot_new 1 1) \<noteq> None" by code_simp
  have ne: "get_command (gc [1, 0] 1 ?st) (dot_new 1 1) \<noteq> get_command ?st (dot_new 1 1)"
    unfolding g using s by metis
  have "is_committed (gc [1, 0] 1 ?st) (dot_new 1 1)"
    using conjunct1 [OF conjunct2 [OF gc_removes_oldest_committed [OF inv, of "[1, 0]" 1]], rule_format, OF ne]
    by blast
  with g show ?thesis by blast
qed

text \<open>
  Marking a tracked command committed is done once: the second time changes nothing.
  A command the node does not track is counted every time it is marked, so the counter is
  not the number of committed commands.
\<close>

lemma mark_committed_counts:
  assumes "ts_inv st"
  shows "(get_command st d \<noteq> None \<longrightarrow>
            mark_committed d (mark_committed d st) = mark_committed d st \<and>
            is_committed (mark_committed d st) d \<and> ts_inv (mark_committed d st)) \<and>
         (get_command st d = None \<longrightarrow>
            committed_count (mark_committed d (mark_committed d st)) = committed_count st + 2 \<and>
            ts_committed_dots (mark_committed d (mark_committed d st)) = insert d (ts_committed_dots st))"
proof -
  have g: "get_command (mark_committed d st) d = None" if "get_command st d = None"
    using that by (simp add: get_command_mark_committed)
  have "mark_committed d (mark_committed d st) = mark_committed d st" if "get_command st d = Some c" for c
  proof -
    have "\<exists>c'. get_command (mark_committed d st) d = Some c' \<and> ci_committed c'"
      using that by (auto simp: get_command_mark_committed)
    then show ?thesis by (auto simp: mark_committed_def [of d "mark_committed d st"])
  qed
  moreover have "is_committed (mark_committed d st) d"
    by (simp add: is_committed_def mark_committed_dots [OF assms])
  moreover have "committed_count (mark_committed d (mark_committed d st)) = committed_count st + 2"
    if "get_command st d = None"
    using that g [OF that]
    by (simp add: mark_committed_def [of d "mark_committed d st"] committed_count_def)
      (simp add: mark_committed_def)
  moreover have "ts_committed_dots (mark_committed d (mark_committed d st)) = insert d (ts_committed_dots st)"
    using mark_committed_dots assms ts_inv_mark_committed by auto
  ultimately show ?thesis using ts_inv_mark_committed [OF assms] by auto
qed

end
