(* ===== verification/Sample_Serde.thy ===== *)
theory Sample_Serde
  imports Resources
begin

text \<open>
  A concrete instance of the \<open>serde\<close> parameter, to show that the hypothesis \<open>serde_ok\<close> of
  the properties can hold and to give their witnesses something to run on. A JSON value is its
  text, and the text of a value is a length-prefixed encoding built from coders that satisfy
  \<open>lawful\<close>. It is not serde_json's format; nothing but \<open>serde_ok\<close> is used of it.
\<close>

type_synonym 'a coder = "('a \<Rightarrow> bytes) \<times> (bytes \<Rightarrow> ('a \<times> bytes) option)"

definition lawful :: "'a coder \<Rightarrow> bool" where
  "lawful c \<longleftrightarrow> (\<forall>x r. snd c (fst c x @ r) = Some (x, r))"

lemma lawfulD: "lawful c \<Longrightarrow> snd c (fst c x @ r) = Some (x, r)"
  by (simp add: lawful_def)

fun dec_nat :: "bytes \<Rightarrow> (nat \<times> bytes) option" where
  "dec_nat [] = None"
| "dec_nat (c # cs) =
     (if c = CHR ''0'' then Some (0, cs) else map_option (\<lambda>(n, r). (Suc n, r)) (dec_nat cs))"

definition nat_coder :: "nat coder" where
  "nat_coder = (\<lambda>n. replicate n (CHR ''1'') @ ''0'', dec_nat)"

definition char_coder :: "char coder" where
  "char_coder = (\<lambda>c. [c], \<lambda>bs. case bs of [] \<Rightarrow> None | c # r \<Rightarrow> Some (c, r))"

definition iso_coder :: "('a \<Rightarrow> 'b) \<Rightarrow> ('b \<Rightarrow> 'a) \<Rightarrow> 'b coder \<Rightarrow> 'a coder" where
  "iso_coder f g c = (\<lambda>x. fst c (f x), \<lambda>bs. map_option (\<lambda>(y, r). (g y, r)) (snd c bs))"

definition pair_coder :: "'a coder \<Rightarrow> 'b coder \<Rightarrow> ('a \<times> 'b) coder" where
  "pair_coder c d =
     (\<lambda>(x, y). fst c x @ fst d y,
      \<lambda>bs. case snd c bs of None \<Rightarrow> None
           | Some (x, r) \<Rightarrow> map_option (\<lambda>(y, r'). ((x, y), r')) (snd d r))"

fun dec_times :: "(bytes \<Rightarrow> ('a \<times> bytes) option) \<Rightarrow> nat \<Rightarrow> bytes \<Rightarrow> ('a list \<times> bytes) option" where
  "dec_times d 0 bs = Some ([], bs)"
| "dec_times d (Suc n) bs =
     (case d bs of None \<Rightarrow> None
      | Some (x, r) \<Rightarrow> map_option (\<lambda>(xs, r'). (x # xs, r')) (dec_times d n r))"

definition list_coder :: "'a coder \<Rightarrow> 'a list coder" where
  "list_coder c =
     (\<lambda>xs. fst nat_coder (length xs) @ concat (map (fst c) xs),
      \<lambda>bs. case dec_nat bs of None \<Rightarrow> None | Some (n, r) \<Rightarrow> dec_times (snd c) n r)"

definition bool_coder :: "bool coder" where
  "bool_coder = iso_coder (\<lambda>b. if b then 1 else 0 :: nat) (\<lambda>n. n = 1) nat_coder"

definition option_coder :: "'a coder \<Rightarrow> 'a option coder" where
  "option_coder c =
     iso_coder (\<lambda>x. case x of None \<Rightarrow> [] | Some y \<Rightarrow> [y])
       (\<lambda>xs. case xs of [] \<Rightarrow> None | y # _ \<Rightarrow> Some y) (list_coder c)"

definition int_coder :: "int coder" where
  "int_coder = iso_coder (\<lambda>i. (i < 0, nat \<bar>i\<bar>)) (\<lambda>(s, n). if s then - int n else int n)
     (pair_coder bool_coder nat_coder)"

definition word_coder :: "('w::len) word coder" where
  "word_coder = iso_coder unat word_of_nat nat_coder"

abbreviation string_coder :: "string coder" where "string_coder \<equiv> list_coder char_coder"
abbreviation strings_coder :: "string list coder" where "strings_coder \<equiv> list_coder string_coder"

named_theorems lawful_coders \<open>coders that satisfy their law\<close>

lemma dec_nat_replicate: "dec_nat (replicate n (CHR ''1'') @ CHR ''0'' # r) = Some (n, r)"
  by (induction n) simp_all

lemma lawful_nat [lawful_coders]: "lawful nat_coder"
  by (simp add: lawful_def nat_coder_def dec_nat_replicate)

lemma lawful_char [lawful_coders]: "lawful char_coder"
  by (simp add: lawful_def char_coder_def)

lemma lawful_iso:
  assumes "lawful c" and "\<And>x. g (f x) = x"
  shows "lawful (iso_coder f g c)"
  using assms by (simp add: lawful_def iso_coder_def)

lemma lawful_pair [lawful_coders]: "lawful c \<Longrightarrow> lawful d \<Longrightarrow> lawful (pair_coder c d)"
  by (simp add: lawful_def pair_coder_def)

lemma dec_times_enc: "lawful c \<Longrightarrow> dec_times (snd c) (length xs) (concat (map (fst c) xs) @ r) = Some (xs, r)"
  by (induction xs) (simp_all add: lawfulD)

lemma lawful_list [lawful_coders]: "lawful c \<Longrightarrow> lawful (list_coder c)"
  by (simp add: lawful_def list_coder_def nat_coder_def dec_nat_replicate dec_times_enc)

lemma lawful_bool [lawful_coders]: "lawful bool_coder"
  unfolding bool_coder_def by (rule lawful_iso) (auto intro: lawful_nat)

lemma lawful_option [lawful_coders]: "lawful c \<Longrightarrow> lawful (option_coder c)"
  unfolding option_coder_def by (rule lawful_iso) (auto intro: lawful_list split: option.splits)

lemma lawful_int [lawful_coders]: "lawful int_coder"
  unfolding int_coder_def by (rule lawful_iso) (auto intro: lawful_pair lawful_bool lawful_nat)

lemma lawful_word [lawful_coders]: "lawful word_coder"
  unfolding word_coder_def by (rule lawful_iso) (auto intro: lawful_nat)

section \<open>Coders of the resources\<close>

definition namespace_coder :: "namespace coder" where
  "namespace_coder =
     iso_coder (\<lambda>n. (ns_name n, ns_tags n)) (\<lambda>(a, b). \<lparr>ns_name = a, ns_tags = b\<rparr>)
       (pair_coder string_coder strings_coder)"

definition route_coder :: "route coder" where
  "route_coder =
     iso_coder
       (\<lambda>x. ((rt_name x, rt_namespace x, rt_paths x, rt_methods x, rt_strip_path x),
             rt_preserve_host x, rt_service x, rt_modules x, rt_tags x))
       (\<lambda>((a, b, c, d, e), f, g, h, i).
          \<lparr>rt_name = a, rt_namespace = b, rt_paths = c, rt_methods = d, rt_strip_path = e,
           rt_preserve_host = f, rt_service = g, rt_modules = h, rt_tags = i\<rparr>)
       (pair_coder
         (pair_coder string_coder (pair_coder string_coder (pair_coder strings_coder
           (pair_coder strings_coder bool_coder))))
         (pair_coder bool_coder (pair_coder (option_coder string_coder)
           (pair_coder strings_coder strings_coder))))"

definition service_coder :: "service coder" where
  "service_coder =
     iso_coder
       (\<lambda>x. ((svc_name x, svc_namespace x, svc_urls x, svc_retries x),
             (svc_retry_timeout_ms x, svc_connect_timeout_ms x, svc_request_timeout_ms x),
             svc_tls_skip_verify x, svc_http2_only x, svc_hide_dgate_headers x,
             svc_disable_query_params x, svc_tags x))
       (\<lambda>((a, b, c, d), (e, f, g), h, i, j, k, l).
          \<lparr>svc_name = a, svc_namespace = b, svc_urls = c, svc_retries = d,
           svc_retry_timeout_ms = e, svc_connect_timeout_ms = f, svc_request_timeout_ms = g,
           svc_tls_skip_verify = h, svc_http2_only = i, svc_hide_dgate_headers = j,
           svc_disable_query_params = k, svc_tags = l\<rparr>)
       (pair_coder
         (pair_coder string_coder (pair_coder string_coder (pair_coder strings_coder
           (option_coder word_coder))))
         (pair_coder
           (pair_coder (option_coder word_coder) (pair_coder (option_coder word_coder)
             (option_coder word_coder)))
           (pair_coder bool_coder (pair_coder bool_coder (pair_coder bool_coder
             (pair_coder bool_coder strings_coder))))))"

definition module_coder :: "module coder" where
  "module_coder =
     iso_coder
       (\<lambda>x. (md_name x, md_namespace x, md_payload x, md_module_type x = Typescript, md_tags x))
       (\<lambda>(a, b, c, d, e).
          \<lparr>md_name = a, md_namespace = b, md_payload = c,
           md_module_type = (if d then Typescript else Javascript), md_tags = e\<rparr>)
       (pair_coder string_coder (pair_coder string_coder (pair_coder string_coder
         (pair_coder bool_coder strings_coder))))"

definition domain_coder :: "domain coder" where
  "domain_coder =
     iso_coder
       (\<lambda>x. (dom_name x, dom_namespace x, dom_patterns x, dom_priority x, dom_cert x, dom_key x,
             dom_tags x))
       (\<lambda>(a, b, c, d, e, f, g).
          \<lparr>dom_name = a, dom_namespace = b, dom_patterns = c, dom_priority = d, dom_cert = e,
           dom_key = f, dom_tags = g\<rparr>)
       (pair_coder string_coder (pair_coder string_coder (pair_coder strings_coder
         (pair_coder int_coder (pair_coder string_coder (pair_coder string_coder
           strings_coder))))))"

definition secret_coder :: "secret coder" where
  "secret_coder =
     iso_coder
       (\<lambda>x. (sec_name x, sec_namespace x, sec_data x, sec_tags x, sec_created_at x,
             sec_updated_at x))
       (\<lambda>(a, b, c, d, e, f).
          \<lparr>sec_name = a, sec_namespace = b, sec_data = c, sec_tags = d, sec_created_at = e,
           sec_updated_at = f\<rparr>)
       (pair_coder string_coder (pair_coder string_coder (pair_coder string_coder
         (pair_coder strings_coder (pair_coder int_coder int_coder)))))"

definition collection_coder :: "collection coder" where
  "collection_coder =
     iso_coder (\<lambda>x. (col_name x, col_namespace x, is_public (col_visibility x), col_tags x))
       (\<lambda>(a, b, c, d).
          \<lparr>col_name = a, col_namespace = b, col_visibility = (if c then Public else Private),
           col_tags = d\<rparr>)
       (pair_coder string_coder (pair_coder string_coder (pair_coder bool_coder strings_coder)))"

definition document_coder :: "string document coder" where
  "document_coder =
     iso_coder
       (\<lambda>x. (doc_id x, doc_namespace x, doc_collection x, doc_data x, doc_created_at x,
             doc_updated_at x))
       (\<lambda>(a, b, c, d, e, f).
          \<lparr>doc_id = a, doc_namespace = b, doc_collection = c, doc_data = d, doc_created_at = e,
           doc_updated_at = f\<rparr>)
       (pair_coder string_coder (pair_coder string_coder (pair_coder string_coder
         (pair_coder string_coder (pair_coder int_coder int_coder)))))"

fun cmd_index :: "change_command \<Rightarrow> nat" where
  "cmd_index AddNamespace = 0" | "cmd_index DeleteNamespace = 1"
| "cmd_index AddRoute = 2" | "cmd_index DeleteRoute = 3"
| "cmd_index AddService = 4" | "cmd_index DeleteService = 5"
| "cmd_index AddModule = 6" | "cmd_index DeleteModule = 7"
| "cmd_index AddDomain = 8" | "cmd_index DeleteDomain = 9"
| "cmd_index AddSecret = 10" | "cmd_index DeleteSecret = 11"
| "cmd_index AddCollection = 12" | "cmd_index DeleteCollection = 13"
| "cmd_index AddDocument = 14" | "cmd_index DeleteDocument = 15"

definition changelog_coder :: "string changelog coder" where
  "changelog_coder =
     iso_coder
       (\<lambda>x. (cl_id x, cmd_index (cl_cmd x), cl_namespace x, cl_name x, cl_item x, cl_timestamp x))
       (\<lambda>(a, b, c, d, e, f).
          \<lparr>cl_id = a, cl_cmd = (enum_class.enum :: change_command list) ! b, cl_namespace = c,
           cl_name = d, cl_item = e, cl_timestamp = f\<rparr>)
       (pair_coder string_coder (pair_coder nat_coder (pair_coder string_coder
         (pair_coder string_coder (pair_coder string_coder int_coder)))))"

lemma cmd_index_enum: "(enum_class.enum :: change_command list) ! cmd_index c = c"
  by (cases c) (simp_all add: enum_change_command_def)

lemma lawful_namespace [lawful_coders]: "lawful namespace_coder"
  unfolding namespace_coder_def by (rule lawful_iso) (simp_all add: lawful_coders)

lemma lawful_route [lawful_coders]: "lawful route_coder"
  unfolding route_coder_def by (rule lawful_iso) (simp_all add: lawful_coders)

lemma lawful_service [lawful_coders]: "lawful service_coder"
  unfolding service_coder_def by (rule lawful_iso) (simp_all add: lawful_coders)

lemma module_type_flag: "(if t = Typescript then Typescript else Javascript) = t"
  by (cases t) simp_all

lemma lawful_module [lawful_coders]: "lawful module_coder"
  unfolding module_coder_def by (rule lawful_iso) (simp_all add: lawful_coders module_type_flag)

lemma lawful_domain [lawful_coders]: "lawful domain_coder"
  unfolding domain_coder_def by (rule lawful_iso) (simp_all add: lawful_coders)

lemma lawful_secret [lawful_coders]: "lawful secret_coder"
  unfolding secret_coder_def by (rule lawful_iso) (simp_all add: lawful_coders)

lemma visibility_flag: "(if is_public v then Public else Private) = v"
  by (cases v) simp_all

lemma lawful_collection [lawful_coders]: "lawful collection_coder"
  unfolding collection_coder_def by (rule lawful_iso) (simp_all add: lawful_coders visibility_flag)

lemma lawful_document [lawful_coders]: "lawful document_coder"
  unfolding document_coder_def by (rule lawful_iso) (simp_all add: lawful_coders)

lemma lawful_changelog [lawful_coders]: "lawful changelog_coder"
  unfolding changelog_coder_def by (rule lawful_iso) (simp_all add: lawful_coders cmd_index_enum)

section \<open>The instance\<close>

definition run_coder :: "('a \<Rightarrow> bool) \<Rightarrow> 'a coder \<Rightarrow> bytes \<Rightarrow> string + 'a" where
  "run_coder good c bs =
     (case snd c bs of
        Some (x, []) \<Rightarrow> (if good x then Ok x else Err ''missing field'')
      | _ \<Rightarrow> Err ''invalid value'')"

definition coder_codec :: "('a \<Rightarrow> bool) \<Rightarrow> 'a coder \<Rightarrow> (string, 'a) codec" where
  "coder_codec good c =
     \<lparr>to_value = (\<lambda>x. Ok (fst c x)), from_value = run_coder good c,
      to_vec = (\<lambda>x. Ok (fst c x)), from_slice = run_coder good c\<rparr>"

definition sample_serde :: "string serde" where
  "sample_serde =
     \<lparr>sd_null = ''null'',
      sd_namespace = coder_codec (\<lambda>_. True) namespace_coder,
      sd_route = coder_codec (\<lambda>_. True) route_coder,
      sd_service = coder_codec (\<lambda>_. True) service_coder,
      sd_module = coder_codec (\<lambda>_. True) module_coder,
      sd_domain = coder_codec (\<lambda>_. True) domain_coder,
      sd_secret = coder_codec (\<lambda>s. sec_data s \<noteq> []) secret_coder,
      sd_collection = coder_codec (\<lambda>_. True) collection_coder,
      sd_document = coder_codec (\<lambda>_. True) document_coder,
      sd_changelog = coder_codec (\<lambda>_. True) changelog_coder\<rparr>"

lemma run_coder_enc: "lawful c \<Longrightarrow> good x \<Longrightarrow> run_coder good c (fst c x) = Ok x"
  using lawfulD [of c x "[]"] by (simp add: run_coder_def)

lemma coder_codec_ok: "lawful c \<Longrightarrow> codec_ok good (coder_codec good c)"
  by (simp add: codec_ok_def coder_codec_def run_coder_enc)

lemma sample_serde_ok: "serde_ok sample_serde"
  by (simp add: serde_ok_def sample_serde_def coder_codec_ok lawful_coders)

end
