(* ===== verification/Proxy_Store.thy ===== *)
theory Proxy_Store
  imports Storage Sample_Serde
begin

text \<open>
  \<open>ProxyStore\<close> of \<open>src/storage/mod.rs\<close>: typed resource operations over any \<open>Storage\<close>.
  A \<open>proxy_store\<close> holds the vtable of the storage and the \<open>serde\<close> parameter; the
  storage state is passed explicitly. The lemmas say what each typed operation does to the
  abstract content, when a typed read returns what a typed write stored, and that the listing
  of a namespace is the resources of that namespace when no namespace name has a colon.
\<close>

record ('s, 'j) proxy_store =
  ps_storage :: "'s storage"
  ps_serde :: "'j serde"

definition TBL_NAMESPACES :: string where "TBL_NAMESPACES = ''namespaces''"
definition TBL_ROUTES :: string where "TBL_ROUTES = ''routes''"
definition TBL_SERVICES :: string where "TBL_SERVICES = ''services''"
definition TBL_MODULES :: string where "TBL_MODULES = ''modules''"
definition TBL_DOMAINS :: string where "TBL_DOMAINS = ''domains''"
definition TBL_SECRETS :: string where "TBL_SECRETS = ''secrets''"
definition TBL_COLLECTIONS :: string where "TBL_COLLECTIONS = ''collections''"
definition TBL_DOCUMENTS :: string where "TBL_DOCUMENTS = ''documents''"
definition TBL_CHANGELOGS :: string where "TBL_CHANGELOGS = ''changelogs''"

lemmas tbl_defs = TBL_NAMESPACES_def TBL_ROUTES_def TBL_SERVICES_def TBL_MODULES_def
  TBL_DOMAINS_def TBL_SECRETS_def TBL_COLLECTIONS_def TBL_DOCUMENTS_def TBL_CHANGELOGS_def

section \<open>Keys\<close>

definition scoped_key :: "string \<Rightarrow> string \<Rightarrow> string" where
  "scoped_key namespace name = namespace @ '':'' @ name"

definition document_key :: "string \<Rightarrow> string \<Rightarrow> string \<Rightarrow> string" where
  "document_key namespace collection docid = namespace @ '':'' @ collection @ '':'' @ docid"

section \<open>Generic typed access\<close>

definition get_typed ::
  "('j, 't) codec \<Rightarrow> ('s, 'j) proxy_store \<Rightarrow> 's \<Rightarrow> string \<Rightarrow> string \<Rightarrow> storage_error + 't option" where
  "get_typed c P s table key =
     result_bind (st_get (ps_storage P) s table key)
       (\<lambda>found. case found of
              Some data \<Rightarrow>
                result_bind (map_err SE_Serialization (from_slice c data)) (\<lambda>item. Ok (Some item))
            | None \<Rightarrow> Ok None)"

definition set_typed ::
  "('j, 't) codec \<Rightarrow> ('s, 'j) proxy_store \<Rightarrow> 's \<Rightarrow> string \<Rightarrow> string \<Rightarrow> 't \<Rightarrow> (storage_error + unit) \<times> 's" where
  "set_typed c P s table key value =
     (case map_err SE_Serialization (to_vec c value) of
        Err e \<Rightarrow> (Err e, s)
      | Ok data \<Rightarrow> st_set (ps_storage P) s table key data)"

definition list_typed ::
  "('j, 't) codec \<Rightarrow> ('s, 'j) proxy_store \<Rightarrow> 's \<Rightarrow> string \<Rightarrow> string \<Rightarrow> storage_error + 't list" where
  "list_typed c P s table pre =
     result_bind (st_list (ps_storage P) s table pre)
       (\<lambda>items. collect_results (map (\<lambda>(_, data). map_err SE_Serialization (from_slice c data)) items))"

section \<open>Namespaces\<close>

definition get_namespace ::
  "('s, 'j) proxy_store \<Rightarrow> 's \<Rightarrow> string \<Rightarrow> storage_error + namespace option" where
  "get_namespace P s name = get_typed (sd_namespace (ps_serde P)) P s TBL_NAMESPACES name"

definition set_namespace ::
  "('s, 'j) proxy_store \<Rightarrow> 's \<Rightarrow> namespace \<Rightarrow> (storage_error + unit) \<times> 's" where
  "set_namespace P s ns =
     set_typed (sd_namespace (ps_serde P)) P s TBL_NAMESPACES (ns_name ns) ns"

definition delete_namespace ::
  "('s, 'j) proxy_store \<Rightarrow> 's \<Rightarrow> string \<Rightarrow> (storage_error + unit) \<times> 's" where
  "delete_namespace P s name = st_delete (ps_storage P) s TBL_NAMESPACES name"

definition list_namespaces :: "('s, 'j) proxy_store \<Rightarrow> 's \<Rightarrow> storage_error + namespace list" where
  "list_namespaces P s = list_typed (sd_namespace (ps_serde P)) P s TBL_NAMESPACES []"

section \<open>Routes\<close>

definition get_route ::
  "('s, 'j) proxy_store \<Rightarrow> 's \<Rightarrow> string \<Rightarrow> string \<Rightarrow> storage_error + route option" where
  "get_route P s namespace name =
     get_typed (sd_route (ps_serde P)) P s TBL_ROUTES (scoped_key namespace name)"

definition set_route ::
  "('s, 'j) proxy_store \<Rightarrow> 's \<Rightarrow> route \<Rightarrow> (storage_error + unit) \<times> 's" where
  "set_route P s x =
     set_typed (sd_route (ps_serde P)) P s TBL_ROUTES
       (scoped_key (rt_namespace x) (rt_name x)) x"

definition delete_route ::
  "('s, 'j) proxy_store \<Rightarrow> 's \<Rightarrow> string \<Rightarrow> string \<Rightarrow> (storage_error + unit) \<times> 's" where
  "delete_route P s namespace name =
     st_delete (ps_storage P) s TBL_ROUTES (scoped_key namespace name)"

definition list_routes ::
  "('s, 'j) proxy_store \<Rightarrow> 's \<Rightarrow> string \<Rightarrow> storage_error + route list" where
  "list_routes P s namespace =
     list_typed (sd_route (ps_serde P)) P s TBL_ROUTES (namespace @ '':'')"

definition list_all_routes :: "('s, 'j) proxy_store \<Rightarrow> 's \<Rightarrow> storage_error + route list" where
  "list_all_routes P s = list_typed (sd_route (ps_serde P)) P s TBL_ROUTES []"

section \<open>Services\<close>

definition get_service ::
  "('s, 'j) proxy_store \<Rightarrow> 's \<Rightarrow> string \<Rightarrow> string \<Rightarrow> storage_error + service option" where
  "get_service P s namespace name =
     get_typed (sd_service (ps_serde P)) P s TBL_SERVICES (scoped_key namespace name)"

definition set_service ::
  "('s, 'j) proxy_store \<Rightarrow> 's \<Rightarrow> service \<Rightarrow> (storage_error + unit) \<times> 's" where
  "set_service P s x =
     set_typed (sd_service (ps_serde P)) P s TBL_SERVICES
       (scoped_key (svc_namespace x) (svc_name x)) x"

definition delete_service ::
  "('s, 'j) proxy_store \<Rightarrow> 's \<Rightarrow> string \<Rightarrow> string \<Rightarrow> (storage_error + unit) \<times> 's" where
  "delete_service P s namespace name =
     st_delete (ps_storage P) s TBL_SERVICES (scoped_key namespace name)"

definition list_services ::
  "('s, 'j) proxy_store \<Rightarrow> 's \<Rightarrow> string \<Rightarrow> storage_error + service list" where
  "list_services P s namespace =
     list_typed (sd_service (ps_serde P)) P s TBL_SERVICES (namespace @ '':'')"

section \<open>Modules\<close>

definition get_module ::
  "('s, 'j) proxy_store \<Rightarrow> 's \<Rightarrow> string \<Rightarrow> string \<Rightarrow> storage_error + module option" where
  "get_module P s namespace name =
     get_typed (sd_module (ps_serde P)) P s TBL_MODULES (scoped_key namespace name)"

definition set_module ::
  "('s, 'j) proxy_store \<Rightarrow> 's \<Rightarrow> module \<Rightarrow> (storage_error + unit) \<times> 's" where
  "set_module P s x =
     set_typed (sd_module (ps_serde P)) P s TBL_MODULES
       (scoped_key (md_namespace x) (md_name x)) x"

definition delete_module ::
  "('s, 'j) proxy_store \<Rightarrow> 's \<Rightarrow> string \<Rightarrow> string \<Rightarrow> (storage_error + unit) \<times> 's" where
  "delete_module P s namespace name =
     st_delete (ps_storage P) s TBL_MODULES (scoped_key namespace name)"

definition list_modules ::
  "('s, 'j) proxy_store \<Rightarrow> 's \<Rightarrow> string \<Rightarrow> storage_error + module list" where
  "list_modules P s namespace =
     list_typed (sd_module (ps_serde P)) P s TBL_MODULES (namespace @ '':'')"

section \<open>Domains\<close>

definition get_domain ::
  "('s, 'j) proxy_store \<Rightarrow> 's \<Rightarrow> string \<Rightarrow> string \<Rightarrow> storage_error + domain option" where
  "get_domain P s namespace name =
     get_typed (sd_domain (ps_serde P)) P s TBL_DOMAINS (scoped_key namespace name)"

definition set_domain ::
  "('s, 'j) proxy_store \<Rightarrow> 's \<Rightarrow> domain \<Rightarrow> (storage_error + unit) \<times> 's" where
  "set_domain P s x =
     set_typed (sd_domain (ps_serde P)) P s TBL_DOMAINS
       (scoped_key (dom_namespace x) (dom_name x)) x"

definition delete_domain ::
  "('s, 'j) proxy_store \<Rightarrow> 's \<Rightarrow> string \<Rightarrow> string \<Rightarrow> (storage_error + unit) \<times> 's" where
  "delete_domain P s namespace name =
     st_delete (ps_storage P) s TBL_DOMAINS (scoped_key namespace name)"

definition list_domains ::
  "('s, 'j) proxy_store \<Rightarrow> 's \<Rightarrow> string \<Rightarrow> storage_error + domain list" where
  "list_domains P s namespace =
     list_typed (sd_domain (ps_serde P)) P s TBL_DOMAINS (namespace @ '':'')"

definition list_all_domains :: "('s, 'j) proxy_store \<Rightarrow> 's \<Rightarrow> storage_error + domain list" where
  "list_all_domains P s = list_typed (sd_domain (ps_serde P)) P s TBL_DOMAINS []"

section \<open>Secrets\<close>

definition get_secret ::
  "('s, 'j) proxy_store \<Rightarrow> 's \<Rightarrow> string \<Rightarrow> string \<Rightarrow> storage_error + secret option" where
  "get_secret P s namespace name =
     get_typed (sd_secret (ps_serde P)) P s TBL_SECRETS (scoped_key namespace name)"

definition set_secret ::
  "('s, 'j) proxy_store \<Rightarrow> 's \<Rightarrow> secret \<Rightarrow> (storage_error + unit) \<times> 's" where
  "set_secret P s x =
     set_typed (sd_secret (ps_serde P)) P s TBL_SECRETS
       (scoped_key (sec_namespace x) (sec_name x)) x"

definition delete_secret ::
  "('s, 'j) proxy_store \<Rightarrow> 's \<Rightarrow> string \<Rightarrow> string \<Rightarrow> (storage_error + unit) \<times> 's" where
  "delete_secret P s namespace name =
     st_delete (ps_storage P) s TBL_SECRETS (scoped_key namespace name)"

definition list_secrets ::
  "('s, 'j) proxy_store \<Rightarrow> 's \<Rightarrow> string \<Rightarrow> storage_error + secret list" where
  "list_secrets P s namespace =
     list_typed (sd_secret (ps_serde P)) P s TBL_SECRETS (namespace @ '':'')"

section \<open>Collections\<close>

definition get_collection ::
  "('s, 'j) proxy_store \<Rightarrow> 's \<Rightarrow> string \<Rightarrow> string \<Rightarrow> storage_error + collection option" where
  "get_collection P s namespace name =
     get_typed (sd_collection (ps_serde P)) P s TBL_COLLECTIONS (scoped_key namespace name)"

definition set_collection ::
  "('s, 'j) proxy_store \<Rightarrow> 's \<Rightarrow> collection \<Rightarrow> (storage_error + unit) \<times> 's" where
  "set_collection P s x =
     set_typed (sd_collection (ps_serde P)) P s TBL_COLLECTIONS
       (scoped_key (col_namespace x) (col_name x)) x"

definition delete_collection ::
  "('s, 'j) proxy_store \<Rightarrow> 's \<Rightarrow> string \<Rightarrow> string \<Rightarrow> (storage_error + unit) \<times> 's" where
  "delete_collection P s namespace name =
     st_delete (ps_storage P) s TBL_COLLECTIONS (scoped_key namespace name)"

definition list_collections ::
  "('s, 'j) proxy_store \<Rightarrow> 's \<Rightarrow> string \<Rightarrow> storage_error + collection list" where
  "list_collections P s namespace =
     list_typed (sd_collection (ps_serde P)) P s TBL_COLLECTIONS (namespace @ '':'')"

definition list_all_collections :: "('s, 'j) proxy_store \<Rightarrow> 's \<Rightarrow> storage_error + collection list" where
  "list_all_collections P s = list_typed (sd_collection (ps_serde P)) P s TBL_COLLECTIONS []"

section \<open>Documents\<close>

definition get_document ::
  "('s, 'j) proxy_store \<Rightarrow> 's \<Rightarrow> string \<Rightarrow> string \<Rightarrow> string \<Rightarrow> storage_error + 'j document option" where
  "get_document P s namespace collection docid =
     get_typed (sd_document (ps_serde P)) P s TBL_DOCUMENTS
       (document_key namespace collection docid)"

definition set_document ::
  "('s, 'j) proxy_store \<Rightarrow> 's \<Rightarrow> 'j document \<Rightarrow> (storage_error + unit) \<times> 's" where
  "set_document P s x =
     set_typed (sd_document (ps_serde P)) P s TBL_DOCUMENTS
       (document_key (doc_namespace x) (doc_collection x) (doc_id x)) x"

definition delete_document ::
  "('s, 'j) proxy_store \<Rightarrow> 's \<Rightarrow> string \<Rightarrow> string \<Rightarrow> string \<Rightarrow> (storage_error + unit) \<times> 's" where
  "delete_document P s namespace collection docid =
     st_delete (ps_storage P) s TBL_DOCUMENTS (document_key namespace collection docid)"

definition list_documents ::
  "('s, 'j) proxy_store \<Rightarrow> 's \<Rightarrow> string \<Rightarrow> string \<Rightarrow> storage_error + 'j document list" where
  "list_documents P s namespace collection =
     list_typed (sd_document (ps_serde P)) P s TBL_DOCUMENTS
       (namespace @ '':'' @ collection @ '':'')"

section \<open>Change logs\<close>

definition append_changelog ::
  "('s, 'j) proxy_store \<Rightarrow> 's \<Rightarrow> 'j changelog \<Rightarrow> (storage_error + unit) \<times> 's" where
  "append_changelog P s cl =
     set_typed (sd_changelog (ps_serde P)) P s TBL_CHANGELOGS (cl_id cl) cl"

definition list_changelogs :: "('s, 'j) proxy_store \<Rightarrow> 's \<Rightarrow> storage_error + 'j changelog list" where
  "list_changelogs P s = list_typed (sd_changelog (ps_serde P)) P s TBL_CHANGELOGS []"

definition clear_changelogs :: "('s, 'j) proxy_store \<Rightarrow> 's \<Rightarrow> (storage_error + unit) \<times> 's" where
  "clear_changelogs P s = st_clear (ps_storage P) s TBL_CHANGELOGS"

section \<open>Keys without a colon are unambiguous\<close>

lemma append_sep_inj:
  assumes "a @ (c :: char) # b = a' @ c # b'" and "c \<notin> set a" and "c \<notin> set a'"
  shows "a = a' \<and> b = b'"
proof -
  have "Some (a, b) = split_once c (a @ c # b)" using assms(2) by (simp add: split_once_append)
  also have "\<dots> = Some (a', b')" unfolding assms(1) using assms(3) by (simp add: split_once_append)
  finally show ?thesis by simp
qed

lemma scoped_key_inj:
  assumes "scoped_key a b = scoped_key a' b'" and "CHR '':'' \<notin> set a" and "CHR '':'' \<notin> set a'"
  shows "a = a' \<and> b = b'"
  using assms append_sep_inj [of a "CHR '':''" b a' b'] by (simp add: scoped_key_def)

lemma document_key_inj:
  assumes "document_key n c d = document_key n' c' d'"
    and "CHR '':'' \<notin> set n" "CHR '':'' \<notin> set n'" "CHR '':'' \<notin> set c" "CHR '':'' \<notin> set c'"
  shows "n = n' \<and> c = c' \<and> d = d'"
proof -
  from assms(1) have "n @ CHR '':'' # (c @ CHR '':'' # d) = n' @ CHR '':'' # (c' @ CHR '':'' # d')"
    by (simp add: document_key_def)
  from append_sep_inj [OF this assms(2,3)] have "n = n'" and "c @ CHR '':'' # d = c' @ CHR '':'' # d'"
    by blast+
  with append_sep_inj [OF this(2) assms(4,5)] show ?thesis by blast
qed

lemma scoped_key_prefix:
  assumes "CHR '':'' \<notin> set a" and "CHR '':'' \<notin> set n"
  shows "starts_with (scoped_key a b) (n @ '':'') \<longleftrightarrow> a = n"
proof
  assume "starts_with (scoped_key a b) (n @ '':'')"
  then obtain r where "a @ CHR '':'' # b = n @ CHR '':'' # r"
    by (auto simp: starts_with_iff scoped_key_def)
  with append_sep_inj [of a _ b n r] assms show "a = n" by blast
next
  assume "a = n"
  then have "scoped_key a b = (n @ '':'') @ b" by (simp add: scoped_key_def)
  then show "starts_with (scoped_key a b) (n @ '':'')" by (metis starts_with_append)
qed

lemma document_key_prefix:
  assumes "CHR '':'' \<notin> set a" "CHR '':'' \<notin> set n" "CHR '':'' \<notin> set b" "CHR '':'' \<notin> set m"
  shows "starts_with (document_key a b d) (n @ '':'' @ m @ '':'') \<longleftrightarrow> a = n \<and> b = m"
proof
  assume "starts_with (document_key a b d) (n @ '':'' @ m @ '':'')"
  then obtain r where "a @ CHR '':'' # (b @ CHR '':'' # d) = n @ CHR '':'' # (m @ CHR '':'' # r)"
    by (auto simp: starts_with_iff document_key_def)
  then have "a = n" and "b @ CHR '':'' # d = m @ CHR '':'' # r"
    using append_sep_inj assms(1,2) by metis+
  with append_sep_inj assms(3,4) show "a = n \<and> b = m" by metis
next
  assume "a = n \<and> b = m"
  then have "document_key a b d = (n @ '':'' @ m @ '':'') @ d" by (simp add: document_key_def)
  then show "starts_with (document_key a b d) (n @ '':'' @ m @ '':'')" by (metis starts_with_append)
qed

section \<open>Typed access over the contract\<close>

text \<open>
  \<open>stored c m\<close> are the values of a table; \<open>table_wf c key m\<close> says that every entry can be
  read and lies at the key of its value.
\<close>

definition stored :: "('j, 't) codec \<Rightarrow> (string \<rightharpoonup> bytes) \<Rightarrow> 't set" where
  "stored c m = {x. \<exists>k b. m k = Some b \<and> from_slice c b = Ok x}"

definition table_wf :: "('j, 't) codec \<Rightarrow> ('t \<Rightarrow> string) \<Rightarrow> (string \<rightharpoonup> bytes) \<Rightarrow> bool" where
  "table_wf c key m \<longleftrightarrow> (\<forall>k b. m k = Some b \<longrightarrow> (\<exists>x. from_slice c b = Ok x \<and> key x = k))"

lemma table_wf_empty: "table_wf c key Map.empty"
  by (simp add: table_wf_def)

lemma table_wf_put:
  "table_wf c key m \<Longrightarrow> from_slice c b = Ok x \<Longrightarrow> table_wf c key (m(key x \<mapsto> b))"
  by (auto simp: table_wf_def)

lemma table_wf_del: "table_wf c key m \<Longrightarrow> table_wf c key (m(k := None))"
  by (auto simp: table_wf_def)

context kv_storage
begin

lemma set_typed_ok:
  assumes "ps_storage P = ops" and "ok s" and "t \<in> tables"
  shows "ok (snd (set_typed c P s t k x))"
  using assms by (auto simp: set_typed_def set_ok split: sum.splits)

lemma set_typed_Err:
  assumes "ps_storage P = ops" and "ok s" and "t \<in> tables"
    and "\<not> is_ok (fst (set_typed c P s t k x))"
  shows "content (snd (set_typed c P s t k x)) = content s"
  using assms by (auto simp: set_typed_def set_content split: sum.splits)

lemma set_typed_Ok:
  assumes "ps_storage P = ops" and "ok s" and "t \<in> tables"
    and "is_ok (fst (set_typed c P s t k x))"
  obtains b where "to_vec c x = Ok b" and "content (snd (set_typed c P s t k x)) = kv_put t k b (content s)"
proof -
  from assms(4) obtain b where "to_vec c x = Ok b"
    by (auto simp: set_typed_def split: sum.splits)
  moreover from this assms have "content (snd (set_typed c P s t k x)) = kv_put t k b (content s)"
    by (simp add: set_typed_def set_content)
  ultimately show ?thesis by (rule that)
qed

lemma get_typed_Ok:
  assumes "ps_storage P = ops" and "ok s" and "t \<in> tables" and "get_typed c P s t k = Ok r"
  shows "case content s t k of None \<Rightarrow> r = None | Some b \<Rightarrow> (\<exists>x. from_slice c b = Ok x \<and> r = Some x)"
proof -
  from assms obtain r' where r': "st_get ops s t k = Ok r'"
    and r: "(case r' of Some data \<Rightarrow> result_bind (map_err SE_Serialization (from_slice c data)) (\<lambda>item. Ok (Some item))
             | None \<Rightarrow> Ok None) = Ok r"
    by (auto simp: get_typed_def result_bind_eq_Ok)
  from r' assms(2,3) have "r' = content s t k" by (simp add: get_Ok)
  with r show ?thesis by (auto simp: result_bind_eq_Ok split: option.splits)
qed

text \<open>A typed write that succeeds is read back.\<close>

lemma get_typed_set_typed:
  assumes "ps_storage P = ops" and "ok s" and "t \<in> tables" and "codec_ok good c" and "good x"
    and "is_ok (fst (set_typed c P s t k x))"
    and "get_typed c P (snd (set_typed c P s t k x)) t k = Ok r"
  shows "r = Some x"
proof -
  obtain b where b: "to_vec c x = Ok b"
    "content (snd (set_typed c P s t k x)) = kv_put t k b (content s)"
    by (rule set_typed_Ok [OF assms(1,2,3,6)])
  from assms(4,5) b(1) have "from_slice c b = Ok x" by (auto simp: codec_ok_def)
  moreover have "ok (snd (set_typed c P s t k x))" by (rule set_typed_ok [OF assms(1-3)])
  ultimately show ?thesis
    using get_typed_Ok [OF assms(1) _ assms(3,7)] b(2) by (simp add: kv_put_apply)
qed

lemma list_typed_Ok:
  assumes "ps_storage P = ops" and "ok s" and "t \<in> tables" and "list_typed c P s t p = Ok xs"
  shows "set xs = {x. \<exists>k b. content s t k = Some b \<and> starts_with k p \<and> from_slice c b = Ok x}"
    and "content s t k = Some b \<Longrightarrow> starts_with k p \<Longrightarrow> is_ok (from_slice c b)"
proof -
  from assms obtain items where items: "st_list ops s t p = Ok items"
    and m: "map (\<lambda>(_, data). map_err SE_Serialization (from_slice c data)) items = map Ok xs"
    by (auto simp: list_typed_def result_bind_eq_Ok collect_results_eq_Ok)
  from items assms(2,3) have set: "set items = kv_entries (content s) t p" by (simp add: list_Ok)
  from m have l: "length items = length xs" by (metis length_map)
  have nth: "from_slice c (snd (items ! i)) = Ok (xs ! i)" if "i < length xs" for i
    using arg_cong [OF m, of "\<lambda>ys. ys ! i"] that l by (simp add: case_prod_unfold)
  have "set xs = {x. \<exists>(k, b) \<in> set items. from_slice c b = Ok x}"
  proof (intro set_eqI iffI)
    fix x assume "x \<in> set xs"
    then obtain i where i: "i < length xs" "x = xs ! i" by (auto simp: in_set_conv_nth)
    then have "items ! i \<in> set items" and "from_slice c (snd (items ! i)) = Ok x"
      using nth l by auto
    then show "x \<in> {x. \<exists>(k, b) \<in> set items. from_slice c b = Ok x}"
      by (auto intro!: bexI [of _ "items ! i"] split: prod.splits)
  next
    fix x assume "x \<in> {x. \<exists>(k, b) \<in> set items. from_slice c b = Ok x}"
    then obtain i where "i < length items" "from_slice c (snd (items ! i)) = Ok x"
      by (force simp: in_set_conv_nth)
    then show "x \<in> set xs" using nth l by (metis nth_mem sum.inject(2))
  qed
  then show "set xs = {x. \<exists>k b. content s t k = Some b \<and> starts_with k p \<and> from_slice c b = Ok x}"
    unfolding set kv_entries_def by auto
  show "is_ok (from_slice c b)" if "content s t k = Some b" "starts_with k p"
  proof -
    from that have "(k, b) \<in> set items" by (simp add: set kv_entries_def)
    then obtain i where "i < length xs" "items ! i = (k, b)" by (metis in_set_conv_nth l)
    with nth [of i] show ?thesis by simp
  qed
qed

text \<open>Well-formedness is kept by typed writes at the value's own key and by deletes.\<close>

lemma table_wf_set_typed:
  assumes "ps_storage P = ops" and "ok s" and "t \<in> tables" and "codec_ok good c" and "good x"
    and "table_wf c key (content s t)"
  shows "table_wf c key (content (snd (set_typed c P s t (key x) x)) t)"
proof (cases "is_ok (fst (set_typed c P s t (key x) x))")
  case True
  from assms(1-3) True obtain b where b: "to_vec c x = Ok b"
    "content (snd (set_typed c P s t (key x) x)) = kv_put t (key x) b (content s)"
    by (rule set_typed_Ok)
  from assms(4,5) b(1) have "from_slice c b = Ok x" by (auto simp: codec_ok_def)
  with b(2) assms(6) show ?thesis by (simp add: kv_put_def table_wf_put)
next
  case False
  with set_typed_Err [OF assms(1-3) False] assms(6) show ?thesis by simp
qed

lemma table_wf_delete:
  assumes "ok s" and "t \<in> tables" and "table_wf c key (content s t)"
  shows "table_wf c key (content (snd (st_delete ops s t k)) t)"
  using assms by (simp add: delete_content kv_del_def table_wf_del)

text \<open>
  The listing of one namespace: with colon-free namespace names, the prefix scan returns
  exactly the values of that namespace.
\<close>

lemma list_scoped:
  assumes P: "ps_storage P = ops" and s: "ok s" and t: "t \<in> tables"
    and l: "list_typed c P s t (n @ '':'') = Ok xs"
    and wf: "table_wf c (\<lambda>x. scoped_key (nsf x) (nmf x)) (content s t)"
    and n: "CHR '':'' \<notin> set n"
    and all: "\<And>x. x \<in> stored c (content s t) \<Longrightarrow> CHR '':'' \<notin> set (nsf x)"
  shows "set xs = {x \<in> stored c (content s t). nsf x = n}"
proof -
  have "(\<exists>k b. content s t k = Some b \<and> starts_with k (n @ '':'') \<and> from_slice c b = Ok x) \<longleftrightarrow>
        x \<in> stored c (content s t) \<and> nsf x = n" for x
  proof
    assume "\<exists>k b. content s t k = Some b \<and> starts_with k (n @ '':'') \<and> from_slice c b = Ok x"
    then obtain k b where kb: "content s t k = Some b" "starts_with k (n @ '':'')" "from_slice c b = Ok x"
      by blast
    then have st: "x \<in> stored c (content s t)" by (auto simp: stored_def)
    from wf kb(1,3) have "k = scoped_key (nsf x) (nmf x)" by (force simp: table_wf_def)
    with kb(2) scoped_key_prefix [OF all [OF st] n] st
    show "x \<in> stored c (content s t) \<and> nsf x = n" by simp
  next
    assume x: "x \<in> stored c (content s t) \<and> nsf x = n"
    then obtain k b where kb: "content s t k = Some b" "from_slice c b = Ok x"
      by (auto simp: stored_def)
    from wf kb have "k = scoped_key (nsf x) (nmf x)" by (force simp: table_wf_def)
    with x have "starts_with k (n @ '':'')" by (simp add: scoped_key_def starts_with_iff)
    with kb show "\<exists>k b. content s t k = Some b \<and> starts_with k (n @ '':'') \<and> from_slice c b = Ok x"
      by blast
  qed
  with list_typed_Ok(1) [OF P s t l] show ?thesis by simp
qed

end

text \<open>On a storage that never fails, typed reads are functions of the content.\<close>

definition read_entry :: "('j, 't) codec \<Rightarrow> bytes option \<Rightarrow> storage_error + 't option" where
  "read_entry c found =
     (case found of None \<Rightarrow> Ok None
      | Some b \<Rightarrow> result_bind (map_err SE_Serialization (from_slice c b)) (\<lambda>x. Ok (Some x)))"

lemma read_entry_simps [simp]:
  "read_entry c None = Ok None"
  "from_slice c b = Ok x \<Longrightarrow> read_entry c (Some b) = Ok (Some x)"
  by (simp_all add: read_entry_def)

context total_storage
begin

lemma get_typed_eq:
  assumes "ps_storage P = ops" and "ok s" and "t \<in> tables"
  shows "get_typed c P s t k = read_entry c (content s t k)"
  unfolding get_typed_def read_entry_def assms(1) get_eq [OF assms(2,3)]
  by (cases "content s t k") simp_all

lemma set_typed_eq:
  assumes "ps_storage P = ops" and "ok s" and "t \<in> tables" and "to_vec c x = Ok b"
  shows "fst (set_typed c P s t k x) = Ok ()"
    and "content (snd (set_typed c P s t k x)) = kv_put t k b (content s)"
  using assms by (simp_all add: set_typed_def set_total set_content_eq)

lemma list_typed_total:
  assumes "ps_storage P = ops" and "ok s" and "t \<in> tables"
    and "\<And>k b. content s t k = Some b \<Longrightarrow> starts_with k p \<Longrightarrow> is_ok (from_slice c b)"
  shows "is_ok (list_typed c P s t p)"
proof -
  obtain items where items: "st_list ops s t p = Ok items" "set items = kv_entries (content s) t p"
    by (rule list_eq [OF assms(2,3)])
  define val where "val = (\<lambda>(k :: string, b). case from_slice c b of Inr x \<Rightarrow> x | Inl e \<Rightarrow> undefined)"
  have "map_err SE_Serialization (from_slice c (snd kb)) = Ok (val kb)" if "kb \<in> set items" for kb
  proof -
    from that items(2) have "content s t (fst kb) = Some (snd kb)" "starts_with (fst kb) p"
      by (auto simp: kv_entries_def)
    then have "is_ok (from_slice c (snd kb))" by (rule assms(4))
    then show ?thesis
      by (cases "from_slice c (snd kb)") (auto simp: val_def case_prod_unfold)
  qed
  then have "collect_results (map (\<lambda>(_, data). map_err SE_Serialization (from_slice c data)) items)
      = Ok (map val items)"
    by (intro collect_results_map_Ok) (auto simp: case_prod_unfold)
  then show ?thesis by (simp add: list_typed_def assms(1) items(1))
qed

end

section \<open>Properties on the in-memory storage\<close>

abbreviation route_key :: "route \<Rightarrow> string" where
  "route_key r \<equiv> scoped_key (rt_namespace r) (rt_name r)"

lemma set_route_mem:
  assumes "ps_storage P = mem_ops place" and "serde_ok (ps_serde P)" and "mem_ok s"
  obtains b where "to_vec (sd_route (ps_serde P)) r = Ok b" "from_slice (sd_route (ps_serde P)) b = Ok r"
    "fst (set_route P s r) = Ok ()"
    "mem_content (snd (set_route P s r)) = kv_put TBL_ROUTES (route_key r) b (mem_content s)"
    "mem_ok (snd (set_route P s r))"
proof -
  obtain b where b: "to_vec (sd_route (ps_serde P)) r = Ok b"
    "from_slice (sd_route (ps_serde P)) b = Ok r"
    by (rule codec_ok_vec [OF serde_ok_route [OF assms(2)] TrueI])
  note set = mem.set_typed_eq [OF assms(1,3) UNIV_I b(1)]
  have "mem_ok (snd (set_route P s r))"
    unfolding set_route_def by (rule mem.set_typed_ok [OF assms(1,3) UNIV_I])
  with b set show ?thesis by (intro that [OF b]) (simp_all add: set_route_def)
qed

lemma set_route_then_get:
  assumes "ps_storage P = mem_ops place" and "serde_ok (ps_serde P)" and "mem_ok s"
  shows "get_route P (snd (set_route P s r)) ns n =
      (if scoped_key ns n = route_key r then Ok (Some r) else get_route P s ns n)"
proof -
  obtain b where b: "from_slice (sd_route (ps_serde P)) b = Ok r"
    "mem_content (snd (set_route P s r)) = kv_put TBL_ROUTES (route_key r) b (mem_content s)"
    "mem_ok (snd (set_route P s r))"
    by (rule set_route_mem [OF assms])
  then show ?thesis
    by (simp add: get_route_def mem.get_typed_eq [OF assms(1) _ UNIV_I] assms(3) kv_put_apply)
qed

text \<open>
  A stored route is read back: \<open>set_route\<close> succeeds, and afterwards \<open>get_route\<close> returns the
  route at its namespace and name, and what it returned before at every other key.
\<close>

lemma set_route_get_route:
  assumes "ps_storage P = mem_ops place" and "serde_ok (ps_serde P)" and "mem_ok s"
  shows "fst (set_route P s r) = Ok () \<and>
    get_route P (snd (set_route P s r)) ns n =
      (if scoped_key ns n = route_key r then Ok (Some r) else get_route P s ns n)"
proof
  show "fst (set_route P s r) = Ok ()" by (rule set_route_mem [OF assms])
qed (rule set_route_then_get [OF assms])

text \<open>
  C21. Namespace isolation of listings: on a well-formed routes table whose namespace names have no
  colon, \<open>list_routes\<close> of a colon-free namespace succeeds and returns exactly the stored
  routes of that namespace. Together with the preservation lemmas of \<open>table_wf\<close> this is what the
  router of a namespace is built from.
\<close>

theorem list_routes_isolated:
  assumes "ps_storage P = mem_ops place" and "mem_ok s"
    and "table_wf (sd_route (ps_serde P)) route_key (mem_content s TBL_ROUTES)"
    and "CHR '':'' \<notin> set ns"
    and "\<forall>r \<in> stored (sd_route (ps_serde P)) (mem_content s TBL_ROUTES). CHR '':'' \<notin> set (rt_namespace r)"
  shows "\<exists>rs. list_routes P s ns = Ok rs \<and>
    set rs = {r \<in> stored (sd_route (ps_serde P)) (mem_content s TBL_ROUTES). rt_namespace r = ns}"
proof -
  from assms(3) have "is_ok (list_typed (sd_route (ps_serde P)) P s TBL_ROUTES (ns @ '':''))"
    by (intro mem.list_typed_total [OF assms(1,2) UNIV_I]) (force simp: table_wf_def)
  then obtain rs where rs: "list_typed (sd_route (ps_serde P)) P s TBL_ROUTES (ns @ '':'') = Ok rs"
    by (cases "list_typed (sd_route (ps_serde P)) P s TBL_ROUTES (ns @ '':'')") auto
  with mem.list_scoped [OF assms(1,2) UNIV_I rs assms(3,4)] assms(5)
  show ?thesis by (simp add: list_routes_def)
qed

theorem list_routes_isolated_witness:
  "\<exists>rs. list_routes \<lparr>ps_storage = mem_ops (\<lambda>_. []), ps_serde = sample_serde\<rparr>
      (snd (set_route \<lparr>ps_storage = mem_ops (\<lambda>_. []), ps_serde = sample_serde\<rparr> mem_new
        (route_new ''r'' ''a''))) ''a'' = Ok rs \<and> set rs = {route_new ''r'' ''a''}"
proof -
  let ?P = "\<lparr>ps_storage = mem_ops (\<lambda>_. []), ps_serde = sample_serde\<rparr>" and ?r = "route_new ''r'' ''a''"
  let ?s = "snd (set_route ?P mem_new ?r)"
  obtain b where b: "from_slice (sd_route sample_serde) b = Ok ?r"
    and m: "mem_content ?s = kv_put TBL_ROUTES (route_key ?r) b (mem_content mem_new)" and ok: "mem_ok ?s"
    using set_route_mem [of ?P "\<lambda>_. []" mem_new ?r thesis] sample_serde_ok mem_ok_new
    by (simp del: mem_ops_sel)
  have c: "mem_content ?s TBL_ROUTES = [route_key ?r \<mapsto> b]"
    by (simp add: m kv_put_def mem_content_new)
  have st: "stored (sd_route sample_serde) (mem_content ?s TBL_ROUTES) = {?r}"
    unfolding c stored_def using b by (auto split: if_splits)
  have wf: "table_wf (sd_route sample_serde) route_key (mem_content ?s TBL_ROUTES)"
    using b by (auto simp: c table_wf_def)
  have ns: "rt_namespace ?r = ''a''" by (simp add: route_new_def)
  have eq: "{r \<in> stored (sd_route (ps_serde ?P)) (mem_content ?s TBL_ROUTES). rt_namespace r = ''a''} = {?r}"
    unfolding proxy_store.select_convs st using ns by auto
  have "\<exists>rs. list_routes ?P ?s ''a'' = Ok rs \<and>
      set rs = {r \<in> stored (sd_route (ps_serde ?P)) (mem_content ?s TBL_ROUTES). rt_namespace r = ''a''}"
  proof (rule list_routes_isolated)
    show "\<forall>r \<in> stored (sd_route (ps_serde ?P)) (mem_content ?s TBL_ROUTES). CHR '':'' \<notin> set (rt_namespace r)"
      unfolding proxy_store.select_convs st using ns by simp
  qed (use wf ok in simp_all)
  then show ?thesis unfolding eq .
qed

text \<open>
  The isolation does not extend to names with a colon: the key of namespace \<open>ns\<close> and name
  \<open>n1:n2\<close> is the key of namespace \<open>ns:n1\<close> and name \<open>n2\<close>, so a route stored in one
  namespace is returned as a route of the other.
\<close>

lemma colon_crosses_namespaces:
  assumes "ps_storage P = mem_ops place" and "serde_ok (ps_serde P)" and "mem_ok s"
    and "rt_name r = n1 @ '':'' @ n2"
  shows "get_route P (snd (set_route P s r)) (rt_namespace r @ '':'' @ n1) n2 = Ok (Some r) \<and>
    rt_namespace r \<noteq> rt_namespace r @ '':'' @ n1"
  using set_route_then_get [OF assms(1-3)] assms(4) by (simp add: scoped_key_def)

end
