(* ===== verification/Changes.thy ===== *)
theory Changes
  imports Proxy_Store
begin

text \<open>
  What a change log does to the store, once for the three places that apply one: the Raft
  state machine, the Tempo node and the standalone proxy. \<open>change_effect\<close> is the abstract
  specification: a change log decodes to one write of one key (or to an error), with the
  message that reports it. \<open>store_change\<close> performs that write. The three appliers are
  written out in their own theories, from their own code, and proved equal to it.

  The unbounded tokio channels that carry change logs are lists of the values sent; a send
  fails only when the receiver is gone.
\<close>

section \<open>Channels\<close>

record 'a channel =
  ch_open :: bool
  ch_sent :: "'a list"

definition channel_send :: "'a channel \<Rightarrow> 'a \<Rightarrow> 'a channel" where
  "channel_send c x = (if ch_open c then c\<lparr>ch_sent := ch_sent c @ [x]\<rparr> else c)"

lemma channel_send_sel [simp]:
  "ch_open (channel_send c x) = ch_open c"
  "ch_sent (channel_send c x) = (if ch_open c then ch_sent c @ [x] else ch_sent c)"
  by (simp_all add: channel_send_def)

section \<open>The steps the appliers share\<close>

text \<open>
  \<open>from_value(item)?\<close>, then the setter, then the message; and a delete with its message.
\<close>

definition change_add ::
  "('j, 't) codec \<Rightarrow> ('s \<Rightarrow> 't \<Rightarrow> (storage_error + unit) \<times> 's) \<Rightarrow> ('t \<Rightarrow> string) \<Rightarrow> 'j \<Rightarrow> 's \<Rightarrow>
   (string + string) \<times> 's" where
  "change_add c setter msg item s =
     (case from_value c item of
        Err e \<Rightarrow> (Err e, s)
      | Ok x \<Rightarrow> and_then (map_err_st storage_error_to_string (setter s x)) (\<lambda>_ s. (Ok (msg x), s)))"

definition change_delete ::
  "('s \<Rightarrow> (storage_error + unit) \<times> 's) \<Rightarrow> string \<Rightarrow> 's \<Rightarrow> (string + string) \<times> 's" where
  "change_delete deleter msg s =
     and_then (map_err_st storage_error_to_string (deleter s)) (\<lambda>_ s. (Ok msg, s))"

definition created :: "string \<Rightarrow> string \<Rightarrow> string" where
  "created kind name = kind @ '' '' @ quoted name @ '' created''"

definition deleted :: "string \<Rightarrow> string \<Rightarrow> string" where
  "deleted kind name = kind @ '' '' @ quoted name @ '' deleted''"

section \<open>The specification\<close>

datatype kv_write =
    KV_Put string string bytes
  | KV_Del string string

definition put_effect ::
  "('j, 't) codec \<Rightarrow> string \<Rightarrow> ('t \<Rightarrow> string) \<Rightarrow> ('t \<Rightarrow> string) \<Rightarrow> 'j \<Rightarrow> string + kv_write \<times> string" where
  "put_effect c table key msg item =
     result_bind (from_value c item) (\<lambda>x.
     result_bind (map_err (storage_error_to_string \<circ> SE_Serialization) (to_vec c x)) (\<lambda>b.
       Ok (KV_Put table (key x) b, msg x)))"

definition change_effect :: "'j serde \<Rightarrow> 'j changelog \<Rightarrow> string + kv_write \<times> string" where
  "change_effect S cl =
     (let item = cl_item cl; ns = cl_namespace cl; name = cl_name cl;
          del = (\<lambda>table kind. Ok (KV_Del table (scoped_key ns name), deleted kind name))
      in case cl_cmd cl of
        AddNamespace \<Rightarrow> put_effect (sd_namespace S) TBL_NAMESPACES ns_name (\<lambda>x. created ''Namespace'' (ns_name x)) item
      | DeleteNamespace \<Rightarrow> Ok (KV_Del TBL_NAMESPACES name, deleted ''Namespace'' name)
      | AddRoute \<Rightarrow> put_effect (sd_route S) TBL_ROUTES (\<lambda>x. scoped_key (rt_namespace x) (rt_name x))
                    (\<lambda>x. created ''Route'' (rt_name x)) item
      | DeleteRoute \<Rightarrow> del TBL_ROUTES ''Route''
      | AddService \<Rightarrow> put_effect (sd_service S) TBL_SERVICES (\<lambda>x. scoped_key (svc_namespace x) (svc_name x))
                    (\<lambda>x. created ''Service'' (svc_name x)) item
      | DeleteService \<Rightarrow> del TBL_SERVICES ''Service''
      | AddModule \<Rightarrow> put_effect (sd_module S) TBL_MODULES (\<lambda>x. scoped_key (md_namespace x) (md_name x))
                    (\<lambda>x. created ''Module'' (md_name x)) item
      | DeleteModule \<Rightarrow> del TBL_MODULES ''Module''
      | AddDomain \<Rightarrow> put_effect (sd_domain S) TBL_DOMAINS (\<lambda>x. scoped_key (dom_namespace x) (dom_name x))
                    (\<lambda>x. created ''Domain'' (dom_name x)) item
      | DeleteDomain \<Rightarrow> del TBL_DOMAINS ''Domain''
      | AddSecret \<Rightarrow> put_effect (sd_secret S) TBL_SECRETS (\<lambda>x. scoped_key (sec_namespace x) (sec_name x))
                    (\<lambda>x. created ''Secret'' (sec_name x)) item
      | DeleteSecret \<Rightarrow> del TBL_SECRETS ''Secret''
      | AddCollection \<Rightarrow> put_effect (sd_collection S) TBL_COLLECTIONS (\<lambda>x. scoped_key (col_namespace x) (col_name x))
                    (\<lambda>x. created ''Collection'' (col_name x)) item
      | DeleteCollection \<Rightarrow> del TBL_COLLECTIONS ''Collection''
      | AddDocument \<Rightarrow> put_effect (sd_document S) TBL_DOCUMENTS
                    (\<lambda>x. document_key (doc_namespace x) (doc_collection x) (doc_id x))
                    (\<lambda>x. created ''Document'' (doc_id x)) item
      | DeleteDocument \<Rightarrow> result_bind (from_value (sd_document S) item) (\<lambda>doc.
                    Ok (KV_Del TBL_DOCUMENTS (document_key ns (doc_collection doc) name),
                        deleted ''Document'' name)))"

definition perform_write :: "('s, 'j) proxy_store \<Rightarrow> 's \<Rightarrow> kv_write \<Rightarrow> (storage_error + unit) \<times> 's" where
  "perform_write P s w =
     (case w of
        KV_Put t k b \<Rightarrow> st_set (ps_storage P) s t k b
      | KV_Del t k \<Rightarrow> st_delete (ps_storage P) s t k)"

definition store_change :: "('s, 'j) proxy_store \<Rightarrow> 's \<Rightarrow> 'j changelog \<Rightarrow> (string + string) \<times> 's" where
  "store_change P s cl =
     (case change_effect (ps_serde P) cl of
        Err e \<Rightarrow> (Err e, s)
      | Ok (w, msg) \<Rightarrow>
          and_then (map_err_st storage_error_to_string (perform_write P s w)) (\<lambda>_ s. (Ok msg, s)))"

lemma store_change_Err: "change_effect (ps_serde P) cl = Err e \<Longrightarrow> store_change P s cl = (Err e, s)"
  by (simp add: store_change_def)

lemma store_change_Ok:
  "change_effect (ps_serde P) cl = Ok (w, m) \<Longrightarrow>
   store_change P s cl =
     (map_err storage_error_to_string (result_bind (fst (perform_write P s w)) (\<lambda>_. Ok m)),
      snd (perform_write P s w))"
  by (cases "perform_write P s w"; cases "fst (perform_write P s w)") (auto simp: store_change_def)

section \<open>The shared steps meet it\<close>

definition effect_result ::
  "('s, 'j) proxy_store \<Rightarrow> 's \<Rightarrow> string + kv_write \<times> string \<Rightarrow> (string + string) \<times> 's" where
  "effect_result P s r =
     (case r of
        Err e \<Rightarrow> (Err e, s)
      | Ok (w, msg) \<Rightarrow>
          and_then (map_err_st storage_error_to_string (perform_write P s w)) (\<lambda>_ s. (Ok msg, s)))"

lemma store_change_eq: "store_change P s cl = effect_result P s (change_effect (ps_serde P) cl)"
  by (simp add: store_change_def effect_result_def)

named_theorems change_rules \<open>the shared steps in terms of the specification\<close>

lemma change_add_typed:
  assumes "\<And>s x. setter s x = set_typed c P s table (key x) x"
  shows "change_add c setter msg item s = effect_result P s (put_effect c table key msg item)"
proof (cases "from_value c item")
  case (Inl e)
  then show ?thesis by (simp add: change_add_def effect_result_def put_effect_def)
next
  case (Inr x)
  then show ?thesis
    by (cases "to_vec c x")
      (simp_all add: change_add_def effect_result_def put_effect_def assms set_typed_def perform_write_def)
qed

lemma change_add_rules [change_rules]:
  "change_add (sd_namespace (ps_serde P)) (set_namespace P) nmsg item s =
     effect_result P s (put_effect (sd_namespace (ps_serde P)) TBL_NAMESPACES ns_name nmsg item)"
  "change_add (sd_route (ps_serde P)) (set_route P) rmsg item s =
     effect_result P s (put_effect (sd_route (ps_serde P)) TBL_ROUTES
       (\<lambda>x. scoped_key (rt_namespace x) (rt_name x)) rmsg item)"
  "change_add (sd_service (ps_serde P)) (set_service P) smsg item s =
     effect_result P s (put_effect (sd_service (ps_serde P)) TBL_SERVICES
       (\<lambda>x. scoped_key (svc_namespace x) (svc_name x)) smsg item)"
  "change_add (sd_module (ps_serde P)) (set_module P) mmsg item s =
     effect_result P s (put_effect (sd_module (ps_serde P)) TBL_MODULES
       (\<lambda>x. scoped_key (md_namespace x) (md_name x)) mmsg item)"
  "change_add (sd_domain (ps_serde P)) (set_domain P) dmsg item s =
     effect_result P s (put_effect (sd_domain (ps_serde P)) TBL_DOMAINS
       (\<lambda>x. scoped_key (dom_namespace x) (dom_name x)) dmsg item)"
  "change_add (sd_secret (ps_serde P)) (set_secret P) emsg item s =
     effect_result P s (put_effect (sd_secret (ps_serde P)) TBL_SECRETS
       (\<lambda>x. scoped_key (sec_namespace x) (sec_name x)) emsg item)"
  "change_add (sd_collection (ps_serde P)) (set_collection P) cmsg item s =
     effect_result P s (put_effect (sd_collection (ps_serde P)) TBL_COLLECTIONS
       (\<lambda>x. scoped_key (col_namespace x) (col_name x)) cmsg item)"
  "change_add (sd_document (ps_serde P)) (set_document P) omsg item s =
     effect_result P s (put_effect (sd_document (ps_serde P)) TBL_DOCUMENTS
       (\<lambda>x. document_key (doc_namespace x) (doc_collection x) (doc_id x)) omsg item)"
  by (rule change_add_typed,
      simp add: set_namespace_def set_route_def set_service_def set_module_def set_domain_def
        set_secret_def set_collection_def set_document_def)+

lemma change_delete_rules [change_rules]:
  "change_delete (\<lambda>s. delete_namespace P s name) msg s =
     effect_result P s (Ok (KV_Del TBL_NAMESPACES name, msg))"
  "change_delete (\<lambda>s. delete_route P s ns name) msg s =
     effect_result P s (Ok (KV_Del TBL_ROUTES (scoped_key ns name), msg))"
  "change_delete (\<lambda>s. delete_service P s ns name) msg s =
     effect_result P s (Ok (KV_Del TBL_SERVICES (scoped_key ns name), msg))"
  "change_delete (\<lambda>s. delete_module P s ns name) msg s =
     effect_result P s (Ok (KV_Del TBL_MODULES (scoped_key ns name), msg))"
  "change_delete (\<lambda>s. delete_domain P s ns name) msg s =
     effect_result P s (Ok (KV_Del TBL_DOMAINS (scoped_key ns name), msg))"
  "change_delete (\<lambda>s. delete_secret P s ns name) msg s =
     effect_result P s (Ok (KV_Del TBL_SECRETS (scoped_key ns name), msg))"
  "change_delete (\<lambda>s. delete_collection P s ns name) msg s =
     effect_result P s (Ok (KV_Del TBL_COLLECTIONS (scoped_key ns name), msg))"
  "change_delete (\<lambda>s. delete_document P s ns col name) msg s =
     effect_result P s (Ok (KV_Del TBL_DOCUMENTS (document_key ns col name), msg))"
  by (simp_all add: change_delete_def effect_result_def perform_write_def delete_namespace_def
      delete_route_def delete_service_def delete_module_def delete_domain_def delete_secret_def
      delete_collection_def delete_document_def)

lemma effect_result_Err [simp]: "effect_result P s (Err e) = (Err e, s)"
  by (simp add: effect_result_def)

lemma effect_result_bind:
  "effect_result P s (result_bind r f) = (case r of Err e \<Rightarrow> (Err e, s) | Ok x \<Rightarrow> effect_result P s (f x))"
  by (cases r) simp_all

text \<open>The specification of each command as its shared step.\<close>

lemma store_change_cmds:
  "cl_cmd cl = AddNamespace \<Longrightarrow> store_change P s cl =
     change_add (sd_namespace (ps_serde P)) (set_namespace P) (\<lambda>x. created ''Namespace'' (ns_name x)) (cl_item cl) s"
  "cl_cmd cl = DeleteNamespace \<Longrightarrow> store_change P s cl =
     change_delete (\<lambda>s. delete_namespace P s (cl_name cl)) (deleted ''Namespace'' (cl_name cl)) s"
  "cl_cmd cl = AddRoute \<Longrightarrow> store_change P s cl =
     change_add (sd_route (ps_serde P)) (set_route P) (\<lambda>x. created ''Route'' (rt_name x)) (cl_item cl) s"
  "cl_cmd cl = DeleteRoute \<Longrightarrow> store_change P s cl =
     change_delete (\<lambda>s. delete_route P s (cl_namespace cl) (cl_name cl)) (deleted ''Route'' (cl_name cl)) s"
  "cl_cmd cl = AddService \<Longrightarrow> store_change P s cl =
     change_add (sd_service (ps_serde P)) (set_service P) (\<lambda>x. created ''Service'' (svc_name x)) (cl_item cl) s"
  "cl_cmd cl = DeleteService \<Longrightarrow> store_change P s cl =
     change_delete (\<lambda>s. delete_service P s (cl_namespace cl) (cl_name cl)) (deleted ''Service'' (cl_name cl)) s"
  "cl_cmd cl = AddModule \<Longrightarrow> store_change P s cl =
     change_add (sd_module (ps_serde P)) (set_module P) (\<lambda>x. created ''Module'' (md_name x)) (cl_item cl) s"
  "cl_cmd cl = DeleteModule \<Longrightarrow> store_change P s cl =
     change_delete (\<lambda>s. delete_module P s (cl_namespace cl) (cl_name cl)) (deleted ''Module'' (cl_name cl)) s"
  "cl_cmd cl = AddDomain \<Longrightarrow> store_change P s cl =
     change_add (sd_domain (ps_serde P)) (set_domain P) (\<lambda>x. created ''Domain'' (dom_name x)) (cl_item cl) s"
  "cl_cmd cl = DeleteDomain \<Longrightarrow> store_change P s cl =
     change_delete (\<lambda>s. delete_domain P s (cl_namespace cl) (cl_name cl)) (deleted ''Domain'' (cl_name cl)) s"
  "cl_cmd cl = AddSecret \<Longrightarrow> store_change P s cl =
     change_add (sd_secret (ps_serde P)) (set_secret P) (\<lambda>x. created ''Secret'' (sec_name x)) (cl_item cl) s"
  "cl_cmd cl = DeleteSecret \<Longrightarrow> store_change P s cl =
     change_delete (\<lambda>s. delete_secret P s (cl_namespace cl) (cl_name cl)) (deleted ''Secret'' (cl_name cl)) s"
  "cl_cmd cl = AddCollection \<Longrightarrow> store_change P s cl =
     change_add (sd_collection (ps_serde P)) (set_collection P) (\<lambda>x. created ''Collection'' (col_name x)) (cl_item cl) s"
  "cl_cmd cl = DeleteCollection \<Longrightarrow> store_change P s cl =
     change_delete (\<lambda>s. delete_collection P s (cl_namespace cl) (cl_name cl)) (deleted ''Collection'' (cl_name cl)) s"
  "cl_cmd cl = AddDocument \<Longrightarrow> store_change P s cl =
     change_add (sd_document (ps_serde P)) (set_document P) (\<lambda>x. created ''Document'' (doc_id x)) (cl_item cl) s"
  "cl_cmd cl = DeleteDocument \<Longrightarrow> store_change P s cl =
     (case from_value (sd_document (ps_serde P)) (cl_item cl) of
        Err e \<Rightarrow> (Err e, s)
      | Ok doc \<Rightarrow> change_delete (\<lambda>s. delete_document P s (cl_namespace cl) (doc_collection doc) (cl_name cl))
                   (deleted ''Document'' (cl_name cl)) s)"
  by (simp_all add: store_change_eq change_effect_def Let_def change_rules effect_result_bind split: sum.split)

section \<open>The write on the abstract content\<close>

fun apply_write :: "kv_write \<Rightarrow> kv \<Rightarrow> kv" where
  "apply_write (KV_Put t k b) m = kv_put t k b m"
| "apply_write (KV_Del t k) m = kv_del t k m"

fun write_table :: "kv_write \<Rightarrow> string" where
  "write_table (KV_Put t k b) = t"
| "write_table (KV_Del t k) = t"

fun write_key :: "kv_write \<Rightarrow> string" where
  "write_key (KV_Put t k b) = k"
| "write_key (KV_Del t k) = k"

fun write_value :: "kv_write \<Rightarrow> bytes option" where
  "write_value (KV_Put t k b) = Some b"
| "write_value (KV_Del t k) = None"

lemma apply_write_apply:
  "apply_write w m t k = (if t = write_table w \<and> k = write_key w then write_value w else m t k)"
  by (cases w) (auto simp: kv_put_def kv_del_def)

definition resource_tables :: "string set" where
  "resource_tables =
     {TBL_NAMESPACES, TBL_ROUTES, TBL_SERVICES, TBL_MODULES, TBL_DOMAINS, TBL_SECRETS,
      TBL_COLLECTIONS, TBL_DOCUMENTS}"

lemma put_effect_table: "put_effect c t key msg item = Ok (w, m) \<Longrightarrow> write_table w = t"
  by (auto simp: put_effect_def result_bind_eq_Ok)

lemma change_effect_table: "change_effect S cl = Ok (w, msg) \<Longrightarrow> write_table w \<in> resource_tables"
  by (auto simp: change_effect_def Let_def resource_tables_def result_bind_eq_Ok
      dest: put_effect_table split: change_command.splits)

section \<open>Sequences of writes\<close>

definition writes_of :: "'j serde \<Rightarrow> 'j changelog list \<Rightarrow> kv_write list" where
  "writes_of S cls =
     concat (map (\<lambda>cl. case change_effect S cl of Ok (w, _) \<Rightarrow> [w] | Err _ \<Rightarrow> []) cls)"

definition apply_writes :: "kv_write list \<Rightarrow> kv \<Rightarrow> kv" where
  "apply_writes ws m = fold apply_write ws m"

lemma writes_of_simps [simp]:
  "writes_of S [] = []"
  "writes_of S (cl # cls) =
     (case change_effect S cl of Ok (w, _) \<Rightarrow> [w] | Err _ \<Rightarrow> []) @ writes_of S cls"
  by (simp_all add: writes_of_def)

lemma writes_of_append: "writes_of S (as @ bs) = writes_of S as @ writes_of S bs"
  by (simp add: writes_of_def)

lemma apply_writes_simps [simp]:
  "apply_writes [] m = m"
  "apply_writes (w # ws) m = apply_writes ws (apply_write w m)"
  by (simp_all add: apply_writes_def)

lemma apply_writes_append: "apply_writes (us @ ws) m = apply_writes ws (apply_writes us m)"
  by (simp add: apply_writes_def)

definition write_slots :: "kv_write list \<Rightarrow> (string \<times> string) set" where
  "write_slots ws = (\<lambda>w. (write_table w, write_key w)) ` set ws"

text \<open>A slot that is written ends with the last value written to it; another one is left alone.\<close>

lemma apply_writes_other: "(t, k) \<notin> write_slots ws \<Longrightarrow> apply_writes ws m t k = m t k"
  by (induction ws arbitrary: m) (auto simp: write_slots_def apply_write_apply)

lemma apply_writes_cong:
  "(t, k) \<in> write_slots ws \<or> m t k = m' t k \<Longrightarrow> apply_writes ws m t k = apply_writes ws m' t k"
proof (induction ws arbitrary: m m')
  case (Cons w ws)
  then show ?case by (auto simp: write_slots_def apply_write_apply)
qed (simp add: write_slots_def)

lemma apply_writes_absorb:
  assumes "write_slots us \<subseteq> write_slots ws"
  shows "apply_writes ws (apply_writes us m) = apply_writes ws m"
proof (intro ext)
  fix t k
  show "apply_writes ws (apply_writes us m) t k = apply_writes ws m t k"
  proof (rule apply_writes_cong)
    show "(t, k) \<in> write_slots ws \<or> apply_writes us m t k = m t k"
      using assms apply_writes_other [of t k us m] by blast
  qed
qed

lemma write_slots_append: "write_slots (us @ ws) = write_slots us \<union> write_slots ws"
  by (auto simp: write_slots_def)

context kv_storage
begin

lemma perform_write_ok:
  "ps_storage P = ops \<Longrightarrow> ok s \<Longrightarrow> write_table w \<in> tables \<Longrightarrow> ok (snd (perform_write P s w))"
  by (cases w) (simp_all add: perform_write_def laws)

lemma perform_write_content:
  "ps_storage P = ops \<Longrightarrow> ok s \<Longrightarrow> write_table w \<in> tables \<Longrightarrow>
   content (snd (perform_write P s w)) =
     (if is_ok (fst (perform_write P s w)) then apply_write w (content s) else content s)"
  by (cases w) (simp_all add: perform_write_def laws)

lemma store_change_content:
  assumes "ps_storage P = ops" and "ok s" and "resource_tables \<subseteq> tables"
  shows "ok (snd (store_change P s cl))"
    and "fst (store_change P s cl) = Ok msg \<Longrightarrow>
      \<exists>w. change_effect (ps_serde P) cl = Ok (w, msg) \<and>
          content (snd (store_change P s cl)) = apply_write w (content s)"
    and "\<not> is_ok (fst (store_change P s cl)) \<Longrightarrow> content (snd (store_change P s cl)) = content s"
proof -
  have "ok (snd (store_change P s cl)) \<and>
    (fst (store_change P s cl) = Ok msg \<longrightarrow>
      (\<exists>w. change_effect (ps_serde P) cl = Ok (w, msg) \<and>
          content (snd (store_change P s cl)) = apply_write w (content s))) \<and>
    (\<not> is_ok (fst (store_change P s cl)) \<longrightarrow> content (snd (store_change P s cl)) = content s)"
  proof (cases "change_effect (ps_serde P) cl")
    case (Inl e)
    with assms(2) show ?thesis by (simp add: store_change_Err)
  next
    case (Inr wm)
    then obtain w m where e: "change_effect (ps_serde P) cl = Ok (w, m)" by (cases wm) auto
    then have t: "write_table w \<in> tables" using change_effect_table assms(3) by blast
    show ?thesis
      using perform_write_ok [OF assms(1,2) t] perform_write_content [OF assms(1,2) t] e
      by (auto simp: store_change_Ok [OF e] result_bind_eq_Ok)
  qed
  then show "ok (snd (store_change P s cl))"
    and "fst (store_change P s cl) = Ok msg \<Longrightarrow>
      \<exists>w. change_effect (ps_serde P) cl = Ok (w, msg) \<and>
          content (snd (store_change P s cl)) = apply_write w (content s)"
    and "\<not> is_ok (fst (store_change P s cl)) \<Longrightarrow> content (snd (store_change P s cl)) = content s"
    by blast+
qed

end

context total_storage
begin

lemma store_change_total:
  assumes "ps_storage P = ops" and "ok s" and "resource_tables \<subseteq> tables"
  shows "fst (store_change P s cl) = result_bind (change_effect (ps_serde P) cl) (\<lambda>(w, msg). Ok msg)"
    and "content (snd (store_change P s cl)) =
      (case change_effect (ps_serde P) cl of Err e \<Rightarrow> content s | Ok (w, msg) \<Rightarrow> apply_write w (content s))"
proof -
  have w: "fst (perform_write P s w) = Ok ()" "content (snd (perform_write P s w)) = apply_write w (content s)"
    if "change_effect (ps_serde P) cl = Ok (w, m)" for w m
  proof -
    from change_effect_table [OF that] assms(3) have "write_table w \<in> tables" by blast
    with assms(1,2) show "fst (perform_write P s w) = Ok ()"
      and "content (snd (perform_write P s w)) = apply_write w (content s)"
      by (cases w; simp add: perform_write_def set_total delete_total set_content_eq delete_content_eq)+
  qed
  show "fst (store_change P s cl) = result_bind (change_effect (ps_serde P) cl) (\<lambda>(w, msg). Ok msg)"
  proof (cases "change_effect (ps_serde P) cl")
    case (Inr wm)
    with w(1) show ?thesis by (cases wm) (simp add: store_change_Ok)
  qed (simp add: store_change_Err)
  show "content (snd (store_change P s cl)) =
      (case change_effect (ps_serde P) cl of Err e \<Rightarrow> content s | Ok (w, msg) \<Rightarrow> apply_write w (content s))"
  proof (cases "change_effect (ps_serde P) cl")
    case (Inr wm)
    with w(2) show ?thesis by (cases wm) (simp add: store_change_Ok)
  qed (simp add: store_change_Err)
qed

end

end
