(* ===== verification/Consensus.thy ===== *)
theory Consensus
  imports Config
begin

text \<open>
  The types every consensus implementation shares, \<open>src/cluster/consensus.rs\<close>. The
  algorithm-specific part of the metrics is JSON made of numbers: the list of its members.
\<close>

type_synonym node_id = u64

record consensus_response =
  cr_success :: bool
  cr_message :: "string option"

definition consensus_response_default :: consensus_response where
  "consensus_response_default = \<lparr>cr_success = False, cr_message = None\<rparr>"

definition response_ok :: consensus_response where
  "response_ok = \<lparr>cr_success = True, cr_message = None\<rparr>"

definition response_ok_with_message :: "string \<Rightarrow> consensus_response" where
  "response_ok_with_message msg = \<lparr>cr_success = True, cr_message = Some msg\<rparr>"

definition response_error :: "string \<Rightarrow> consensus_response" where
  "response_error msg = \<lparr>cr_success = False, cr_message = Some msg\<rparr>"

datatype node_state = NS_Leader | NS_Follower | NS_Candidate | NS_Learner | NS_Shutdown | NS_Active

definition node_state_default :: node_state where "node_state_default = NS_Follower"

fun node_state_to_string :: "node_state \<Rightarrow> string" where
  "node_state_to_string NS_Leader = ''leader''"
| "node_state_to_string NS_Follower = ''follower''"
| "node_state_to_string NS_Candidate = ''candidate''"
| "node_state_to_string NS_Learner = ''learner''"
| "node_state_to_string NS_Shutdown = ''shutdown''"
| "node_state_to_string NS_Active = ''active''"

record consensus_metrics =
  cm_id :: node_id
  cm_mode :: cluster_mode
  cm_can_write :: bool
  cm_leader_id :: "node_id option"
  cm_state :: node_state
  cm_current_term :: "u64 option"
  cm_last_applied :: "u64 option"
  cm_committed :: "u64 option"
  cm_members :: "cluster_member list"
  cm_extra :: "(string \<times> nat) list option"

datatype consensus_error =
    CE_NotLeader "node_id option"
  | CE_Protocol string
  | CE_Network string
  | CE_Storage string
  | CE_Config string
  | CE_NodeNotFound node_id
  | CE_Timeout string

text \<open>\<open>{0:?}\<close> of an optional node id, and the \<open>Display\<close> of the errors.\<close>

definition debug_node_option :: "node_id option \<Rightarrow> string" where
  "debug_node_option n = (case n of None \<Rightarrow> ''None'' | Some i \<Rightarrow> ''Some('' @ show_nat (unat i) @ '')'')"

fun consensus_error_to_string :: "consensus_error \<Rightarrow> string" where
  "consensus_error_to_string (CE_NotLeader l) = ''Not leader, current leader is: '' @ debug_node_option l"
| "consensus_error_to_string (CE_Protocol s) = ''Consensus error: '' @ s"
| "consensus_error_to_string (CE_Network s) = ''Network error: '' @ s"
| "consensus_error_to_string (CE_Storage s) = ''Storage error: '' @ s"
| "consensus_error_to_string (CE_Config s) = ''Configuration error: '' @ s"
| "consensus_error_to_string (CE_NodeNotFound n) = ''Node not found: '' @ show_nat (unat n)"
| "consensus_error_to_string (CE_Timeout s) = ''Timeout: '' @ s"

section \<open>Member lists\<close>

text \<open>
  All the implementations keep a cached list of members and change it in the same way: a
  member is added at the end unless its id is there, and removed by id.
\<close>

definition member_new :: "node_id \<Rightarrow> string \<Rightarrow> cluster_member" where
  "member_new i addr = \<lparr>cmb_id = i, cmb_addr = addr, cmb_admin_port = None, cmb_tls = False\<rparr>"

definition members_push :: "node_id \<Rightarrow> string \<Rightarrow> cluster_member list \<Rightarrow> cluster_member list" where
  "members_push i addr ms = (if \<exists>m \<in> set ms. cmb_id m = i then ms else ms @ [member_new i addr])"

definition members_remove :: "node_id \<Rightarrow> cluster_member list \<Rightarrow> cluster_member list" where
  "members_remove i ms = filter (\<lambda>m. cmb_id m \<noteq> i) ms"

lemma members_push_ids:
  "cmb_id ` set (members_push i addr ms) = insert i (cmb_id ` set ms)"
  by (auto simp: members_push_def member_new_def)

lemma members_push_distinct:
  "distinct (map cmb_id ms) \<Longrightarrow> distinct (map cmb_id (members_push i addr ms))"
  by (auto simp: members_push_def member_new_def)

lemma members_remove_ids: "cmb_id ` set (members_remove i ms) = cmb_id ` set ms - {i}"
  by (auto simp: members_remove_def)

lemma members_remove_distinct:
  "distinct (map cmb_id ms) \<Longrightarrow> distinct (map cmb_id (members_remove i ms))"
  by (simp add: members_remove_def distinct_map_filter)

lemma members_remove_push:
  "i \<notin> cmb_id ` set ms \<Longrightarrow> members_remove i (members_push i addr ms) = ms"
  by (auto simp: members_remove_def members_push_def member_new_def filter_id_conv)

section \<open>The membership contract\<close>

text \<open>
  What the cluster manager relies on of \<open>add_node\<close> and \<open>remove_node\<close> of a consensus
  implementation: an operation that succeeds changes the members as above, and one that fails
  leaves them.
\<close>

locale member_registry =
  fixes member_list :: "'n \<Rightarrow> cluster_member list"
    and add_member :: "node_id \<Rightarrow> string \<Rightarrow> 'n \<Rightarrow> (string + unit) \<times> 'n"
    and remove_member :: "node_id \<Rightarrow> 'n \<Rightarrow> (string + unit) \<times> 'n"
  assumes add_Ok: "is_ok (fst (add_member i addr N)) \<Longrightarrow>
      member_list (snd (add_member i addr N)) = members_push i addr (member_list N)"
    and add_Err: "\<not> is_ok (fst (add_member i addr N)) \<Longrightarrow> member_list (snd (add_member i addr N)) = member_list N"
    and remove_Ok: "is_ok (fst (remove_member i N)) \<Longrightarrow>
      member_list (snd (remove_member i N)) = members_remove i (member_list N)"
    and remove_Err: "\<not> is_ok (fst (remove_member i N)) \<Longrightarrow> member_list (snd (remove_member i N)) = member_list N"
begin

definition member_ids :: "'n \<Rightarrow> node_id set" where
  "member_ids N = cmb_id ` set (member_list N)"

lemma add_ids:
  "member_ids (snd (add_member i addr N)) =
     (if is_ok (fst (add_member i addr N)) then insert i (member_ids N) else member_ids N)"
  by (simp add: member_ids_def add_Ok add_Err members_push_ids)

lemma remove_ids:
  "member_ids (snd (remove_member i N)) =
     (if is_ok (fst (remove_member i N)) then member_ids N - {i} else member_ids N)"
  by (simp add: member_ids_def remove_Ok remove_Err members_remove_ids)

lemma add_distinct:
  "distinct (map cmb_id (member_list N)) \<Longrightarrow> distinct (map cmb_id (member_list (snd (add_member i addr N))))"
  by (cases "is_ok (fst (add_member i addr N))") (simp_all add: add_Ok add_Err members_push_distinct)

lemma remove_distinct:
  "distinct (map cmb_id (member_list N)) \<Longrightarrow> distinct (map cmb_id (member_list (snd (remove_member i N))))"
  by (cases "is_ok (fst (remove_member i N))") (simp_all add: remove_Ok remove_Err members_remove_distinct)

lemma add_then_remove:
  assumes "i \<notin> member_ids N" and "is_ok (fst (add_member i addr N))"
    and "is_ok (fst (remove_member i (snd (add_member i addr N))))"
  shows "member_list (snd (remove_member i (snd (add_member i addr N)))) = member_list N"
  using assms by (simp add: remove_Ok add_Ok members_remove_push member_ids_def)

end

end
