(* ===== verification/Btree_Map.thy ===== *)
theory Btree_Map
  imports Prelude
begin

text \<open>
  Rust's \<open>BTreeMap\<close>: the association list of its entries in the order of their keys, which
  is the order its iterators and \<open>range\<close> go in.
\<close>

type_synonym ('k, 'v) btree_map = "('k \<times> 'v) list"

definition btree_ok :: "('k :: linorder, 'v) btree_map \<Rightarrow> bool" where
  "btree_ok m = sorted_wrt (<) (map fst m)"

fun btree_insert :: "'k :: linorder \<Rightarrow> 'v \<Rightarrow> ('k, 'v) btree_map \<Rightarrow> ('k, 'v) btree_map" where
  "btree_insert k v [] = [(k, v)]"
| "btree_insert k v ((k', v') # m) =
     (if k < k' then (k, v) # (k', v') # m
      else if k = k' then (k, v) # m
      else (k', v') # btree_insert k v m)"

definition btree_remove :: "'k \<Rightarrow> ('k, 'v) btree_map \<Rightarrow> ('k, 'v) btree_map" where
  "btree_remove k m = filter (\<lambda>(k', _). k' \<noteq> k) m"

text \<open>\<open>range\<close> with a predicate for the bounds, and \<open>split_off(k)\<close>: the map without the keys from \<open>k\<close> on.\<close>

definition btree_range :: "('k \<Rightarrow> bool) \<Rightarrow> ('k, 'v) btree_map \<Rightarrow> ('k \<times> 'v) list" where
  "btree_range inside m = filter (\<lambda>(k, _). inside k) m"

definition btree_split_off :: "'k :: linorder \<Rightarrow> ('k, 'v) btree_map \<Rightarrow> ('k, 'v) btree_map \<times> ('k, 'v) btree_map" where
  "btree_split_off k m = (filter (\<lambda>(k', _). k' < k) m, filter (\<lambda>(k', _). k \<le> k') m)"

definition btree_last :: "('k, 'v) btree_map \<Rightarrow> 'v option" where
  "btree_last m = (if m = [] then None else Some (snd (last m)))"

section \<open>Facts\<close>

lemma set_keys_insert: "set (map fst (btree_insert k v m)) = insert k (set (map fst m))"
  by (induction k v m rule: btree_insert.induct) auto

lemma btree_ok_Nil [simp]: "btree_ok []"
  by (simp add: btree_ok_def)

lemma btree_ok_Cons: "btree_ok ((k, v) # m) \<longleftrightarrow> (\<forall>k' \<in> fst ` set m. k < k') \<and> btree_ok m"
  by (simp add: btree_ok_def)

lemma btree_ok_insert [simp]: "btree_ok m \<Longrightarrow> btree_ok (btree_insert k v m)"
proof (induction k v m rule: btree_insert.induct)
  case (2 k v k' v' m)
  then have ok: "btree_ok m" and lt: "\<forall>x \<in> fst ` set m. k' < x" by (simp_all add: btree_ok_Cons)
  have keys: "fst ` set (btree_insert k v m) = insert k (fst ` set m)"
    using set_keys_insert [of k v m] by simp
  consider "k < k'" | "k = k'" | "k' < k" by force
  then show ?case
  proof cases
    case 1
    then show ?thesis using ok lt by (auto simp: btree_ok_Cons)
  next
    case 2
    then show ?thesis using ok lt by (auto simp: btree_ok_Cons)
  next
    case 3
    with "2.IH" ok lt keys show ?thesis by (auto simp: btree_ok_Cons)
  qed
qed (simp add: btree_ok_def)

lemma btree_ok_distinct: "btree_ok m \<Longrightarrow> distinct (map fst m)"
  by (simp add: btree_ok_def strict_sorted_iff)

lemma map_of_btree_insert:
  "btree_ok m \<Longrightarrow> map_of (btree_insert k v m) = (map_of m)(k \<mapsto> v)"
proof (induction k v m rule: btree_insert.induct)
  case (2 k v k' v' m)
  then have ok: "btree_ok m" by (simp add: btree_ok_Cons)
  show ?case using 2 ok by (cases "k < k'"; cases "k = k'") (auto simp: fun_eq_iff)
qed simp

lemma btree_ok_filter [simp]: "btree_ok m \<Longrightarrow> btree_ok (filter P m)"
proof (induction m)
  case (Cons x m)
  then show ?case by (cases x) (auto simp: btree_ok_Cons)
qed simp

lemma btree_ok_remove [simp]: "btree_ok m \<Longrightarrow> btree_ok (btree_remove k m)"
  by (simp add: btree_remove_def)

lemma btree_ok_split_off [simp]: "btree_ok m \<Longrightarrow> btree_ok (fst (btree_split_off k m))"
  by (simp add: btree_split_off_def)

lemma map_of_btree_remove: "map_of (btree_remove k m) = (map_of m)(k := None)"
  by (induction m) (auto simp: btree_remove_def)

lemma map_of_btree_split_off:
  "map_of (fst (btree_split_off k m)) = (\<lambda>i. if i < k then map_of m i else None)"
  using map_of_filter_key [of "\<lambda>i. i < k" m] by (auto simp: btree_split_off_def)

lemma map_of_btree_range:
  "map_of (btree_range P m) = (\<lambda>i. if P i then map_of m i else None)"
  using map_of_filter_key [of P m] by (auto simp: btree_range_def)

lemma btree_last_max:
  assumes "btree_ok m" and "m \<noteq> []"
  shows "map_of m (fst (last m)) = Some (snd (last m))" and "map_of m i \<noteq> None \<Longrightarrow> i \<le> fst (last m)"
proof -
  have "last m \<in> set m" using assms(2) by simp
  then show "map_of m (fst (last m)) = Some (snd (last m))"
    using btree_ok_distinct [OF assms(1)] by (metis map_of_eq_Some_iff prod.collapse)
  assume "map_of m i \<noteq> None"
  then have "i \<in> set (map fst m)" by (simp add: map_of_eq_None_iff)
  moreover have "map fst m = map fst (butlast m) @ [fst (last m)]"
    using arg_cong [OF append_butlast_last_id [OF assms(2)], of "map fst"] by simp
  moreover have "sorted (map fst m)" using assms(1) by (simp add: btree_ok_def strict_sorted_iff)
  ultimately show "i \<le> fst (last m)" by (auto simp: sorted_append)
qed

lemma btree_last_None_iff [simp]: "btree_last m = None \<longleftrightarrow> m = []"
  by (simp add: btree_last_def)

end
