(* ===== verification/Discovery.thy ===== *)
theory Discovery
  imports Consensus Btree_Map
begin

text \<open>
  Node discovery, \<open>src/cluster/discovery.rs\<close>. \<open>resolve\<close> is \<open>to_socket_addrs\<close> run on a
  blocking thread (\<open>None\<close> when the thread fails), giving the rendered addresses; \<open>hash\<close> is
  the standard library's \<open>DefaultHasher\<close>, whose algorithm is not specified.
\<close>

record node_discovery =
  nd_config :: discovery_config
  nd_known_nodes :: "(node_id, string) btree_map"

definition discovery_new :: "discovery_config \<Rightarrow> node_discovery" where
  "discovery_new config = \<lparr>nd_config = config, nd_known_nodes = []\<rparr>"

definition generate_node_id :: "(string \<Rightarrow> u64) \<Rightarrow> string \<Rightarrow> node_id" where
  "generate_node_id hash addr = hash addr mod 1000000 + 1"

type_synonym resolver = "string \<Rightarrow> (string + string list) option"

definition discover_via_dns ::
  "(string \<Rightarrow> u64) \<Rightarrow> resolver \<Rightarrow> node_discovery \<Rightarrow> (node_id \<times> string) list" where
  "discover_via_dns hash resolve d =
     (case dc_dns_name (nd_config d) of
        None \<Rightarrow> []
      | Some dns_name \<Rightarrow>
          let lookup_addr = dns_name @ '':'' @ show_nat (unat (dc_dns_port (nd_config d)))
          in (case resolve lookup_addr of
                None \<Rightarrow> []
              | Some (Err e) \<Rightarrow> []
              | Some (Ok addrs) \<Rightarrow>
                  if addrs = [] then []
                  else map (\<lambda>addr. (generate_node_id hash addr, addr)) addrs))"

definition discover ::
  "(string \<Rightarrow> u64) \<Rightarrow> resolver \<Rightarrow> node_discovery \<Rightarrow> (node_id \<times> string) list" where
  "discover hash resolve d =
     (case dc_discovery_type (nd_config d) of
        DT_Static \<Rightarrow> []
      | DT_Dns \<Rightarrow> discover_via_dns hash resolve d)"

text \<open>One round of \<open>run_discovery_loop_simple\<close>: known nodes keep their first address.\<close>

definition discovery_round :: "(string \<Rightarrow> u64) \<Rightarrow> resolver \<Rightarrow> node_discovery \<Rightarrow> node_discovery" where
  "discovery_round hash resolve d =
     (let discovered = discover hash resolve d
      in if discovered = [] then d
         else d\<lparr>nd_known_nodes :=
                fold (\<lambda>(node_id, addr) known.
                        if node_id \<in> fst ` set known then known else btree_insert node_id addr known)
                  discovered (nd_known_nodes d)\<rparr>)"

definition known_nodes :: "node_discovery \<Rightarrow> (node_id, string) btree_map" where
  "known_nodes d = nd_known_nodes d"

lemma generate_node_id_range: "1 \<le> unat (generate_node_id hash addr) \<and> unat (generate_node_id hash addr) \<le> 1000000"
proof -
  have "unat (hash addr mod 1000000) < 1000000"
    by (simp add: unat_mod)
  then have "unat (hash addr mod 1000000 + 1) = unat (hash addr mod 1000000) + 1"
    by (simp add: unat_word_ariths)
  with \<open>unat (hash addr mod 1000000) < 1000000\<close> show ?thesis by (simp add: generate_node_id_def)
qed

lemma discover_ids:
  "(i, addr) \<in> set (discover hash resolve d) \<Longrightarrow> i = generate_node_id hash addr"
  by (auto simp: discover_def discover_via_dns_def Let_def
      split: discovery_type.splits option.splits sum.splits if_splits)

lemma known_fold:
  assumes "btree_ok known"
  shows "btree_ok (fold (\<lambda>(i, a) known. if i \<in> fst ` set known then known else btree_insert i a known) ns known) \<and>
         (\<forall>i. i \<in> fst ` set known \<longrightarrow>
            map_of (fold (\<lambda>(i, a) known. if i \<in> fst ` set known then known else btree_insert i a known) ns known) i
              = map_of known i) \<and>
         fst ` set (fold (\<lambda>(i, a) known. if i \<in> fst ` set known then known else btree_insert i a known) ns known)
           = fst ` set known \<union> fst ` set ns"
  using assms
proof (induction ns arbitrary: known)
  case (Cons n ns)
  obtain i a where n: "n = (i, a)" by (cases n)
  show ?case
  proof (cases "i \<in> fst ` set known")
    case True
    with Cons n show ?thesis by (auto simp del: image_iff)
  next
    case False
    have ok: "btree_ok (btree_insert i a known)" using Cons.prems by simp
    have keys: "fst ` set (btree_insert i a known) = insert i (fst ` set known)"
      using set_keys_insert [of i a known] by simp
    show ?thesis
      using Cons.IH [OF ok] False n keys map_of_btree_insert [OF Cons.prems, of i a]
      by (auto simp del: image_iff)
  qed
qed simp

text \<open>
  A discovery round keeps every address already known, knows exactly the old nodes and
  the discovered ones, and gives every discovered node an id between 1 and 1000000, never the
  reserved 0, that depends only on its address.
\<close>

lemma discovery_round_keeps:
  assumes "btree_ok (nd_known_nodes d)"
  shows "btree_ok (known_nodes (discovery_round hash resolve d)) \<and>
         (\<forall>i \<in> fst ` set (known_nodes d).
            map_of (known_nodes (discovery_round hash resolve d)) i = map_of (known_nodes d) i) \<and>
         fst ` set (known_nodes (discovery_round hash resolve d)) =
           fst ` set (known_nodes d) \<union> fst ` set (discover hash resolve d) \<and>
         (\<forall>(i, addr) \<in> set (discover hash resolve d).
            i = generate_node_id hash addr \<and> 1 \<le> unat i \<and> unat i \<le> 1000000)"
proof -
  have "known_nodes (discovery_round hash resolve d) =
      fold (\<lambda>(i, a) known. if i \<in> fst ` set known then known else btree_insert i a known)
        (discover hash resolve d) (nd_known_nodes d)"
    by (simp add: known_nodes_def discovery_round_def Let_def)
  moreover have "i = generate_node_id hash addr \<and> 1 \<le> unat i \<and> unat i \<le> 1000000"
    if "(i, addr) \<in> set (discover hash resolve d)" for i addr
    using discover_ids [OF that] generate_node_id_range by metis
  ultimately show ?thesis
    using known_fold [OF assms, of "discover hash resolve d"] by (auto simp: known_nodes_def)
qed

end
