(* ===== verification/Tempo_Node.thy ===== *)
theory Tempo_Node
  imports Tempo_Clock Tempo_State Changes Discovery
begin

text \<open>
  The Tempo node: the messages (\<open>tempo/messages.rs\<close>), the HTTP layer (\<open>tempo/network.rs\<close>) and
  \<open>TempoConsensus\<close> (\<open>tempo/mod.rs\<close>). A handler takes the node and returns it changed with the
  HTTP requests it posts; the answer to a post is only logged by the code. \<open>now\<close> is what
  \<open>physical_time\<close> reads. The locks make the parts of a handler atomic; \<open>propose\<close>, which waits
  between its parts while messages are handled, is split at those points. The one-shot
  channel of a waiting proposal is an entry of \<open>tn_pending\<close>, its value an entry of
  \<open>tn_replies\<close>.
\<close>

section \<open>Messages\<close>

datatype tempo_message_type = MCollect | MCollectAck | MCommit | ClockBump

record 'j tempo_message =
  tm_msg_type :: tempo_message_type
  tm_dot :: "dot option"
  tm_clock :: "u64 option"
  tm_changelog :: "'j changelog option"
  tm_votes :: "(node_id \<times> u64) list option"
  tm_quorum :: "node_id list option"

definition mcollect :: "dot \<Rightarrow> u64 \<Rightarrow> 'j changelog \<Rightarrow> 'j tempo_message" where
  "mcollect d clock changelog =
     \<lparr>tm_msg_type = MCollect, tm_dot = Some d, tm_clock = Some clock, tm_changelog = Some changelog,
      tm_votes = None, tm_quorum = None\<rparr>"

definition mcollect_ack :: "dot \<Rightarrow> u64 \<Rightarrow> 'j tempo_message" where
  "mcollect_ack d clock =
     \<lparr>tm_msg_type = MCollectAck, tm_dot = Some d, tm_clock = Some clock, tm_changelog = None,
      tm_votes = None, tm_quorum = None\<rparr>"

definition mcommit :: "dot \<Rightarrow> u64 \<Rightarrow> 'j changelog \<Rightarrow> 'j tempo_message" where
  "mcommit d clock changelog =
     \<lparr>tm_msg_type = MCommit, tm_dot = Some d, tm_clock = Some clock, tm_changelog = Some changelog,
      tm_votes = None, tm_quorum = None\<rparr>"

definition clock_bump :: "u64 \<Rightarrow> 'j tempo_message" where
  "clock_bump clock =
     \<lparr>tm_msg_type = ClockBump, tm_dot = None, tm_clock = Some clock, tm_changelog = None,
      tm_votes = None, tm_quorum = None\<rparr>"

section \<open>Network\<close>

record 'j tempo_request =
  tq_from :: node_id
  tq_message :: "'j tempo_message"

record 'j tempo_network =
  tnw_node_id :: node_id
  tnw_inbox :: "(node_id \<times> 'j tempo_message) channel"
  tnw_receiver :: bool \<comment> \<open>the receiver has not been taken\<close>

text \<open>An HTTP post: the URL and the body.\<close>

type_synonym 'j post = "string \<times> 'j tempo_request"

definition network_new :: "node_id \<Rightarrow> 'j tempo_network" where
  "network_new node_id =
     \<lparr>tnw_node_id = node_id, tnw_inbox = \<lparr>ch_open = True, ch_sent = []\<rparr>, tnw_receiver = True\<rparr>"

text \<open>\<open>None\<close> is the panic of taking the receiver twice.\<close>

definition message_receiver :: "'j tempo_network \<Rightarrow> 'j tempo_network option" where
  "message_receiver n = (if tnw_receiver n then Some (n\<lparr>tnw_receiver := False\<rparr>) else None)"

definition handle_incoming :: "'j tempo_network \<Rightarrow> node_id \<Rightarrow> 'j tempo_message \<Rightarrow> 'j tempo_network" where
  "handle_incoming n from_id msg = n\<lparr>tnw_inbox := channel_send (tnw_inbox n) (from_id, msg)\<rparr>"

definition network_send :: "'j tempo_network \<Rightarrow> string \<Rightarrow> 'j tempo_message \<Rightarrow> 'j post" where
  "network_send n addr msg =
     (''http://'' @ addr @ ''/tempo/message'', \<lparr>tq_from = tnw_node_id n, tq_message = msg\<rparr>)"

definition network_broadcast :: "'j tempo_network \<Rightarrow> string list \<Rightarrow> 'j tempo_message \<Rightarrow> 'j post list" where
  "network_broadcast n addrs msg = map (\<lambda>addr. network_send n addr msg) addrs"

section \<open>The node\<close>

record ('s, 'j) tempo_node =
  tn_config :: cluster_config
  tn_tempo_config :: tempo_config
  tn_state :: "'j tempo_state"
  tn_clock :: logical_clock
  tn_network :: "'j tempo_network"
  tn_store :: 's
  tn_change_tx :: "'j changelog channel"
  tn_discovery :: "node_discovery option"
  tn_members :: "cluster_member list"
  tn_pending :: "dot set"
  tn_replies :: "dot \<rightharpoonup> consensus_response"
  tn_next_sequence :: u64
  tn_shutdown_tx :: bool

text \<open>The background tasks \<open>new\<close> starts are the handlers below; starting them takes the receiver.\<close>

definition tempo_new :: "u64 \<Rightarrow> cluster_config \<Rightarrow> 's \<Rightarrow> 'j changelog channel \<Rightarrow> ('s, 'j) tempo_node" where
  "tempo_new now cluster_config store change_tx =
     (let node_id = cc_node_id cluster_config;
          tempo_config = (case cc_tempo cluster_config of Some t \<Rightarrow> t | None \<Rightarrow> tempo_config_default);
          n = max (length (cc_initial_members cluster_config)) 1;
          f = (n - 1) div 2;
          fast_quorum_size = (case tmc_fast_quorum_size tempo_config of Some q \<Rightarrow> q | None \<Rightarrow> f + 1);
          write_quorum_size = (case tmc_write_quorum_size tempo_config of Some q \<Rightarrow> q | None \<Rightarrow> f + 1)
      in \<lparr>tn_config = cluster_config, tn_tempo_config = tempo_config,
          tn_state = tempo_state_new node_id fast_quorum_size write_quorum_size,
          tn_clock = clock_new node_id now,
          tn_network = (network_new node_id)\<lparr>tnw_receiver := False\<rparr>,
          tn_store = store, tn_change_tx = change_tx,
          tn_discovery = map_option discovery_new (cc_discovery cluster_config),
          tn_members = cc_initial_members cluster_config,
          tn_pending = {}, tn_replies = Map.empty, tn_next_sequence = 1, tn_shutdown_tx = True\<rparr>)"

section \<open>Sending\<close>

definition member_addr :: "cluster_member \<Rightarrow> string" where
  "member_addr m =
     (case cmb_admin_port m of
        Some admin_port \<Rightarrow> hd (split_on (CHR '':'') (cmb_addr m)) @ '':'' @ show_nat (unat admin_port)
      | None \<Rightarrow> cmb_addr m)"

definition send_message :: "('s, 'j) tempo_node \<Rightarrow> node_id \<Rightarrow> 'j tempo_message \<Rightarrow> 'j post list" where
  "send_message N to_id msg =
     (case map_option member_addr (find (\<lambda>m. cmb_id m = to_id) (tn_members N)) of
        Some addr \<Rightarrow> [network_send (tn_network N) addr msg]
      | None \<Rightarrow> [])"

definition broadcast_message :: "('s, 'j) tempo_node \<Rightarrow> 'j tempo_message \<Rightarrow> 'j post list" where
  "broadcast_message N msg =
     map (\<lambda>m. network_send (tn_network N) (member_addr m) msg)
       (filter (\<lambda>m. cmb_id m \<noteq> cc_node_id (tn_config N)) (tn_members N))"

definition next_dot :: "('s, 'j) tempo_node \<Rightarrow> dot \<times> ('s, 'j) tempo_node" where
  "next_dot N =
     (dot_new (cc_node_id (tn_config N)) (tn_next_sequence N),
      N\<lparr>tn_next_sequence := tn_next_sequence N + 1\<rparr>)"

section \<open>Applying a change\<close>

definition tempo_store_change ::
  "('s, 'j) proxy_store \<Rightarrow> 's \<Rightarrow> 'j changelog \<Rightarrow> (string + string) \<times> 's" where
  "tempo_store_change P s cl =
     (let S = ps_serde P; item = cl_item cl; ns = cl_namespace cl; name = cl_name cl
      in case cl_cmd cl of
        AddNamespace \<Rightarrow>
          change_add (sd_namespace S) (set_namespace P) (\<lambda>x. created ''Namespace'' (ns_name x)) item s
      | DeleteNamespace \<Rightarrow>
          change_delete (\<lambda>s. delete_namespace P s name) (deleted ''Namespace'' name) s
      | AddRoute \<Rightarrow>
          change_add (sd_route S) (set_route P) (\<lambda>x. created ''Route'' (rt_name x)) item s
      | DeleteRoute \<Rightarrow>
          change_delete (\<lambda>s. delete_route P s ns name) (deleted ''Route'' name) s
      | AddService \<Rightarrow>
          change_add (sd_service S) (set_service P) (\<lambda>x. created ''Service'' (svc_name x)) item s
      | DeleteService \<Rightarrow>
          change_delete (\<lambda>s. delete_service P s ns name) (deleted ''Service'' name) s
      | AddModule \<Rightarrow>
          change_add (sd_module S) (set_module P) (\<lambda>x. created ''Module'' (md_name x)) item s
      | DeleteModule \<Rightarrow>
          change_delete (\<lambda>s. delete_module P s ns name) (deleted ''Module'' name) s
      | AddDomain \<Rightarrow>
          change_add (sd_domain S) (set_domain P) (\<lambda>x. created ''Domain'' (dom_name x)) item s
      | DeleteDomain \<Rightarrow>
          change_delete (\<lambda>s. delete_domain P s ns name) (deleted ''Domain'' name) s
      | AddSecret \<Rightarrow>
          change_add (sd_secret S) (set_secret P) (\<lambda>x. created ''Secret'' (sec_name x)) item s
      | DeleteSecret \<Rightarrow>
          change_delete (\<lambda>s. delete_secret P s ns name) (deleted ''Secret'' name) s
      | AddCollection \<Rightarrow>
          change_add (sd_collection S) (set_collection P) (\<lambda>x. created ''Collection'' (col_name x)) item s
      | DeleteCollection \<Rightarrow>
          change_delete (\<lambda>s. delete_collection P s ns name) (deleted ''Collection'' name) s
      | AddDocument \<Rightarrow>
          change_add (sd_document S) (set_document P) (\<lambda>x. created ''Document'' (doc_id x)) item s
      | DeleteDocument \<Rightarrow>
          (case from_value (sd_document S) item of
             Err e \<Rightarrow> (Err e, s)
           | Ok doc \<Rightarrow>
               change_delete (\<lambda>s. delete_document P s ns (doc_collection doc) name)
                 (deleted ''Document'' name) s))"

definition tempo_apply_changelog ::
  "('s, 'j) proxy_store \<Rightarrow> 'j changelog \<Rightarrow> ('s, 'j) tempo_node \<Rightarrow> (string + string) \<times> ('s, 'j) tempo_node" where
  "tempo_apply_changelog P cl N =
     (case tempo_store_change P (tn_store N) cl of
        (Err e, s) \<Rightarrow> (Err e, N\<lparr>tn_store := s\<rparr>)
      | (Ok msg, s) \<Rightarrow>
          (Ok msg, N\<lparr>tn_store := s, tn_change_tx := channel_send (tn_change_tx N) cl\<rparr>))"

section \<open>Handlers\<close>

definition handle_clock_bump :: "u64 \<Rightarrow> ('s, 'j) tempo_node \<Rightarrow> ('s, 'j) tempo_node \<times> 'j post list" where
  "handle_clock_bump now N =
     (let N = N\<lparr>tn_clock := snd (clock_tick now (tn_clock N))\<rparr>
      in (N, broadcast_message N (clock_bump (clock_current (tn_clock N)))))"

definition handle_mcollect ::
  "u64 \<times> u64 \<Rightarrow> node_id \<Rightarrow> 'j tempo_message \<Rightarrow> ('s, 'j) tempo_node \<Rightarrow> ('s, 'j) tempo_node \<times> 'j post list" where
  "handle_mcollect now from_id msg N =
     (case (tm_dot msg, tm_changelog msg) of
        (Some d, Some changelog) \<Rightarrow>
          let coord_clock = (case tm_clock msg of Some c \<Rightarrow> c | None \<Rightarrow> 0);
              clk = clock_update (fst now) coord_clock (tn_clock N);
              (my_clock, clk) = clock_tick (snd now) clk;
              N = N\<lparr>tn_clock := clk, tn_state := add_command d changelog coord_clock (tn_state N)\<rparr>
          in (N, send_message N from_id (mcollect_ack d my_clock))
      | _ \<Rightarrow> (N, []))"

definition commit_command ::
  "('s, 'j) proxy_store \<Rightarrow> dot \<Rightarrow> ('s, 'j) tempo_node \<Rightarrow> ('s, 'j) tempo_node \<times> 'j post list" where
  "commit_command P d N =
     (case get_command (tn_state N) d of
        None \<Rightarrow> (N, [])
      | Some cmd \<Rightarrow>
          if ci_committed cmd then (N, [])
          else
            let changelog = ci_changelog cmd;
                N = N\<lparr>tn_state := mark_committed d (tn_state N)\<rparr>;
                (result, N) = tempo_apply_changelog P changelog N;
                N = (if d \<in> tn_pending N
                     then N\<lparr>tn_pending := tn_pending N - {d},
                            tn_replies := (tn_replies N)(d \<mapsto>
                              (case result of Ok m \<Rightarrow> response_ok_with_message m | Err e \<Rightarrow> response_error e))\<rparr>
                     else N)
            in (N, broadcast_message N (mcommit d (ci_clock cmd) changelog)))"

definition handle_mcollect_ack ::
  "('s, 'j) proxy_store \<Rightarrow> u64 \<Rightarrow> node_id \<Rightarrow> 'j tempo_message \<Rightarrow> ('s, 'j) tempo_node \<Rightarrow>
   ('s, 'j) tempo_node \<times> 'j post list" where
  "handle_mcollect_ack P now from_id msg N =
     (case tm_dot msg of
        None \<Rightarrow> (N, [])
      | Some d \<Rightarrow>
          let their_clock = (case tm_clock msg of Some c \<Rightarrow> c | None \<Rightarrow> 0);
              N = N\<lparr>tn_clock := clock_update now their_clock (tn_clock N)\<rparr>;
              (should_commit, st) = add_ack d from_id their_clock (tn_state N);
              N = N\<lparr>tn_state := st\<rparr>
          in if should_commit then commit_command P d N else (N, []))"

definition handle_mcommit ::
  "('s, 'j) proxy_store \<Rightarrow> u64 \<Rightarrow> node_id \<Rightarrow> 'j tempo_message \<Rightarrow> ('s, 'j) tempo_node \<Rightarrow>
   ('s, 'j) tempo_node \<times> 'j post list" where
  "handle_mcommit P now from_id msg N =
     (case (tm_dot msg, tm_changelog msg) of
        (Some d, Some changelog) \<Rightarrow>
          let commit_clock = (case tm_clock msg of Some c \<Rightarrow> c | None \<Rightarrow> 0);
              N = N\<lparr>tn_clock := clock_update now commit_clock (tn_clock N)\<rparr>
          in if is_committed (tn_state N) d then (N, [])
             else
               let (_, N) = tempo_apply_changelog P changelog N
               in (N\<lparr>tn_state := mark_committed d (tn_state N)\<rparr>, [])
      | _ \<Rightarrow> (N, []))"

definition handle_message ::
  "('s, 'j) proxy_store \<Rightarrow> u64 \<times> u64 \<Rightarrow> node_id \<Rightarrow> 'j tempo_message \<Rightarrow> ('s, 'j) tempo_node \<Rightarrow>
   ('s, 'j) tempo_node \<times> 'j post list" where
  "handle_message P now from_id msg N =
     (case tm_msg_type msg of
        MCollect \<Rightarrow> handle_mcollect now from_id msg N
      | MCollectAck \<Rightarrow> handle_mcollect_ack P (fst now) from_id msg N
      | MCommit \<Rightarrow> handle_mcommit P (fst now) from_id msg N
      | ClockBump \<Rightarrow>
          (case tm_clock msg of
             Some clock \<Rightarrow> (N\<lparr>tn_clock := clock_update (fst now) clock (tn_clock N)\<rparr>, [])
           | None \<Rightarrow> (N, [])))"

definition handle_incoming_message :: "node_id \<Rightarrow> 'j tempo_message \<Rightarrow> ('s, 'j) tempo_node \<Rightarrow> ('s, 'j) tempo_node" where
  "handle_incoming_message from_id msg N = N\<lparr>tn_network := handle_incoming (tn_network N) from_id msg\<rparr>"

text \<open>One iteration of the message task: the oldest message of the inbox.\<close>

definition message_task ::
  "('s, 'j) proxy_store \<Rightarrow> u64 \<times> u64 \<Rightarrow> ('s, 'j) tempo_node \<Rightarrow> ('s, 'j) tempo_node \<times> 'j post list" where
  "message_task P now N =
     (case ch_sent (tnw_inbox (tn_network N)) of
        [] \<Rightarrow> (N, [])
      | (from_id, msg) # rest \<Rightarrow>
          handle_message P now from_id msg
            (N\<lparr>tn_network := (tn_network N)\<lparr>tnw_inbox := (tnw_inbox (tn_network N))\<lparr>ch_sent := rest\<rparr>\<rparr>\<rparr>))"

text \<open>The discovery task adds the nodes found to the members.\<close>

definition discovery_task :: "(node_id \<times> string) list \<Rightarrow> ('s, 'j) tempo_node \<Rightarrow> ('s, 'j) tempo_node" where
  "discovery_task nodes N =
     N\<lparr>tn_members := fold (\<lambda>(node_id, addr) ms. members_push node_id addr ms) nodes (tn_members N)\<rparr>"

section \<open>The Consensus operations\<close>

definition tempo_initialize :: "('s, 'j) tempo_node \<Rightarrow> 'j post list" where
  "tempo_initialize N =
     map (\<lambda>m. network_send (tn_network N) (cmb_addr m) (clock_bump (clock_current (tn_clock N))))
       (filter (\<lambda>m. cmb_id m \<noteq> cc_node_id (tn_config N)) (cc_initial_members (tn_config N)))"

definition tempo_can_write :: "('s, 'j) tempo_node \<Rightarrow> bool" where
  "tempo_can_write N = True"

definition tempo_leader_id :: "('s, 'j) tempo_node \<Rightarrow> node_id option" where
  "tempo_leader_id N = None"

text \<open>\<open>propose\<close> up to the end of the broadcast, the quorum check after it, and the wait.\<close>

definition propose_begin ::
  "u64 \<Rightarrow> 'j changelog \<Rightarrow> ('s, 'j) tempo_node \<Rightarrow> dot \<times> ('s, 'j) tempo_node \<times> 'j post list" where
  "propose_begin now changelog N =
     (let (d, N) = next_dot N;
          (clock, clk) = clock_tick now (tn_clock N);
          N = N\<lparr>tn_clock := clk, tn_pending := insert d (tn_pending N),
                tn_replies := (tn_replies N)(d := None)\<rparr>;
          st = add_command d changelog clock (tn_state N);
          (_, st) = add_ack d (cc_node_id (tn_config N)) clock st;
          N = N\<lparr>tn_state := st\<rparr>
      in (d, N, broadcast_message N (mcollect d clock changelog)))"

definition propose_check ::
  "('s, 'j) proxy_store \<Rightarrow> dot \<Rightarrow> ('s, 'j) tempo_node \<Rightarrow> ('s, 'j) tempo_node \<times> 'j post list" where
  "propose_check P d N =
     (if has_quorum (tn_state N) d then commit_command P d N else (N, []))"

text \<open>\<open>None\<close>: still waiting. \<open>timed_out\<close> says whether the five seconds are over.\<close>

definition propose_wait ::
  "bool \<Rightarrow> dot \<Rightarrow> ('s, 'j) tempo_node \<Rightarrow> (string + consensus_response) option \<times> ('s, 'j) tempo_node" where
  "propose_wait timed_out d N =
     (case tn_replies N d of
        Some response \<Rightarrow> (Some (Ok response), N\<lparr>tn_replies := (tn_replies N)(d := None)\<rparr>)
      | None \<Rightarrow>
          if d \<notin> tn_pending N then (Some (Err ''Commit channel closed''), N)
          else if timed_out then
            (Some (Err ''Command timed out waiting for quorum''), N\<lparr>tn_pending := tn_pending N - {d}\<rparr>)
          else (None, N))"

definition tempo_metrics :: "('s, 'j) tempo_node \<Rightarrow> consensus_metrics" where
  "tempo_metrics N =
     \<lparr>cm_id = cc_node_id (tn_config N), cm_mode = CM_Tempo, cm_can_write = True, cm_leader_id = None,
      cm_state = NS_Active, cm_current_term = Some (clock_current (tn_clock N)),
      cm_last_applied = Some (last_applied_sequence (tn_state N)),
      cm_committed = Some (committed_count (tn_state N)), cm_members = tn_members N,
      cm_extra = Some [(''fast_quorum_size'', ts_fast_quorum_size (tn_state N)),
                       (''write_quorum_size'', ts_write_quorum_size (tn_state N)),
                       (''pending_commands'', pending_count (tn_state N))]\<rparr>"

definition tempo_add_node :: "node_id \<Rightarrow> string \<Rightarrow> ('s, 'j) tempo_node \<Rightarrow> ('s, 'j) tempo_node" where
  "tempo_add_node node_id addr N = N\<lparr>tn_members := members_push node_id addr (tn_members N)\<rparr>"

definition tempo_remove_node :: "node_id \<Rightarrow> ('s, 'j) tempo_node \<Rightarrow> ('s, 'j) tempo_node" where
  "tempo_remove_node node_id N = N\<lparr>tn_members := members_remove node_id (tn_members N)\<rparr>"

definition tempo_members :: "('s, 'j) tempo_node \<Rightarrow> cluster_member list" where
  "tempo_members N = tn_members N"

definition tempo_shutdown :: "('s, 'j) tempo_node \<Rightarrow> ('s, 'j) tempo_node" where
  "tempo_shutdown N = N\<lparr>tn_shutdown_tx := False\<rparr>"

text \<open>A Tempo node keeps the membership contract; its operations do not fail.\<close>

interpretation tempo: member_registry tempo_members "\<lambda>i addr N. (Ok (), tempo_add_node i addr N)"
    "\<lambda>i N. (Ok (), tempo_remove_node i N)"
  by unfold_locales (simp_all add: tempo_members_def tempo_add_node_def tempo_remove_node_def)

section \<open>What the handlers do\<close>

lemma tempo_store_change_spec: "tempo_store_change P s cl = store_change P s cl"
  by (cases "cl_cmd cl")
    (simp_all add: tempo_store_change_def store_change_eq change_effect_def Let_def change_rules
      effect_result_bind split: sum.split)

lemma tempo_apply_changelog_eq:
  "tempo_apply_changelog P cl N =
     (fst (store_change P (tn_store N) cl),
      N\<lparr>tn_store := snd (store_change P (tn_store N) cl),
        tn_change_tx := (if is_ok (fst (store_change P (tn_store N) cl))
                         then channel_send (tn_change_tx N) cl else tn_change_tx N)\<rparr>)"
  by (auto simp: tempo_apply_changelog_def tempo_store_change_spec split: prod.splits sum.splits)

text \<open>What no handler and no proposal changes.\<close>

definition same_static :: "('s, 'j) tempo_node \<Rightarrow> ('s, 'j) tempo_node \<Rightarrow> bool" where
  "same_static N N' \<longleftrightarrow>
     tn_config N' = tn_config N \<and> tn_network N' = tn_network N \<and> tn_members N' = tn_members N"

lemma same_static_refl [simp]: "same_static N N"
  by (simp add: same_static_def)

lemma send_message_static [state_simps]: "same_static N N' \<Longrightarrow> send_message N' j msg = send_message N j msg"
  by (cases "find (\<lambda>m. cmb_id m = j) (tn_members N)") (simp_all add: send_message_def same_static_def)

lemma broadcast_message_static [state_simps]: "same_static N N' \<Longrightarrow> broadcast_message N' msg = broadcast_message N msg"
  by (simp add: broadcast_message_def same_static_def)

lemma commit_command_skip:
  "(\<And>c. get_command (tn_state N) d = Some c \<Longrightarrow> ci_committed c) \<Longrightarrow> commit_command P d N = (N, [])"
  by (auto simp: commit_command_def split: option.splits)

lemma commit_command_effect:
  assumes "get_command (tn_state N) d = Some c" and "\<not> ci_committed c"
    and "commit_command P d N = (N', posts)"
  shows "same_static N N'" and "tn_next_sequence N' = tn_next_sequence N"
    and "tn_clock N' = tn_clock N"
    and "tn_state N' = mark_committed d (tn_state N)"
    and "tn_store N' = snd (store_change P (tn_store N) (ci_changelog c))"
    and "ch_sent (tn_change_tx N') = ch_sent (tn_change_tx N) @
           (if is_ok (fst (store_change P (tn_store N) (ci_changelog c))) \<and> ch_open (tn_change_tx N)
            then [ci_changelog c] else [])"
    and "posts = broadcast_message N (mcommit d (ci_clock c) (ci_changelog c))"
    and "d \<in> tn_pending N \<Longrightarrow> tn_pending N' = tn_pending N - {d} \<and>
           tn_replies N' d = Some (case fst (store_change P (tn_store N) (ci_changelog c)) of
             Ok m \<Rightarrow> response_ok_with_message m | Err e \<Rightarrow> response_error e)"
    and "e \<noteq> d \<Longrightarrow> tn_replies N' e = tn_replies N e"
proof -
  have N': "N' = fst (commit_command P d N)" and posts: "posts = snd (commit_command P d N)"
    using assms(3) by simp_all
  note defs = commit_command_def assms(1,2) Let_def tempo_apply_changelog_eq
  show st: "same_static N N'" by (simp add: N' defs same_static_def)
  show "tn_next_sequence N' = tn_next_sequence N" "tn_clock N' = tn_clock N"
    "tn_state N' = mark_committed d (tn_state N)"
    "tn_store N' = snd (store_change P (tn_store N) (ci_changelog c))"
    by (simp_all add: N' defs)
  show "ch_sent (tn_change_tx N') = ch_sent (tn_change_tx N) @
      (if is_ok (fst (store_change P (tn_store N) (ci_changelog c))) \<and> ch_open (tn_change_tx N)
       then [ci_changelog c] else [])"
    by (simp add: N' defs)
  show "posts = broadcast_message N (mcommit d (ci_clock c) (ci_changelog c))"
    unfolding posts broadcast_message_static [OF st, symmetric] by (simp add: N' defs)
  show "d \<in> tn_pending N \<Longrightarrow> tn_pending N' = tn_pending N - {d} \<and>
      tn_replies N' d = Some (case fst (store_change P (tn_store N) (ci_changelog c)) of
        Ok m \<Rightarrow> response_ok_with_message m | Err e \<Rightarrow> response_error e)"
    by (simp add: N' defs)
  show "e \<noteq> d \<Longrightarrow> tn_replies N' e = tn_replies N e" by (simp add: N' defs)
qed

lemma handle_mcommit_effect:
  assumes "tm_dot msg = Some d" and "tm_changelog msg = Some cl"
    and "handle_mcommit P now j msg N = (N', posts)"
  shows "same_static N N'" and "tn_next_sequence N' = tn_next_sequence N" and "posts = []"
    and "tn_clock N' = clock_update now (case tm_clock msg of Some c \<Rightarrow> c | None \<Rightarrow> 0) (tn_clock N)"
    and "tn_state N' = (if is_committed (tn_state N) d then tn_state N else mark_committed d (tn_state N))"
    and "tn_store N' = (if is_committed (tn_state N) d then tn_store N
                        else snd (store_change P (tn_store N) cl))"
  using assms by (auto simp: handle_mcommit_def Let_def tempo_apply_changelog_eq same_static_def split: if_splits)

lemma handle_mcollect_effect:
  assumes "tm_dot msg = Some d" and "tm_changelog msg = Some cl"
    and "handle_mcollect now j msg N = (N', posts)"
  shows "same_static N N'" and "tn_next_sequence N' = tn_next_sequence N"
    and "tn_store N' = tn_store N"
    and "tn_state N' = add_command d cl (case tm_clock msg of Some c \<Rightarrow> c | None \<Rightarrow> 0) (tn_state N)"
    and "\<exists>clk. posts = send_message N j (mcollect_ack d clk) \<and> clk = lc_clock (tn_clock N')"
proof -
  define clk where "clk = clock_update (fst now) (case tm_clock msg of Some c \<Rightarrow> c | None \<Rightarrow> 0) (tn_clock N)"
  define M where "M = N\<lparr>tn_clock := snd (clock_tick (snd now) clk),
    tn_state := add_command d cl (case tm_clock msg of Some c \<Rightarrow> c | None \<Rightarrow> 0) (tn_state N)\<rparr>"
  have h: "handle_mcollect now j msg N = (M, send_message M j (mcollect_ack d (fst (clock_tick (snd now) clk))))"
    by (simp add: handle_mcollect_def assms(1,2) Let_def case_prod_unfold M_def clk_def)
  then have N': "N' = M" and posts: "posts = send_message M j (mcollect_ack d (fst (clock_tick (snd now) clk)))"
    using assms(3) by simp_all
  show st: "same_static N N'" by (simp add: N' M_def same_static_def)
  show "tn_next_sequence N' = tn_next_sequence N" "tn_store N' = tn_store N"
    "tn_state N' = add_command d cl (case tm_clock msg of Some c \<Rightarrow> c | None \<Rightarrow> 0) (tn_state N)"
    by (simp_all add: N' M_def)
  have "fst (clock_tick (snd now) clk) = lc_clock (tn_clock N')" by (simp add: N' M_def clock_tick_fst)
  then show "\<exists>clk. posts = send_message N j (mcollect_ack d clk) \<and> clk = lc_clock (tn_clock N')"
    using send_message_static [OF st] by (simp add: posts N')
qed

lemma handle_missing_fields:
  "tm_dot msg = None \<or> tm_changelog msg = None \<Longrightarrow> handle_mcollect now2 j msg N = (N, [])"
  "tm_dot msg = None \<or> tm_changelog msg = None \<Longrightarrow> handle_mcommit P now j msg N = (N, [])"
  "tm_dot msg = None \<Longrightarrow> handle_mcollect_ack P now j msg N = (N, [])"
  by (auto simp: handle_mcollect_def handle_mcommit_def handle_mcollect_ack_def split: option.splits)

text \<open>An acknowledgement is recorded, and then possibly commits.\<close>

definition record_ack :: "u64 \<Rightarrow> node_id \<Rightarrow> 'j tempo_message \<Rightarrow> dot \<Rightarrow> ('s, 'j) tempo_node \<Rightarrow> ('s, 'j) tempo_node" where
  "record_ack now j msg d N =
     (let clk = (case tm_clock msg of Some c \<Rightarrow> c | None \<Rightarrow> 0)
      in N\<lparr>tn_clock := clock_update now clk (tn_clock N), tn_state := snd (add_ack d j clk (tn_state N))\<rparr>)"

lemma handle_mcollect_ack_eq:
  "tm_dot msg = Some d \<Longrightarrow>
   handle_mcollect_ack P now j msg N =
     (if has_quorum (tn_state (record_ack now j msg d N)) d
      then commit_command P d (record_ack now j msg d N) else (record_ack now j msg d N, []))"
proof -
  assume d: "tm_dot msg = Some d"
  then show ?thesis
    by (simp add: handle_mcollect_ack_def record_ack_def Let_def case_prod_unfold add_ack_has_quorum)
qed

lemma record_ack_static [simp]:
  "same_static N (record_ack now j msg d N)"
  "tn_next_sequence (record_ack now j msg d N) = tn_next_sequence N"
  "tn_store (record_ack now j msg d N) = tn_store N"
  by (simp_all add: record_ack_def Let_def same_static_def)

lemma propose_begin_effect:
  assumes "propose_begin now cl N = (d, N', posts)"
  shows "d = dot_new (cc_node_id (tn_config N)) (tn_next_sequence N)" and "same_static N N'"
    and "tn_next_sequence N' = tn_next_sequence N + 1" and "tn_store N' = tn_store N"
    and "d \<in> tn_pending N'" and "tn_replies N' d = None"
    and "tn_clock N' = snd (clock_tick now (tn_clock N))"
    and "tn_state N' = snd (add_ack d (cc_node_id (tn_config N)) (lc_clock (tn_clock N'))
           (add_command d cl (lc_clock (tn_clock N')) (tn_state N)))"
    and "posts = broadcast_message N (mcollect d (lc_clock (tn_clock N')) cl)"
  using assms
  by (auto simp: propose_begin_def Let_def next_dot_def same_static_def clock_tick_def
      broadcast_message_def case_prod_unfold)

section \<open>Properties\<close>

text \<open>
  C40. The default quorum, \<open>f + 1\<close> for \<open>f\<close> the largest minority, is half the members
  rounded up. Two quorums are sure to share a node only when the number of members is odd:
  four nodes have quorums of two.
\<close>

theorem tempo_quorum_size:
  assumes "cc_tempo config = None"
  shows "ts_fast_quorum_size (tn_state (tempo_new now config store tx)) =
           (max (length (cc_initial_members config)) 1 + 1) div 2 \<and>
         (max (length (cc_initial_members config)) 1 <
            2 * ts_fast_quorum_size (tn_state (tempo_new now config store tx)) \<longleftrightarrow>
          odd (max (length (cc_initial_members config)) 1))"
proof -
  let ?n = "max (length (cc_initial_members config)) 1"
  have "ts_fast_quorum_size (tn_state (tempo_new now config store tx)) = (?n - 1) div 2 + 1"
    using assms by (simp add: tempo_new_def tempo_state_new_def tempo_config_default_def Let_def)
  moreover have "(n - 1) div 2 + 1 = (n + 1) div 2" if "1 \<le> n" for n :: nat using that by arith
  moreover have "n < 2 * ((n + 1) div 2) \<longleftrightarrow> odd n" for n :: nat by presburger
  ultimately show ?thesis by (metis max.cobounded2)
qed

theorem tempo_quorum_size_witness:
  "ts_fast_quorum_size (tn_state (tempo_new 0
     (cluster_config_default\<lparr>cc_initial_members := [member_new 1 ''a'', member_new 2 ''b'', member_new 3 ''c'', member_new 4 ''d'']\<rparr>)
     () (\<lparr>ch_open = True, ch_sent = []\<rparr> :: string changelog channel))) = 2"
  using tempo_quorum_size [of "cluster_config_default\<lparr>cc_initial_members :=
      [member_new 1 ''a'', member_new 2 ''b'', member_new 3 ''c'', member_new 4 ''d'']\<rparr>" 0 "()"
      "\<lparr>ch_open = True, ch_sent = []\<rparr> :: string changelog channel"]
  by (simp add: cluster_config_default_def)

text \<open>
  Committing a tracked command marks it, applies its change log to the store once,
  answers the waiting proposal with the outcome and broadcasts the change log; committing it
  again, or receiving its commit message, changes neither the store nor the table.
\<close>

lemma commit_command_once:
  assumes "ts_inv (tn_state N)" and "get_command (tn_state N) d = Some c" and "\<not> ci_committed c"
    and "d \<in> tn_pending N"
  shows "tn_store (fst (commit_command P d N)) = snd (store_change P (tn_store N) (ci_changelog c)) \<and>
         is_committed (tn_state (fst (commit_command P d N))) d \<and>
         fst (propose_wait t d (fst (commit_command P d N))) =
           Some (Ok (case fst (store_change P (tn_store N) (ci_changelog c)) of
                       Ok m \<Rightarrow> response_ok_with_message m | Err e \<Rightarrow> response_error e)) \<and>
         snd (commit_command P d N) = broadcast_message N (mcommit d (ci_clock c) (ci_changelog c)) \<and>
         commit_command P d (fst (commit_command P d N)) = (fst (commit_command P d N), []) \<and>
         (\<forall>now j clk cl. tn_store (fst (handle_mcommit P now j (mcommit d clk cl) (fst (commit_command P d N)))) =
            tn_store (fst (commit_command P d N)) \<and>
            tn_state (fst (handle_mcommit P now j (mcommit d clk cl) (fst (commit_command P d N)))) =
            tn_state (fst (commit_command P d N)))"
proof -
  define N' where "N' = fst (commit_command P d N)"
  have cc: "commit_command P d N = (N', snd (commit_command P d N))" by (simp add: N'_def)
  note eff = commit_command_effect [OF assms(2,3) cc]
  have com: "is_committed (tn_state N') d"
    by (simp add: eff(4) is_committed_def mark_committed_dots [OF assms(1)])
  have "commit_command P d N' = (N', [])"
  proof (rule commit_command_skip)
    fix x
    assume "get_command (tn_state N') d = Some x"
    with assms(2,3) show "ci_committed x" by (auto simp: eff(4) get_command_mark_committed)
  qed
  moreover have "tn_store (fst (handle_mcommit P now j (mcommit d clk cl) N')) = tn_store N' \<and>
      tn_state (fst (handle_mcommit P now j (mcommit d clk cl) N')) = tn_state N'" for now j clk cl
    using com by (simp add: handle_mcommit_def mcommit_def Let_def)
  moreover have "fst (propose_wait t d N') = Some (Ok (case fst (store_change P (tn_store N) (ci_changelog c)) of
      Ok m \<Rightarrow> response_ok_with_message m | Err e \<Rightarrow> response_error e))"
    using eff(8) [OF assms(4)] by (simp add: propose_wait_def)
  ultimately show ?thesis
    unfolding N'_def [symmetric] using com eff(5,7) by blast
qed

definition sample_node :: "(mem_storage, string) tempo_node" where
  "sample_node =
     tempo_new 100
       (cluster_config_default\<lparr>cc_initial_members := [member_new 1 ''a:1'', member_new 2 ''b:1'', member_new 3 ''c:1'']\<rparr>)
       mem_new \<lparr>ch_open = True, ch_sent = []\<rparr>"

definition sample_store :: "(mem_storage, string) proxy_store" where
  "sample_store = \<lparr>ps_storage = mem_ops (\<lambda>_. []), ps_serde = sample_serde\<rparr>"

text \<open>
  C32. A node that runs alone commits what it proposes at once: the proposal returns the
  outcome of applying the change log, without waiting for any message.
\<close>

theorem single_node_proposal_commits:
  assumes "ts_inv (tn_state N)" and "ts_fast_quorum_size (tn_state N) \<le> 1"
    and "propose_begin now cl N = (d, N1, posts)" and "get_command (tn_state N) d = None"
    and "propose_check P d N1 = (N2, posts2)"
  shows "fst (propose_wait t d N2) = Some (Ok (case fst (store_change P (tn_store N) cl) of
           Ok m \<Rightarrow> response_ok_with_message m | Err e \<Rightarrow> response_error e)) \<and>
         tn_store N2 = snd (store_change P (tn_store N) cl)"
proof -
  note b = propose_begin_effect [OF assms(3)]
  obtain c where c: "get_command (tn_state N1) d = Some c" "\<not> ci_committed c" "ci_changelog c = cl"
    "length (ci_acks c) = 1"
    unfolding b(8) using assms(4)
    by (simp add: get_command_add_ack get_command_add_command) (simp add: ci_add_ack_def)
  have "ts_fast_quorum_size (tn_state N1) \<le> 1"
    unfolding b(8) using assms(2) by (simp add: state_simps)
  with c have "has_quorum (tn_state N1) d" by (simp add: has_quorum_def)
  with assms(5) have cc: "commit_command P d N1 = (N2, posts2)" by (simp add: propose_check_def)
  note eff = commit_command_effect [OF c(1,2) cc]
  show ?thesis using eff(5) eff(8) [OF b(5)] b(4) c(3) by (simp add: propose_wait_def)
qed

definition single_node :: "(mem_storage, string) tempo_node" where
  "single_node = tempo_new 100 cluster_config_default mem_new \<lparr>ch_open = True, ch_sent = []\<rparr>"

theorem single_node_proposal_commits_witness:
  "let (d, N1, _) = propose_begin 7 sample_log single_node;
       (N2, _) = propose_check sample_store d N1
   in fst (propose_wait False d N2) = Some (Ok (response_ok_with_message (deleted ''Namespace'' ''ns'')))"
proof -
  define N where "N = single_node"
  have st: "tn_state N = tempo_state_new 1 1 1"
    by (simp add: N_def single_node_def tempo_new_def cluster_config_default_def default_node_id_def
        tempo_config_default_def Let_def)
  obtain d N1 ps where b: "propose_begin 7 sample_log N = (d, N1, ps)" by (metis prod_cases3)
  obtain N2 ps2 where c: "propose_check sample_store d N1 = (N2, ps2)" by fastforce
  have "get_command (tn_state N) d = None" by (simp add: st get_command_def tempo_state_new_def)
  have inv: "ts_inv (tn_state N)" by (simp only: st ts_inv_new)
  have q: "ts_fast_quorum_size (tn_state N) \<le> 1" by (simp add: st tempo_state_new_def)
  from conjunct1 [OF single_node_proposal_commits [OF inv q b \<open>get_command (tn_state N) d = None\<close> c, of False]]
  have "fst (propose_wait False d N2) = Some (Ok (case fst (store_change sample_store (tn_store N) sample_log) of
      Ok m \<Rightarrow> response_ok_with_message m | Err e \<Rightarrow> response_error e))" .
  moreover have "fst (store_change sample_store (tn_store N) sample_log) = Ok (deleted ''Namespace'' ''ns'')"
    by (simp add: store_change_def change_effect_def sample_log_def Let_def perform_write_def
        sample_store_def mem_ops_def mem_delete_def split: option.split)
  ultimately show ?thesis using b c by (simp add: N_def)
qed

end
