(* ===== verification/Tempo_System.thy ===== *)
theory Tempo_System
  imports Tempo_Node
begin

text \<open>
  A cluster of Tempo nodes. The state holds every node, every HTTP post made so far and two
  histories: the change log proposed for each dot, and the dots each node has applied, in
  order. A step is one atomic part of a handler or proposal of one node. A post may be
  delivered at any time, any number of times or never, to the node its URL reaches: \<open>route\<close>
  is what the network does with a URL, and members are only added with an address that
  reaches them. Sequence numbers are used up to the last one before they would wrap.

  The invariant gives the safety of the protocol as the code has it: a dot means one change
  log everywhere, what is committed anywhere has its quorum of acknowledgements at its
  coordinator, and each node applies each committed dot exactly once. The last property shows
  what is missing: nothing orders the dots, so two nodes can end in different states.
\<close>

record ('s, 'j) tempo_system =
  sy_nodes :: "node_id \<Rightarrow> ('s, 'j) tempo_node"
  sy_posts :: "'j post set"
  sy_proposed :: "dot \<rightharpoonup> 'j changelog"
  sy_applied :: "node_id \<Rightarrow> dot list"

definition tempo_url :: "string \<Rightarrow> string" where
  "tempo_url addr = ''http://'' @ addr @ ''/tempo/message''"

definition newly :: "dot \<Rightarrow> ('s, 'j) tempo_node \<Rightarrow> ('s, 'j) tempo_node \<Rightarrow> dot list" where
  "newly d N N' = (if is_committed (tn_state N') d \<and> \<not> is_committed (tn_state N) d then [d] else [])"

definition sys_put ::
  "node_id \<Rightarrow> ('s, 'j) tempo_node \<Rightarrow> 'j post list \<Rightarrow> dot list \<Rightarrow> ('s, 'j) tempo_system \<Rightarrow> ('s, 'j) tempo_system" where
  "sys_put i N posts ds G =
     G\<lparr>sy_nodes := (sy_nodes G)(i := N), sy_posts := sy_posts G \<union> set posts,
       sy_applied := (sy_applied G)(i := sy_applied G i @ ds)\<rparr>"

inductive tempo_step ::
  "(string \<Rightarrow> node_id option) \<Rightarrow> ('s, 'j) proxy_store \<Rightarrow> ('s, 'j) tempo_system \<Rightarrow> ('s, 'j) tempo_system \<Rightarrow> bool"
  for route P where
  propose: "propose_begin now cl (sy_nodes G i) = (d, N', posts) \<Longrightarrow>
    tn_next_sequence (sy_nodes G i) \<noteq> - 1 \<Longrightarrow>
    tempo_step route P G ((sys_put i N' posts [] G)\<lparr>sy_proposed := (sy_proposed G)(d \<mapsto> cl)\<rparr>)"
| check: "sy_proposed G d \<noteq> None \<Longrightarrow> dot_node_id d = i \<Longrightarrow>
    propose_check P d (sy_nodes G i) = (N', posts) \<Longrightarrow>
    tempo_step route P G (sys_put i N' posts (newly d (sy_nodes G i) N') G)"
| wait: "propose_wait timed_out d (sy_nodes G i) = (r, N') \<Longrightarrow>
    tempo_step route P G (sys_put i N' [] [] G)"
| deliver: "(url, req) \<in> sy_posts G \<Longrightarrow> route url = Some i \<Longrightarrow>
    handle_message P now (tq_from req) (tq_message req) (sy_nodes G i) = (N', posts) \<Longrightarrow>
    tempo_step route P G (sys_put i N' posts
      (case tm_dot (tq_message req) of Some d \<Rightarrow> newly d (sy_nodes G i) N' | None \<Rightarrow> []) G)"
| bump: "handle_clock_bump t (sy_nodes G i) = (N', posts) \<Longrightarrow>
    tempo_step route P G (sys_put i N' posts [] G)"
| join: "route (tempo_url addr) = Some j \<Longrightarrow>
    tempo_step route P G (sys_put i (tempo_add_node j addr (sy_nodes G i)) [] [] G)"
| leave: "tempo_step route P G (sys_put i (tempo_remove_node j (sy_nodes G i)) [] [] G)"

definition tempo_start :: "(string \<Rightarrow> node_id option) \<Rightarrow> (node_id \<Rightarrow> 's) \<Rightarrow> ('s, 'j) tempo_system \<Rightarrow> bool" where
  "tempo_start route stores G \<longleftrightarrow>
     (\<forall>i. \<exists>now config tx. sy_nodes G i = tempo_new now config (stores i) tx \<and> cc_node_id config = i \<and>
        (\<forall>m \<in> set (cc_initial_members config). route (tempo_url (member_addr m)) = Some (cmb_id m))) \<and>
     sy_posts G = {} \<and> sy_proposed G = Map.empty \<and> sy_applied G = (\<lambda>_. [])"

inductive tempo_reach ::
  "(string \<Rightarrow> node_id option) \<Rightarrow> ('s, 'j) proxy_store \<Rightarrow> (node_id \<Rightarrow> 's) \<Rightarrow> ('s, 'j) tempo_system \<Rightarrow> bool"
  for route P stores where
  start: "tempo_start route stores G \<Longrightarrow> tempo_reach route P stores G"
| step: "tempo_reach route P stores G \<Longrightarrow> tempo_step route P G G' \<Longrightarrow> tempo_reach route P stores G'"

section \<open>The invariant\<close>

text \<open>Applying the change logs of the dots \<open>ds\<close> one after the other.\<close>

definition replay ::
  "('s, 'j) proxy_store \<Rightarrow> (dot \<rightharpoonup> 'j changelog) \<Rightarrow> dot list \<Rightarrow> 's \<Rightarrow> 's" where
  "replay P proposed ds s = fold (\<lambda>d s. snd (store_change P s (the (proposed d)))) ds s"

definition commit_ok :: "('s, 'j) tempo_system \<Rightarrow> dot \<Rightarrow> bool" where
  "commit_ok G d \<longleftrightarrow>
     (\<exists>c. get_command (tn_state (sy_nodes G (dot_node_id d))) d = Some c \<and> ci_committed c \<and>
          ts_fast_quorum_size (tn_state (sy_nodes G (dot_node_id d))) \<le> length (ci_acks c))"

definition post_ok :: "(string \<Rightarrow> node_id option) \<Rightarrow> ('s, 'j) tempo_system \<Rightarrow> 'j post \<Rightarrow> bool" where
  "post_ok route G p \<longleftrightarrow>
     (case tm_dot (tq_message (snd p)) of
        None \<Rightarrow> True
      | Some d \<Rightarrow>
          (case tm_msg_type (tq_message (snd p)) of
             MCollect \<Rightarrow> tq_from (snd p) = dot_node_id d \<and>
               (\<forall>cl. tm_changelog (tq_message (snd p)) = Some cl \<longrightarrow> sy_proposed G d = Some cl)
           | MCollectAck \<Rightarrow> route (fst p) = Some (dot_node_id d)
           | MCommit \<Rightarrow> commit_ok G d \<and>
               (\<forall>cl. tm_changelog (tq_message (snd p)) = Some cl \<longrightarrow> sy_proposed G d = Some cl)
           | ClockBump \<Rightarrow> True))"

definition node_ok ::
  "(string \<Rightarrow> node_id option) \<Rightarrow> (dot \<rightharpoonup> 'j changelog) \<Rightarrow> node_id \<Rightarrow> ('s, 'j) tempo_node \<Rightarrow> bool" where
  "node_ok route proposed i N \<longleftrightarrow>
     cc_node_id (tn_config N) = i \<and> tnw_node_id (tn_network N) = i \<and> ts_inv (tn_state N) \<and>
     (\<forall>m \<in> set (tn_members N). route (tempo_url (member_addr m)) = Some (cmb_id m)) \<and>
     (\<forall>d. dot_node_id d = i \<longrightarrow> proposed d \<noteq> None \<longrightarrow>
        dot_sequence d < tn_next_sequence N \<and> get_command (tn_state N) d \<noteq> None) \<and>
     (\<forall>d c. get_command (tn_state N) d = Some c \<longrightarrow> proposed d = Some (ci_changelog c))"

definition applied_ok ::
  "('s, 'j) proxy_store \<Rightarrow> (dot \<rightharpoonup> 'j changelog) \<Rightarrow> 's \<Rightarrow> ('s, 'j) tempo_node \<Rightarrow> dot list \<Rightarrow> bool" where
  "applied_ok P proposed store N ds \<longleftrightarrow>
     distinct ds \<and> set ds = ts_committed_dots (tn_state N) \<and> tn_store N = replay P proposed ds store"

definition system_inv ::
  "(string \<Rightarrow> node_id option) \<Rightarrow> ('s, 'j) proxy_store \<Rightarrow> (node_id \<Rightarrow> 's) \<Rightarrow> ('s, 'j) tempo_system \<Rightarrow> bool" where
  "system_inv route P stores G \<longleftrightarrow>
     (\<forall>i. node_ok route (sy_proposed G) i (sy_nodes G i)) \<and>
     (\<forall>i. applied_ok P (sy_proposed G) (stores i) (sy_nodes G i) (sy_applied G i)) \<and>
     (\<forall>p \<in> sy_posts G. post_ok route G p) \<and>
     (\<forall>i. \<forall>d \<in> ts_committed_dots (tn_state (sy_nodes G i)). commit_ok G d)"

lemma system_invD:
  assumes "system_inv route P stores G"
  shows "node_ok route (sy_proposed G) i (sy_nodes G i)"
    and "applied_ok P (sy_proposed G) (stores i) (sy_nodes G i) (sy_applied G i)"
    and "p \<in> sy_posts G \<Longrightarrow> post_ok route G p"
    and "d \<in> ts_committed_dots (tn_state (sy_nodes G i)) \<Longrightarrow> commit_ok G d"
  using assms by (simp_all add: system_inv_def)

lemma node_okD:
  assumes "node_ok route proposed i N"
  shows "cc_node_id (tn_config N) = i" and "tnw_node_id (tn_network N) = i" and "ts_inv (tn_state N)"
    and "m \<in> set (tn_members N) \<Longrightarrow> route (tempo_url (member_addr m)) = Some (cmb_id m)"
    and "dot_node_id d = i \<Longrightarrow> proposed d = Some cl \<Longrightarrow> dot_sequence d < tn_next_sequence N"
    and "dot_node_id d = i \<Longrightarrow> proposed d = Some cl \<Longrightarrow> get_command (tn_state N) d \<noteq> None"
    and "get_command (tn_state N) d = Some c \<Longrightarrow> proposed d = Some (ci_changelog c)"
  using assms unfolding node_ok_def by blast+

lemma replay_append: "replay P pr (ds @ es) s = replay P pr es (replay P pr ds s)"
  by (simp add: replay_def)

lemma replay_cong: "(\<And>d. d \<in> set ds \<Longrightarrow> pr d = pr' d) \<Longrightarrow> replay P pr ds s = replay P pr' ds s"
  by (induction ds arbitrary: s) (simp_all add: replay_def)

lemma committed_proposed:
  assumes "system_inv route P stores G" and "commit_ok G d"
  shows "sy_proposed G d \<noteq> None"
  using assms(2) node_okD(7) [OF system_invD(1) [OF assms(1)]] by (fastforce simp: commit_ok_def)

section \<open>Local steps\<close>

text \<open>
  A step of node \<open>i\<close> from \<open>N\<close> to \<open>N'\<close>: commands are only added and only gain
  acknowledgements, and \<open>ds\<close> is what it newly commits and applies.
\<close>

definition commands_grow :: "'j tempo_state \<Rightarrow> 'j tempo_state \<Rightarrow> bool" where
  "commands_grow st st' \<longleftrightarrow>
     ts_fast_quorum_size st' = ts_fast_quorum_size st \<and>
     (\<forall>d c. get_command st d = Some c \<longrightarrow>
        (\<exists>c'. get_command st' d = Some c' \<and> (ci_committed c \<longrightarrow> ci_committed c') \<and>
              length (ci_acks c) \<le> length (ci_acks c')))"

lemma commands_grow_refl [simp]: "commands_grow st st"
  by (simp add: commands_grow_def)

lemma length_alist_update: "length al \<le> length (AList.update k v al)"
  by (induction al) auto

lemma commands_grow_ops:
  "commands_grow st (add_command d cl clk st)"
  "commands_grow st (snd (add_ack d n clk st))"
  "commands_grow st (mark_committed d st)"
  by (auto simp: commands_grow_def state_simps get_command_add_command get_command_add_ack
      get_command_mark_committed ci_add_ack_def length_alist_update)

lemma commands_grow_trans: "commands_grow a b \<Longrightarrow> commands_grow b c \<Longrightarrow> commands_grow a c"
  unfolding commands_grow_def by (simp, meson le_trans)

lemma commands_growD:
  assumes "commands_grow st st'" and "get_command st d = Some c"
  obtains c' where "get_command st' d = Some c'" "ci_committed c \<Longrightarrow> ci_committed c'"
    "length (ci_acks c) \<le> length (ci_acks c')" "ts_fast_quorum_size st' = ts_fast_quorum_size st"
  using assms unfolding commands_grow_def by blast

lemma system_inv_local:
  assumes inv: "system_inv route P stores G"
    and G': "G' = (sys_put i N' posts ds G)\<lparr>sy_proposed := pr\<rparr>"
    and mono: "\<And>d cl. sy_proposed G d = Some cl \<Longrightarrow> pr d = Some cl"
    and new: "\<And>d. dot_node_id d \<noteq> i \<Longrightarrow> pr d = sy_proposed G d"
    and node: "node_ok route pr i N'"
    and grow: "commands_grow (tn_state (sy_nodes G i)) (tn_state N')"
    and dots: "ts_committed_dots (tn_state N') = ts_committed_dots (tn_state (sy_nodes G i)) \<union> set ds"
    and fresh: "distinct ds" "set ds \<inter> ts_committed_dots (tn_state (sy_nodes G i)) = {}"
    and store: "tn_store N' = replay P pr ds (tn_store (sy_nodes G i))"
    and com: "\<And>d. d \<in> set ds \<Longrightarrow> commit_ok G' d"
    and posts: "\<And>p. p \<in> set posts \<Longrightarrow> post_ok route G' p"
  shows "system_inv route P stores G'"
proof -
  have nodes: "sy_nodes G' = (sy_nodes G)(i := N')" and pr_eq: "sy_proposed G' = pr"
    and applied: "sy_applied G' = (sy_applied G)(i := sy_applied G i @ ds)"
    and all_posts: "sy_posts G' = sy_posts G \<union> set posts"
    by (simp_all add: G' sys_put_def)
  have keep: "commit_ok G' d" if "commit_ok G d" for d
  proof (cases "dot_node_id d = i")
    case True
    from that obtain c where c: "get_command (tn_state (sy_nodes G i)) d = Some c" "ci_committed c"
      "ts_fast_quorum_size (tn_state (sy_nodes G i)) \<le> length (ci_acks c)"
      unfolding commit_ok_def True by blast
    from commands_growD [OF grow c(1)] obtain c' where "get_command (tn_state N') d = Some c'"
      "ci_committed c \<Longrightarrow> ci_committed c'" "length (ci_acks c) \<le> length (ci_acks c')"
      "ts_fast_quorum_size (tn_state N') = ts_fast_quorum_size (tn_state (sy_nodes G i))" by blast
    with c show ?thesis unfolding commit_ok_def nodes True by simp
  next
    case False
    with that show ?thesis unfolding commit_ok_def nodes by simp
  qed
  have old_posts: "post_ok route G' p" if "p \<in> sy_posts G" for p
    using system_invD(3) [OF inv that] keep mono
    unfolding post_ok_def pr_eq by (auto split: option.splits tempo_message_type.splits)
  have node_j: "node_ok route pr j (sy_nodes G j)" if "j \<noteq> i" for j
  proof -
    have eq: "pr d = sy_proposed G d" if "dot_node_id d = j" for d
      using new [of d] that \<open>j \<noteq> i\<close> by simp
    from system_invD(1) [OF inv, of j] show ?thesis
      unfolding node_ok_def by (auto simp: eq intro: mono)
  qed
  have known: "pr d = sy_proposed G d" if "d \<in> set (sy_applied G j)" for d j
  proof -
    have "d \<in> ts_committed_dots (tn_state (sy_nodes G j))"
      using that system_invD(2) [OF inv, of j] by (simp add: applied_ok_def)
    then have "sy_proposed G d \<noteq> None"
      using committed_proposed [OF inv] system_invD(4) [OF inv] by blast
    then show ?thesis using mono by (metis not_None_eq)
  qed
  have applied_j: "applied_ok P pr (stores j) (sy_nodes G j) (sy_applied G j)" for j
    using system_invD(2) [OF inv, of j] replay_cong [of "sy_applied G j" "sy_proposed G" pr P] known
    by (auto simp: applied_ok_def)
  have applied_i: "applied_ok P pr (stores i) N' (sy_applied G i @ ds)"
    using applied_j [of i] dots fresh store
    by (auto simp: applied_ok_def replay_append)
  show ?thesis
    unfolding system_inv_def nodes pr_eq applied all_posts
    using node node_j applied_i applied_j old_posts posts keep com system_invD(4) [OF inv] dots
    by (auto simp: fun_upd_apply)
qed

text \<open>A step that proposes nothing.\<close>

lemma system_inv_put:
  assumes inv: "system_inv route P stores G"
    and "node_ok route (sy_proposed G) i N'"
    and "commands_grow (tn_state (sy_nodes G i)) (tn_state N')"
    and "ts_committed_dots (tn_state N') = ts_committed_dots (tn_state (sy_nodes G i)) \<union> set ds"
    and "distinct ds" "set ds \<inter> ts_committed_dots (tn_state (sy_nodes G i)) = {}"
    and "tn_store N' = replay P (sy_proposed G) ds (tn_store (sy_nodes G i))"
    and "\<And>d. d \<in> set ds \<Longrightarrow> commit_ok (sys_put i N' posts ds G) d"
    and "\<And>p. p \<in> set posts \<Longrightarrow> post_ok route (sys_put i N' posts ds G) p"
  shows "system_inv route P stores (sys_put i N' posts ds G)"
  by (rule system_inv_local [OF inv, where pr = "sy_proposed G" and i = i and N' = N' and posts = posts and ds = ds])
    (use assms in \<open>simp_all add: sys_put_def\<close>)

text \<open>A step that touches neither table nor store.\<close>

lemma system_inv_quiet:
  assumes inv: "system_inv route P stores G"
    and "node_ok route (sy_proposed G) i N'"
    and "tn_state N' = tn_state (sy_nodes G i)" and "tn_store N' = tn_store (sy_nodes G i)"
    and "\<And>p. p \<in> set posts \<Longrightarrow> post_ok route (sys_put i N' posts [] G) p"
  shows "system_inv route P stores (sys_put i N' posts [] G)"
  by (rule system_inv_put [OF inv assms(2)]) (use assms in \<open>simp_all add: replay_def\<close>)

lemma sys_put_twice: "sys_put i N2 ps2 ds2 (sys_put i N1 [] [] G) = sys_put i N2 ps2 ds2 G"
  by (simp add: sys_put_def)

lemma sys_put_sel [simp]:
  "sy_nodes (sys_put i N ps ds G) = (sy_nodes G)(i := N)"
  "sy_posts (sys_put i N ps ds G) = sy_posts G \<union> set ps"
  "sy_proposed (sys_put i N ps ds G) = sy_proposed G"
  "sy_applied (sys_put i N ps ds G) = (sy_applied G)(i := sy_applied G i @ ds)"
  by (simp_all add: sys_put_def)

section \<open>The steps keep the invariant\<close>

lemma broadcast_post:
  "p \<in> set (broadcast_message N msg) \<Longrightarrow>
     \<exists>m \<in> set (tn_members N). p = (tempo_url (member_addr m), \<lparr>tq_from = tnw_node_id (tn_network N), tq_message = msg\<rparr>)"
  by (auto simp: broadcast_message_def network_send_def tempo_url_def)

lemma send_post:
  "p \<in> set (send_message N j msg) \<Longrightarrow>
     \<exists>m \<in> set (tn_members N). cmb_id m = j \<and>
       p = (tempo_url (member_addr m), \<lparr>tq_from = tnw_node_id (tn_network N), tq_message = msg\<rparr>)"
proof -
  assume p: "p \<in> set (send_message N j msg)"
  then obtain m where m: "find (\<lambda>m. cmb_id m = j) (tn_members N) = Some m"
    by (cases "find (\<lambda>m. cmb_id m = j) (tn_members N)") (auto simp: send_message_def)
  then have "m \<in> set (tn_members N)" "cmb_id m = j" by (auto simp: find_Some_iff)
  with p m show ?thesis by (auto simp: send_message_def network_send_def tempo_url_def)
qed

lemma node_ok_static:
  assumes "node_ok route pr i N" and "same_static N N'" and "tn_next_sequence N' = tn_next_sequence N"
    and "ts_inv (tn_state N')" and "commands_grow (tn_state N) (tn_state N')"
    and "\<And>d c. get_command (tn_state N') d = Some c \<Longrightarrow> pr d = Some (ci_changelog c)"
  shows "node_ok route pr i N'"
  using assms unfolding node_ok_def same_static_def commands_grow_def by (metis not_None_eq)

lemma less_plus_one: "x < x + 1" if "x \<noteq> - 1" for x :: u64
proof -
  have "x < - 1" using that word_order.extremum [of x] by (simp add: order.strict_iff_order)
  then have "unat x < 2 ^ 64 - 1" by (simp add: word_less_nat_alt unsigned_minus_1_eq_mask mask_eq_exp_minus_1)
  then have "unat (x + 1) = unat x + 1" by (intro unat_plus_one) simp
  then show ?thesis by (simp add: word_less_nat_alt)
qed

lemma step_propose:
  assumes inv: "system_inv route P stores G"
    and p: "propose_begin now cl (sy_nodes G i) = (d, N', posts)"
    and seq: "tn_next_sequence (sy_nodes G i) \<noteq> - 1"
  shows "system_inv route P stores ((sys_put i N' posts [] G)\<lparr>sy_proposed := (sy_proposed G)(d \<mapsto> cl)\<rparr>)"
proof -
  let ?N = "sy_nodes G i" and ?pr = "(sy_proposed G)(d \<mapsto> cl)"
  note node = system_invD(1) [OF inv, of i]
  note b = propose_begin_effect [OF p]
  have d: "dot_node_id d = i" "dot_sequence d = tn_next_sequence ?N"
    using b(1) node_okD(1) [OF node] by (simp_all add: dot_new_def)
  have unused: "sy_proposed G d = None"
    using node_okD(5) [OF node d(1)] d(2) by (cases "sy_proposed G d") auto
  then have untracked: "get_command (tn_state ?N) d = None"
    using node_okD(7) [OF node] by (cases "get_command (tn_state ?N) d") auto
  have seq_less: "tn_next_sequence ?N < tn_next_sequence N'"
    unfolding b(3) by (rule less_plus_one [OF seq])
  have grow: "commands_grow (tn_state ?N) (tn_state N')"
    unfolding b(8) by (rule commands_grow_trans [OF commands_grow_ops(1) commands_grow_ops(2)])
  have tracked: "\<exists>c. get_command (tn_state N') d = Some c \<and> ci_changelog c = cl"
    using untracked by (simp add: b(8) get_command_add_ack get_command_add_command)
  have others: "get_command (tn_state N') e = get_command (tn_state ?N) e" if "e \<noteq> d" for e
    using that by (simp add: b(8) get_command_add_ack get_command_add_command)
  have node': "node_ok route ?pr i N'"
    unfolding node_ok_def
  proof (intro conjI ballI allI impI)
    show "cc_node_id (tn_config N') = i" "tnw_node_id (tn_network N') = i"
      using b(2) node_okD(1,2) [OF node] by (simp_all add: same_static_def)
    show "ts_inv (tn_state N')"
      unfolding b(8) by (intro ts_inv_add_ack ts_inv_add_command node_okD(3) [OF node])
    show "route (tempo_url (member_addr m)) = Some (cmb_id m)" if "m \<in> set (tn_members N')" for m
      using that b(2) node_okD(4) [OF node] by (simp add: same_static_def)
    show "dot_sequence e < tn_next_sequence N'" if e: "dot_node_id e = i" "?pr e \<noteq> None" for e
    proof (cases "e = d")
      case False
      with e obtain cl' where "sy_proposed G e = Some cl'" by auto
      from node_okD(5) [OF node e(1) this] seq_less show ?thesis by (rule less_trans)
    qed (use d(2) seq_less in simp)
    show "get_command (tn_state N') e \<noteq> None" if e: "dot_node_id e = i" "?pr e \<noteq> None" for e
    proof (cases "e = d")
      case False
      with e obtain cl' where "sy_proposed G e = Some cl'" by auto
      from node_okD(6) [OF node e(1) this] others [OF False] show ?thesis by simp
    qed (use tracked in auto)
    show "?pr e = Some (ci_changelog c)" if c: "get_command (tn_state N') e = Some c" for e c
      using c tracked others [of e] node_okD(7) [OF node, of e c] by (cases "e = d") auto
  qed
  show ?thesis
  proof (rule system_inv_local [OF inv refl _ _ node' grow])
    show "?pr e = Some cl'" if "sy_proposed G e = Some cl'" for e cl'
      using that unused by auto
    show "?pr e = sy_proposed G e" if "dot_node_id e \<noteq> i" for e
      using that d(1) by auto
    show "tn_store N' = replay P ?pr [] (tn_store ?N)" by (simp add: b(4) replay_def)
    show "post_ok route ((sys_put i N' posts [] G)\<lparr>sy_proposed := ?pr\<rparr>) p" if "p \<in> set posts" for p
    proof -
      from broadcast_post [OF that [unfolded b(9)]] obtain m where
        "p = (tempo_url (member_addr m), \<lparr>tq_from = tnw_node_id (tn_network ?N),
              tq_message = mcollect d (lc_clock (tn_clock N')) cl\<rparr>)" by blast
      then show ?thesis using d(1) node_okD(2) [OF node] by (simp add: post_ok_def mcollect_def)
    qed
  qed (simp_all add: b(8) state_simps)
qed

text \<open>Committing a command at its coordinator.\<close>

lemma step_commit:
  assumes inv: "system_inv route P stores G" and d: "dot_node_id d = i"
    and q: "has_quorum (tn_state (sy_nodes G i)) d"
    and cc: "commit_command P d (sy_nodes G i) = (N', posts)"
  shows "system_inv route P stores (sys_put i N' posts [d] G)"
    and "newly d (sy_nodes G i) N' = [d]"
proof -
  let ?N = "sy_nodes G i" and ?G' = "sys_put i N' posts [d] G"
  note node = system_invD(1) [OF inv, of i]
  from q obtain c where c: "get_command (tn_state ?N) d = Some c" "\<not> ci_committed c"
    "ts_fast_quorum_size (tn_state ?N) \<le> length (ci_acks c)"
    by (auto simp: has_quorum_def split: option.splits)
  note eff = commit_command_effect [OF c(1,2) cc]
  have cl: "sy_proposed G d = Some (ci_changelog c)" by (rule node_okD(7) [OF node c(1)])
  have fresh: "d \<notin> ts_committed_dots (tn_state ?N)"
  proof
    assume "d \<in> ts_committed_dots (tn_state ?N)"
    from system_invD(4) [OF inv this] d c(1,2) show False by (simp add: commit_ok_def)
  qed
  have dots: "ts_committed_dots (tn_state N') = insert d (ts_committed_dots (tn_state ?N))"
    by (simp add: eff(4) mark_committed_dots node_okD(3) [OF node])
  have com: "commit_ok ?G' d"
    using c(1,3) d by (simp add: commit_ok_def eff(4) get_command_mark_committed state_simps)
  have node': "node_ok route (sy_proposed G) i N'"
  proof (rule node_ok_static [OF node eff(1,2)])
    show "ts_inv (tn_state N')" unfolding eff(4) by (rule ts_inv_mark_committed [OF node_okD(3) [OF node]])
    show "commands_grow (tn_state ?N) (tn_state N')" unfolding eff(4) by (rule commands_grow_ops(3))
    show "sy_proposed G e = Some (ci_changelog c')" if "get_command (tn_state N') e = Some c'" for e c'
      using that node_okD(7) [OF node]
      by (auto simp: eff(4) get_command_mark_committed split: if_splits)
  qed
  show "system_inv route P stores ?G'"
  proof (rule system_inv_put [OF inv node'])
    show "commands_grow (tn_state ?N) (tn_state N')" unfolding eff(4) by (rule commands_grow_ops(3))
    show "tn_store N' = replay P (sy_proposed G) [d] (tn_store ?N)"
      by (simp add: eff(5) replay_def cl)
    show "post_ok route ?G' p" if "p \<in> set posts" for p
    proof -
      from broadcast_post [OF that [unfolded eff(7)]] obtain m where
        "p = (tempo_url (member_addr m), \<lparr>tq_from = tnw_node_id (tn_network ?N),
              tq_message = mcommit d (ci_clock c) (ci_changelog c)\<rparr>)" by blast
      then show ?thesis using com cl by (simp add: post_ok_def mcommit_def)
    qed
  qed (use dots fresh com in simp_all)
  show "newly d ?N N' = [d]" using dots fresh by (simp add: newly_def is_committed_def)
qed

lemma newly_same: "ts_committed_dots (tn_state N') = ts_committed_dots (tn_state N) \<Longrightarrow> newly d N N' = []"
  by (simp add: newly_def is_committed_def)

lemma sys_put_same: "sys_put i (sy_nodes G i) [] [] G = G"
  by (simp add: sys_put_def)

lemma step_check:
  assumes inv: "system_inv route P stores G" and d: "dot_node_id d = i"
    and pc: "propose_check P d (sy_nodes G i) = (N', posts)"
  shows "system_inv route P stores (sys_put i N' posts (newly d (sy_nodes G i) N') G)"
proof (cases "has_quorum (tn_state (sy_nodes G i)) d")
  case True
  with pc have "commit_command P d (sy_nodes G i) = (N', posts)" by (simp add: propose_check_def)
  from step_commit [OF inv d True this] show ?thesis by simp
next
  case False
  with pc have "N' = sy_nodes G i" "posts = []" by (simp_all add: propose_check_def)
  with inv show ?thesis by (simp add: newly_same sys_put_same)
qed

text \<open>Deliveries.\<close>

lemma step_mcollect:
  assumes inv: "system_inv route P stores G" and post: "(url, req) \<in> sy_posts G"
    and type: "tm_msg_type (tq_message req) = MCollect"
    and h: "handle_mcollect now (tq_from req) (tq_message req) (sy_nodes G i) = (N', posts)"
  shows "system_inv route P stores (sys_put i N' posts [] G) \<and>
         ts_committed_dots (tn_state N') = ts_committed_dots (tn_state (sy_nodes G i))"
proof (cases "tm_dot (tq_message req) = None \<or> tm_changelog (tq_message req) = None")
  case True
  from handle_missing_fields(1) [OF this, of now "tq_from req" "sy_nodes G i"] h
  have "N' = sy_nodes G i" "posts = []" by simp_all
  with inv show ?thesis by (simp add: sys_put_same)
next
  case False
  then obtain d cl where m: "tm_dot (tq_message req) = Some d" "tm_changelog (tq_message req) = Some cl" by auto
  let ?N = "sy_nodes G i"
  note node = system_invD(1) [OF inv, of i]
  note eff = handle_mcollect_effect [OF m h]
  have pr: "sy_proposed G d = Some cl" and from_id: "tq_from req = dot_node_id d"
    using system_invD(3) [OF inv post] m type by (simp_all add: post_ok_def)
  have node': "node_ok route (sy_proposed G) i N'"
  proof (rule node_ok_static [OF node eff(1,2)])
    show "ts_inv (tn_state N')" unfolding eff(4) by (rule ts_inv_add_command [OF node_okD(3) [OF node]])
    show "commands_grow (tn_state ?N) (tn_state N')" unfolding eff(4) by (rule commands_grow_ops(1))
    show "sy_proposed G e = Some (ci_changelog c')" if "get_command (tn_state N') e = Some c'" for e c'
      using that node_okD(7) [OF node, of e c'] pr
      by (auto simp: eff(4) get_command_add_command split: if_splits)
  qed
  have "system_inv route P stores (sys_put i N' posts [] G)"
  proof (rule system_inv_put [OF inv node'])
    show "commands_grow (tn_state ?N) (tn_state N')" unfolding eff(4) by (rule commands_grow_ops(1))
    show "post_ok route (sys_put i N' posts [] G) p" if "p \<in> set posts" for p
    proof -
      from eff(5) that obtain clk where "p \<in> set (send_message ?N (tq_from req) (mcollect_ack d clk))" by blast
      from send_post [OF this] obtain mb where mb: "mb \<in> set (tn_members ?N)" "cmb_id mb = tq_from req"
        "p = (tempo_url (member_addr mb), \<lparr>tq_from = tnw_node_id (tn_network ?N), tq_message = mcollect_ack d clk\<rparr>)"
        by blast
      have "route (fst p) = Some (dot_node_id d)"
        using node_okD(4) [OF node mb(1)] mb(2,3) from_id by simp
      with mb(3) show ?thesis by (simp add: post_ok_def mcollect_ack_def)
    qed
  qed (simp_all add: eff(3,4) state_simps replay_def)
  then show ?thesis by (simp add: eff(4) state_simps)
qed

lemma step_ack:
  assumes inv: "system_inv route P stores G" and post: "(url, req) \<in> sy_posts G" and route: "route url = Some i"
    and type: "tm_msg_type (tq_message req) = MCollectAck" and d: "tm_dot (tq_message req) = Some d"
    and h: "handle_mcollect_ack P now (tq_from req) (tq_message req) (sy_nodes G i) = (N', posts)"
  shows "system_inv route P stores (sys_put i N' posts (newly d (sy_nodes G i) N') G)"
proof -
  let ?N = "sy_nodes G i"
  define R where "R = record_ack now (tq_from req) (tq_message req) d ?N"
  note node = system_invD(1) [OF inv, of i]
  have di: "dot_node_id d = i"
    using system_invD(3) [OF inv post] d type route by (simp add: post_ok_def)
  have st: "tn_state R = snd (add_ack d (tq_from req) (case tm_clock (tq_message req) of Some c \<Rightarrow> c | None \<Rightarrow> 0) (tn_state ?N))"
    by (simp add: R_def record_ack_def Let_def)
  have node': "node_ok route (sy_proposed G) i R"
  proof (rule node_ok_static [OF node])
    show "same_static ?N R" "tn_next_sequence R = tn_next_sequence ?N" by (simp_all add: R_def)
    show "ts_inv (tn_state R)" unfolding st by (rule ts_inv_add_ack [OF node_okD(3) [OF node]])
    show "commands_grow (tn_state ?N) (tn_state R)" unfolding st by (rule commands_grow_ops(2))
    show "sy_proposed G e = Some (ci_changelog c')" if "get_command (tn_state R) e = Some c'" for e c'
      using that node_okD(7) [OF node]
      by (auto simp: st get_command_add_ack split: if_splits)
  qed
  have dotsR: "ts_committed_dots (tn_state R) = ts_committed_dots (tn_state ?N)"
    by (simp add: st state_simps)
  have invR: "system_inv route P stores (sys_put i R [] [] G)"
  proof (rule system_inv_put [OF inv node'])
    show "commands_grow (tn_state ?N) (tn_state R)" unfolding st by (rule commands_grow_ops(2))
    show "tn_store R = replay P (sy_proposed G) [] (tn_store ?N)" by (simp add: R_def replay_def)
  qed (simp_all add: dotsR)
  from h have h': "(if has_quorum (tn_state R) d then commit_command P d R else (R, [])) = (N', posts)"
    unfolding handle_mcollect_ack_eq [OF d] R_def .
  have newly_R: "newly d ?N N' = newly d R N'" by (simp add: newly_def is_committed_def dotsR)
  show ?thesis
  proof (cases "has_quorum (tn_state R) d")
    case True
    with h' have "commit_command P d (sy_nodes (sys_put i R [] [] G) i) = (N', posts)" by simp
    from step_commit [OF invR di _ this] True show ?thesis
      by (simp add: sys_put_twice newly_R)
  next
    case False
    with h' invR show ?thesis by (simp add: newly_same newly_R)
  qed
qed

lemma step_mcommit:
  assumes inv: "system_inv route P stores G" and post: "(url, req) \<in> sy_posts G"
    and type: "tm_msg_type (tq_message req) = MCommit" and d: "tm_dot (tq_message req) = Some d"
    and h: "handle_mcommit P now (tq_from req) (tq_message req) (sy_nodes G i) = (N', posts)"
  shows "system_inv route P stores (sys_put i N' posts (newly d (sy_nodes G i) N') G)"
proof (cases "tm_changelog (tq_message req)")
  case None
  then have "N' = sy_nodes G i" "posts = []" using handle_missing_fields(2) h by (metis prod.inject)+
  with inv show ?thesis by (simp add: newly_same sys_put_same)
next
  case (Some cl)
  let ?N = "sy_nodes G i"
  note node = system_invD(1) [OF inv, of i]
  note eff = handle_mcommit_effect [OF d Some h]
  have com: "commit_ok G d" and cl: "sy_proposed G d = Some cl"
    using system_invD(3) [OF inv post] d type Some by (simp_all add: post_ok_def)
  have grow: "commands_grow (tn_state ?N) (tn_state N')"
    by (simp add: eff(5) commands_grow_ops(3))
  have node': "node_ok route (sy_proposed G) i N'"
  proof (rule node_ok_static [OF node eff(1,2) _ grow])
    show "ts_inv (tn_state N')"
      by (simp add: eff(5) node_okD(3) [OF node] ts_inv_mark_committed)
    show "sy_proposed G e = Some (ci_changelog c')" if "get_command (tn_state N') e = Some c'" for e c'
      using that node_okD(7) [OF node]
      by (auto simp: eff(5) get_command_mark_committed split: if_splits)
  qed
  show ?thesis
  proof (cases "is_committed (tn_state ?N) d")
    case True
    then have st: "tn_state N' = tn_state ?N" "tn_store N' = tn_store ?N" by (simp_all add: eff)
    have "newly d ?N N' = []" by (simp add: newly_same st)
    then show ?thesis
      using system_inv_quiet [OF inv node' st, of posts] by (simp add: eff(3))
  next
    case False
    have dots: "ts_committed_dots (tn_state N') = insert d (ts_committed_dots (tn_state ?N))"
      using False by (simp add: eff(5) mark_committed_dots node_okD(3) [OF node])
    then have "newly d ?N N' = [d]" using False by (simp add: newly_def is_committed_def)
    moreover have "system_inv route P stores (sys_put i N' [] [d] G)"
    proof (rule system_inv_put [OF inv node' grow])
      show "commit_ok (sys_put i N' [] [d] G) e" if "e \<in> set [d]" for e
      proof (cases "dot_node_id d = i")
        case True
        from com True obtain c where c: "get_command (tn_state ?N) d = Some c" "ci_committed c" by (auto simp: commit_ok_def)
        from ts_invD(3) [OF node_okD(3) [OF node] this] False show ?thesis by (simp add: is_committed_def)
      next
        case False
        with com that show ?thesis by (simp add: commit_ok_def)
      qed
      show "tn_store N' = replay P (sy_proposed G) [d] (tn_store ?N)"
        using False by (simp add: eff(6) replay_def cl)
    qed (use dots False in \<open>simp_all add: is_committed_def\<close>)
    ultimately show ?thesis by (simp add: eff(3))
  qed
qed

lemma node_ok_frame:
  assumes "node_ok route pr i N" and "same_static N N'" and "tn_next_sequence N' = tn_next_sequence N"
    and "tn_state N' = tn_state N"
  shows "node_ok route pr i N'"
  using assms unfolding node_ok_def same_static_def by metis

lemma step_wait:
  assumes inv: "system_inv route P stores G" and w: "propose_wait timed_out d (sy_nodes G i) = (r, N')"
  shows "system_inv route P stores (sys_put i N' [] [] G)"
proof (rule system_inv_quiet [OF inv])
  have "same_static (sy_nodes G i) N' \<and> tn_next_sequence N' = tn_next_sequence (sy_nodes G i) \<and>
      tn_state N' = tn_state (sy_nodes G i) \<and> tn_store N' = tn_store (sy_nodes G i)"
    using w by (auto simp: propose_wait_def same_static_def split: option.splits if_splits)
  then show "node_ok route (sy_proposed G) i N'" "tn_state N' = tn_state (sy_nodes G i)"
    "tn_store N' = tn_store (sy_nodes G i)"
    using node_ok_frame [OF system_invD(1) [OF inv]] by blast+
qed simp

lemma step_clock:
  assumes inv: "system_inv route P stores G" and N': "N' = sy_nodes G i\<lparr>tn_clock := clk\<rparr>"
    and posts: "\<And>p. p \<in> set posts \<Longrightarrow> tm_dot (tq_message (snd p)) = None"
  shows "system_inv route P stores (sys_put i N' posts [] G)"
proof (rule system_inv_quiet [OF inv])
  show "node_ok route (sy_proposed G) i N'"
    by (rule node_ok_frame [OF system_invD(1) [OF inv]]) (simp_all add: N' same_static_def)
  show "post_ok route (sys_put i N' posts [] G) p" if "p \<in> set posts" for p
    using posts [OF that] by (simp add: post_ok_def)
qed (simp_all add: N')

lemma step_members:
  assumes inv: "system_inv route P stores G" and N': "N' = sy_nodes G i\<lparr>tn_members := ms\<rparr>"
    and ms: "\<And>m. m \<in> set ms \<Longrightarrow> m \<in> set (tn_members (sy_nodes G i)) \<or>
        route (tempo_url (member_addr m)) = Some (cmb_id m)"
  shows "system_inv route P stores (sys_put i N' [] [] G)"
proof (rule system_inv_quiet [OF inv])
  note node = system_invD(1) [OF inv, of i]
  have "route (tempo_url (member_addr m)) = Some (cmb_id m)" if "m \<in> set ms" for m
    using ms [OF that] node_okD(4) [OF node] by blast
  then show "node_ok route (sy_proposed G) i N'"
    using node by (simp add: N' node_ok_def)
qed (simp_all add: N')

lemma handle_bump:
  assumes "tm_msg_type msg = ClockBump" and "handle_message P now j msg N = (N', posts)"
  shows "N' = N\<lparr>tn_clock := tn_clock N'\<rparr> \<and> posts = []"
  using assms by (auto simp: handle_message_def split: option.splits)

lemma step_deliver:
  assumes inv: "system_inv route P stores G" and post: "(url, req) \<in> sy_posts G" and route: "route url = Some i"
    and h: "handle_message P now (tq_from req) (tq_message req) (sy_nodes G i) = (N', posts)"
  shows "system_inv route P stores (sys_put i N' posts
    (case tm_dot (tq_message req) of Some d \<Rightarrow> newly d (sy_nodes G i) N' | None \<Rightarrow> []) G)"
proof (cases "tm_dot (tq_message req)")
  case None
  have N': "N' = sy_nodes G i\<lparr>tn_clock := tn_clock N'\<rparr> \<and> posts = []"
  proof (cases "tm_msg_type (tq_message req)")
    case ClockBump
    from handle_bump [OF this h] show ?thesis .
  qed (use h None in \<open>auto simp: handle_message_def handle_missing_fields\<close>)
  show ?thesis using step_clock [OF inv conjunct1 [OF N'], of posts] N' None by simp
next
  case (Some d)
  show ?thesis
  proof (cases "tm_msg_type (tq_message req)")
    case MCollect
    with h have "handle_mcollect now (tq_from req) (tq_message req) (sy_nodes G i) = (N', posts)"
      by (simp add: handle_message_def)
    from step_mcollect [OF inv post MCollect this] show ?thesis by (simp add: Some newly_same)
  next
    case MCollectAck
    with h have "handle_mcollect_ack P (fst now) (tq_from req) (tq_message req) (sy_nodes G i) = (N', posts)"
      by (simp add: handle_message_def)
    from step_ack [OF inv post route MCollectAck Some this] show ?thesis by (simp add: Some)
  next
    case MCommit
    with h have "handle_mcommit P (fst now) (tq_from req) (tq_message req) (sy_nodes G i) = (N', posts)"
      by (simp add: handle_message_def)
    from step_mcommit [OF inv post MCommit Some this] show ?thesis by (simp add: Some)
  next
    case ClockBump
    note N' = conjunct1 [OF handle_bump [OF ClockBump h]] conjunct2 [OF handle_bump [OF ClockBump h]]
    have "tn_state N' = tn_state (sy_nodes G i)" by (subst N'(1)) simp
    then have "newly d (sy_nodes G i) N' = []" by (simp add: newly_same)
    with step_clock [OF inv N'(1), of "[]"] N'(2) show ?thesis by (simp add: Some)
  qed
qed

lemma tempo_step_inv:
  assumes "tempo_step route P G G'" and inv: "system_inv route P stores G"
  shows "system_inv route P stores G'"
  using assms(1)
proof cases
  case (propose now cl i d N' posts)
  show ?thesis unfolding propose(1) by (rule step_propose [OF inv propose(2,3)])
next
  case (check d i N' posts)
  show ?thesis unfolding check(1) by (rule step_check [OF inv check(3,4)])
next
  case (wait timed_out d i r N')
  show ?thesis unfolding wait(1) by (rule step_wait [OF inv wait(2)])
next
  case (deliver url req i now N' posts)
  show ?thesis unfolding deliver(1) by (rule step_deliver [OF inv deliver(2-4)])
next
  case (bump t i N' posts)
  have "N' = sy_nodes G i\<lparr>tn_clock := tn_clock N'\<rparr>"
    using bump(2) by (auto simp: handle_clock_bump_def Let_def)
  moreover have "tm_dot (tq_message (snd p)) = None" if "p \<in> set posts" for p
    using bump(2) that by (auto simp: handle_clock_bump_def Let_def clock_bump_def dest!: broadcast_post)
  ultimately show ?thesis unfolding bump(1) by (rule step_clock [OF inv])
next
  case (join addr j i)
  have "tempo_add_node j addr (sy_nodes G i) =
      sy_nodes G i\<lparr>tn_members := members_push j addr (tn_members (sy_nodes G i))\<rparr>"
    by (simp add: tempo_add_node_def)
  moreover have "m \<in> set (tn_members (sy_nodes G i)) \<or> route (tempo_url (member_addr m)) = Some (cmb_id m)"
    if "m \<in> set (members_push j addr (tn_members (sy_nodes G i)))" for m
    using that join(2) by (auto simp: members_push_def member_new_def member_addr_def split: if_splits)
  ultimately show ?thesis unfolding join(1) by (rule step_members [OF inv])
next
  case (leave i j)
  have "tempo_remove_node j (sy_nodes G i) =
      sy_nodes G i\<lparr>tn_members := members_remove j (tn_members (sy_nodes G i))\<rparr>"
    by (simp add: tempo_remove_node_def)
  then show ?thesis unfolding leave(1)
    by (rule step_members [OF inv]) (simp add: members_remove_def)
qed

lemma tempo_start_inv:
  assumes "tempo_start route stores G"
  shows "system_inv route P stores G"
proof -
  have n: "node_ok route Map.empty i (sy_nodes G i) \<and> ts_committed_dots (tn_state (sy_nodes G i)) = {} \<and>
      tn_store (sy_nodes G i) = stores i" for i
  proof -
    from assms obtain now config tx where c: "sy_nodes G i = tempo_new now config (stores i) tx"
      "cc_node_id config = i" "\<forall>m \<in> set (cc_initial_members config). route (tempo_url (member_addr m)) = Some (cmb_id m)"
      unfolding tempo_start_def by blast
    obtain f w where st: "tn_state (sy_nodes G i) = tempo_state_new i f w"
      unfolding c(1) tempo_new_def Let_def c(2) by simp
    have "get_command (tn_state (sy_nodes G i)) d = None" for d
      by (simp add: st get_command_def tempo_state_new_def)
    moreover have "ts_inv (tn_state (sy_nodes G i))" by (simp only: st ts_inv_new)
    moreover have "ts_committed_dots (tn_state (sy_nodes G i)) = {}"
      by (simp add: st tempo_state_new_def)
    moreover have "tn_config (sy_nodes G i) = config" "tn_members (sy_nodes G i) = cc_initial_members config"
      "tnw_node_id (tn_network (sy_nodes G i)) = i" "tn_store (sy_nodes G i) = stores i"
      using c(2) by (simp_all add: c(1) tempo_new_def Let_def network_new_def)
    ultimately show ?thesis using c(2,3) by (simp add: node_ok_def)
  qed
  from assms have "sy_posts G = {}" "sy_proposed G = Map.empty" "sy_applied G = (\<lambda>_. [])"
    by (simp_all add: tempo_start_def)
  with n show ?thesis by (simp add: system_inv_def applied_ok_def replay_def)
qed

lemma tempo_reach_inv: "tempo_reach route P stores G \<Longrightarrow> system_inv route P stores G"
  by (induction rule: tempo_reach.induct) (auto intro: tempo_start_inv tempo_step_inv)

section \<open>Properties\<close>

text \<open>
  C3. Whatever the order of the steps, and however messages are lost, repeated or delayed:
  every node that tracks a dot has the change log proposed for it; every dot a node has
  applied is committed at its coordinator, with acknowledgements of at least a fast quorum of
  distinct nodes; and each node has applied each of its committed dots exactly once, its
  store being the result of applying their change logs in the order it committed them.
\<close>

theorem tempo_system_safety:
  assumes "tempo_reach route P stores G"
  shows "(\<forall>i d c. get_command (tn_state (sy_nodes G i)) d = Some c \<longrightarrow>
            sy_proposed G d = Some (ci_changelog c)) \<and>
         (\<forall>i. \<forall>d \<in> set (sy_applied G i).
            \<exists>c. get_command (tn_state (sy_nodes G (dot_node_id d))) d = Some c \<and> ci_committed c \<and>
                ts_fast_quorum_size (tn_state (sy_nodes G (dot_node_id d))) \<le> card (fst ` set (ci_acks c))) \<and>
         (\<forall>i. distinct (sy_applied G i) \<and>
              set (sy_applied G i) = {d. is_committed (tn_state (sy_nodes G i)) d} \<and>
              tn_store (sy_nodes G i) = replay P (sy_proposed G) (sy_applied G i) (stores i))"
proof -
  note inv = tempo_reach_inv [OF assms]
  have a: "distinct (sy_applied G i) \<and> set (sy_applied G i) = {d. is_committed (tn_state (sy_nodes G i)) d} \<and>
      tn_store (sy_nodes G i) = replay P (sy_proposed G) (sy_applied G i) (stores i)" for i
    using system_invD(2) [OF inv, of i] by (simp add: applied_ok_def is_committed_def)
  have q: "\<exists>c. get_command (tn_state (sy_nodes G (dot_node_id d))) d = Some c \<and> ci_committed c \<and>
      ts_fast_quorum_size (tn_state (sy_nodes G (dot_node_id d))) \<le> card (fst ` set (ci_acks c))"
    if "d \<in> set (sy_applied G i)" for i d
  proof -
    from that a [of i] have "d \<in> ts_committed_dots (tn_state (sy_nodes G i))" by (simp add: is_committed_def)
    then obtain c where c: "get_command (tn_state (sy_nodes G (dot_node_id d))) d = Some c" "ci_committed c"
      "ts_fast_quorum_size (tn_state (sy_nodes G (dot_node_id d))) \<le> length (ci_acks c)"
      using system_invD(4) [OF inv] unfolding commit_ok_def by blast
    have "distinct (map fst (ci_acks c))"
      using ts_invD(2) [OF node_okD(3) [OF system_invD(1) [OF inv]] c(1)] by (simp add: command_wf_def)
    then have "card (fst ` set (ci_acks c)) = length (ci_acks c)"
      using distinct_card by fastforce
    with c show ?thesis by auto
  qed
  show ?thesis using a q node_okD(7) [OF system_invD(1) [OF inv]] by blast
qed

text \<open>
  Two nodes propose a namespace of the same name at the same time. With two members the quorum
  is one, so each commits its own at once; then each receives the other's commit.
\<close>

definition race_members :: "cluster_member list" where
  "race_members = [member_new 1 ''a:1'', member_new 2 ''b:1'']"

definition race_route :: "string \<Rightarrow> node_id option" where
  "race_route url =
     (if url = tempo_url ''a:1'' then Some 1 else if url = tempo_url ''b:1'' then Some 2 else None)"

definition race_start :: "(mem_storage, string) tempo_system" where
  "race_start =
     \<lparr>sy_nodes = (\<lambda>i. tempo_new 0 (cluster_config_default\<lparr>cc_node_id := i, cc_initial_members := race_members\<rparr>)
                    mem_new \<lparr>ch_open = True, ch_sent = []\<rparr>),
      sy_posts = {}, sy_proposed = Map.empty, sy_applied = (\<lambda>_. [])\<rparr>"

definition race_change :: "string \<Rightarrow> string changelog" where
  "race_change tag =
     changelog_new [] (sd_namespace sample_serde) tag 0 AddNamespace ''x'' ''x'' \<lparr>ns_name = ''x'', ns_tags = [tag]\<rparr>"

definition run_propose ::
  "node_id \<Rightarrow> 'j changelog \<Rightarrow> ('s, 'j) tempo_system \<Rightarrow> ('s, 'j) tempo_system" where
  "run_propose i cl G =
     (let (d, N', posts) = propose_begin 5 cl (sy_nodes G i)
      in (sys_put i N' posts [] G)\<lparr>sy_proposed := (sy_proposed G)(d \<mapsto> cl)\<rparr>)"

definition run_check ::
  "('s, 'j) proxy_store \<Rightarrow> dot \<Rightarrow> ('s, 'j) tempo_system \<Rightarrow> ('s, 'j) tempo_system" where
  "run_check P d G =
     (let i = dot_node_id d; (N', posts) = propose_check P d (sy_nodes G i)
      in sys_put i N' posts (newly d (sy_nodes G i) N') G)"

definition run_deliver ::
  "('s, 'j) proxy_store \<Rightarrow> node_id \<Rightarrow> 'j post \<Rightarrow> ('s, 'j) tempo_system \<Rightarrow> ('s, 'j) tempo_system" where
  "run_deliver P i p G =
     (let (N', posts) = handle_message P (9, 9) (tq_from (snd p)) (tq_message (snd p)) (sy_nodes G i)
      in sys_put i N' posts
           (case tm_dot (tq_message (snd p)) of Some d \<Rightarrow> newly d (sy_nodes G i) N' | None \<Rightarrow> []) G)"

lemma reach_propose:
  "tempo_reach route P stores G \<Longrightarrow> tn_next_sequence (sy_nodes G i) \<noteq> - 1 \<Longrightarrow>
   tempo_reach route P stores (run_propose i cl G)"
  by (auto simp: run_propose_def Let_def split: prod.splits
      intro: tempo_reach.step tempo_step.propose)

lemma reach_check:
  "tempo_reach route P stores G \<Longrightarrow> sy_proposed G d \<noteq> None \<Longrightarrow> tempo_reach route P stores (run_check P d G)"
  unfolding run_check_def Let_def case_prod_unfold
  by (rule tempo_reach.step, assumption, rule tempo_step.check) (simp_all add: prod_eq_iff)

lemma reach_deliver:
  "tempo_reach route P stores G \<Longrightarrow> p \<in> sy_posts G \<Longrightarrow> route (fst p) = Some i \<Longrightarrow>
   tempo_reach route P stores (run_deliver P i p G)"
  unfolding run_deliver_def Let_def case_prod_unfold
  by (rule tempo_reach.step, assumption, rule tempo_step.deliver [of "fst p" "snd p"])
    (simp_all add: prod_eq_iff)

definition race_post :: "node_id \<Rightarrow> string \<Rightarrow> string \<Rightarrow> string post" where
  "race_post i addr tag =
     (tempo_url addr, \<lparr>tq_from = i, tq_message = mcommit (dot_new i 1) 5 (race_change tag)\<rparr>)"

definition race_committed :: "(mem_storage, string) tempo_system" where
  "race_committed =
     run_check sample_store (dot_new 2 1) (run_propose 2 (race_change ''B'')
     (run_check sample_store (dot_new 1 1) (run_propose 1 (race_change ''A'') race_start)))"

definition race_system :: "(mem_storage, string) tempo_system" where
  "race_system =
     run_deliver sample_store 1 (race_post 2 ''a:1'' ''B'')
     (run_deliver sample_store 2 (race_post 1 ''b:1'' ''A'') race_committed)"

lemma race_start_ok: "tempo_start race_route (\<lambda>_. mem_new) race_start"
proof -
  have "\<forall>m \<in> set race_members. race_route (tempo_url (member_addr m)) = Some (cmb_id m)"
    by (simp add: race_members_def race_route_def member_new_def member_addr_def tempo_url_def)
  then show ?thesis
    unfolding tempo_start_def race_start_def
    by (auto intro!: exI [of _ 0] exI [of _ "\<lparr>ch_open = True, ch_sent = []\<rparr>"]
        exI [of _ "cluster_config_default\<lparr>cc_node_id := i, cc_initial_members := race_members\<rparr>" for i])
qed

lemma race_reach: "tempo_reach race_route sample_store (\<lambda>_. mem_new) race_system"
proof -
  have r0: "tempo_reach race_route sample_store (\<lambda>_. mem_new) race_start"
    by (rule tempo_reach.start [OF race_start_ok])
  have "tn_next_sequence (sy_nodes race_start 1) \<noteq> - 1" by code_simp
  note r1 = reach_propose [OF r0 this, of "race_change ''A''"]
  have "sy_proposed (run_propose 1 (race_change ''A'') race_start) (dot_new 1 1) \<noteq> None" by code_simp
  note r2 = reach_check [OF r1 this]
  have "tn_next_sequence (sy_nodes (run_check sample_store (dot_new 1 1)
      (run_propose 1 (race_change ''A'') race_start)) 2) \<noteq> - 1" by code_simp
  note r3 = reach_propose [OF r2 this, of "race_change ''B''"]
  have "sy_proposed (run_propose 2 (race_change ''B'') (run_check sample_store (dot_new 1 1)
      (run_propose 1 (race_change ''A'') race_start))) (dot_new 2 1) \<noteq> None" by code_simp
  note r4 = reach_check [OF r3 this, folded race_committed_def]
  have p1: "race_post 1 ''b:1'' ''A'' \<in> sy_posts race_committed" by code_simp
  have u1: "race_route (fst (race_post 1 ''b:1'' ''A'')) = Some 2" by code_simp
  note r5 = reach_deliver [OF r4 p1 u1]
  have p2: "race_post 2 ''a:1'' ''B'' \<in> sy_posts (run_deliver sample_store 2 (race_post 1 ''b:1'' ''A'') race_committed)"
    by code_simp
  have u2: "race_route (fst (race_post 2 ''a:1'' ''B'')) = Some 1" by code_simp
  from reach_deliver [OF r5 p2 u2] show ?thesis by (simp only: race_system_def)
qed

theorem tempo_system_safety_witness:
  "distinct (sy_applied race_system 1) \<and>
   tn_store (sy_nodes race_system 1) =
     replay sample_store (sy_proposed race_system) (sy_applied race_system 1) mem_new \<and>
   sy_applied race_system 1 = [dot_new 1 1, dot_new 2 1]"
proof -
  have "sy_applied race_system 1 = [dot_new 1 1, dot_new 2 1]" by code_simp
  with tempo_system_safety [OF race_reach] show ?thesis by blast
qed

text \<open>
  C29. Nothing orders the commits: there is a run in which two nodes have applied the same two
  dots, with no commit left to deliver, and read different values for the same namespace.
\<close>

theorem tempo_replicas_diverge:
  "\<exists>G. tempo_reach race_route sample_store (\<lambda>_. mem_new) G \<and>
       set (sy_applied G 1) = {dot_new 1 1, dot_new 2 1} \<and> set (sy_applied G 2) = {dot_new 1 1, dot_new 2 1} \<and>
       get_namespace sample_store (tn_store (sy_nodes G 1)) ''x'' = Ok (Some \<lparr>ns_name = ''x'', ns_tags = [''B'']\<rparr>) \<and>
       get_namespace sample_store (tn_store (sy_nodes G 2)) ''x'' = Ok (Some \<lparr>ns_name = ''x'', ns_tags = [''A'']\<rparr>)"
proof (intro exI conjI)
  show "tempo_reach race_route sample_store (\<lambda>_. mem_new) race_system" by (rule race_reach)
  have "sy_applied race_system 1 = [dot_new 1 1, dot_new 2 1]" by code_simp
  then show "set (sy_applied race_system 1) = {dot_new 1 1, dot_new 2 1}" by simp
  have "sy_applied race_system 2 = [dot_new 2 1, dot_new 1 1]" by code_simp
  then show "set (sy_applied race_system 2) = {dot_new 1 1, dot_new 2 1}" by auto
  show "get_namespace sample_store (tn_store (sy_nodes race_system 1)) ''x'' =
      Ok (Some \<lparr>ns_name = ''x'', ns_tags = [''B'']\<rparr>)" by code_simp
  show "get_namespace sample_store (tn_store (sy_nodes race_system 2)) ''x'' =
      Ok (Some \<lparr>ns_name = ''x'', ns_tags = [''A'']\<rparr>)" by code_simp
qed

end
