(* ===== verification/Raft_Log.thy ===== *)
theory Raft_Log
  imports Btree_Map Resources
begin

text \<open>
  The in-memory Raft log, \<open>src/cluster/raft/store.rs\<close>. Log ids, entries and log states are the
  public structs of openraft, with the vote and the membership as type variables. Every
  operation of the store succeeds, so its \<open>Result\<close> is left out; \<open>append\<close> also reports to the
  callback, whose value is returned. Readers share the data, so a reader is the store.
\<close>

section \<open>The types of openraft the store uses\<close>

record log_id =
  lg_term :: u64
  lg_node_id :: u64
  lg_index :: u64

datatype ('j, 'm) entry_payload = EP_Blank | EP_Normal "'j changelog" | EP_Membership 'm

record ('j, 'm) log_entry =
  en_log_id :: log_id
  en_payload :: "('j, 'm) entry_payload"

record log_state =
  lst_last_purged_log_id :: "log_id option"
  lst_last_log_id :: "log_id option"

section \<open>The store\<close>

record ('v, 'j, 'm) raft_log =
  rl_vote :: "'v option"
  rl_logs :: "(u64, ('j, 'm) log_entry) btree_map"
  rl_last_purged :: "log_id option"

definition raft_log_new :: "('v, 'j, 'm) raft_log" where
  "raft_log_new = \<lparr>rl_vote = None, rl_logs = [], rl_last_purged = None\<rparr>"

definition try_get_log_entries :: "(u64 \<Rightarrow> bool) \<Rightarrow> ('v, 'j, 'm) raft_log \<Rightarrow> ('j, 'm) log_entry list" where
  "try_get_log_entries inside L = map snd (btree_range inside (rl_logs L))"

definition get_log_state :: "('v, 'j, 'm) raft_log \<Rightarrow> log_state" where
  "get_log_state L =
     \<lparr>lst_last_purged_log_id = rl_last_purged L,
      lst_last_log_id = map_option en_log_id (btree_last (rl_logs L))\<rparr>"

definition get_log_reader :: "('v, 'j, 'm) raft_log \<Rightarrow> ('v, 'j, 'm) raft_log" where
  "get_log_reader L = L"

definition save_vote :: "'v \<Rightarrow> ('v, 'j, 'm) raft_log \<Rightarrow> ('v, 'j, 'm) raft_log" where
  "save_vote v L = L\<lparr>rl_vote := Some v\<rparr>"

definition read_vote :: "('v, 'j, 'm) raft_log \<Rightarrow> 'v option" where
  "read_vote L = rl_vote L"

text \<open>The first component is what the callback is told.\<close>

definition log_append ::
  "('j, 'm) log_entry list \<Rightarrow> ('v, 'j, 'm) raft_log \<Rightarrow> (string + unit) \<times> ('v, 'j, 'm) raft_log" where
  "log_append entries L =
     (Ok (), L\<lparr>rl_logs := fold (\<lambda>entry logs. btree_insert (lg_index (en_log_id entry)) entry logs) entries (rl_logs L)\<rparr>)"

definition log_truncate :: "log_id \<Rightarrow> ('v, 'j, 'm) raft_log \<Rightarrow> ('v, 'j, 'm) raft_log" where
  "log_truncate lid L = L\<lparr>rl_logs := fst (btree_split_off (lg_index lid) (rl_logs L))\<rparr>"

definition log_purge :: "log_id \<Rightarrow> ('v, 'j, 'm) raft_log \<Rightarrow> ('v, 'j, 'm) raft_log" where
  "log_purge lid L =
     (let keys_to_remove = map fst (btree_range (\<lambda>k. k \<le> lg_index lid) (rl_logs L))
      in L\<lparr>rl_logs := fold btree_remove keys_to_remove (rl_logs L), rl_last_purged := Some lid\<rparr>)"

section \<open>The log as a map from indexes to entries\<close>

definition log_map :: "('v, 'j, 'm) raft_log \<Rightarrow> u64 \<rightharpoonup> ('j, 'm) log_entry" where
  "log_map L = map_of (rl_logs L)"

text \<open>Keys are sorted and are the indexes of their entries, and there is no hole between two of them.\<close>

definition raft_log_inv :: "('v, 'j, 'm) raft_log \<Rightarrow> bool" where
  "raft_log_inv L \<longleftrightarrow>
     btree_ok (rl_logs L) \<and>
     (\<forall>i e. log_map L i = Some e \<longrightarrow> lg_index (en_log_id e) = i) \<and>
     (\<forall>i j k. i \<le> j \<longrightarrow> j \<le> k \<longrightarrow> log_map L i \<noteq> None \<longrightarrow> log_map L k \<noteq> None \<longrightarrow> log_map L j \<noteq> None)"

lemma raft_log_invD:
  assumes "raft_log_inv L"
  shows "btree_ok (rl_logs L)"
    and "log_map L i = Some e \<Longrightarrow> lg_index (en_log_id e) = i"
    and "i \<le> j \<Longrightarrow> j \<le> k \<Longrightarrow> log_map L i \<noteq> None \<Longrightarrow> log_map L k \<noteq> None \<Longrightarrow> log_map L j \<noteq> None"
  using assms unfolding raft_log_inv_def by blast+

lemma raft_log_inv_new: "raft_log_inv raft_log_new"
  by (simp add: raft_log_inv_def raft_log_new_def log_map_def)

lemma log_map_truncate:
  "log_map (log_truncate lid L) = (\<lambda>i. if i < lg_index lid then log_map L i else None)"
  by (auto simp: fun_eq_iff log_map_def log_truncate_def map_of_btree_split_off)

lemma map_of_fold_remove:
  "map_of (fold btree_remove ks m) i = (if i \<in> set ks then None else map_of m i)"
  by (induction ks arbitrary: m) (auto simp: map_of_btree_remove)

lemma btree_ok_fold_remove: "btree_ok m \<Longrightarrow> btree_ok (fold btree_remove ks m)"
  by (induction ks arbitrary: m) simp_all

lemma log_map_purge:
  "log_map (log_purge lid L) = (\<lambda>i. if i \<le> lg_index lid then None else log_map L i)"
proof
  fix i
  have "i \<in> set (map fst (btree_range (\<lambda>k. k \<le> lg_index lid) (rl_logs L))) \<longleftrightarrow>
      i \<le> lg_index lid \<and> map_of (rl_logs L) i \<noteq> None"
    by (force simp: btree_range_def map_of_eq_None_iff image_iff)
  then show "log_map (log_purge lid L) i = (if i \<le> lg_index lid then None else log_map L i)"
    by (auto simp: log_map_def log_purge_def Let_def map_of_fold_remove)
qed

lemma fold_insert_entries:
  assumes "btree_ok logs"
  shows "btree_ok (fold (\<lambda>e logs. btree_insert (lg_index (en_log_id e)) e logs) es logs)"
    and "map_of (fold (\<lambda>e logs. btree_insert (lg_index (en_log_id e)) e logs) es logs) =
      map_of logs ++ map_of (rev (map (\<lambda>e. (lg_index (en_log_id e), e)) es))"
proof -
  have "btree_ok (fold (\<lambda>e logs. btree_insert (lg_index (en_log_id e)) e logs) es logs) \<and>
    map_of (fold (\<lambda>e logs. btree_insert (lg_index (en_log_id e)) e logs) es logs) =
      map_of logs ++ map_of (rev (map (\<lambda>e. (lg_index (en_log_id e), e)) es))"
    using assms by (induction es arbitrary: logs) (simp_all add: map_of_btree_insert)
  then show "btree_ok (fold (\<lambda>e logs. btree_insert (lg_index (en_log_id e)) e logs) es logs)"
    and "map_of (fold (\<lambda>e logs. btree_insert (lg_index (en_log_id e)) e logs) es logs) =
      map_of logs ++ map_of (rev (map (\<lambda>e. (lg_index (en_log_id e), e)) es))" by blast+
qed

lemma log_map_append:
  assumes "btree_ok (rl_logs L)"
  shows "btree_ok (rl_logs (snd (log_append es L)))"
    and "log_map (snd (log_append es L)) = log_map L ++ map_of (rev (map (\<lambda>e. (lg_index (en_log_id e), e)) es))"
  using fold_insert_entries [OF assms] by (simp_all add: log_append_def log_map_def)

text \<open>Keeping the entries of a convex set of indexes keeps the invariant.\<close>

lemma raft_log_inv_restrict:
  assumes inv: "raft_log_inv L" and ok: "btree_ok (rl_logs L')"
    and m: "log_map L' = (\<lambda>i. if Q i then log_map L i else None)"
    and convex: "\<And>i j k. i \<le> j \<Longrightarrow> j \<le> k \<Longrightarrow> Q i \<Longrightarrow> Q k \<Longrightarrow> Q j"
  shows "raft_log_inv L'"
proof -
  have "log_map L' j \<noteq> None" if "i \<le> j" "j \<le> k" "log_map L' i \<noteq> None" "log_map L' k \<noteq> None" for i j k
  proof -
    from that(3,4) have "Q i" "Q k" and n: "log_map L i \<noteq> None" "log_map L k \<noteq> None"
      unfolding m by metis+
    from convex [OF that(1,2) this(1,2)] raft_log_invD(3) [OF inv that(1,2) n] show ?thesis
      unfolding m by simp
  qed
  moreover have "lg_index (en_log_id e) = i" if "log_map L' i = Some e" for i e
    using that raft_log_invD(2) [OF inv] unfolding m by (metis option.distinct(1))
  ultimately show ?thesis unfolding raft_log_inv_def using ok by blast
qed

lemma raft_log_inv_truncate: "raft_log_inv L \<Longrightarrow> raft_log_inv (log_truncate lid L)"
  by (rule raft_log_inv_restrict [OF _ _ log_map_truncate])
    (simp_all add: log_truncate_def raft_log_invD(1))

lemma raft_log_inv_purge: "raft_log_inv L \<Longrightarrow> raft_log_inv (log_purge lid L)"
proof -
  assume inv: "raft_log_inv L"
  have ok: "btree_ok (rl_logs (log_purge lid L))"
    using raft_log_invD(1) [OF inv] by (simp add: log_purge_def Let_def btree_ok_fold_remove)
  have m: "log_map (log_purge lid L) = (\<lambda>i. if \<not> i \<le> lg_index lid then log_map L i else None)"
    unfolding log_map_purge by auto
  show ?thesis by (rule raft_log_inv_restrict [OF inv ok m]) auto
qed

lemma log_map_append_dom:
  assumes "btree_ok (rl_logs L)"
  shows "log_map (snd (log_append es L)) i \<noteq> None \<longleftrightarrow>
    log_map L i \<noteq> None \<or> i \<in> (\<lambda>e. lg_index (en_log_id e)) ` set es"
  unfolding log_map_append(2) [OF assms]
  by (auto simp: map_add_None map_of_eq_None_iff image_iff)

text \<open>Appending a block of consecutive entries that starts inside or right after the log.\<close>

lemma raft_log_inv_append:
  assumes inv: "raft_log_inv L"
    and block: "(\<lambda>e. lg_index (en_log_id e)) ` set es = {a..b}"
    and start: "rl_logs L = [] \<or> log_map L a \<noteq> None \<or> (\<exists>p. p + 1 = a \<and> p < a \<and> log_map L p \<noteq> None)"
  shows "raft_log_inv (snd (log_append es L))"
proof -
  let ?L = "snd (log_append es L)"
  note ok = raft_log_invD(1) [OF inv]
  have dom: "log_map ?L i \<noteq> None \<longleftrightarrow> log_map L i \<noteq> None \<or> a \<le> i \<and> i \<le> b" for i
    using log_map_append_dom [OF ok, of es i] block by auto
  have idx: "lg_index (en_log_id e) = i" if "log_map ?L i = Some e" for i e
    using that raft_log_invD(2) [OF inv]
    unfolding log_map_append(2) [OF ok] map_add_Some_iff
    by (auto dest!: map_of_SomeD)
  have hole: "log_map ?L j \<noteq> None"
    if "i \<le> j" "j \<le> k" "log_map ?L i \<noteq> None" "log_map ?L k \<noteq> None" for i j k
  proof (cases "a \<le> j \<and> j \<le> b")
    case False
    have "log_map L j \<noteq> None"
    proof (cases "j < a")
      case True
      then have i: "log_map L i \<noteq> None" using that(1,3) dom by auto
      then have "rl_logs L \<noteq> []" by (auto simp: log_map_def)
      with start consider "log_map L a \<noteq> None" | p where "p + 1 = a" "p < a" "log_map L p \<noteq> None" by blast
      then show ?thesis
      proof cases
        case 1
        from raft_log_invD(3) [OF inv that(1) less_imp_le [OF True] i 1] show ?thesis .
      next
        case (2 p)
        then have "j \<le> p" using True by (metis inc_le leD leI)
        from raft_log_invD(3) [OF inv that(1) this i 2(3)] show ?thesis .
      qed
    next
      case False
      with \<open>\<not> (a \<le> j \<and> j \<le> b)\<close> have bj: "b < j" and aj: "a \<le> j" by (auto simp: not_le not_less)
      then have k: "log_map L k \<noteq> None" using that(2,4) dom by auto
      then have "rl_logs L \<noteq> []" by (auto simp: log_map_def)
      with start consider "log_map L a \<noteq> None" | p where "p + 1 = a" "p < a" "log_map L p \<noteq> None" by blast
      then show ?thesis
      proof cases
        case 1
        from raft_log_invD(3) [OF inv aj that(2) 1 k] show ?thesis .
      next
        case (2 p)
        then have "p \<le> j" using aj by simp
        from raft_log_invD(3) [OF inv this that(2) 2(3) k] show ?thesis .
      qed
    qed
    with dom show ?thesis by blast
  qed (use dom in blast)
  show ?thesis
    unfolding raft_log_inv_def using log_map_append(1) [OF ok] idx hole by blast
qed

text \<open>Reads, the state and the vote.\<close>

lemma entry_in_log: "raft_log_inv L \<Longrightarrow> (i, e) \<in> set (rl_logs L) \<longleftrightarrow> log_map L i = Some e"
  using map_of_eq_Some_iff [OF btree_ok_distinct [OF raft_log_invD(1)]] by (auto simp: log_map_def)

lemma try_get_log_entries_exact:
  assumes "raft_log_inv L"
  shows "set (try_get_log_entries inside L) = {e. \<exists>i. inside i \<and> log_map L i = Some e}"
    and "sorted_wrt (<) (map (\<lambda>e. lg_index (en_log_id e)) (try_get_log_entries inside L))"
proof -
  note mem = entry_in_log [OF assms]
  show "set (try_get_log_entries inside L) = {e. \<exists>i. inside i \<and> log_map L i = Some e}"
    using mem by (force simp: try_get_log_entries_def btree_range_def)
  have "map (\<lambda>e. lg_index (en_log_id e)) (try_get_log_entries inside L) = map fst (btree_range inside (rl_logs L))"
    using raft_log_invD(2) [OF assms] mem by (auto simp: try_get_log_entries_def btree_range_def)
  moreover have "btree_ok (btree_range inside (rl_logs L))"
    using raft_log_invD(1) [OF assms] by (simp add: btree_range_def)
  ultimately show "sorted_wrt (<) (map (\<lambda>e. lg_index (en_log_id e)) (try_get_log_entries inside L))"
    by (simp add: btree_ok_def)
qed

lemma last_log_id_iff:
  assumes "raft_log_inv L"
  shows "lst_last_log_id (get_log_state L) = Some l \<longleftrightarrow>
    (\<exists>i e. log_map L i = Some e \<and> en_log_id e = l \<and> (\<forall>j. log_map L j \<noteq> None \<longrightarrow> j \<le> i))"
proof (cases "rl_logs L = []")
  case True
  then show ?thesis by (simp add: get_log_state_def btree_last_def log_map_def)
next
  case False
  let ?i = "fst (last (rl_logs L))" and ?e = "snd (last (rl_logs L))"
  note ok = raft_log_invD(1) [OF assms]
  have last: "log_map L ?i = Some ?e" "\<And>j. log_map L j \<noteq> None \<Longrightarrow> j \<le> ?i"
    using btree_last_max [OF ok False] by (auto simp: log_map_def)
  have unique: "e = ?e" if "log_map L i = Some e" "\<forall>j. log_map L j \<noteq> None \<longrightarrow> j \<le> i" for i e
  proof -
    have "?i \<le> i" using that(2) last(1) by (metis option.distinct(1))
    moreover have "i \<le> ?i" by (rule last(2)) (simp add: that(1))
    ultimately have "i = ?i" by simp
    with that(1) last(1) show ?thesis by simp
  qed
  have "lst_last_log_id (get_log_state L) = Some (en_log_id ?e)"
    using False by (simp add: get_log_state_def btree_last_def)
  then show ?thesis using last unique by (metis option.inject)
qed

lemma last_purged:
  "lst_last_purged_log_id (get_log_state (log_purge lid L)) = Some lid \<and>
   lst_last_purged_log_id (get_log_state (log_truncate lid L)) = lst_last_purged_log_id (get_log_state L) \<and>
   lst_last_purged_log_id (get_log_state (snd (log_append es L))) = lst_last_purged_log_id (get_log_state L)"
  by (simp add: get_log_state_def log_purge_def log_truncate_def log_append_def Let_def)

lemma vote_saved: "read_vote (save_vote v L) = Some v \<and> log_map (save_vote v L) = log_map L"
  by (simp add: read_vote_def save_vote_def log_map_def)

section \<open>Properties\<close>

text \<open>
  C17. The log store is a map from indexes to entries that stays without holes: appending a
  block of consecutive entries that starts in the log or right after it adds or replaces them,
  truncating removes the entries from an index on, purging those up to an index, and a range
  read, of the store or of a reader of it, returns exactly the entries of the range in the order
  of their indexes. The state of the log is the id of the last entry, if there is one, and what
  was last purged, which only purging sets; a saved vote is read back and leaves the log alone.
\<close>

theorem raft_log_operations:
  assumes "raft_log_inv L"
    and "(\<lambda>e. lg_index (en_log_id e)) ` set es = {a..b}"
    and "rl_logs L = [] \<or> log_map L a \<noteq> None \<or> (\<exists>p. p + 1 = a \<and> p < a \<and> log_map L p \<noteq> None)"
  shows "raft_log_inv (snd (log_append es L)) \<and> raft_log_inv (log_truncate lid L) \<and> raft_log_inv (log_purge lid L) \<and>
         log_map (snd (log_append es L)) = log_map L ++ map_of (rev (map (\<lambda>e. (lg_index (en_log_id e), e)) es)) \<and>
         log_map (log_truncate lid L) = (\<lambda>i. if i < lg_index lid then log_map L i else None) \<and>
         log_map (log_purge lid L) = (\<lambda>i. if i \<le> lg_index lid then None else log_map L i) \<and>
         set (try_get_log_entries inside (get_log_reader L)) = {e. \<exists>i. inside i \<and> log_map L i = Some e} \<and>
         sorted_wrt (<) (map (\<lambda>e. lg_index (en_log_id e)) (try_get_log_entries inside (get_log_reader L))) \<and>
         try_get_log_entries inside (get_log_reader L) = try_get_log_entries inside L \<and>
         (\<forall>l. lst_last_log_id (get_log_state L) = Some l \<longleftrightarrow>
            (\<exists>i e. log_map L i = Some e \<and> en_log_id e = l \<and> (\<forall>j. log_map L j \<noteq> None \<longrightarrow> j \<le> i))) \<and>
         lst_last_purged_log_id (get_log_state (log_purge lid L)) = Some lid \<and>
         lst_last_purged_log_id (get_log_state (log_truncate lid L)) = lst_last_purged_log_id (get_log_state L) \<and>
         lst_last_purged_log_id (get_log_state (snd (log_append es L))) = lst_last_purged_log_id (get_log_state L) \<and>
         read_vote (save_vote v L) = Some v \<and> log_map (save_vote v L) = log_map L"
proof -
  note ok = raft_log_invD(1) [OF assms(1)]
  have entries: "set (try_get_log_entries inside L) = {e. \<exists>i. inside i \<and> log_map L i = Some e}"
    "sorted_wrt (<) (map (\<lambda>e. lg_index (en_log_id e)) (try_get_log_entries inside L))"
    by (rule try_get_log_entries_exact [OF assms(1)])+
  show ?thesis
    using raft_log_inv_append [OF assms] raft_log_inv_truncate [OF assms(1)] raft_log_inv_purge [OF assms(1)]
      log_map_append(2) [OF ok] log_map_truncate [of lid L] log_map_purge [of lid L] entries
      last_log_id_iff [OF assms(1)] last_purged [of lid L es] vote_saved [of v L]
    by (simp only: get_log_reader_def simp_thms)
qed

definition sample_entry :: "u64 \<Rightarrow> (string, unit) log_entry" where
  "sample_entry i = \<lparr>en_log_id = \<lparr>lg_term = 1, lg_node_id = 1, lg_index = i\<rparr>, en_payload = EP_Blank\<rparr>"

theorem raft_log_operations_witness:
  "raft_log_inv (snd (log_append [sample_entry 1, sample_entry 2] (raft_log_new :: (unit, string, unit) raft_log)))"
proof -
  have "{1..2 :: u64} = {1, 2}"
  proof
    show "{1..2 :: u64} \<subseteq> {1, 2}"
    proof
      fix x :: u64
      assume "x \<in> {1..2}"
      then have "1 \<le> unat x" "unat x \<le> 2" by (simp_all add: word_le_nat_alt)
      then have "unat x = 1 \<or> unat x = 2" by arith
      then show "x \<in> {1, 2}" by (auto simp: word_unat_eq_iff)
    qed
  qed auto
  then have block: "(\<lambda>e. lg_index (en_log_id e)) ` set [sample_entry 1, sample_entry 2] = {1..2}"
    by (simp add: sample_entry_def)
  have empty: "rl_logs (raft_log_new :: (unit, string, unit) raft_log) = []" by (simp add: raft_log_new_def)
  show ?thesis
    by (rule conjunct1 [OF raft_log_operations [OF raft_log_inv_new block disjI1 [OF empty]]])
qed

text \<open>
  When everything has been purged the store reports no last log id, although it
  remembers the id it purged: \<open>last_log_id\<close> is the last entry present, or nothing.
\<close>

lemma raft_log_state_after_purge:
  assumes "raft_log_inv L" and "\<And>i. log_map L i \<noteq> None \<Longrightarrow> i \<le> lg_index lid"
  shows "get_log_state (log_purge lid L) = \<lparr>lst_last_purged_log_id = Some lid, lst_last_log_id = None\<rparr>"
proof -
  have "log_map (log_purge lid L) = Map.empty"
    unfolding log_map_purge using assms(2) by (metis (mono_tags, opaque_lifting))
  then have "rl_logs (log_purge lid L) = []" by (simp add: log_map_def)
  then show ?thesis by (simp add: get_log_state_def log_purge_def Let_def btree_last_def)
qed

end
