(* ===== verification/Raft_SM.thy ===== *)
theory Raft_SM
  imports Raft_Log Changes Consensus
begin

text \<open>
  The Raft state machine, \<open>src/cluster/raft/state_machine.rs\<close>: applying entries, building and
  installing snapshots. The state machine holds its store (when it has one), the last applied
  log id, the membership, the channel to the proxy and the list of the change logs applied so
  far, which is what a snapshot contains. The snapshot's JSON coder is an argument, as are
  the UUIDs; an I/O error of openraft is its text.
\<close>

type_synonym raft_response = consensus_response

definition raft_response_default :: raft_response where
  "raft_response_default = \<lparr>cr_success = False, cr_message = None\<rparr>"

record 'm stored_membership =
  smb_log_id :: "log_id option"
  smb_membership :: 'm

text \<open>\<open>SnapshotData\<close>\<close>

record 'j snapshot_data =
  snd_changelogs :: "'j changelog list"

definition snapshot_data_default :: "'j snapshot_data" where
  "snapshot_data_default = \<lparr>snd_changelogs = []\<rparr>"

record ('s, 'j, 'm) raft_sm =
  sm_store :: "'s option"
  sm_last_applied :: "log_id option"
  sm_last_membership :: "'m stored_membership"
  sm_change_tx :: "'j changelog channel option"
  sm_snapshot_data :: "'j snapshot_data"

definition raft_sm_default :: "'m \<Rightarrow> ('s, 'j, 'm) raft_sm" where
  "raft_sm_default m0 =
     \<lparr>sm_store = None, sm_last_applied = None,
      sm_last_membership = \<lparr>smb_log_id = None, smb_membership = m0\<rparr>, sm_change_tx = None,
      sm_snapshot_data = snapshot_data_default\<rparr>"

definition raft_sm_new :: "'m \<Rightarrow> 's \<Rightarrow> ('s, 'j, 'm) raft_sm" where
  "raft_sm_new m0 store =
     \<lparr>sm_store = Some store, sm_last_applied = None,
      sm_last_membership = \<lparr>smb_log_id = None, smb_membership = m0\<rparr>, sm_change_tx = None,
      sm_snapshot_data = snapshot_data_default\<rparr>"

definition with_change_notifier :: "'m \<Rightarrow> 's \<Rightarrow> 'j changelog channel \<Rightarrow> ('s, 'j, 'm) raft_sm" where
  "with_change_notifier m0 store change_tx =
     \<lparr>sm_store = Some store, sm_last_applied = None,
      sm_last_membership = \<lparr>smb_log_id = None, smb_membership = m0\<rparr>, sm_change_tx = Some change_tx,
      sm_snapshot_data = snapshot_data_default\<rparr>"

section \<open>Applying a change log\<close>

definition raft_created :: "string \<Rightarrow> string \<Rightarrow> raft_response" where
  "raft_created kind name = \<lparr>cr_success = True, cr_message = Some (created kind name)\<rparr>"

definition raft_deleted :: "string \<Rightarrow> string \<Rightarrow> raft_response" where
  "raft_deleted kind name = \<lparr>cr_success = True, cr_message = Some (deleted kind name)\<rparr>"

definition raft_add ::
  "('j, 't) codec \<Rightarrow> ('s \<Rightarrow> 't \<Rightarrow> (storage_error + unit) \<times> 's) \<Rightarrow> ('t \<Rightarrow> raft_response) \<Rightarrow> 'j \<Rightarrow> 's \<Rightarrow>
   (string + raft_response) \<times> 's" where
  "raft_add c setter resp item s =
     (case from_value c item of
        Err e \<Rightarrow> (Err e, s)
      | Ok x \<Rightarrow> and_then (map_err_st storage_error_to_string (setter s x)) (\<lambda>_ s. (Ok (resp x), s)))"

definition raft_del ::
  "('s \<Rightarrow> (storage_error + unit) \<times> 's) \<Rightarrow> raft_response \<Rightarrow> 's \<Rightarrow> (string + raft_response) \<times> 's" where
  "raft_del deleter resp s =
     and_then (map_err_st storage_error_to_string (deleter s)) (\<lambda>_ s. (Ok resp, s))"

definition raft_store_change ::
  "('s, 'j) proxy_store \<Rightarrow> 's \<Rightarrow> 'j changelog \<Rightarrow> (string + raft_response) \<times> 's" where
  "raft_store_change P s cl =
     (let S = ps_serde P; item = cl_item cl; ns = cl_namespace cl; name = cl_name cl
      in case cl_cmd cl of
        AddNamespace \<Rightarrow>
          raft_add (sd_namespace S) (set_namespace P) (\<lambda>x. raft_created ''Namespace'' (ns_name x)) item s
      | DeleteNamespace \<Rightarrow>
          raft_del (\<lambda>s. delete_namespace P s name) (raft_deleted ''Namespace'' name) s
      | AddRoute \<Rightarrow>
          raft_add (sd_route S) (set_route P) (\<lambda>x. raft_created ''Route'' (rt_name x)) item s
      | DeleteRoute \<Rightarrow>
          raft_del (\<lambda>s. delete_route P s ns name) (raft_deleted ''Route'' name) s
      | AddService \<Rightarrow>
          raft_add (sd_service S) (set_service P) (\<lambda>x. raft_created ''Service'' (svc_name x)) item s
      | DeleteService \<Rightarrow>
          raft_del (\<lambda>s. delete_service P s ns name) (raft_deleted ''Service'' name) s
      | AddModule \<Rightarrow>
          raft_add (sd_module S) (set_module P) (\<lambda>x. raft_created ''Module'' (md_name x)) item s
      | DeleteModule \<Rightarrow>
          raft_del (\<lambda>s. delete_module P s ns name) (raft_deleted ''Module'' name) s
      | AddDomain \<Rightarrow>
          raft_add (sd_domain S) (set_domain P) (\<lambda>x. raft_created ''Domain'' (dom_name x)) item s
      | DeleteDomain \<Rightarrow>
          raft_del (\<lambda>s. delete_domain P s ns name) (raft_deleted ''Domain'' name) s
      | AddSecret \<Rightarrow>
          raft_add (sd_secret S) (set_secret P) (\<lambda>x. raft_created ''Secret'' (sec_name x)) item s
      | DeleteSecret \<Rightarrow>
          raft_del (\<lambda>s. delete_secret P s ns name) (raft_deleted ''Secret'' name) s
      | AddCollection \<Rightarrow>
          raft_add (sd_collection S) (set_collection P) (\<lambda>x. raft_created ''Collection'' (col_name x)) item s
      | DeleteCollection \<Rightarrow>
          raft_del (\<lambda>s. delete_collection P s ns name) (raft_deleted ''Collection'' name) s
      | AddDocument \<Rightarrow>
          raft_add (sd_document S) (set_document P) (\<lambda>x. raft_created ''Document'' (doc_id x)) item s
      | DeleteDocument \<Rightarrow>
          (case from_value (sd_document S) item of
             Err e \<Rightarrow> (Err e, s)
           | Ok doc \<Rightarrow>
               raft_del (\<lambda>s. delete_document P s ns (doc_collection doc) name)
                 (raft_deleted ''Document'' name) s))"

definition raft_apply_changelog ::
  "('s, 'j) proxy_store \<Rightarrow> 'j changelog \<Rightarrow> ('s, 'j, 'm) raft_sm \<Rightarrow>
   (string + raft_response) \<times> ('s, 'j, 'm) raft_sm" where
  "raft_apply_changelog P cl M =
     (case sm_store M of
        None \<Rightarrow> (Ok raft_response_default, M)
      | Some s \<Rightarrow>
          (case raft_store_change P s cl of
             (Err e, s) \<Rightarrow> (Err e, M\<lparr>sm_store := Some s\<rparr>)
           | (Ok result, s) \<Rightarrow>
               (Ok result,
                M\<lparr>sm_store := Some s,
                  sm_change_tx := map_option (\<lambda>tx. channel_send tx cl) (sm_change_tx M),
                  sm_snapshot_data := \<lparr>snd_changelogs = snd_changelogs (sm_snapshot_data M) @ [cl]\<rparr>\<rparr>)))"

section \<open>The state machine operations\<close>

definition applied_state :: "('s, 'j, 'm) raft_sm \<Rightarrow> log_id option \<times> 'm stored_membership" where
  "applied_state M = (sm_last_applied M, sm_last_membership M)"

definition apply_entry ::
  "('s, 'j) proxy_store \<Rightarrow> ('j, 'm) log_entry \<Rightarrow> ('s, 'j, 'm) raft_sm \<Rightarrow> raft_response \<times> ('s, 'j, 'm) raft_sm" where
  "apply_entry P entry M =
     (let M = M\<lparr>sm_last_applied := Some (en_log_id entry)\<rparr>
      in case en_payload entry of
           EP_Blank \<Rightarrow> (raft_response_default, M)
         | EP_Normal changelog \<Rightarrow>
             (case raft_apply_changelog P changelog M of
                (Ok resp, M) \<Rightarrow> (resp, M)
              | (Err e, M) \<Rightarrow> (\<lparr>cr_success = False, cr_message = Some e\<rparr>, M))
         | EP_Membership membership \<Rightarrow>
             (raft_response_default,
              M\<lparr>sm_last_membership := \<lparr>smb_log_id = Some (en_log_id entry), smb_membership = membership\<rparr>\<rparr>))"

fun raft_apply ::
  "('s, 'j) proxy_store \<Rightarrow> ('j, 'm) log_entry list \<Rightarrow> ('s, 'j, 'm) raft_sm \<Rightarrow> raft_response list \<times> ('s, 'j, 'm) raft_sm" where
  "raft_apply P [] M = ([], M)"
| "raft_apply P (entry # entries) M =
     (let (response, M) = apply_entry P entry M; (responses, M) = raft_apply P entries M
      in (response # responses, M))"

record 'm snapshot_meta =
  snm_last_log_id :: "log_id option"
  snm_last_membership :: "'m stored_membership"
  snm_snapshot_id :: string

record 'm snapshot =
  snp_meta :: "'m snapshot_meta"
  snp_data :: bytes

record ('j, 'm) snapshot_builder =
  sb_snapshot_data :: "'j snapshot_data"
  sb_last_applied :: "log_id option"
  sb_last_membership :: "'m stored_membership"

definition get_snapshot_builder :: "('s, 'j, 'm) raft_sm \<Rightarrow> ('j, 'm) snapshot_builder" where
  "get_snapshot_builder M =
     \<lparr>sb_snapshot_data = sm_snapshot_data M, sb_last_applied = sm_last_applied M,
      sb_last_membership = sm_last_membership M\<rparr>"

definition begin_receiving_snapshot :: "bytes" where
  "begin_receiving_snapshot = []"

definition snapshot_id_of :: "log_id option \<Rightarrow> string \<Rightarrow> string" where
  "snapshot_id_of last_applied uuid =
     show_nat (case last_applied of Some l \<Rightarrow> unat (lg_term l) | None \<Rightarrow> 0) @ ''-'' @
     show_nat (case last_applied of Some l \<Rightarrow> unat (lg_index l) | None \<Rightarrow> 0) @ ''-'' @ uuid"

text \<open>The replay loop of \<open>install_snapshot\<close>: an error is only logged.\<close>

fun replay_changelogs ::
  "('s, 'j) proxy_store \<Rightarrow> 'j changelog list \<Rightarrow> ('s, 'j, 'm) raft_sm \<Rightarrow> ('s, 'j, 'm) raft_sm" where
  "replay_changelogs P [] M = M"
| "replay_changelogs P (cl # cls) M = replay_changelogs P cls (snd (raft_apply_changelog P cl M))"

definition install_snapshot ::
  "('s, 'j) proxy_store \<Rightarrow> ('j, 'j snapshot_data) codec \<Rightarrow> 'm snapshot_meta \<Rightarrow> bytes \<Rightarrow> ('s, 'j, 'm) raft_sm \<Rightarrow>
   (string + unit) \<times> ('s, 'j, 'm) raft_sm" where
  "install_snapshot P C meta data M =
     (case from_slice C data of
        Err e \<Rightarrow> (Err e, M)
      | Ok snapshot \<Rightarrow>
          (Ok (), (replay_changelogs P (snd_changelogs snapshot) M)
             \<lparr>sm_last_applied := snm_last_log_id meta, sm_last_membership := snm_last_membership meta,
              sm_snapshot_data := snapshot\<rparr>))"

definition get_current_snapshot ::
  "('j, 'j snapshot_data) codec \<Rightarrow> string \<Rightarrow> ('s, 'j, 'm) raft_sm \<Rightarrow> string + 'm snapshot option" where
  "get_current_snapshot C uuid M =
     (if sm_last_applied M = None then Ok None
      else result_bind (to_vec C (sm_snapshot_data M)) (\<lambda>data.
             Ok (Some \<lparr>snp_meta = \<lparr>snm_last_log_id = sm_last_applied M,
                                   snm_last_membership = sm_last_membership M,
                                   snm_snapshot_id = snapshot_id_of (sm_last_applied M) uuid\<rparr>,
                       snp_data = data\<rparr>)))"

definition build_snapshot ::
  "('j, 'j snapshot_data) codec \<Rightarrow> string \<Rightarrow> ('j, 'm) snapshot_builder \<Rightarrow> string + 'm snapshot" where
  "build_snapshot C uuid B =
     result_bind (to_vec C (sb_snapshot_data B)) (\<lambda>data.
       Ok \<lparr>snp_meta = \<lparr>snm_last_log_id = sb_last_applied B, snm_last_membership = sb_last_membership B,
                       snm_snapshot_id = snapshot_id_of (sb_last_applied B) uuid\<rparr>,
           snp_data = data\<rparr>)"

section \<open>Against the specification\<close>

definition success_response :: "string \<Rightarrow> raft_response" where
  "success_response msg = \<lparr>cr_success = True, cr_message = Some msg\<rparr>"

definition respond :: "(string + string) \<times> 's \<Rightarrow> (string + raft_response) \<times> 's" where
  "respond r = (result_bind (fst r) (\<lambda>m. Ok (success_response m)), snd r)"

lemma raft_add_eq: "raft_add c setter (\<lambda>x. success_response (msg x)) item s = respond (change_add c setter msg item s)"
proof (cases "from_value c item")
  case (Inr x)
  then show ?thesis
    by (cases "setter s x"; cases "fst (setter s x)") (auto simp: raft_add_def change_add_def respond_def)
qed (simp add: raft_add_def change_add_def respond_def)

lemma raft_del_eq: "raft_del deleter (success_response msg) s = respond (change_delete deleter msg s)"
  by (cases "deleter s"; cases "fst (deleter s)") (auto simp: raft_del_def change_delete_def respond_def)

lemma raft_messages:
  "raft_created kind name = success_response (created kind name)"
  "raft_deleted kind name = success_response (deleted kind name)"
  by (simp_all add: raft_created_def raft_deleted_def success_response_def)

lemma respond_Err [simp]: "respond (Err e, s) = (Err e, s)"
  by (simp add: respond_def)

lemma raft_store_change_spec: "raft_store_change P s cl = respond (store_change P s cl)"
  by (cases "cl_cmd cl")
    (simp_all add: raft_store_change_def store_change_eq change_effect_def Let_def raft_messages
      raft_add_eq raft_del_eq change_rules effect_result_bind split: sum.split)

lemma raft_apply_changelog_store:
  assumes "sm_store M = Some s"
  shows "raft_apply_changelog P cl M =
     (result_bind (fst (store_change P s cl)) (\<lambda>m. Ok (success_response m)),
      (if is_ok (fst (store_change P s cl))
       then M\<lparr>sm_store := Some (snd (store_change P s cl)),
              sm_change_tx := map_option (\<lambda>tx. channel_send tx cl) (sm_change_tx M),
              sm_snapshot_data := \<lparr>snd_changelogs = snd_changelogs (sm_snapshot_data M) @ [cl]\<rparr>\<rparr>
       else M\<lparr>sm_store := Some (snd (store_change P s cl))\<rparr>))"
  by (cases "store_change P s cl"; cases "fst (store_change P s cl)")
    (auto simp: raft_apply_changelog_def assms raft_store_change_spec respond_def)

section \<open>Entries\<close>

text \<open>The change logs of a list of entries.\<close>

definition entry_changes :: "('j, 'm) log_entry list \<Rightarrow> 'j changelog list" where
  "entry_changes es = List.map_filter (\<lambda>e. case en_payload e of EP_Normal cl \<Rightarrow> Some cl | _ \<Rightarrow> None) es"

lemma entry_changes_Cons: "entry_changes (e # es) = entry_changes [e] @ entry_changes es"
  by (simp add: entry_changes_def List.map_filter_simps split: option.split)

text \<open>
  The answer to an entry: of a change log what the specification of its change says, its message
  or its error; of any other entry the empty response.
\<close>

definition entry_response :: "'j serde \<Rightarrow> ('j, 'm) log_entry \<Rightarrow> raft_response" where
  "entry_response S e =
     (case en_payload e of
        EP_Normal cl \<Rightarrow>
          (case change_effect S cl of
             Ok (_, msg) \<Rightarrow> success_response msg
           | Err err \<Rightarrow> \<lparr>cr_success = False, cr_message = Some err\<rparr>)
      | _ \<Rightarrow> raft_response_default)"

section \<open>On a storage that never fails\<close>

context total_storage
begin

text \<open>The store of a state machine is good and has a given content.\<close>

definition sm_has :: "('s, 'j, 'm) raft_sm \<Rightarrow> kv \<Rightarrow> bool" where
  "sm_has M m \<longleftrightarrow> (\<exists>s. sm_store M = Some s \<and> ok s \<and> content s = m)"

lemma sm_has_apply:
  assumes P: "ps_storage P = ops" and t: "resource_tables \<subseteq> tables" and M: "sm_has M m"
  shows "sm_has (snd (raft_apply_changelog P cl M)) (apply_writes (writes_of (ps_serde P) [cl]) m)"
    and "snd_changelogs (sm_snapshot_data (snd (raft_apply_changelog P cl M))) =
      snd_changelogs (sm_snapshot_data M) @ (if is_ok (change_effect (ps_serde P) cl) then [cl] else [])"
    and "fst (raft_apply_changelog P cl M) =
      result_bind (change_effect (ps_serde P) cl) (\<lambda>(_, msg). Ok (success_response msg))"
proof -
  from M obtain s where s: "sm_store M = Some s" "ok s" "content s = m" by (auto simp: sm_has_def)
  note tot = store_change_total [OF P s(2) t, of cl]
  have ok': "ok (snd (store_change P s cl))" by (rule store_change_content(1) [OF P s(2) t])
  have isok: "is_ok (fst (store_change P s cl)) = is_ok (change_effect (ps_serde P) cl)"
    unfolding tot(1) by (cases "change_effect (ps_serde P) cl") auto
  have "content (snd (store_change P s cl)) = apply_writes (writes_of (ps_serde P) [cl]) m"
    unfolding tot(2) s(3) by (auto split: sum.split)
  then show "sm_has (snd (raft_apply_changelog P cl M)) (apply_writes (writes_of (ps_serde P) [cl]) m)"
    using ok' by (simp add: raft_apply_changelog_store [OF s(1)] sm_has_def)
  show "snd_changelogs (sm_snapshot_data (snd (raft_apply_changelog P cl M))) =
      snd_changelogs (sm_snapshot_data M) @ (if is_ok (change_effect (ps_serde P) cl) then [cl] else [])"
    by (simp add: raft_apply_changelog_store [OF s(1)] isok)
  show "fst (raft_apply_changelog P cl M) =
      result_bind (change_effect (ps_serde P) cl) (\<lambda>(_, msg). Ok (success_response msg))"
    by (cases "change_effect (ps_serde P) cl") (auto simp: raft_apply_changelog_store [OF s(1)] tot(1))
qed

lemma sm_has_replay:
  assumes "ps_storage P = ops" and "resource_tables \<subseteq> tables" and "sm_has M m"
  shows "sm_has (replay_changelogs P cls M) (apply_writes (writes_of (ps_serde P) cls) m)"
  using assms(3)
proof (induction cls arbitrary: M m)
  case (Cons cl cls)
  have eq: "writes_of (ps_serde P) (cl # cls) = writes_of (ps_serde P) [cl] @ writes_of (ps_serde P) cls"
    by simp
  show ?case
    using Cons.IH [OF sm_has_apply(1) [OF assms(1,2) Cons.prems, of cl]]
    unfolding eq apply_writes_append by simp
qed simp

lemma sm_has_apply_entry:
  assumes "ps_storage P = ops" and "resource_tables \<subseteq> tables" and "sm_has M m"
  shows "sm_has (snd (apply_entry P e M)) (apply_writes (writes_of (ps_serde P) (entry_changes [e])) m)"
    and "snd_changelogs (sm_snapshot_data (snd (apply_entry P e M))) =
      snd_changelogs (sm_snapshot_data M) @ filter (\<lambda>cl. is_ok (change_effect (ps_serde P) cl)) (entry_changes [e])"
    and "sm_last_applied (snd (apply_entry P e M)) = Some (en_log_id e)"
    and "fst (apply_entry P e M) = entry_response (ps_serde P) e"
proof -
  let ?M = "M\<lparr>sm_last_applied := Some (en_log_id e)\<rparr>"
  have M: "sm_has ?M m" using assms(3) by (simp add: sm_has_def)
  note step = sm_has_apply [OF assms(1,2) M]
  have snd_normal: "snd (apply_entry P e M) = snd (raft_apply_changelog P cl ?M)"
    if "en_payload e = EP_Normal cl" for cl
    using that by (auto simp: apply_entry_def Let_def split: prod.splits sum.splits)
  show "sm_has (snd (apply_entry P e M)) (apply_writes (writes_of (ps_serde P) (entry_changes [e])) m)"
  proof (cases "en_payload e")
    case (EP_Normal cl)
    with step(1) snd_normal show ?thesis by (simp add: entry_changes_def List.map_filter_simps)
  qed (use M in \<open>simp_all add: apply_entry_def entry_changes_def List.map_filter_simps sm_has_def\<close>)
  show "snd_changelogs (sm_snapshot_data (snd (apply_entry P e M))) =
      snd_changelogs (sm_snapshot_data M) @ filter (\<lambda>cl. is_ok (change_effect (ps_serde P) cl)) (entry_changes [e])"
  proof (cases "en_payload e")
    case (EP_Normal cl)
    with step(2) [of cl] snd_normal show ?thesis by (simp add: entry_changes_def List.map_filter_simps)
  qed (simp_all add: apply_entry_def entry_changes_def List.map_filter_simps)
  show "sm_last_applied (snd (apply_entry P e M)) = Some (en_log_id e)"
  proof (cases "en_payload e")
    case (EP_Normal cl)
    obtain s where "sm_store ?M = Some s" using M by (auto simp: sm_has_def)
    from raft_apply_changelog_store [OF this] show ?thesis
      by (simp add: snd_normal [OF EP_Normal])
  qed (simp_all add: apply_entry_def)
  show "fst (apply_entry P e M) = entry_response (ps_serde P) e"
  proof (cases "en_payload e")
    case (EP_Normal cl)
    with step(3) [of cl] show ?thesis
      by (cases "change_effect (ps_serde P) cl"; cases "raft_apply_changelog P cl ?M")
        (auto simp: apply_entry_def entry_response_def)
  qed (simp_all add: apply_entry_def entry_response_def)
qed

lemma sm_has_raft_apply:
  assumes "ps_storage P = ops" and "resource_tables \<subseteq> tables" and "sm_has M m"
  shows "fst (raft_apply P es M) = map (entry_response (ps_serde P)) es \<and>
    sm_has (snd (raft_apply P es M)) (apply_writes (writes_of (ps_serde P) (entry_changes es)) m) \<and>
    snd_changelogs (sm_snapshot_data (snd (raft_apply P es M))) =
      snd_changelogs (sm_snapshot_data M) @ filter (\<lambda>cl. is_ok (change_effect (ps_serde P) cl)) (entry_changes es) \<and>
    sm_last_applied (snd (raft_apply P es M)) = (if es = [] then sm_last_applied M else Some (en_log_id (last es)))"
  using assms(3)
proof (induction es arbitrary: M m)
  case Nil
  then show ?case by (simp add: entry_changes_def List.map_filter_simps)
next
  case (Cons e es)
  let ?M = "snd (apply_entry P e M)"
  note step = sm_has_apply_entry [OF assms(1,2) Cons.prems, of e]
  note ih = Cons.IH [OF step(1)]
  have "raft_apply P (e # es) M = (fst (apply_entry P e M) # fst (raft_apply P es ?M), snd (raft_apply P es ?M))"
    by (simp add: Let_def case_prod_unfold)
  then show ?case
    unfolding entry_changes_Cons [of e es] writes_of_append apply_writes_append filter_append
    using ih step(2-4) by simp
qed

end

lemma writes_of_filter: "writes_of S (filter (\<lambda>cl. is_ok (change_effect S cl)) cls) = writes_of S cls"
  by (induction cls) (auto split: sum.splits)

lemma entry_changes_append: "entry_changes (as @ bs) = entry_changes as @ entry_changes bs"
  by (induction as) (simp_all add: entry_changes_def List.map_filter_simps split: option.split)

section \<open>Properties on the in-memory storage\<close>

abbreviation sm_mem_has :: "(mem_storage, 'j, 'm) raft_sm \<Rightarrow> kv \<Rightarrow> bool" where
  "sm_mem_has M m \<equiv> \<exists>s. sm_store M = Some s \<and> mem_ok s \<and> mem_content s = m"

text \<open>
  C16. Applying log entries answers each entry once, in order, with what the specification of its
  change says: its message, or its error when it is refused. It leaves the last entry as the
  last applied, records in the snapshot data the change logs that succeeded, and changes the
  store by exactly their writes. So two state machines whose stores have the same content give
  the same answers to the same entries and still have the same content, however each iterates
  its maps.
\<close>

theorem raft_apply_replicas:
  assumes "ps_storage P = mem_ops place" and "ps_storage P' = mem_ops place'" and "ps_serde P' = ps_serde P"
    and "sm_mem_has M m" and "sm_mem_has M' m"
  shows "fst (raft_apply P es M) = map (entry_response (ps_serde P)) es \<and>
         fst (raft_apply P' es M') = fst (raft_apply P es M) \<and>
         snd_changelogs (sm_snapshot_data (snd (raft_apply P es M))) =
           snd_changelogs (sm_snapshot_data M) @
           filter (\<lambda>cl. is_ok (change_effect (ps_serde P) cl)) (entry_changes es) \<and>
         (es \<noteq> [] \<longrightarrow> sm_last_applied (snd (raft_apply P es M)) = Some (en_log_id (last es))) \<and>
         sm_mem_has (snd (raft_apply P es M)) (apply_writes (writes_of (ps_serde P) (entry_changes es)) m) \<and>
         sm_mem_has (snd (raft_apply P' es M')) (apply_writes (writes_of (ps_serde P) (entry_changes es)) m)"
proof -
  have t: "resource_tables \<subseteq> UNIV" by simp
  from mem.sm_has_raft_apply [OF assms(1) t, unfolded mem.sm_has_def, OF assms(4), of es]
    mem.sm_has_raft_apply [OF assms(2) t, unfolded mem.sm_has_def, OF assms(5), of es] assms(3)
  show ?thesis by auto
qed

definition normal_entry :: "u64 \<Rightarrow> string changelog \<Rightarrow> (string, unit) log_entry" where
  "normal_entry i cl = \<lparr>en_log_id = \<lparr>lg_term = 1, lg_node_id = 1, lg_index = i\<rparr>, en_payload = EP_Normal cl\<rparr>"

definition sample_mem_store :: "nat list \<Rightarrow> (mem_storage, string) proxy_store" where
  "sample_mem_store ps = \<lparr>ps_storage = mem_ops (\<lambda>_. ps), ps_serde = sample_serde\<rparr>"

definition add_ns :: "string \<Rightarrow> string changelog" where
  "add_ns n = changelog_new [] (sd_namespace sample_serde) n 0 AddNamespace n n (namespace_new n)"

lemma mem_new_has: "sm_mem_has (raft_sm_new () mem_new) (mem_content mem_new)"
  by (auto simp: raft_sm_new_def mem_ok_new)

theorem raft_apply_replicas_witness:
  "snd_changelogs (sm_snapshot_data (snd (raft_apply (sample_mem_store []) [normal_entry 1 (add_ns ''a''), normal_entry 2 (add_ns ''b'')]
     (raft_sm_new () mem_new)))) = [add_ns ''a'', add_ns ''b''] \<and>
   fst (raft_apply (sample_mem_store [1]) [normal_entry 1 (add_ns ''a''), normal_entry 2 (add_ns ''b'')]
     (raft_sm_new () mem_new)) =
     [success_response (created ''Namespace'' ''a''), success_response (created ''Namespace'' ''b'')] \<and>
   sm_mem_has (snd (raft_apply (sample_mem_store [1]) [normal_entry 1 (add_ns ''a''), normal_entry 2 (add_ns ''b'')]
     (raft_sm_new () mem_new)))
     (apply_writes (writes_of sample_serde [add_ns ''a'', add_ns ''b'']) (mem_content mem_new))"
proof -
  have p: "ps_storage (sample_mem_store ps) = mem_ops (\<lambda>_. ps)" "ps_serde (sample_mem_store ps) = sample_serde" for ps
    by (simp_all add: sample_mem_store_def)
  have sd: "ps_serde (sample_mem_store [1]) = ps_serde (sample_mem_store [])" by (simp add: p)
  note app = raft_apply_replicas [OF p(1) p(1) sd mem_new_has mem_new_has,
      of "[normal_entry 1 (add_ns ''a''), normal_entry 2 (add_ns ''b'')]"]
  have e: "entry_changes [normal_entry 1 (add_ns ''a''), normal_entry 2 (add_ns ''b'')] = [add_ns ''a'', add_ns ''b'']"
    by (simp add: entry_changes_def normal_entry_def List.map_filter_simps)
  have ok: "is_ok (change_effect sample_serde (add_ns ''a''))" "is_ok (change_effect sample_serde (add_ns ''b''))"
    by code_simp+
  have resp: "map (entry_response sample_serde) [normal_entry 1 (add_ns ''a''), normal_entry 2 (add_ns ''b'')] =
      [success_response (created ''Namespace'' ''a''), success_response (created ''Namespace'' ''b'')]"
    by code_simp
  have "sm_snapshot_data (raft_sm_new () mem_new :: (mem_storage, string, unit) raft_sm) = \<lparr>snd_changelogs = []\<rparr>"
    by (simp add: raft_sm_new_def snapshot_data_default_def)
  with app ok show ?thesis unfolding e p resp by (simp del: raft_apply.simps)
qed

text \<open>A snapshot can always be built, and has what the state machine had.\<close>

lemma snapshot_of:
  assumes "codec_ok (\<lambda>_. True) C"
  obtains snap where "build_snapshot C uuid (get_snapshot_builder M) = Ok snap"
    and "sm_last_applied M \<noteq> None \<longrightarrow> get_current_snapshot C uuid M = Ok (Some snap)"
    and "from_slice C (snp_data snap) = Ok (sm_snapshot_data M)"
    and "snm_last_log_id (snp_meta snap) = sm_last_applied M"
    and "snm_last_membership (snp_meta snap) = sm_last_membership M"
proof -
  obtain data where "to_vec C (sm_snapshot_data M) = Ok data" "from_slice C data = Ok (sm_snapshot_data M)"
    by (rule codec_ok_vec [OF assms TrueI])
  then show thesis
    by (intro that) (auto simp: build_snapshot_def get_snapshot_builder_def get_current_snapshot_def)
qed

text \<open>
  C15. A snapshot built from a state machine, which is also the one it reports as its current
  snapshot once it has applied an entry, brings another state machine that has applied a shorter
  part of the same log to the same store content, the same last applied id, the same membership
  and the same snapshot data: replaying the whole history over a prefix of it gives the whole
  history.
\<close>

theorem raft_snapshot_transfer:
  assumes "ps_storage P = mem_ops place" and "codec_ok (\<lambda>_. True) C"
    and "sm_mem_has M0 m" and "snd_changelogs (sm_snapshot_data M0) = []"
    and "sm_mem_has F0 m"
    and "L = snd (raft_apply P (es @ es') M0)" and "F = snd (raft_apply P es F0)"
  shows "\<exists>snap F' content. build_snapshot C uuid (get_snapshot_builder L) = Ok snap \<and>
         (sm_last_applied L \<noteq> None \<longrightarrow> get_current_snapshot C uuid L = Ok (Some snap)) \<and>
         install_snapshot P C (snp_meta snap) (snp_data snap) F = (Ok (), F') \<and>
         sm_mem_has L content \<and> sm_mem_has F' content \<and>
         applied_state F' = applied_state L \<and> sm_snapshot_data F' = sm_snapshot_data L"
proof -
  have t: "resource_tables \<subseteq> UNIV" by simp
  let ?S = "ps_serde P"
  let ?all = "entry_changes (es @ es')"
  note L = mem.sm_has_raft_apply [OF assms(1) t, unfolded mem.sm_has_def, OF assms(3), of "es @ es'", folded assms(6)]
  note F = mem.sm_has_raft_apply [OF assms(1) t, unfolded mem.sm_has_def, OF assms(5), of es, folded assms(7)]
  have cls: "snd_changelogs (sm_snapshot_data L) = filter (\<lambda>cl. is_ok (change_effect ?S cl)) ?all"
    using L assms(4) by simp
  obtain snap where snap: "build_snapshot C uuid (get_snapshot_builder L) = Ok snap"
    "sm_last_applied L \<noteq> None \<longrightarrow> get_current_snapshot C uuid L = Ok (Some snap)"
    "from_slice C (snp_data snap) = Ok (sm_snapshot_data L)"
    "snm_last_log_id (snp_meta snap) = sm_last_applied L"
    "snm_last_membership (snp_meta snap) = sm_last_membership L"
    by (rule snapshot_of [OF assms(2)])
  have "sm_mem_has (replay_changelogs P (snd_changelogs (sm_snapshot_data L)) F)
      (apply_writes (writes_of ?S (snd_changelogs (sm_snapshot_data L)))
        (apply_writes (writes_of ?S (entry_changes es)) m))"
    by (rule mem.sm_has_replay [OF assms(1) t, unfolded mem.sm_has_def]) (use F in blast)
  moreover have "apply_writes (writes_of ?S (snd_changelogs (sm_snapshot_data L)))
        (apply_writes (writes_of ?S (entry_changes es)) m) = apply_writes (writes_of ?S ?all) m"
    unfolding cls writes_of_filter
    by (rule apply_writes_absorb) (simp add: entry_changes_append writes_of_append write_slots_append)
  ultimately have "sm_mem_has (replay_changelogs P (snd_changelogs (sm_snapshot_data L)) F)
      (apply_writes (writes_of ?S ?all) m)" by simp
  moreover have "sm_mem_has L (apply_writes (writes_of ?S ?all) m)" using L by blast
  moreover have "install_snapshot P C (snp_meta snap) (snp_data snap) F =
      (Ok (), (replay_changelogs P (snd_changelogs (sm_snapshot_data L)) F)
         \<lparr>sm_last_applied := sm_last_applied L, sm_last_membership := sm_last_membership L,
          sm_snapshot_data := sm_snapshot_data L\<rparr>)"
    by (simp add: install_snapshot_def snap(3-5))
  ultimately show ?thesis
    using snap(1,2)
    by (intro exI [of _ snap]
        exI [of _ "(replay_changelogs P (snd_changelogs (sm_snapshot_data L)) F)
          \<lparr>sm_last_applied := sm_last_applied L, sm_last_membership := sm_last_membership L,
           sm_snapshot_data := sm_snapshot_data L\<rparr>"]
        exI [of _ "apply_writes (writes_of ?S ?all) m"])
      (simp add: applied_state_def)
qed

definition snapshot_codec :: "(string, string snapshot_data) codec" where
  "snapshot_codec =
     coder_codec (\<lambda>_. True) (iso_coder snd_changelogs (\<lambda>cls. \<lparr>snd_changelogs = cls\<rparr>) (list_coder changelog_coder))"

lemma snapshot_codec_ok: "codec_ok (\<lambda>_. True) snapshot_codec"
  unfolding snapshot_codec_def
  by (rule coder_codec_ok, rule lawful_iso) (simp_all add: lawful_coders)

theorem raft_snapshot_transfer_witness:
  "\<exists>snap. build_snapshot snapshot_codec ''id'' (get_snapshot_builder
       (snd (raft_apply (sample_mem_store []) ([normal_entry 1 (add_ns ''a'')] @ [normal_entry 2 (add_ns ''b'')])
          (raft_sm_new () mem_new)))) = Ok snap \<and>
     sm_last_applied (snd (install_snapshot (sample_mem_store []) snapshot_codec (snp_meta snap) (snp_data snap)
       (snd (raft_apply (sample_mem_store []) [normal_entry 1 (add_ns ''a'')] (raft_sm_new () mem_new))))) =
     Some \<lparr>lg_term = 1, lg_node_id = 1, lg_index = 2\<rparr>"
proof -
  let ?P = "sample_mem_store []"
  let ?es = "[normal_entry 1 (add_ns ''a'')]" and ?es' = "[normal_entry 2 (add_ns ''b'')]"
  let ?L = "snd (raft_apply ?P (?es @ ?es') (raft_sm_new () mem_new))"
  have p: "ps_storage ?P = mem_ops (\<lambda>_. [])" by (simp add: sample_mem_store_def)
  have e: "snd_changelogs (sm_snapshot_data (raft_sm_new () mem_new :: (mem_storage, string, unit) raft_sm)) = []"
    by (simp add: raft_sm_new_def snapshot_data_default_def)
  have last: "sm_last_applied ?L = Some \<lparr>lg_term = 1, lg_node_id = 1, lg_index = 2\<rparr>" by code_simp
  from raft_snapshot_transfer [OF p snapshot_codec_ok mem_new_has e mem_new_has refl refl, of "''id''" ?es ?es'] last
  show ?thesis by (auto simp: applied_state_def)
qed

text \<open>
  Installing a snapshot does not clear the store first, as its comment says it does:
  every key that the change logs of the snapshot do not write keeps its value.
\<close>

lemma install_snapshot_keeps_other_keys:
  assumes "ps_storage P = mem_ops place" and "sm_mem_has M m" and "from_slice C data = Ok snap"
    and "(t, k) \<notin> write_slots (writes_of (ps_serde P) (snd_changelogs snap))"
  shows "\<exists>s. sm_store (snd (install_snapshot P C meta data M)) = Some s \<and> mem_content s t k = m t k"
proof -
  have tb: "resource_tables \<subseteq> UNIV" by simp
  from mem.sm_has_replay [OF assms(1) tb, unfolded mem.sm_has_def, OF assms(2), of "snd_changelogs snap"]
  obtain s where "sm_store (replay_changelogs P (snd_changelogs snap) M) = Some s"
    "mem_content s = apply_writes (writes_of (ps_serde P) (snd_changelogs snap)) m" by blast
  with apply_writes_other [OF assms(4)] show ?thesis by (auto simp: install_snapshot_def assms(3))
qed

definition stale_sm :: "(mem_storage, string, unit) raft_sm" where
  "stale_sm = snd (raft_apply_changelog (sample_mem_store []) (add_ns ''a'') (raft_sm_new () mem_new))"

definition stale_snapshot :: bytes where
  "stale_snapshot = (case to_vec snapshot_codec \<lparr>snd_changelogs = [add_ns ''b'']\<rparr> of Ok b \<Rightarrow> b | Err _ \<Rightarrow> [])"

end
