(* ===== verification/Raft.thy ===== *)
theory Raft
  imports Raft_SM Discovery
begin

text \<open>
  The Raft wrapper, \<open>src/cluster/raft/mod.rs\<close>, and its HTTP client, \<open>raft/network.rs\<close>. The Raft
  engine is openraft: the operations the wrapper calls on it are the record \<open>openraft\<close>, over
  an engine state \<open>'r\<close>. The HTTP client and the JSON of the RPC bodies are arguments.
\<close>

section \<open>The engine\<close>

datatype server_state = SS_Leader | SS_Follower | SS_Candidate | SS_Learner | SS_Shutdown

record raft_metrics =
  rm_current_leader :: "node_id option"
  rm_state :: server_state
  rm_vote_term :: u64
  rm_last_applied :: "log_id option"

datatype change_members =
    AddNodes "(node_id \<times> string) list"
  | AddVoterIds "node_id list"
  | RemoveNodes "node_id list"

record ('r, 'j) openraft =
  or_initialize :: "'r \<Rightarrow> (node_id, string) btree_map \<Rightarrow> (string + unit) \<times> 'r"
  or_change_membership :: "'r \<Rightarrow> change_members \<Rightarrow> bool \<Rightarrow> (string + unit) \<times> 'r"
  or_client_write :: "'r \<Rightarrow> 'j changelog \<Rightarrow> (string + raft_response) \<times> 'r"
  or_metrics :: "'r \<Rightarrow> raft_metrics"
  or_shutdown :: "'r \<Rightarrow> (string + unit) \<times> 'r"

text \<open>What \<open>new\<close> asks of the engine: the configuration and the parts it hands over.\<close>

record raft_settings =
  rs_cluster_name :: string
  rs_heartbeat_interval :: u64
  rs_election_timeout_min :: u64
  rs_election_timeout_max :: u64
  rs_snapshot_logs_since_last :: u64
  rs_max_in_snapshot_log_to_keep :: u64

definition raft_settings_used :: raft_settings where
  "raft_settings_used =
     \<lparr>rs_cluster_name = ''dgate-cluster'', rs_heartbeat_interval = 200, rs_election_timeout_min = 500,
      rs_election_timeout_max = 1000, rs_snapshot_logs_since_last = 1000,
      rs_max_in_snapshot_log_to_keep = 100\<rparr>"

definition to_consensus_response :: "raft_response \<Rightarrow> consensus_response" where
  "to_consensus_response r = \<lparr>cr_success = cr_success r, cr_message = cr_message r\<rparr>"

section \<open>The wrapper\<close>

record 'r raft_node =
  rf_config :: cluster_config
  rf_raft :: 'r
  rf_discovery :: "node_discovery option"
  rf_cached_members :: "cluster_member list"
  rf_discovery_running :: bool

definition raft_new ::
  "(raft_settings \<Rightarrow> string + unit) \<Rightarrow>
   (node_id \<Rightarrow> ('v, 'j, 'm) raft_log \<Rightarrow> ('s, 'j, 'm) raft_sm \<Rightarrow> string + 'r) \<Rightarrow>
   'm \<Rightarrow> cluster_config \<Rightarrow> 's \<Rightarrow> 'j changelog channel \<Rightarrow> string + 'r raft_node" where
  "raft_new validate start m0 cluster_config store change_tx =
     result_bind (validate raft_settings_used) (\<lambda>_.
     result_bind (start (cc_node_id cluster_config) raft_log_new (with_change_notifier m0 store change_tx)) (\<lambda>raft.
       Ok \<lparr>rf_config = cluster_config, rf_raft = raft,
           rf_discovery = map_option discovery_new (cc_discovery cluster_config),
           rf_cached_members = cc_initial_members cluster_config, rf_discovery_running = False\<rparr>))"

fun str_contains :: "string \<Rightarrow> string \<Rightarrow> bool" where
  "str_contains [] p = starts_with [] p"
| "str_contains (c # s) p = (starts_with (c # s) p \<or> str_contains s p)"

text \<open>An engine that was initialized before counts as bootstrapped.\<close>

definition initialize_members ::
  "('r, 'j) openraft \<Rightarrow> (node_id, string) btree_map \<Rightarrow> 'r raft_node \<Rightarrow> (string + unit) \<times> 'r raft_node" where
  "initialize_members R members N =
     (case or_initialize R (rf_raft N) members of
        (Ok _, raft) \<Rightarrow> (Ok (), N\<lparr>rf_raft := raft\<rparr>)
      | (Err e, raft) \<Rightarrow>
          if str_contains e ''already initialized'' then (Ok (), N\<lparr>rf_raft := raft\<rparr>)
          else (Err e, N\<lparr>rf_raft := raft\<rparr>))"

definition bootstrap_single_node :: "('r, 'j) openraft \<Rightarrow> 'r raft_node \<Rightarrow> (string + unit) \<times> 'r raft_node" where
  "bootstrap_single_node R N =
     initialize_members R [(cc_node_id (rf_config N), cc_advertise_addr (rf_config N))] N"

definition bootstrap_members :: "cluster_config \<Rightarrow> (node_id, string) btree_map" where
  "bootstrap_members config =
     fold (\<lambda>m members. if cmb_id m \<noteq> cc_node_id config then btree_insert (cmb_id m) (cmb_addr m) members else members)
       (cc_initial_members config)
       [(cc_node_id config, cc_advertise_addr config)]"

definition bootstrap_cluster :: "('r, 'j) openraft \<Rightarrow> 'r raft_node \<Rightarrow> (string + unit) \<times> 'r raft_node" where
  "bootstrap_cluster R N = initialize_members R (bootstrap_members (rf_config N)) N"

definition join_cluster :: "'r raft_node \<Rightarrow> (string + unit) \<times> 'r raft_node" where
  "join_cluster N = (Ok (), N)"

text \<open>One round of \<open>run_discovery_loop\<close> over the nodes found.\<close>

fun raft_discovery_round ::
  "('r, 'j) openraft \<Rightarrow> node_id \<Rightarrow> (node_id \<times> string) list \<Rightarrow> 'r \<Rightarrow> 'r" where
  "raft_discovery_round R my_node_id [] raft = raft"
| "raft_discovery_round R my_node_id ((node_id, addr) # nodes) raft =
     raft_discovery_round R my_node_id nodes
       (if rm_current_leader (or_metrics R raft) = Some my_node_id then
          (case or_change_membership R raft (AddNodes [(node_id, addr)]) False of
             (Ok _, raft) \<Rightarrow> snd (or_change_membership R raft (AddVoterIds [node_id]) False)
           | (Err _, raft) \<Rightarrow> raft)
        else raft)"

definition raft_initialize :: "('r, 'j) openraft \<Rightarrow> 'r raft_node \<Rightarrow> (string + unit) \<times> 'r raft_node" where
  "raft_initialize R N =
     and_then
       (if cc_bootstrap (rf_config N) then bootstrap_cluster R N
        else if cc_initial_members (rf_config N) \<noteq> [] then join_cluster N
        else bootstrap_single_node R N)
       (\<lambda>_ N. (Ok (), N\<lparr>rf_discovery_running := (rf_discovery N \<noteq> None)\<rparr>))"

definition raft_can_write :: "('r, 'j) openraft \<Rightarrow> 'r raft_node \<Rightarrow> bool" where
  "raft_can_write R N = (rm_current_leader (or_metrics R (rf_raft N)) = Some (cc_node_id (rf_config N)))"

definition raft_leader_id :: "('r, 'j) openraft \<Rightarrow> 'r raft_node \<Rightarrow> node_id option" where
  "raft_leader_id R N = rm_current_leader (or_metrics R (rf_raft N))"

definition raft_propose ::
  "('r, 'j) openraft \<Rightarrow> 'j changelog \<Rightarrow> 'r raft_node \<Rightarrow> (string + consensus_response) \<times> 'r raft_node" where
  "raft_propose R changelog N =
     (case or_client_write R (rf_raft N) changelog of
        (Ok data, raft) \<Rightarrow> (Ok (to_consensus_response data), N\<lparr>rf_raft := raft\<rparr>)
      | (Err e, raft) \<Rightarrow> (Err (''Raft write failed: '' @ e), N\<lparr>rf_raft := raft\<rparr>))"

fun raft_node_state :: "server_state \<Rightarrow> node_state" where
  "raft_node_state SS_Leader = NS_Leader"
| "raft_node_state SS_Follower = NS_Follower"
| "raft_node_state SS_Candidate = NS_Candidate"
| "raft_node_state SS_Learner = NS_Learner"
| "raft_node_state SS_Shutdown = NS_Shutdown"

definition raft_consensus_metrics :: "('r, 'j) openraft \<Rightarrow> 'r raft_node \<Rightarrow> consensus_metrics" where
  "raft_consensus_metrics R N =
     (let metrics = or_metrics R (rf_raft N)
      in \<lparr>cm_id = cc_node_id (rf_config N), cm_mode = cc_mode (rf_config N),
          cm_can_write = (rm_current_leader metrics = Some (cc_node_id (rf_config N))),
          cm_leader_id = rm_current_leader metrics, cm_state = raft_node_state (rm_state metrics),
          cm_current_term = Some (rm_vote_term metrics),
          cm_last_applied = map_option lg_index (rm_last_applied metrics),
          cm_committed = map_option lg_index (rm_last_applied metrics),
          cm_members = rf_cached_members N, cm_extra = None\<rparr>)"

definition raft_add_node ::
  "('r, 'j) openraft \<Rightarrow> node_id \<Rightarrow> string \<Rightarrow> 'r raft_node \<Rightarrow> (string + unit) \<times> 'r raft_node" where
  "raft_add_node R node_id addr N =
     (case or_change_membership R (rf_raft N) (AddNodes [(node_id, addr)]) False of
        (Err e, raft) \<Rightarrow> (Err (''Failed to add node as learner: '' @ e), N\<lparr>rf_raft := raft\<rparr>)
      | (Ok _, raft) \<Rightarrow>
     (case or_change_membership R raft (AddVoterIds [node_id]) False of
        (Err e, raft) \<Rightarrow> (Err (''Failed to promote node to voter: '' @ e), N\<lparr>rf_raft := raft\<rparr>)
      | (Ok _, raft) \<Rightarrow>
          (Ok (), N\<lparr>rf_raft := raft, rf_cached_members := members_push node_id addr (rf_cached_members N)\<rparr>)))"

definition raft_remove_node ::
  "('r, 'j) openraft \<Rightarrow> node_id \<Rightarrow> 'r raft_node \<Rightarrow> (string + unit) \<times> 'r raft_node" where
  "raft_remove_node R node_id N =
     (case or_change_membership R (rf_raft N) (RemoveNodes [node_id]) False of
        (Err e, raft) \<Rightarrow> (Err (''Failed to remove node: '' @ e), N\<lparr>rf_raft := raft\<rparr>)
      | (Ok _, raft) \<Rightarrow>
          (Ok (), N\<lparr>rf_raft := raft, rf_cached_members := members_remove node_id (rf_cached_members N)\<rparr>))"

definition raft_members :: "'r raft_node \<Rightarrow> cluster_member list" where
  "raft_members N = rf_cached_members N"

definition raft_shutdown :: "('r, 'j) openraft \<Rightarrow> 'r raft_node \<Rightarrow> (string + unit) \<times> 'r raft_node" where
  "raft_shutdown R N =
     (case or_shutdown R (rf_raft N) of
        (Ok _, raft) \<Rightarrow> (Ok (), N\<lparr>rf_raft := raft\<rparr>)
      | (Err e, raft) \<Rightarrow> (Err (''Shutdown failed: '' @ e), N\<lparr>rf_raft := raft\<rparr>))"

section \<open>The HTTP client\<close>

record http_response =
  hr_status :: u16
  hr_text :: "string + string"

definition is_success :: "u16 \<Rightarrow> bool" where
  "is_success status = (200 \<le> status \<and> status < 300)"

record raft_network =
  rn_target :: node_id
  rn_addr :: string

definition new_client :: "node_id \<Rightarrow> string \<Rightarrow> raft_network" where
  "new_client target addr = \<lparr>rn_target = target, rn_addr = addr\<rparr>"

definition endpoint :: "raft_network \<Rightarrow> string \<Rightarrow> string" where
  "endpoint n path = ''http://'' @ rn_addr n @ ''/raft'' @ path"

text \<open>
  \<open>post\<close> sends a JSON body to a URL, \<open>decode\<close> reads a JSON answer, \<open>show_status\<close> renders a
  status. Every failure is a network error, here its text.
\<close>

definition append_entries ::
  "(string \<Rightarrow> 'req \<Rightarrow> string + http_response) \<Rightarrow> (string \<Rightarrow> string + 'resp) \<Rightarrow> (u16 \<Rightarrow> string) \<Rightarrow>
   raft_network \<Rightarrow> 'req \<Rightarrow> string + 'resp" where
  "append_entries post decode show_status n req =
     result_bind (post (endpoint n ''/append'') req) (\<lambda>resp.
       if \<not> is_success (hr_status resp) then
         Err (''HTTP '' @ show_status (hr_status resp) @ '': '' @
              (case hr_text resp of Ok body \<Rightarrow> body | Err _ \<Rightarrow> []))
       else result_bind (hr_text resp) decode)"

definition send_install_snapshot ::
  "(string \<Rightarrow> 'req \<Rightarrow> string + http_response) \<Rightarrow> (string \<Rightarrow> string + 'resp) \<Rightarrow> (u16 \<Rightarrow> string) \<Rightarrow>
   raft_network \<Rightarrow> 'req \<Rightarrow> string + 'resp" where
  "send_install_snapshot post decode show_status n req =
     result_bind (post (endpoint n ''/snapshot'') req) (\<lambda>resp.
       if \<not> is_success (hr_status resp) then
         Err (''HTTP '' @ show_status (hr_status resp) @ '': '' @
              (case hr_text resp of Ok body \<Rightarrow> body | Err _ \<Rightarrow> []))
       else result_bind (hr_text resp) decode)"

definition send_vote ::
  "(string \<Rightarrow> 'req \<Rightarrow> string + http_response) \<Rightarrow> (string \<Rightarrow> string + 'resp) \<Rightarrow> (u16 \<Rightarrow> string) \<Rightarrow>
   raft_network \<Rightarrow> 'req \<Rightarrow> string + 'resp" where
  "send_vote post decode show_status n req =
     result_bind (post (endpoint n ''/vote'') req) (\<lambda>resp.
       if \<not> is_success (hr_status resp) then
         Err (''HTTP '' @ show_status (hr_status resp) @ '': '' @
              (case hr_text resp of Ok body \<Rightarrow> body | Err _ \<Rightarrow> []))
       else result_bind (hr_text resp) decode)"

section \<open>Facts\<close>

text \<open>A Raft node keeps the membership contract for every engine.\<close>

interpretation raft: member_registry raft_members "raft_add_node R" "raft_remove_node R" for R
proof
  show "raft_members (snd (raft_add_node R i addr N)) = members_push i addr (raft_members N)"
    if "is_ok (fst (raft_add_node R i addr N))" for i addr N
    using that by (auto simp: raft_add_node_def raft_members_def split: prod.splits sum.splits)
  show "raft_members (snd (raft_add_node R i addr N)) = raft_members N"
    if "\<not> is_ok (fst (raft_add_node R i addr N))" for i addr N
    using that by (auto simp: raft_add_node_def raft_members_def split: prod.splits sum.splits)
  show "raft_members (snd (raft_remove_node R i N)) = members_remove i (raft_members N)"
    if "is_ok (fst (raft_remove_node R i N))" for i N
    using that by (auto simp: raft_remove_node_def raft_members_def split: prod.splits sum.splits)
  show "raft_members (snd (raft_remove_node R i N)) = raft_members N"
    if "\<not> is_ok (fst (raft_remove_node R i N))" for i N
    using that by (auto simp: raft_remove_node_def raft_members_def split: prod.splits sum.splits)
qed

lemma fold_bootstrap:
  assumes "btree_ok members"
  shows "btree_ok (fold (\<lambda>m ms. if cmb_id m \<noteq> me then btree_insert (cmb_id m) (cmb_addr m) ms else ms) cs members)"
    and "map_of (fold (\<lambda>m ms. if cmb_id m \<noteq> me then btree_insert (cmb_id m) (cmb_addr m) ms else ms) cs members) i =
      (if i = me then map_of members i
       else case map_of (rev (map (\<lambda>m. (cmb_id m, cmb_addr m)) cs)) i of Some a \<Rightarrow> Some a | None \<Rightarrow> map_of members i)"
proof -
  have "btree_ok (fold (\<lambda>m ms. if cmb_id m \<noteq> me then btree_insert (cmb_id m) (cmb_addr m) ms else ms) cs members) \<and>
    map_of (fold (\<lambda>m ms. if cmb_id m \<noteq> me then btree_insert (cmb_id m) (cmb_addr m) ms else ms) cs members) i =
      (if i = me then map_of members i
       else case map_of (rev (map (\<lambda>m. (cmb_id m, cmb_addr m)) cs)) i of Some a \<Rightarrow> Some a | None \<Rightarrow> map_of members i)"
    using assms
  proof (induction cs arbitrary: members)
    case (Cons c cs)
    show ?case
    proof (cases "cmb_id c = me")
      case True
      with Cons show ?thesis by (auto simp: map_add_def split: option.splits)
    next
      case False
      have "btree_ok (btree_insert (cmb_id c) (cmb_addr c) members)" using Cons.prems by simp
      from Cons.IH [OF this] False Cons.prems show ?thesis
        by (auto simp: map_add_def map_of_btree_insert split: option.splits)
    qed
  qed simp
  then show "btree_ok (fold (\<lambda>m ms. if cmb_id m \<noteq> me then btree_insert (cmb_id m) (cmb_addr m) ms else ms) cs members)"
    and "map_of (fold (\<lambda>m ms. if cmb_id m \<noteq> me then btree_insert (cmb_id m) (cmb_addr m) ms else ms) cs members) i =
      (if i = me then map_of members i
       else case map_of (rev (map (\<lambda>m. (cmb_id m, cmb_addr m)) cs)) i of Some a \<Rightarrow> Some a | None \<Rightarrow> map_of members i)"
    by blast+
qed

section \<open>Properties\<close>

text \<open>
  A bootstrapping node initializes the engine with every initial member once, itself
  included even if it is not listed, and always under the address it advertises; another
  member has the address of its last entry. That the engine is initialized already is not an
  error, any other failure is.
\<close>

lemma raft_bootstrap:
  "btree_ok (bootstrap_members config) \<and>
   map_of (bootstrap_members config) (cc_node_id config) = Some (cc_advertise_addr config) \<and>
   (\<forall>i. i \<noteq> cc_node_id config \<longrightarrow>
      map_of (bootstrap_members config) i =
        map_of (rev (map (\<lambda>m. (cmb_id m, cmb_addr m)) (cc_initial_members config))) i) \<and>
   (\<forall>(R :: ('r, 'j) openraft) N. rf_config N = config \<longrightarrow>
      fst (bootstrap_cluster R N) =
        (case fst (or_initialize R (rf_raft N) (bootstrap_members config)) of
           Ok _ \<Rightarrow> Ok ()
         | Err e \<Rightarrow> if \<exists>a b. e = a @ ''already initialized'' @ b then Ok () else Err e))"
proof -
  have "btree_ok [(cc_node_id config, cc_advertise_addr config)]" by (simp add: btree_ok_def)
  note boot = fold_bootstrap [OF this, of "cc_node_id config" "cc_initial_members config", folded bootstrap_members_def]
  have contains: "str_contains e p \<longleftrightarrow> (\<exists>a b. e = a @ p @ b)" for e p
  proof (induction e p rule: str_contains.induct)
    case (2 c s p)
    have "(\<exists>a b. c # s = a @ p @ b) \<longleftrightarrow> (\<exists>b. c # s = p @ b) \<or> (\<exists>a b. s = a @ p @ b)"
    proof
      assume "\<exists>a b. c # s = a @ p @ b"
      then obtain a b where ab: "c # s = a @ p @ b" by blast
      then show "(\<exists>b. c # s = p @ b) \<or> (\<exists>a b. s = a @ p @ b)" by (cases a) auto
    next
      assume "(\<exists>b. c # s = p @ b) \<or> (\<exists>a b. s = a @ p @ b)"
      then show "\<exists>a b. c # s = a @ p @ b" by (metis append_Cons append_Nil)
    qed
    with 2 show ?case by (simp add: starts_with_iff)
  qed (simp add: starts_with_iff)
  show ?thesis
  proof (intro conjI allI impI)
    show "btree_ok (bootstrap_members config)" by (rule boot(1))
    show "map_of (bootstrap_members config) (cc_node_id config) = Some (cc_advertise_addr config)"
      unfolding boot(2) by simp
    show "map_of (bootstrap_members config) i =
        map_of (rev (map (\<lambda>m. (cmb_id m, cmb_addr m)) (cc_initial_members config))) i"
      if "i \<noteq> cc_node_id config" for i
      unfolding boot(2) using that by (simp split: option.split)
  next
    fix R :: "('r, 'j) openraft" and N :: "'r raft_node"
    assume "rf_config N = config"
    then show "fst (bootstrap_cluster R N) =
      (case fst (or_initialize R (rf_raft N) (bootstrap_members config)) of
         Ok _ \<Rightarrow> Ok ()
       | Err e \<Rightarrow> if \<exists>a b. e = a @ ''already initialized'' @ b then Ok () else Err e)"
      unfolding contains [symmetric]
      by (auto simp: bootstrap_cluster_def initialize_members_def split: prod.splits sum.splits)
  qed
qed

definition boot_config :: cluster_config where
  "boot_config = cluster_config_default\<lparr>cc_initial_members := [member_new 1 ''old:1'', member_new 2 ''b:1'']\<rparr>"

text \<open>
  Adding a node succeeds only when the engine accepts it first as a learner and then as a
  voter, and then it is cached as a member, once; when the engine refuses, the error says at
  which of the two steps and the cached members stay, although after a failed promotion the
  engine keeps the learner.
\<close>

lemma raft_add_node_outcome:
  "(case or_change_membership R (rf_raft N) (AddNodes [(i, addr)]) False of
      (Err e, r1) \<Rightarrow>
        raft_add_node R i addr N = (Err (''Failed to add node as learner: '' @ e), N\<lparr>rf_raft := r1\<rparr>)
    | (Ok _, r1) \<Rightarrow>
        (case or_change_membership R r1 (AddVoterIds [i]) False of
           (Err e, r2) \<Rightarrow>
             raft_add_node R i addr N = (Err (''Failed to promote node to voter: '' @ e), N\<lparr>rf_raft := r2\<rparr>)
         | (Ok _, r2) \<Rightarrow>
             fst (raft_add_node R i addr N) = Ok () \<and> rf_raft (snd (raft_add_node R i addr N)) = r2)) \<and>
   cmb_id ` set (raft_members (snd (raft_add_node R i addr N))) =
     (if is_ok (fst (raft_add_node R i addr N)) then insert i (cmb_id ` set (raft_members N))
      else cmb_id ` set (raft_members N))"
  using raft.add_ids [of R i addr N]
  by (auto simp: raft.member_ids_def raft_add_node_def split: prod.splits sum.splits)

end
