(* ===== verification/Cluster.thy ===== *)
theory Cluster
  imports Tempo_Node Raft
begin

text \<open>
  The cluster manager, \<open>src/cluster/mod.rs\<close>: one consensus implementation chosen by the mode,
  and the operations that go to it. A manager is the implementation it holds; the optional
  direct handles of the struct are read off it. \<open>propose\<close> on a Tempo node waits for messages,
  so it takes the messages that arrive before and after its quorum check.
\<close>

datatype ('s, 'j, 'r) cluster_manager =
    Manage_Tempo "('s, 'j) tempo_node"
  | Manage_Raft "'r raft_node"

definition cluster_new ::
  "u64 \<Rightarrow> (raft_settings \<Rightarrow> string + unit) \<Rightarrow>
   (node_id \<Rightarrow> ('v, 'j, 'm) raft_log \<Rightarrow> ('s, 'j, 'm) raft_sm \<Rightarrow> string + 'r) \<Rightarrow> 'm \<Rightarrow>
   cluster_config \<Rightarrow> 's \<Rightarrow> 'j changelog channel \<Rightarrow> string + ('s, 'j, 'r) cluster_manager" where
  "cluster_new now validate start m0 config store change_tx =
     (case cc_mode config of
        CM_Simple \<Rightarrow> Ok (Manage_Tempo (tempo_new now config store change_tx))
      | CM_Raft \<Rightarrow>
          result_bind (raft_new validate start m0 config store change_tx) (\<lambda>raft. Ok (Manage_Raft raft))
      | CM_Tempo \<Rightarrow> Ok (Manage_Tempo (tempo_new now config store change_tx)))"

definition cluster_initialize ::
  "('r, 'j) openraft \<Rightarrow> ('s, 'j, 'r) cluster_manager \<Rightarrow>
   ((string + unit) \<times> 'j post list) \<times> ('s, 'j, 'r) cluster_manager" where
  "cluster_initialize R M =
     (case M of
        Manage_Tempo N \<Rightarrow> ((Ok (), tempo_initialize N), M)
      | Manage_Raft N \<Rightarrow> (let (r, N) = raft_initialize R N in ((r, []), Manage_Raft N)))"

definition cluster_get_mode :: "('s, 'j, 'r) cluster_manager \<Rightarrow> cluster_mode" where
  "cluster_get_mode M =
     (case M of Manage_Tempo N \<Rightarrow> cc_mode (tn_config N) | Manage_Raft N \<Rightarrow> cc_mode (rf_config N))"

definition cluster_is_leader :: "('r, 'j) openraft \<Rightarrow> ('s, 'j, 'r) cluster_manager \<Rightarrow> bool" where
  "cluster_is_leader R M =
     (case M of Manage_Tempo N \<Rightarrow> tempo_can_write N | Manage_Raft N \<Rightarrow> raft_can_write R N)"

definition cluster_leader_id :: "('r, 'j) openraft \<Rightarrow> ('s, 'j, 'r) cluster_manager \<Rightarrow> node_id option" where
  "cluster_leader_id R M =
     (case M of Manage_Tempo N \<Rightarrow> tempo_leader_id N | Manage_Raft N \<Rightarrow> raft_leader_id R N)"

definition cluster_raft :: "('s, 'j, 'r) cluster_manager \<Rightarrow> 'r option" where
  "cluster_raft M = (case M of Manage_Raft N \<Rightarrow> Some (rf_raft N) | Manage_Tempo N \<Rightarrow> None)"

definition cluster_tempo :: "('s, 'j, 'r) cluster_manager \<Rightarrow> ('s, 'j) tempo_node option" where
  "cluster_tempo M = (case M of Manage_Raft N \<Rightarrow> None | Manage_Tempo N \<Rightarrow> Some N)"

text \<open>The messages handled while a proposal waits, each with its clock readings and sender.\<close>

type_synonym 'j arrivals = "((u64 \<times> u64) \<times> node_id \<times> 'j tempo_message) list"

fun handle_arrivals ::
  "('s, 'j) proxy_store \<Rightarrow> 'j arrivals \<Rightarrow> ('s, 'j) tempo_node \<Rightarrow> ('s, 'j) tempo_node \<times> 'j post list" where
  "handle_arrivals P [] N = (N, [])"
| "handle_arrivals P ((now, from_id, msg) # rest) N =
     (let (N, posts) = handle_message P now from_id msg N; (N, posts') = handle_arrivals P rest N
      in (N, posts @ posts'))"

definition tempo_propose ::
  "('s, 'j) proxy_store \<Rightarrow> u64 \<Rightarrow> 'j arrivals \<Rightarrow> 'j arrivals \<Rightarrow> 'j changelog \<Rightarrow> ('s, 'j) tempo_node \<Rightarrow>
   (string + consensus_response) option \<times> ('s, 'j) tempo_node \<times> 'j post list" where
  "tempo_propose P now before_check after_check changelog N =
     (let (d, N, posts1) = propose_begin now changelog N;
          (N, posts2) = handle_arrivals P before_check N;
          (N, posts3) = propose_check P d N;
          (N, posts4) = handle_arrivals P after_check N;
          (r, N) = propose_wait True d N
      in (r, N, posts1 @ posts2 @ posts3 @ posts4))"

definition cluster_propose ::
  "('r, 'j) openraft \<Rightarrow> ('s, 'j) proxy_store \<Rightarrow> u64 \<Rightarrow> 'j arrivals \<Rightarrow> 'j arrivals \<Rightarrow> 'j changelog \<Rightarrow>
   ('s, 'j, 'r) cluster_manager \<Rightarrow> (string + consensus_response) option \<times> ('s, 'j, 'r) cluster_manager" where
  "cluster_propose R P now before_check after_check changelog M =
     (case M of
        Manage_Tempo N \<Rightarrow>
          (let (r, N, _) = tempo_propose P now before_check after_check changelog N in (r, Manage_Tempo N))
      | Manage_Raft N \<Rightarrow> (let (r, N) = raft_propose R changelog N in (Some r, Manage_Raft N)))"

record cluster_metrics =
  clm_id :: node_id
  clm_mode :: cluster_mode
  clm_is_leader :: bool
  clm_current_term :: "u64 option"
  clm_last_applied :: "u64 option"
  clm_committed :: "u64 option"
  clm_members :: "cluster_member list"
  clm_state :: string

definition consensus_metrics_of :: "('r, 'j) openraft \<Rightarrow> ('s, 'j, 'r) cluster_manager \<Rightarrow> consensus_metrics" where
  "consensus_metrics_of R M =
     (case M of Manage_Tempo N \<Rightarrow> tempo_metrics N | Manage_Raft N \<Rightarrow> raft_consensus_metrics R N)"

definition cluster_get_metrics :: "('r, 'j) openraft \<Rightarrow> ('s, 'j, 'r) cluster_manager \<Rightarrow> cluster_metrics" where
  "cluster_get_metrics R M =
     (let m = consensus_metrics_of R M
      in \<lparr>clm_id = cm_id m, clm_mode = cm_mode m, clm_is_leader = cm_can_write m,
          clm_current_term = cm_current_term m, clm_last_applied = cm_last_applied m,
          clm_committed = cm_committed m, clm_members = cm_members m,
          clm_state = node_state_to_string (cm_state m)\<rparr>)"

definition cluster_add_node ::
  "('r, 'j) openraft \<Rightarrow> node_id \<Rightarrow> string \<Rightarrow> ('s, 'j, 'r) cluster_manager \<Rightarrow>
   (string + unit) \<times> ('s, 'j, 'r) cluster_manager" where
  "cluster_add_node R node_id addr M =
     (case M of
        Manage_Tempo N \<Rightarrow> (Ok (), Manage_Tempo (tempo_add_node node_id addr N))
      | Manage_Raft N \<Rightarrow> (let (r, N) = raft_add_node R node_id addr N in (r, Manage_Raft N)))"

definition cluster_remove_node ::
  "('r, 'j) openraft \<Rightarrow> node_id \<Rightarrow> ('s, 'j, 'r) cluster_manager \<Rightarrow>
   (string + unit) \<times> ('s, 'j, 'r) cluster_manager" where
  "cluster_remove_node R node_id M =
     (case M of
        Manage_Tempo N \<Rightarrow> (Ok (), Manage_Tempo (tempo_remove_node node_id N))
      | Manage_Raft N \<Rightarrow> (let (r, N) = raft_remove_node R node_id N in (r, Manage_Raft N)))"

text \<open>The manager keeps the membership contract because its implementations do.\<close>

definition cluster_members :: "('r, 'j) openraft \<Rightarrow> ('s, 'j, 'r) cluster_manager \<Rightarrow> cluster_member list" where
  "cluster_members R M = clm_members (cluster_get_metrics R M)"

lemma cluster_members_cases [simp]:
  "cluster_members R (Manage_Tempo N) = tempo_members N"
  "cluster_members R (Manage_Raft F) = raft_members F"
  by (simp_all add: cluster_members_def cluster_get_metrics_def consensus_metrics_of_def Let_def
      tempo_metrics_def tempo_members_def raft_consensus_metrics_def raft_members_def)

interpretation cluster: member_registry "cluster_members R" "cluster_add_node R" "cluster_remove_node R" for R :: "('r, 'j) openraft"
proof
  fix i addr and M :: "('s, 'j, 'r) cluster_manager"
  show "cluster_members R (snd (cluster_add_node R i addr M)) = members_push i addr (cluster_members R M)"
    if "is_ok (fst (cluster_add_node R i addr M))"
    using that tempo.add_Ok raft.add_Ok
    by (cases M) (simp_all add: cluster_add_node_def Let_def case_prod_unfold)
  show "cluster_members R (snd (cluster_add_node R i addr M)) = cluster_members R M"
    if "\<not> is_ok (fst (cluster_add_node R i addr M))"
    using that raft.add_Err
    by (cases M) (simp_all add: cluster_add_node_def Let_def case_prod_unfold)
  show "cluster_members R (snd (cluster_remove_node R i M)) = members_remove i (cluster_members R M)"
    if "is_ok (fst (cluster_remove_node R i M))"
    using that tempo.remove_Ok raft.remove_Ok
    by (cases M) (simp_all add: cluster_remove_node_def Let_def case_prod_unfold)
  show "cluster_members R (snd (cluster_remove_node R i M)) = cluster_members R M"
    if "\<not> is_ok (fst (cluster_remove_node R i M))"
    using that raft.remove_Err
    by (cases M) (simp_all add: cluster_remove_node_def Let_def case_prod_unfold)
qed

section \<open>Properties\<close>



end
