(* ===== verification/Hash_Map.thy ===== *)
theory Hash_Map
  imports Storage
begin

text \<open>
  A \<open>HashMap<String, V>\<close> is its entries in iteration order. The order is not specified and may
  change with every insertion: \<open>place\<close> gives for the keys, the new one first, the positions the
  entries are put at, as for the \<open>DashMap\<close> of the storage. Every theorem over a free \<open>place\<close>
  holds for every order.
\<close>

type_synonym 'v hash_map = "(string \<times> 'v) list"
type_synonym key_placement = "string list \<Rightarrow> nat list"

definition hash_insert :: "key_placement \<Rightarrow> string \<Rightarrow> 'v \<Rightarrow> 'v hash_map \<Rightarrow> 'v hash_map" where
  "hash_insert place k v m =
     (if k \<in> fst ` set m then AList.update k v m
      else reorder (place (k # map fst m)) ((k, v) # m))"

text \<open>\<open>iter.collect::<HashMap<_, _>>()\<close>\<close>

definition hash_collect :: "key_placement \<Rightarrow> (string \<times> 'v) list \<Rightarrow> 'v hash_map" where
  "hash_collect place kvs = fold (\<lambda>(k, v) m. hash_insert place k v m) kvs []"

definition hash_ok :: "'v hash_map \<Rightarrow> bool" where
  "hash_ok m = distinct (map fst m)"

lemma hash_ok_Nil [simp]: "hash_ok []"
  by (simp add: hash_ok_def)

lemma hash_ok_insert [simp]: "hash_ok m \<Longrightarrow> hash_ok (hash_insert place k v m)"
  by (auto simp: hash_ok_def hash_insert_def distinct_keys_reorder distinct_update)

lemma map_of_hash_insert [simp]: "hash_ok m \<Longrightarrow> map_of (hash_insert place k v m) = (map_of m)(k \<mapsto> v)"
  by (auto simp: hash_ok_def hash_insert_def update_conv' map_of_reorder)

lemma fold_hash_insert:
  "hash_ok m \<Longrightarrow>
   hash_ok (fold (\<lambda>(k, v) m. hash_insert place k v m) kvs m) \<and>
   map_of (fold (\<lambda>(k, v) m. hash_insert place k v m) kvs m) = map_of m ++ map_of (rev kvs)"
  by (induction kvs arbitrary: m) (auto simp: map_add_assoc)

lemma hash_ok_collect [simp]: "hash_ok (hash_collect place kvs)"
  using fold_hash_insert [OF hash_ok_Nil, of place kvs] by (simp add: hash_collect_def)

lemma map_of_hash_collect: "map_of (hash_collect place kvs) = map_of (rev kvs)"
  using fold_hash_insert [OF hash_ok_Nil, of place kvs] by (simp add: hash_collect_def)

lemma map_of_rev_distinct: "distinct (map fst kvs) \<Longrightarrow> map_of (rev kvs) = map_of kvs"
  by (metis distinct_rev map_of_inject_set rev_map set_rev)

lemma map_of_hash_collect_distinct:
  "distinct (map fst kvs) \<Longrightarrow> map_of (hash_collect place kvs) = map_of kvs"
  by (simp add: map_of_hash_collect map_of_rev_distinct)

lemma hash_entries: "hash_ok m \<Longrightarrow> (k, v) \<in> set m \<longleftrightarrow> map_of m k = Some v"
  by (simp add: hash_ok_def map_of_eq_Some_iff)

end
