(* ===== verification/Js_Helpers.thy ===== *)
theory Js_Helpers
  imports Hash_Map
begin

text \<open>
  The JavaScript that \<open>src/modules/mod.rs\<close> installs for modules: \<open>btoa\<close> and \<open>atob\<close>
  (\<open>setup_globals\<close>), the response writer, the document functions and \<open>hashString\<close>
  (\<open>setup_response_writer\<close>). A JavaScript string is its UTF-16 code units, as numbers; the
  bit operators work on 32-bit integers, and \<open>charAt\<close> out of range is the empty string.
\<close>

unbundle bit_operations_syntax

type_synonym code_units = "nat list"

section \<open>btoa and atob\<close>

definition base64_chars :: code_units where
  "base64_chars = map of_char ''ABCDEFGHIJKLMNOPQRSTUVWXYZabcdefghijklmnopqrstuvwxyz0123456789+/=''"

definition char_at :: "nat \<Rightarrow> code_units" where
  "char_at n = (if n < length base64_chars then [base64_chars ! n] else [])"

definition btoa_digits :: "nat \<Rightarrow> nat \<Rightarrow> nat \<Rightarrow> nat \<times> nat \<times> nat \<times> nat" where
  "btoa_digits a b c =
     (a div 4, ((a mod 4) * 16) OR (b div 16), ((b mod 16) * 4) OR (c div 64), c mod 64)"

text \<open>One turn of the loop reads three code units; a missing one is \<open>NaN\<close>, 0 to the operators.\<close>

fun btoa :: "code_units \<Rightarrow> code_units" where
  "btoa [] = []"
| "btoa [a] = (case btoa_digits a 0 0 of (e1, e2, _, _) \<Rightarrow> char_at e1 @ char_at e2 @ char_at 64 @ char_at 64)"
| "btoa [a, b] = (case btoa_digits a b 0 of (e1, e2, e3, _) \<Rightarrow> char_at e1 @ char_at e2 @ char_at e3 @ char_at 64)"
| "btoa (a # b # c # rest) =
     (case btoa_digits a b c of (e1, e2, e3, e4) \<Rightarrow>
        (char_at e1 @ char_at e2 @ char_at e3 @ char_at e4) @ btoa rest)"

text \<open>\<open>chars.indexOf(str.charAt(i))\<close>; the empty string is found at 0.\<close>

fun index_in :: "nat \<Rightarrow> code_units \<Rightarrow> nat" where
  "index_in x [] = 0"
| "index_in x (y # ys) = (if x = y then 0 else Suc (index_in x ys))"

definition index_of :: "nat \<Rightarrow> nat" where
  "index_of x = index_in x base64_chars"

definition atob_group :: "nat \<Rightarrow> nat \<Rightarrow> nat \<Rightarrow> nat \<Rightarrow> code_units" where
  "atob_group e1 e2 e3 e4 =
     (let a = (e1 * 4) OR (e2 div 16); b = ((e2 mod 16) * 16) OR (e3 div 4); c = ((e3 mod 4) * 64) OR e4
      in a # (if e3 \<noteq> 64 then [b] else []) @ (if e4 \<noteq> 64 then [c] else []))"

fun atob_loop :: "code_units \<Rightarrow> code_units" where
  "atob_loop [] = []"
| "atob_loop [w] = atob_group (index_of w) 0 0 0"
| "atob_loop [w, x] = atob_group (index_of w) (index_of x) 0 0"
| "atob_loop [w, x, y] = atob_group (index_of w) (index_of x) (index_of y) 0"
| "atob_loop (w # x # y # z # rest) =
     atob_group (index_of w) (index_of x) (index_of y) (index_of z) @ atob_loop rest"

definition atob :: "code_units \<Rightarrow> code_units" where
  "atob str = atob_loop (filter (\<lambda>x. x \<in> set base64_chars) str)"

section \<open>The response writer\<close>

record js_response =
  jr_status_code :: nat
  jr_headers :: "string \<rightharpoonup> string"
  jr_body :: string

definition writer_init :: js_response where
  "writer_init = \<lparr>jr_status_code = 200, jr_headers = Map.empty, jr_body = []\<rparr>"

definition js_set_header :: "string \<Rightarrow> string \<Rightarrow> js_response \<Rightarrow> js_response" where
  "js_set_header name value r = r\<lparr>jr_headers := (jr_headers r)(name \<mapsto> value)\<rparr>"

definition js_set_status :: "nat \<Rightarrow> js_response \<Rightarrow> js_response" where
  "js_set_status code r = r\<lparr>jr_status_code := code\<rparr>"

definition js_write :: "string \<Rightarrow> js_response \<Rightarrow> js_response" where
  "js_write data r = r\<lparr>jr_body := jr_body r @ data\<rparr>"

text \<open>\<open>text\<close> is \<open>JSON.stringify(data)\<close>.\<close>

definition js_json :: "string \<Rightarrow> js_response \<Rightarrow> js_response" where
  "js_json text r =
     (let r = js_set_header ''Content-Type'' ''application/json'' r in r\<lparr>jr_body := text\<rparr>)"

text \<open>\<open>status || 302\<close>: no status and 0 are 302.\<close>

definition js_redirect :: "string \<Rightarrow> nat option \<Rightarrow> js_response \<Rightarrow> js_response" where
  "js_redirect url status r =
     (let r = r\<lparr>jr_status_code := (case status of Some s \<Rightarrow> if s = 0 then 302 else s | None \<Rightarrow> 302)\<rparr>;
          r = js_set_header ''Location'' url r
      in r\<lparr>jr_body := []\<rparr>)"

text \<open>\<open>map[name] || null\<close>: an empty value reads as null.\<close>

definition js_param :: "(string \<rightharpoonup> string) \<Rightarrow> string \<Rightarrow> string option" where
  "js_param m name = (case m name of Some v \<Rightarrow> if v = [] then None else Some v | None \<Rightarrow> None)"

section \<open>Documents\<close>

record 'j doc_store =
  ds_docs :: "string \<rightharpoonup> 'j"
  ds_modified :: bool

definition doc_store_key :: "string \<Rightarrow> string \<Rightarrow> string" where
  "doc_store_key collection docid = collection @ '':'' @ docid"

text \<open>\<open>truthy\<close> is JavaScript's conversion of a value to a Boolean.\<close>

definition js_get_document :: "('j \<Rightarrow> bool) \<Rightarrow> string \<Rightarrow> string \<Rightarrow> 'j doc_store \<Rightarrow> 'j option" where
  "js_get_document truthy collection docid d =
     (case ds_docs d (doc_store_key collection docid) of
        Some doc \<Rightarrow> if truthy doc then Some doc else None
      | None \<Rightarrow> None)"

definition js_set_document :: "string \<Rightarrow> string \<Rightarrow> 'j \<Rightarrow> 'j doc_store \<Rightarrow> 'j doc_store" where
  "js_set_document collection docid data d =
     d\<lparr>ds_docs := (ds_docs d)(doc_store_key collection docid \<mapsto> data), ds_modified := True\<rparr>"

definition js_delete_document :: "string \<Rightarrow> string \<Rightarrow> 'j doc_store \<Rightarrow> 'j doc_store" where
  "js_delete_document collection docid d =
     d\<lparr>ds_docs := (ds_docs d)(doc_store_key collection docid := None), ds_modified := True\<rparr>"

section \<open>hashString\<close>

text \<open>\<open>((hash << 5) - hash) + char\<close>, then \<open>& \<close> to a 32-bit integer.\<close>

definition hash_step :: "u32 \<Rightarrow> nat \<Rightarrow> u32" where
  "hash_step hash char = (push_bit 5 hash - hash) + of_nat char"

definition base36_digit :: "nat \<Rightarrow> char" where
  "base36_digit d = (if d < 10 then char_of (48 + d) else char_of (87 + d))"

fun to_base36 :: "nat \<Rightarrow> string" where
  "to_base36 n = (if n < 36 then [base36_digit n] else to_base36 (n div 36) @ [base36_digit (n mod 36)])"

declare to_base36.simps [simp del]

definition slice_last :: "nat \<Rightarrow> string \<Rightarrow> string" where
  "slice_last n s = drop (length s - n) s"

definition pad_start :: "nat \<Rightarrow> char \<Rightarrow> string \<Rightarrow> string" where
  "pad_start n c s = replicate (n - length s) c @ s"

definition hash_string :: "code_units \<Rightarrow> string" where
  "hash_string str =
     pad_start 8 (CHR ''0'') (slice_last 8 (to_base36 (nat \<bar>sint (foldl hash_step 0 str)\<bar>)))"

section \<open>Facts\<close>

lemma or_add_nat: "y < 2 ^ n \<Longrightarrow> (x * 2 ^ n) OR y = x * 2 ^ n + (y :: nat)"
proof -
  assume "y < 2 ^ n"
  then have y: "y = take_bit n y" by (simp add: take_bit_nat_eq_self)
  have "push_bit n x + take_bit n y = push_bit n x OR take_bit n y"
    by (rule disjunctive_add_eq_or) (auto simp: bit_eq_iff bit_simps)
  then show ?thesis using y by (simp add: push_bit_eq_mult)
qed

lemmas or_add = or_add_nat [where n = 2, simplified] or_add_nat [where n = 4, simplified]
  or_add_nat [where n = 6, simplified]

lemma base64_chars_nth: "n < 65 \<Longrightarrow> index_of (base64_chars ! n) = n"
proof -
  have "\<forall>n \<in> set [0..<65]. index_of (base64_chars ! n) = n" by code_simp
  then show "n < 65 \<Longrightarrow> index_of (base64_chars ! n) = n" by simp
qed

lemma base64_chars_length [simp]: "length base64_chars = 65"
  by (simp add: base64_chars_def)

lemma char_at_in [simp]: "n < 65 \<Longrightarrow> char_at n = [base64_chars ! n]" "set (char_at n) \<subseteq> set base64_chars"
  by (auto simp: char_at_def)

lemma btoa_in: "set (btoa s) \<subseteq> set base64_chars"
proof (induction s rule: btoa.induct)
  case (4 a b c rest)
  then show ?case using char_at_in(2) by (auto simp: btoa_digits_def)
qed (use char_at_in(2) in \<open>auto simp: btoa_digits_def\<close>)

lemma btoa_digits_byte:
  assumes "a < 256" and "b < 256" and "c < 256"
  shows "btoa_digits a b c = (a div 4, (a mod 4) * 16 + b div 16, (b mod 16) * 4 + c div 64, c mod 64)"
proof -
  have "b div 16 < 16" "c div 64 < 4" using assms by simp_all
  then show ?thesis by (simp add: btoa_digits_def or_add)
qed

lemma base64_digit_bounds:
  assumes "a < 256" and "b < 256" and "c < (256 :: nat)"
  shows "a div 4 < 64" and "(a mod 4) * 16 + b div 16 < 64" and "(b mod 16) * 4 + c div 64 < 64"
    and "c mod 64 < 64"
proof -
  have "a mod 4 \<le> 3" "b div 16 \<le> 15" "b mod 16 \<le> 15" "c div 64 \<le> 3" using assms by simp_all
  then have "(a mod 4) * 16 \<le> 48" "(b mod 16) * 4 \<le> 60" by simp_all
  with \<open>b div 16 \<le> 15\<close> \<open>c div 64 \<le> 3\<close>
  show "(a mod 4) * 16 + b div 16 < 64" "(b mod 16) * 4 + c div 64 < 64" by linarith+
  show "a div 4 < 64" "c mod 64 < 64" using assms by simp_all
qed

lemma atob_group_digits:
  assumes "a < 256" and "b < 256" and "c < 256"
  shows "atob_group (a div 4) ((a mod 4) * 16 + b div 16) ((b mod 16) * 4 + c div 64) (c mod 64) = [a, b, c]"
    and "atob_group (a div 4) ((a mod 4) * 16 + b div 16) ((b mod 16) * 4) 64 = [a, b]"
    and "atob_group (a div 4) ((a mod 4) * 16) 64 64 = [a]"
proof -
  note lt = base64_digit_bounds [OF assms]
  have q: "((a mod 4) * 16 + b div 16) div 16 = a mod 4" "((a mod 4) * 16 + b div 16) mod 16 = b div 16"
    "((b mod 16) * 4 + c div 64) div 4 = b mod 16" "((b mod 16) * 4 + c div 64) mod 4 = c div 64"
    using assms by simp_all
  have r: "a div 4 * 4 + a mod 4 = a" "b div 16 * 16 + b mod 16 = b" "c div 64 * 64 + c mod 64 = c"
    by simp_all
  have ne: "(b mod 16) * 4 + c div 64 \<noteq> 64" "(b mod 16) * 4 \<noteq> 64" "c mod 64 \<noteq> 64"
    using lt(3,4) by linarith+
  show "atob_group (a div 4) ((a mod 4) * 16 + b div 16) ((b mod 16) * 4 + c div 64) (c mod 64) = [a, b, c]"
    unfolding atob_group_def Let_def q using ne r by (simp add: or_add)
  have q': "((b mod 16) * 4) div 4 = b mod 16" "((a mod 4) * 16) div 16 = a mod 4" by simp_all
  show "atob_group (a div 4) ((a mod 4) * 16 + b div 16) ((b mod 16) * 4) 64 = [a, b]"
    unfolding atob_group_def Let_def q q' using ne r by (simp add: or_add)
  show "atob_group (a div 4) ((a mod 4) * 16) 64 64 = [a]"
    unfolding atob_group_def Let_def q' using r by (simp add: or_add)
qed

text \<open>
  Base64 as RFC 4648 has it: three bytes are a 24-bit number, written with four digits, and the
  padding character is the equals sign, 61.
\<close>

definition base64_digit :: "nat \<Rightarrow> nat" where
  "base64_digit n = base64_chars ! (n mod 64)"

fun base64_reference :: "code_units \<Rightarrow> code_units" where
  "base64_reference [] = []"
| "base64_reference [a] =
     (let n = a * 65536 in [base64_digit (n div 262144), base64_digit (n div 4096), 61, 61])"
| "base64_reference [a, b] =
     (let n = a * 65536 + b * 256
      in [base64_digit (n div 262144), base64_digit (n div 4096), base64_digit (n div 64), 61])"
| "base64_reference (a # b # c # rest) =
     (let n = a * 65536 + b * 256 + c
      in [base64_digit (n div 262144), base64_digit (n div 4096), base64_digit (n div 64), base64_digit n]) @
     base64_reference rest"

lemma radix_step:
  assumes "(d :: nat) < m"
  shows "(q * m + d) div m = q" and "(q * m + d) mod m = d"
  using assms by simp_all

lemma radix64:
  assumes "n = ((d1 * 64 + d2) * 64 + d3) * 64 + (d4 :: nat)" and "d1 < 64" and "d2 < 64" and "d3 < 64" and "d4 < 64"
  shows "n div 262144 = d1" and "n div 4096 mod 64 = d2" and "n div 64 mod 64 = d3" and "n mod 64 = d4"
proof -
  have n1: "n div 64 = (d1 * 64 + d2) * 64 + d3" and m: "n mod 64 = d4"
    unfolding assms(1) by (rule radix_step [OF assms(5)])+
  show "n mod 64 = d4" by (rule m)
  show "n div 64 mod 64 = d3" unfolding n1 by (rule radix_step [OF assms(4)])
  have "n div 4096 = n div 64 div 64" by (simp add: div_mult2_eq [symmetric])
  then have n2: "n div 4096 = d1 * 64 + d2" unfolding n1 by (simp only: radix_step [OF assms(4)])
  then show "n div 4096 mod 64 = d2" by (simp only: radix_step [OF assms(3)])
  have "n div 262144 = n div 4096 div 64" by (simp add: div_mult2_eq [symmetric])
  then show "n div 262144 = d1" unfolding n2 by (simp only: radix_step [OF assms(3)])
qed

lemma base64_number:
  assumes "a < 256" and "b < 256" and "c < (256 :: nat)"
  shows "(a * 65536 + b * 256 + c) div 262144 = a div 4"
    and "(a * 65536 + b * 256 + c) div 4096 mod 64 = (a mod 4) * 16 + b div 16"
    and "(a * 65536 + b * 256 + c) div 64 mod 64 = (b mod 16) * 4 + c div 64"
    and "(a * 65536 + b * 256 + c) mod 64 = c mod 64"
proof -
  have "(a1 * 4 + a0) * 65536 + (b1 * 16 + b0) * 256 + (c1 * 64 + c0) =
      ((a1 * 64 + (a0 * 16 + b1)) * 64 + (b0 * 4 + c1)) * 64 + c0" for a1 a0 b1 b0 c1 c0 :: nat
    by (simp add: algebra_simps)
  from this [of "a div 4" "a mod 4" "b div 16" "b mod 16" "c div 64" "c mod 64"]
  have "a * 65536 + b * 256 + c =
      ((a div 4 * 64 + (a mod 4 * 16 + b div 16)) * 64 + (b mod 16 * 4 + c div 64)) * 64 + c mod 64"
    by (simp only: div_mult_mod_eq)
  note r = radix64 [OF this base64_digit_bounds [OF assms]]
  show "(a * 65536 + b * 256 + c) div 262144 = a div 4"
    and "(a * 65536 + b * 256 + c) div 4096 mod 64 = (a mod 4) * 16 + b div 16"
    and "(a * 65536 + b * 256 + c) div 64 mod 64 = (b mod 16) * 4 + c div 64"
    and "(a * 65536 + b * 256 + c) mod 64 = c mod 64" by (rule r)+
qed

lemma base64_pad: "base64_chars ! 64 = 61"
  by (simp add: base64_chars_def)

lemma index_of_nth [simp]: "n < 64 \<Longrightarrow> index_of (base64_chars ! n) = n" "index_of (61) = 64"
  using base64_chars_nth [of n] base64_chars_nth [of 64] by (simp_all add: base64_pad)

lemma btoa_group:
  assumes "a < 256" and "b < 256" and "c < 256"
  shows "btoa (a # b # c # rest) =
      base64_chars ! (a div 4) # base64_chars ! ((a mod 4) * 16 + b div 16) #
      base64_chars ! ((b mod 16) * 4 + c div 64) # base64_chars ! (c mod 64) # btoa rest"
    and "btoa [a, b] =
      [base64_chars ! (a div 4), base64_chars ! ((a mod 4) * 16 + b div 16), base64_chars ! ((b mod 16) * 4),
       61]"
    and "btoa [a] = [base64_chars ! (a div 4), base64_chars ! ((a mod 4) * 16), 61, 61]"
  using base64_digit_bounds [OF assms] base64_digit_bounds(2) [OF assms(1), of 0 0]
    base64_digit_bounds(3) [OF assms(1,2), of 0]
  by (simp_all add: btoa_digits_byte assms base64_pad del: char_at_in(2))

lemma btoa_reference: "\<forall>x \<in> set s. x < 256 \<Longrightarrow> btoa s = base64_reference s"
proof (induction s rule: base64_reference.induct)
  case (2 a)
  then have a: "a < 256" "0 < (256 :: nat)" by simp_all
  show ?case
    using base64_number [OF a a(2)] base64_digit_bounds(1) [OF a a(2)]
    by (simp add: btoa_group(3) [OF a a(2)] base64_digit_def Let_def del: btoa.simps)
next
  case (3 a b)
  then have a: "a < 256" "b < 256" "0 < (256 :: nat)" by simp_all
  show ?case
    using base64_number [OF a] base64_digit_bounds(1) [OF a]
    by (simp add: btoa_group(2) [OF a] base64_digit_def Let_def del: btoa.simps)
next
  case (4 a b c rest)
  then have a: "a < 256" "b < 256" "c < 256" by simp_all
  show ?case
    using 4 base64_number [OF a] base64_digit_bounds(1) [OF a]
    by (simp add: btoa_group(1) [OF a] base64_digit_def Let_def del: btoa.simps)
qed simp

lemma atob_loop_btoa: "\<forall>x \<in> set s. x < 256 \<Longrightarrow> atob_loop (btoa s) = s"
proof (induction s rule: base64_reference.induct)
  case (2 a)
  then have a: "a < 256" "0 < (256 :: nat)" by simp_all
  show ?case
    using atob_group_digits(3) [OF a a(2)] base64_digit_bounds [OF a a(2)]
    by (simp add: btoa_group(3) [OF a a(2)] del: btoa.simps)
next
  case (3 a b)
  then have a: "a < 256" "b < 256" "0 < (256 :: nat)" by simp_all
  show ?case
    using atob_group_digits(2) [OF a] base64_digit_bounds [OF a]
    by (simp add: btoa_group(2) [OF a] del: btoa.simps)
next
  case (4 a b c rest)
  then have a: "a < 256" "b < 256" "c < 256" by simp_all
  show ?case
    using 4 atob_group_digits(1) [OF a] base64_digit_bounds [OF a]
    by (simp add: btoa_group(1) [OF a] del: btoa.simps)
qed simp

lemma atob_btoa: "\<forall>x \<in> set s. x < 256 \<Longrightarrow> atob (btoa s) = s"
proof -
  assume "\<forall>x \<in> set s. x < 256"
  moreover have "filter (\<lambda>x. x \<in> set base64_chars) (btoa s) = btoa s" using btoa_in by (auto simp: filter_id_conv)
  ultimately show ?thesis by (simp add: atob_def atob_loop_btoa)
qed

lemma length_to_base36: "n < 36 ^ Suc k \<Longrightarrow> length (to_base36 n) \<le> Suc k \<and> to_base36 n \<noteq> []"
proof (induction k arbitrary: n)
  case 0
  then show ?case by (simp add: to_base36.simps)
next
  case (Suc k)
  have "n div 36 < 36 ^ Suc k" using Suc.prems by (simp add: less_mult_imp_div_less mult.commute)
  from Suc.IH [OF this] show ?case by (subst (1 2) to_base36.simps) simp
qed

lemma hash_text_length: "length (to_base36 (nat \<bar>sint (w :: u32)\<bar>)) \<le> 6"
proof -
  have "\<bar>sint w\<bar> \<le> 2 ^ 31" using sint_ge [of w] sint_lt [of w] by (simp add: abs_le_iff)
  then have "nat \<bar>sint w\<bar> < 36 ^ Suc 5" by simp
  from length_to_base36 [OF this] show ?thesis by simp
qed

section \<open>Properties\<close>

text \<open>
  C39. The \<open>btoa\<close> that modules are given is base64 as RFC 4648 defines it on strings of bytes, and
  \<open>atob\<close> undoes it; beyond bytes it neither fails, as a browser's does, nor can be undone.
\<close>

theorem module_base64:
  assumes "\<forall>x \<in> set s. x < 256"
  shows "btoa s = base64_reference s \<and> atob (btoa s) = s \<and> atob (btoa [1024]) \<noteq> [1024]"
proof -
  have "atob (btoa [1024]) \<noteq> [1024]" by code_simp
  then show ?thesis using btoa_reference [OF assms] atob_btoa [OF assms] by simp
qed

theorem module_base64_witness: "atob (btoa (map of_char ''hello'')) = map of_char ''hello''"
proof -
  have b: "\<forall>x \<in> set (map of_char ''hello''). x < (256 :: nat)" by simp
  show ?thesis by (rule module_base64 [OF b, THEN conjunct2, THEN conjunct1])
qed

text \<open>
  \<open>hashString\<close> always returns eight characters, of which the first two are zeros: the 32-bit
  hash has at most six base-36 digits, so taking the last eight never cuts anything, and two
  short strings that collide as 31-multiplier hashes do get the same identifier.
\<close>

lemma hash_string_shape:
  "length (hash_string s) = 8 \<and> take 2 (hash_string s) = ''00'' \<and>
   slice_last 8 (to_base36 (nat \<bar>sint (foldl hash_step 0 s)\<bar>)) = to_base36 (nat \<bar>sint (foldl hash_step 0 s)\<bar>) \<and>
   hash_string (map of_char ''Aa'') = hash_string (map of_char ''BB'')"
proof -
  let ?t = "to_base36 (nat \<bar>sint (foldl hash_step 0 s)\<bar>)"
  have l: "length ?t \<le> 6" by (rule hash_text_length)
  then have cut: "slice_last 8 ?t = ?t" by (simp add: slice_last_def)
  have "hash_string s = replicate (8 - length ?t) (CHR ''0'') @ ?t" by (simp add: hash_string_def cut pad_start_def)
  moreover have "8 - length ?t = Suc (Suc (6 - length ?t))" using l by linarith
  ultimately have "length (hash_string s) = 8 \<and> take 2 (hash_string s) = ''00''" using l by simp
  moreover have "foldl hash_step 0 (map of_char ''Aa'') = foldl hash_step 0 (map of_char ''BB'')"
    by (simp add: hash_step_def)
  then have "hash_string (map of_char ''Aa'') = hash_string (map of_char ''BB'')" by (simp only: hash_string_def)
  ultimately show ?thesis using cut by blast
qed

end
