(* ===== verification/Path_Pattern.thy ===== *)
theory Path_Pattern
  imports Regex_Engine
begin

text \<open>
  Route paths, \<open>compile_path_pattern\<close> of \<open>src/proxy/mod.rs\<close>: the text of a regular expression
  is built from the pattern character by character and given to the \<open>regex\<close> crate. The crate
  is the record \<open>regex_crate\<close>; \<open>regex_documented\<close> says that it agrees with \<open>Regex_Engine\<close> on
  every expression that theory reads. The meaning of a pattern is stated apart from regular
  expressions: a pattern is a list of tokens, \<open>path_lang\<close> says which paths are its instances,
  and \<open>tok_match\<close> is the leftmost-first, greedy match of the whole path.
\<close>

section \<open>The regex crate\<close>

text \<open>The end of the whole match and the named groups that took part in it.\<close>

record captures =
  cap_end :: nat
  cap_name :: "string \<rightharpoonup> string"

record 'r regex_crate =
  re_new :: "string \<Rightarrow> string + 'r"
  re_captures :: "'r \<Rightarrow> string \<Rightarrow> captures option"
  re_names :: "'r \<Rightarrow> string list"

section \<open>The code\<close>

text \<open>\<open>str::chars\<close>: each character with its UTF-8 bytes.\<close>

function chars :: "string \<Rightarrow> string list" where
  "chars s =
     (if s = [] then [] else take (snd (utf8_chunk s)) s # chars (drop (snd (utf8_chunk s)) s))"
  by pat_completeness auto
termination
  by (relation "measure length") (auto simp: utf8_chunk_pos)

declare chars.simps [simp del]

text \<open>\<open>char::is_alphanumeric\<close>; \<open>uni\<close> is its Unicode table beyond ASCII.\<close>

definition is_alphanumeric :: "(string \<Rightarrow> bool) \<Rightarrow> string \<Rightarrow> bool" where
  "is_alphanumeric uni c = (case c of [b] \<Rightarrow> ascii_alphanumeric b | _ \<Rightarrow> uni c)"

definition name_char :: "(string \<Rightarrow> bool) \<Rightarrow> string \<Rightarrow> bool" where
  "name_char uni c = (is_alphanumeric uni c \<or> c = ''_'')"

definition capture_group :: "string \<Rightarrow> string" where
  "capture_group name = ''(?P<'' @ name @ ''>[^/]+)''"

function compile_chars :: "(string \<Rightarrow> bool) \<Rightarrow> string list \<Rightarrow> string" where
  "compile_chars uni [] = []"
| "compile_chars uni (c # cs) =
     (if c = ''*'' then
        (if take 1 cs = [''*''] then ''.*'' @ compile_chars uni (drop 1 cs)
         else ''[^/]*'' @ compile_chars uni cs)
      else if c = '':'' then
        capture_group (concat (takeWhile (name_char uni) cs)) @
        compile_chars uni (dropWhile (name_char uni) cs)
      else if c = ''{'' then
        capture_group (concat (takeWhile (\<lambda>nc. nc \<noteq> ''}'') cs)) @
        compile_chars uni (drop 1 (dropWhile (\<lambda>nc. nc \<noteq> ''}'') cs))
      else if c \<in> {''/'', ''.'', ''-'', ''_''} then [CHR 0x5C] @ c @ compile_chars uni cs
      else c @ compile_chars uni cs)"
  by pat_completeness auto
termination
  by (relation "measure (\<lambda>(_, cs). length cs)") (auto simp: less_Suc_eq_le length_dropWhile_le
      intro: le_trans [OF diff_le_self])

definition path_regex :: "(string \<Rightarrow> bool) \<Rightarrow> string \<Rightarrow> string" where
  "path_regex uni pattern = ''^'' @ compile_chars uni (chars pattern) @ ''$''"

definition compile_path_pattern :: "(string \<Rightarrow> bool) \<Rightarrow> 'r regex_crate \<Rightarrow> string \<Rightarrow> string + 'r" where
  "compile_path_pattern uni R pattern = re_new R (path_regex uni pattern)"

section \<open>The meaning of a pattern\<close>

datatype path_tok =
    Lit char
  | Segment
  | Greedy
  | Param string

text \<open>The tokens of an ASCII pattern.\<close>

function path_tokens :: "string \<Rightarrow> path_tok list" where
  "path_tokens [] = []"
| "path_tokens (c # cs) =
     (if c = CHR ''*'' then
        (if take 1 cs = ''*'' then Greedy # path_tokens (drop 1 cs) else Segment # path_tokens cs)
      else if c = CHR '':'' then Param (takeWhile name_byte cs) # path_tokens (dropWhile name_byte cs)
      else if c = CHR ''{'' then
        Param (takeWhile (\<lambda>x. x \<noteq> CHR ''}'') cs) # path_tokens (drop 1 (dropWhile (\<lambda>x. x \<noteq> CHR ''}'') cs))
      else Lit c # path_tokens cs)"
  by pat_completeness auto
termination
  by (relation "measure length") (auto simp: less_Suc_eq_le length_dropWhile_le
      intro: le_trans [OF diff_le_self])

primrec tok_match :: "path_tok list \<Rightarrow> string \<Rightarrow> (string \<times> string) list option" where
  "tok_match [] s = (if s = [] then Some [] else None)"
| "tok_match (t # ts) s =
     (case t of
        Lit c \<Rightarrow> (case s of [] \<Rightarrow> None | x # xs \<Rightarrow> if x = c then tok_match ts xs else None)
      | Segment \<Rightarrow> first_some (\<lambda>(_, r). tok_match ts r) (greedy_splits (\<lambda>c. c \<noteq> CHR ''/'') s)
      | Greedy \<Rightarrow> first_some (\<lambda>(_, r). tok_match ts r) (greedy_splits (\<lambda>c. c \<noteq> CHR 0x0A) s)
      | Param n \<Rightarrow>
          first_some (\<lambda>(p, r). if p = [] then None else map_option (\<lambda>bs. (n, p) # bs) (tok_match ts r))
            (greedy_splits (\<lambda>c. c \<noteq> CHR ''/'') s))"

fun tok_params :: "path_tok list \<Rightarrow> string list" where
  "tok_params [] = []"
| "tok_params (Param n # ts) = n # tok_params ts"
| "tok_params (_ # ts) = tok_params ts"

text \<open>The text of a token, as the crate reads it.\<close>

fun tok_text :: "path_tok \<Rightarrow> string" where
  "tok_text (Lit c) = (if c \<in> set ''/.-_'' then [CHR 0x5C, c] else [c])"
| "tok_text Segment = ''[^/]*''"
| "tok_text Greedy = ''.*''"
| "tok_text (Param n) = capture_group n"

text \<open>
  The patterns whose expressions the engine reads: literals that are no metacharacters, or
  escaped, and valid group names that occur once.
\<close>

fun plain_tok :: "path_tok \<Rightarrow> bool" where
  "plain_tok (Lit c) = ((of_char c :: nat) < 128 \<and> c \<notin> set ''+?()|[]{}^$*'' \<and> c \<noteq> CHR 0x5C)"
| "plain_tok (Param n) = valid_name n"
| "plain_tok _ = True"

definition plain_toks :: "path_tok list \<Rightarrow> bool" where
  "plain_toks ts = (list_all plain_tok ts \<and> distinct (tok_params ts))"

definition rx_captures :: "rx list \<Rightarrow> string \<Rightarrow> captures option" where
  "rx_captures xs s =
     map_option (\<lambda>(_, t, st).
         \<lparr>cap_end = fst st, cap_name = (\<lambda>n. Option.bind (map_of (rx_names xs) n) (rx_groups t st))\<rparr>)
       (rx_search xs 0 s)"

definition regex_documented :: "'r regex_crate \<Rightarrow> bool" where
  "regex_documented R \<longleftrightarrow>
     (\<forall>pattern xs. rx_compile pattern = Ok xs \<longrightarrow>
        (\<exists>re. re_new R pattern = Ok re \<and> re_names R re = map fst (rx_names xs) \<and>
           (\<forall>s. ascii s \<longrightarrow> re_captures R re s = rx_captures xs s)))"

section \<open>Which paths match\<close>

text \<open>\<open>path_lang ts s bs\<close>: the path \<open>s\<close> is an instance of \<open>ts\<close> with these parameters.\<close>

inductive path_lang :: "path_tok list \<Rightarrow> string \<Rightarrow> (string \<times> string) list \<Rightarrow> bool" where
  lang_Nil: "path_lang [] [] []"
| lang_Lit: "path_lang ts s bs \<Longrightarrow> path_lang (Lit c # ts) (c # s) bs"
| lang_Segment: "path_lang ts s bs \<Longrightarrow> list_all (\<lambda>c. c \<noteq> CHR ''/'') p \<Longrightarrow> path_lang (Segment # ts) (p @ s) bs"
| lang_Greedy: "path_lang ts s bs \<Longrightarrow> list_all (\<lambda>c. c \<noteq> CHR 0x0A) p \<Longrightarrow> path_lang (Greedy # ts) (p @ s) bs"
| lang_Param: "path_lang ts s bs \<Longrightarrow> list_all (\<lambda>c. c \<noteq> CHR ''/'') p \<Longrightarrow> p \<noteq> [] \<Longrightarrow>
    path_lang (Param n # ts) (p @ s) ((n, p) # bs)"

inductive_cases path_lang_NilE: "path_lang [] s bs"
inductive_cases path_lang_LitE: "path_lang (Lit c # ts) s bs"
inductive_cases path_lang_SegmentE: "path_lang (Segment # ts) s bs"
inductive_cases path_lang_GreedyE: "path_lang (Greedy # ts) s bs"
inductive_cases path_lang_ParamE: "path_lang (Param n # ts) s bs"

inductive_simps path_lang_simps:
  "path_lang [] s bs"
  "path_lang (Lit c # ts) s bs"
  "path_lang (Segment # ts) s bs"
  "path_lang (Greedy # ts) s bs"

lemma tok_match_sound: "tok_match ts s = Some bs \<Longrightarrow> path_lang ts s bs"
proof (induction ts arbitrary: s bs)
  case Nil
  then show ?case by (auto intro: path_lang.intros split: if_splits)
next
  case (Cons t ts)
  show ?case
  proof (cases t)
    case (Lit c)
    with Cons show ?thesis by (auto intro!: path_lang.intros split: list.splits if_splits)
  next
    case Segment
    with Cons.prems obtain p r where "(p, r) \<in> set (greedy_splits (\<lambda>c. c \<noteq> CHR ''/'') s)" "tok_match ts r = Some bs"
      by (auto dest!: first_some_Some)
    with Segment Cons.IH show ?thesis by (auto simp: set_greedy_splits intro: path_lang.intros)
  next
    case Greedy
    with Cons.prems obtain p r where "(p, r) \<in> set (greedy_splits (\<lambda>c. c \<noteq> CHR 0x0A) s)" "tok_match ts r = Some bs"
      by (auto dest!: first_some_Some)
    with Greedy Cons.IH show ?thesis by (auto simp: set_greedy_splits intro: path_lang.intros)
  next
    case (Param n)
    with Cons.prems obtain p r bs' where "(p, r) \<in> set (greedy_splits (\<lambda>c. c \<noteq> CHR ''/'') s)"
      "tok_match ts r = Some bs'" "p \<noteq> []" "bs = (n, p) # bs'"
      by (auto dest!: first_some_Some split: if_splits)
    with Param Cons.IH show ?thesis by (auto simp: set_greedy_splits intro: path_lang.intros)
  qed
qed

lemma tok_match_complete: "path_lang ts s bs \<Longrightarrow> tok_match ts s \<noteq> None"
proof (induction rule: path_lang.induct)
  case (lang_Segment ts s bs p)
  then have "(p, s) \<in> set (greedy_splits (\<lambda>c. c \<noteq> CHR ''/'') (p @ s))" by (simp add: set_greedy_splits)
  from first_some_not_None [OF this, of "\<lambda>(_, r). tok_match ts r"] lang_Segment.IH show ?case by simp
next
  case (lang_Greedy ts s bs p)
  then have "(p, s) \<in> set (greedy_splits (\<lambda>c. c \<noteq> CHR 0x0A) (p @ s))" by (simp add: set_greedy_splits)
  from first_some_not_None [OF this, of "\<lambda>(_, r). tok_match ts r"] lang_Greedy.IH show ?case by simp
next
  case (lang_Param ts s bs p n)
  then have "(p, s) \<in> set (greedy_splits (\<lambda>c. c \<noteq> CHR ''/'') (p @ s))" by (simp add: set_greedy_splits)
  from first_some_not_None [OF this, of "\<lambda>(p, r). if p = [] then None else map_option (\<lambda>bs. (n, p) # bs) (tok_match ts r)"]
    lang_Param.IH lang_Param.hyps(3) show ?case by simp
qed simp_all

lemma tok_match_iff: "tok_match ts s \<noteq> None \<longleftrightarrow> (\<exists>bs. path_lang ts s bs)"
  using tok_match_sound tok_match_complete by fastforce

lemma path_lang_params: "path_lang ts s bs \<Longrightarrow> map fst bs = tok_params ts"
  by (induction rule: path_lang.induct) simp_all

section \<open>The text built is the text of the tokens\<close>

lemma chars_ascii: "ascii s \<Longrightarrow> chars s = map (\<lambda>c. [c]) s"
proof (induction s)
  case Nil
  then show ?case by (simp add: chars.simps)
next
  case (Cons c s)
  then have "utf8_chunk (c # s) = (True, 1)" by (simp add: utf8_chunk_def byte_at_def)
  with Cons show ?case by (subst chars.simps) simp
qed

lemma name_char_byte [simp]: "name_char uni [c] = name_byte c"
  by (simp add: name_char_def name_byte_def is_alphanumeric_def)

lemma concat_singletons [simp]: "concat (map (\<lambda>c. [c]) s) = s"
  by (induction s) simp_all

lemma compile_singletons: "compile_chars uni (map (\<lambda>c. [c]) s) = concat (map tok_text (path_tokens s))"
proof (induction s rule: path_tokens.induct)
  case (2 c cs)
  have t: "(take 1 (map (\<lambda>c. [c]) cs) = [''*'']) = (take 1 cs = ''*'')" by (cases cs) auto
  show ?case
    using 2 t
    by (auto simp: takeWhile_map dropWhile_map drop_map comp_def)
qed simp

lemma path_regex_ascii:
  "ascii pattern \<Longrightarrow> path_regex uni pattern = ''^'' @ concat (map tok_text (path_tokens pattern)) @ ''$''"
  by (simp add: path_regex_def chars_ascii compile_singletons)

section \<open>The expression built means the pattern\<close>

text \<open>What the engine reads from the text of the tokens, with \<open>k\<close> the number of the next group.\<close>

fun toks_rx :: "nat \<Rightarrow> path_tok list \<Rightarrow> rx list" where
  "toks_rx k [] = [RX_End]"
| "toks_rx k (Lit c # ts) = RX_One (CC_Char c) # toks_rx k ts"
| "toks_rx k (Segment # ts) = RX_Star (CC_Not ''/'') # toks_rx k ts"
| "toks_rx k (Greedy # ts) = RX_Star CC_Any # toks_rx k ts"
| "toks_rx k (Param n # ts) = RX_Group k (Some n) [RX_Plus (CC_Not ''/'')] # toks_rx (Suc k) ts"

lemma tok_text_no_quantifier:
  "list_all plain_tok ts \<Longrightarrow> \<not> rx_quantifier (concat (map tok_text ts) @ ''$'')"
  by (cases ts; cases "hd ts") (auto simp: rx_quantifier_def capture_group_def)

lemma rx_parse_segment:
  "rx_parse (''[^/]*'' @ s) k acc stack =
     (if rx_quantifier s then None else rx_parse s k (RX_Star (CC_Not ''/'') # acc) stack)"
  "rx_parse (''[^/]+'' @ s) k acc stack =
     (if rx_quantifier s then None else rx_parse s k (RX_Plus (CC_Not ''/'') # acc) stack)"
  by (subst rx_parse.simps, simp add: starts_with_def rx_atom_def rx_quantified_def rx_quantifier_def)+

lemma rx_parse_literal:
  assumes "\<not> rx_quantifier s"
  shows "c \<notin> set rx_meta \<Longrightarrow> (of_char c :: nat) < 128 \<Longrightarrow>
      rx_parse (c # s) k acc stack = rx_parse s k (RX_One (CC_Char c) # acc) stack"
    and "\<not> ascii_alphanumeric c \<Longrightarrow> c \<notin> set ''<>'' \<Longrightarrow> (of_char c :: nat) < 128 \<Longrightarrow>
      rx_parse (CHR 0x5C # c # s) k acc stack = rx_parse s k (RX_One (CC_Char c) # acc) stack"
  using assms
  by (subst rx_parse.simps, simp add: starts_with_def rx_atom_def rx_quantified_def rx_meta_def)+

lemma rx_parse_group:
  assumes "valid_name n"
  shows "rx_parse (capture_group n @ s) k acc [] =
    (if rx_quantifier s then None
     else rx_parse s (Suc k) (RX_Group k (Some n) [RX_Plus (CC_Not ''/'')] # acc) [])"
proof -
  let ?rest = "''[^/]+'' @ '')'' @ s"
  have n: "takeWhile (\<lambda>c. c \<noteq> CHR ''>'') (n @ CHR ''>'' # ?rest) = n"
    using valid_name_no_gt [OF assms] by (subst takeWhile_append2) auto
  have d: "drop (4 + length n) (''(?P<'' @ n @ xs) = xs" "drop (5 + length n) (''(?P<'' @ n @ x # xs) = xs" for x xs
    by (simp_all add: eval_nat_numeral)
  have "rx_parse (capture_group n @ s) k acc [] = rx_parse ?rest (Suc k) [] [(Some (k, Some n), acc)]"
    using n assms d by (subst rx_parse.simps) (simp add: capture_group_def starts_with_def)
  also have "\<dots> = rx_parse ('')'' @ s) (Suc k) [RX_Plus (CC_Not ''/'')] [(Some (k, Some n), acc)]"
    unfolding rx_parse_segment by (simp add: rx_quantifier_def)
  also have "\<dots> = (if rx_quantifier s then None
     else rx_parse s (Suc k) (RX_Group k (Some n) [RX_Plus (CC_Not ''/'')] # acc) [])"
    by (subst rx_parse.simps) (simp add: starts_with_def)
  finally show ?thesis .
qed

lemma rx_parse_toks:
  "list_all plain_tok ts \<Longrightarrow>
   rx_parse (concat (map tok_text ts) @ ''$'') k acc [] = Some (rev acc @ toks_rx k ts)"
proof (induction ts arbitrary: k acc)
  case Nil
  then show ?case by (simp add: rx_parse.simps starts_with_def rx_quantifier_def)
next
  case (Cons t ts)
  let ?r = "concat (map tok_text ts) @ ''$''"
  from Cons.prems have t: "plain_tok t" "list_all plain_tok ts" by simp_all
  note ih = Cons.IH [OF t(2)] and q = tok_text_no_quantifier [OF t(2)]
  show ?case
  proof (cases t)
    case (Lit c)
    show ?thesis
    proof (cases "c \<in> set ''/.-_''")
      case True
      then have "\<not> ascii_alphanumeric c" "c \<notin> set ''<>''" "(of_char c :: nat) < 128" by (auto simp: ascii_alphanumeric_def)
      with True Lit rx_parse_literal(2) [OF q] ih show ?thesis by simp
    next
      case False
      with t(1) Lit have "c \<notin> set rx_meta" "(of_char c :: nat) < 128" by (auto simp: rx_meta_def)
      with False Lit rx_parse_literal(1) [OF q] ih show ?thesis by simp
    qed
  next
    case Segment
    with rx_parse_segment(1) [of ?r] q ih show ?thesis by simp
  next
    case Greedy
    have "rx_parse (''.*'' @ ?r) k acc [] = rx_parse ?r k (RX_Star CC_Any # acc) []"
      using q by (subst rx_parse.simps) (simp add: starts_with_def rx_atom_def rx_quantified_def rx_quantifier_def)
    with Greedy ih show ?thesis by simp
  next
    case (Param n)
    with rx_parse_group [of n ?r] q ih t(1) show ?thesis by simp
  qed
qed

lemma rx_names_toks: "rx_names (toks_rx k ts) = zip (tok_params ts) [k..<k + length (tok_params ts)]"
  by (induction k ts rule: toks_rx.induct) (simp_all add: upt_conv_Cons del: upt_Suc)

lemma rx_group_names [simp]: "map fst (rx_names (toks_rx k ts)) = tok_params ts"
  unfolding rx_names_toks by (simp del: upt_Suc)

lemma rx_compile_toks:
  assumes "plain_toks ts"
  shows "rx_compile (''^'' @ concat (map tok_text ts) @ ''$'') = Ok (RX_Begin # toks_rx 1 ts)"
proof -
  have ts: "list_all plain_tok ts" "distinct (tok_params ts)" using assms by (simp_all add: plain_toks_def)
  have "rx_parse (''^'' @ concat (map tok_text ts) @ ''$'') 1 [] [] = Some (RX_Begin # toks_rx 1 ts)"
    using rx_parse_toks [OF ts(1), of 1 "[RX_Begin]"] tok_text_no_quantifier [OF ts(1)]
    by (subst rx_parse.simps) (simp add: starts_with_def)
  with ts(2) show ?thesis by (simp add: rx_compile_def)
qed

text \<open>The groups of a match with the parameters \<open>bs\<close>.\<close>

primrec groups_from :: "nat \<Rightarrow> (string \<times> string) list \<Rightarrow> (nat \<times> string) list \<Rightarrow> (nat \<times> string) list" where
  "groups_from k [] g = g"
| "groups_from k (b # bs) g = groups_from (Suc k) bs ((k, snd b) # g)"

lemma map_of_groups_from:
  "map_of (groups_from k bs g) j = (if k \<le> j \<and> j < k + length bs then Some (snd (bs ! (j - k))) else map_of g j)"
  by (induction bs arbitrary: k g) (auto simp: nth_Cons' Suc_diff_Suc not_less_eq_eq)

lemma cc_has_not [simp]: "cc_has (CC_Not ''/'') = (\<lambda>c. c \<noteq> CHR ''/'')" "cc_has CC_Any = (\<lambda>c. c \<noteq> CHR 0x0A)"
  by (simp_all add: fun_eq_iff)

lemma rx_seq_toks:
  "first_way (rx_seq (toks_rx k ts) (i, s, g)) =
     map_option (\<lambda>bs. (i + length s, [], groups_from k bs g)) (tok_match ts s)"
proof (induction ts arbitrary: k i s g)
  case (Cons t ts)
  have len: "i + length p + length r = i + length s" if "(p, r) \<in> set (greedy_splits P s)" for p r P
    using that by (auto simp: set_greedy_splits)
  show ?case
  proof (cases t)
    case (Lit c)
    with Cons show ?thesis by (cases s) (simp_all add: first_way_concat split: option.split)
  next
    case Segment
    then show ?thesis
      by (simp add: first_way_concat first_some_map Cons case_prod_unfold first_some_map_option [symmetric])
        (rule first_some_cong, auto simp: set_greedy_splits add.assoc)
  next
    case Greedy
    then show ?thesis
      by (simp add: first_way_concat first_some_map Cons case_prod_unfold first_some_map_option [symmetric])
        (rule first_some_cong, auto simp: set_greedy_splits add.assoc)
  next
    case (Param n)
    have "concat (map (\<lambda>x. [f x]) xs) = map f xs" for f :: "rx_state \<Rightarrow> rx_state" and xs by (induction xs) simp_all
    with Param show ?thesis
      by (simp add: first_way_concat first_some_map first_some_filter Cons case_prod_unfold
          first_some_map_option [symmetric] comp_def)
        (rule first_some_cong, auto simp: set_greedy_splits add.assoc option.map_comp comp_def)
  qed
qed simp

lemma rx_search_Begin: "rx_search (RX_Begin # xs) (Suc i) s = None"
  by (induction s arbitrary: i) (simp_all add: rx_search.simps)

lemma map_of_groups:
  assumes "distinct (map fst bs)"
  shows "Option.bind (map_of (zip (map fst bs) [1..<Suc (length bs)]) n) ((map_of (groups_from 1 bs []))(0 \<mapsto> whole)) =
    map_of bs n"
proof (cases "n \<in> set (map fst bs)")
  case True
  then obtain m where m: "m < length bs" "n = map fst bs ! m" by (metis in_set_conv_nth length_map)
  have "map_of (zip (map fst bs) [1..<Suc (length bs)]) n = Some (Suc m)"
    using map_of_zip_nth [OF _ assms, of "[1..<Suc (length bs)]" m] m by (simp del: upt_Suc)
  moreover have "map_of bs n = Some (snd (bs ! m))"
    using assms m by (auto simp: map_of_eq_Some_iff)
  ultimately show ?thesis using m(1) by (simp add: map_of_groups_from)
next
  case False
  then have "map_of bs n = None" by (simp add: map_of_eq_None_iff)
  moreover have "map_of (zip (map fst bs) [1..<Suc (length bs)]) n = None"
    using False by (auto simp: map_of_eq_None_iff dest: set_zip_leftD simp del: upt_Suc)
  ultimately show ?thesis by simp
qed

lemma rx_captures_toks:
  assumes "distinct (tok_params ts)"
  shows "rx_captures (RX_Begin # toks_rx 1 ts) s =
    map_option (\<lambda>bs. \<lparr>cap_end = length s, cap_name = map_of bs\<rparr>) (tok_match ts s)"
proof (cases "rx_seq (toks_rx 1 ts) (0, s, [])")
  case Nil
  with rx_seq_toks [of 1 ts 0 s "[]"] have "tok_match ts s = None" by simp
  moreover have "rx_search (RX_Begin # toks_rx 1 ts) 0 s = None"
    using Nil rx_search_Begin by (simp add: rx_search.simps split: list.split)
  ultimately show ?thesis by (simp add: rx_captures_def)
next
  case (Cons st sts)
  with rx_seq_toks [of 1 ts 0 s "[]"] obtain bs where bs: "tok_match ts s = Some bs"
    "st = (length s, [], groups_from 1 bs [])" by (cases "tok_match ts s") auto
  have names: "map fst bs = tok_params ts" by (rule path_lang_params [OF tok_match_sound [OF bs(1)]])
  then have "length (tok_params ts) = length bs" by (metis length_map)
  then have "map_of (rx_names (RX_Begin # toks_rx 1 ts)) = map_of (zip (map fst bs) [1..<Suc (length bs)])"
    by (simp add: rx_names_toks names)
  moreover have "rx_search (RX_Begin # toks_rx 1 ts) 0 s = Some (0, s, st)"
    using Cons by (simp add: rx_search.simps)
  ultimately show ?thesis
    using map_of_groups [of bs] assms names
    by (simp add: rx_captures_def bs rx_groups_def fun_eq_iff)
qed

text \<open>Everything the crate promises about a pattern, in one place.\<close>

lemma compile_path_pattern_ok:
  assumes "regex_documented R" and "ascii pattern" and "plain_toks (path_tokens pattern)"
  obtains re where "compile_path_pattern uni R pattern = Ok re" and "re_names R re = tok_params (path_tokens pattern)"
    and "\<And>path. ascii path \<Longrightarrow> re_captures R re path =
      map_option (\<lambda>bs. \<lparr>cap_end = length path, cap_name = map_of bs\<rparr>) (tok_match (path_tokens pattern) path)"
proof -
  let ?ts = "path_tokens pattern"
  have d: "distinct (tok_params ?ts)" using assms(3) by (simp add: plain_toks_def)
  from assms(1) rx_compile_toks [OF assms(3)]
  obtain re where re: "re_new R (path_regex uni pattern) = Ok re"
    "re_names R re = map fst (rx_names (RX_Begin # toks_rx 1 ?ts))"
    "\<And>s. ascii s \<Longrightarrow> re_captures R re s = rx_captures (RX_Begin # toks_rx 1 ?ts) s"
    unfolding regex_documented_def path_regex_ascii [OF assms(2)] by metis
  show thesis
  proof (rule that)
    show "compile_path_pattern uni R pattern = Ok re" using re(1) by (simp add: compile_path_pattern_def)
    show "re_names R re = tok_params ?ts" by (simp add: re(2))
    show "re_captures R re path = map_option (\<lambda>bs. \<lparr>cap_end = length path, cap_name = map_of bs\<rparr>) (tok_match ?ts path)"
      if "ascii path" for path
      using re(3) [OF that] rx_captures_toks [OF d] by simp
  qed
qed

lemma compile_path_pattern_lang:
  assumes "regex_documented R" and "ascii pattern" and "plain_toks ts" and "path_tokens pattern = ts"
  obtains re where "compile_path_pattern uni R pattern = Ok re"
    and "\<And>path. ascii path \<Longrightarrow> re_captures R re path \<noteq> None \<longleftrightarrow> (\<exists>bs. path_lang ts path bs)"
proof -
  obtain re where "compile_path_pattern uni R pattern = Ok re"
    "\<And>path. ascii path \<Longrightarrow> re_captures R re path =
      map_option (\<lambda>bs. \<lparr>cap_end = length path, cap_name = map_of bs\<rparr>) (tok_match ts path)"
    using compile_path_pattern_ok [OF assms(1,2)] assms(3,4) by metis
  with tok_match_iff [of ts] that show thesis by simp
qed

text \<open>Literals in front of the tokens of a wildcard.\<close>

lemma path_tokens_literals:
  "list_all (\<lambda>c. plain_tok (Lit c) \<and> c \<noteq> CHR '':'') base \<Longrightarrow>
   path_tokens (base @ s) = map Lit base @ path_tokens s"
  by (induction base) auto

lemma tok_params_literals [simp]: "tok_params (map Lit base @ ts) = tok_params ts"
  by (induction base) simp_all

lemma path_lang_literals: "path_lang (map Lit base @ ts) s bs \<longleftrightarrow> (\<exists>r. s = base @ r \<and> path_lang ts r bs)"
proof (induction base arbitrary: s)
  case (Cons c base)
  then show ?case by (auto intro: lang_Lit elim: path_lang_LitE)
qed simp

lemma path_lang_wildcard:
  "(\<exists>bs. path_lang [Lit (CHR ''/''), Greedy] s bs) \<longleftrightarrow> (\<exists>rest. s = ''/'' @ rest \<and> CHR 0x0A \<notin> set rest)"
  "(\<exists>bs. path_lang [Lit (CHR ''/''), Segment] s bs) \<longleftrightarrow> (\<exists>rest. s = ''/'' @ rest \<and> CHR ''/'' \<notin> set rest)"
proof -
  have n: "list_all (\<lambda>x. x \<noteq> c) p \<longleftrightarrow> c \<notin> set p" for c and p :: string by (auto simp: list_all_iff)
  show "(\<exists>bs. path_lang [Lit (CHR ''/''), Greedy] s bs) \<longleftrightarrow> (\<exists>rest. s = ''/'' @ rest \<and> CHR 0x0A \<notin> set rest)"
    by (simp add: path_lang_simps n)
  show "(\<exists>bs. path_lang [Lit (CHR ''/''), Segment] s bs) \<longleftrightarrow> (\<exists>rest. s = ''/'' @ rest \<and> CHR ''/'' \<notin> set rest)"
    by (simp add: path_lang_simps n)
qed

section \<open>Patterns without wildcards\<close>

fun fill :: "(string \<Rightarrow> string) \<Rightarrow> path_tok list \<Rightarrow> string" where
  "fill f [] = []"
| "fill f (Lit c # ts) = c # fill f ts"
| "fill f (Param n # ts) = f n @ fill f ts"
| "fill f (_ # ts) = fill f ts"

text \<open>No wildcard, and a parameter takes a whole segment.\<close>

fun segmented :: "path_tok list \<Rightarrow> bool" where
  "segmented [] = True"
| "segmented (Lit c # ts) = segmented ts"
| "segmented (Param n # ts) = (take 1 ts \<in> {[], [Lit (CHR ''/'')]} \<and> segmented ts)"
| "segmented (_ # ts) = False"

definition segment_values :: "(string \<Rightarrow> string) \<Rightarrow> path_tok list \<Rightarrow> bool" where
  "segment_values f ts \<longleftrightarrow> (\<forall>n \<in> set (tok_params ts). f n \<noteq> [] \<and> CHR ''/'' \<notin> set (f n) \<and> ascii (f n))"

lemma segment_split:
  assumes "p @ s = q @ r" and "c \<notin> set p" and "c \<notin> set q"
    and "s = [] \<or> (\<exists>s'. s = c # s')" and "r = [] \<or> (\<exists>r'. r = c # r')"
  shows "p = q \<and> s = r"
proof -
  have "takeWhile (\<lambda>x. x \<noteq> c) (p @ s) = p" using assms(2,4) by (subst takeWhile_append2) auto
  moreover have "takeWhile (\<lambda>x. x \<noteq> c) (q @ r) = q" using assms(3,5) by (subst takeWhile_append2) auto
  ultimately show ?thesis using assms(1) by simp
qed

lemma path_lang_head:
  assumes "take 1 ts \<in> {[], [Lit c]}" and "path_lang ts s bs"
  shows "s = [] \<or> (\<exists>s'. s = c # s')"
  using assms by (cases ts) (auto elim: path_lang_NilE path_lang_LitE)

lemma fill_head: "take 1 ts \<in> {[], [Lit c]} \<Longrightarrow> fill f ts = [] \<or> (\<exists>s'. fill f ts = c # s')"
  by (cases ts) auto

lemma path_lang_fill:
  "segmented ts \<Longrightarrow> segment_values f ts \<Longrightarrow> path_lang ts (fill f ts) bs \<longleftrightarrow> bs = map (\<lambda>n. (n, f n)) (tok_params ts)"
proof (induction ts arbitrary: bs)
  case Nil
  then show ?case by (auto elim: path_lang_NilE intro: path_lang.intros)
next
  case (Cons t ts)
  show ?case
  proof (cases t)
    case (Lit c)
    with Cons show ?thesis
      by (auto simp: segment_values_def elim!: path_lang_LitE intro!: path_lang.intros)
  next
    case (Param n)
    with Cons.prems have v: "f n \<noteq> []" "CHR ''/'' \<notin> set (f n)" "take 1 ts \<in> {[], [Lit (CHR ''/'')]}"
      and ts: "segmented ts" "segment_values f ts" by (auto simp: segment_values_def)
    show ?thesis
    proof
      assume "path_lang (t # ts) (fill f (t # ts)) bs"
      with Param have "path_lang (Param n # ts) (f n @ fill f ts) bs" by simp
      then obtain p s bs' where e: "f n @ fill f ts = p @ s" "path_lang ts s bs'" "bs = (n, p) # bs'"
        "list_all (\<lambda>c. c \<noteq> CHR ''/'') p" by (rule path_lang_ParamE) blast
      have "f n = p \<and> fill f ts = s"
        by (rule segment_split [OF e(1) v(2) _ fill_head [OF v(3)] path_lang_head [OF v(3) e(2)]])
          (use e(4) in \<open>auto simp: list_all_iff\<close>)
      with e Cons.IH [OF ts] Param show "bs = map (\<lambda>n. (n, f n)) (tok_params (t # ts))" by simp
    next
      assume "bs = map (\<lambda>n. (n, f n)) (tok_params (t # ts))"
      with Param v Cons.IH [OF ts] show "path_lang (t # ts) (fill f (t # ts)) bs"
        by (auto intro!: path_lang.intros simp: list_all_iff)
    qed
  qed (use Cons.prems in simp_all)
qed

lemma path_lang_is_fill:
  "path_lang ts s bs \<Longrightarrow> segmented ts \<Longrightarrow> distinct (tok_params ts) \<Longrightarrow>
   s = fill (\<lambda>n. the (map_of bs n)) ts"
proof (induction rule: path_lang.induct)
  case (lang_Param ts s bs p n)
  have "fill (\<lambda>m. the (map_of ((n, p) # bs) m)) ts = fill (\<lambda>m. the (map_of bs m)) ts"
    if "n \<notin> set (tok_params ts)" for ts
    using that by (induction ts rule: tok_params.induct) auto
  with lang_Param show ?case by simp
qed simp_all

lemma path_lang_values: "path_lang ts s bs \<Longrightarrow> (n, v) \<in> set bs \<Longrightarrow> v \<noteq> [] \<and> CHR ''/'' \<notin> set v"
  by (induction rule: path_lang.induct) (auto simp: list_all_iff)

section \<open>A crate that keeps the documented behaviour\<close>

definition sample_regex :: "rx list regex_crate" where
  "sample_regex = \<lparr>re_new = rx_compile, re_captures = rx_captures, re_names = (\<lambda>xs. map fst (rx_names xs))\<rparr>"

lemma sample_regex_documented: "regex_documented sample_regex"
  by (simp add: regex_documented_def sample_regex_def)

section \<open>Properties\<close>

text \<open>
  C18. A compiled pattern matches exactly the paths that are instances of it: literal characters
  as they stand (the slash of \<open>/**\<close> too), a \<open>*\<close> within a segment, a \<open>**\<close> over segments, a
  parameter with a non-empty piece of one segment. The match always runs to the end of the path, and the captured
  parameters are those of one such instance.
\<close>

theorem path_pattern_matches:
  assumes "regex_documented R" and "ascii pattern" and "plain_toks (path_tokens pattern)"
  shows "\<exists>re. compile_path_pattern uni R pattern = Ok re \<and> re_names R re = tok_params (path_tokens pattern) \<and>
           (\<forall>path. ascii path \<longrightarrow>
              (re_captures R re path \<noteq> None \<longleftrightarrow> (\<exists>bs. path_lang (path_tokens pattern) path bs))) \<and>
           (\<forall>path caps. ascii path \<longrightarrow> re_captures R re path = Some caps \<longrightarrow>
              cap_end caps = length path \<and>
              (\<exists>bs. path_lang (path_tokens pattern) path bs \<and> cap_name caps = map_of bs))"
proof -
  obtain re where re: "compile_path_pattern uni R pattern = Ok re" "re_names R re = tok_params (path_tokens pattern)"
    "\<And>path. ascii path \<Longrightarrow> re_captures R re path =
      map_option (\<lambda>bs. \<lparr>cap_end = length path, cap_name = map_of bs\<rparr>) (tok_match (path_tokens pattern) path)"
    using compile_path_pattern_ok [OF assms] by blast
  have "re_captures R re path \<noteq> None \<longleftrightarrow> (\<exists>bs. path_lang (path_tokens pattern) path bs)" if "ascii path" for path
    using tok_match_iff [of "path_tokens pattern" path] by (simp add: re(3) [OF that])
  moreover have "cap_end caps = length path \<and>
      (\<exists>bs. path_lang (path_tokens pattern) path bs \<and> cap_name caps = map_of bs)"
    if "ascii path" "re_captures R re path = Some caps" for path caps
    using that(2) by (auto simp: re(3) [OF that(1)] intro: tok_match_sound)
  ultimately show ?thesis using re(1,2) by blast
qed

theorem path_pattern_matches_witness:
  "\<exists>re. compile_path_pattern (\<lambda>_. False) sample_regex ''/api/:version/users/:id'' = Ok re \<and>
        re_captures sample_regex re ''/api/v1/users/123'' \<noteq> None"
proof -
  have p: "ascii ''/api/:version/users/:id''" "plain_toks (path_tokens ''/api/:version/users/:id'')" by code_simp+
  have a: "ascii ''/api/v1/users/123''" by code_simp
  have "tok_match (path_tokens ''/api/:version/users/:id'') ''/api/v1/users/123'' =
      Some [(''version'', ''v1''), (''id'', ''123'')]" by code_simp
  then have "path_lang (path_tokens ''/api/:version/users/:id'') ''/api/v1/users/123''
      [(''version'', ''v1''), (''id'', ''123'')]" by (rule tok_match_sound)
  with path_pattern_matches [OF sample_regex_documented p, of "\<lambda>_. False"] a show ?thesis by blast
qed

text \<open>
  C19. What a wildcard at the end of a pattern covers. After a literal base, \<open>/**\<close> matches
  the base, a slash and whatever follows in the line, also nothing; so \<open>/api/**\<close> does not match
  \<open>/api\<close>, as the documentation of routing patterns says it does. And \<open>/*\<close> matches the base, a
  slash and one segment, which may be empty.
\<close>

theorem wildcard_needs_slash:
  assumes "regex_documented R" and "list_all (\<lambda>c. plain_tok (Lit c) \<and> c \<noteq> CHR '':'') base"
  shows "\<exists>deep single. compile_path_pattern uni R (base @ ''/**'') = Ok deep \<and>
           compile_path_pattern uni R (base @ ''/*'') = Ok single \<and>
           re_captures R deep base = None \<and>
           (\<forall>path. ascii path \<longrightarrow>
              (re_captures R deep path \<noteq> None \<longleftrightarrow> (\<exists>rest. path = base @ ''/'' @ rest \<and> CHR 0x0A \<notin> set rest)) \<and>
              (re_captures R single path \<noteq> None \<longleftrightarrow> (\<exists>rest. path = base @ ''/'' @ rest \<and> CHR ''/'' \<notin> set rest)))"
proof -
  have a: "ascii base" using assms(2) by (auto simp: ascii_def list_all_iff)
  have t: "path_tokens (base @ ''/**'') = map Lit base @ [Lit (CHR ''/''), Greedy]"
    "path_tokens (base @ ''/*'') = map Lit base @ [Lit (CHR ''/''), Segment]"
    using path_tokens_literals [OF assms(2)] by simp_all
  have "list_all plain_tok (map Lit base)"
    using assms(2) unfolding list.pred_map by (rule list.pred_mono_strong) (simp only: comp_apply)
  then have p: "plain_toks (map Lit base @ [Lit (CHR ''/''), w])" if "w \<in> {Greedy, Segment}" for w
    using that by (auto simp: plain_toks_def)
  obtain deep where deep: "compile_path_pattern uni R (base @ ''/**'') = Ok deep"
    "\<And>path. ascii path \<Longrightarrow> re_captures R deep path \<noteq> None \<longleftrightarrow>
       (\<exists>bs. path_lang (map Lit base @ [Lit (CHR ''/''), Greedy]) path bs)"
    by (rule compile_path_pattern_lang [OF assms(1), of "base @ ''/**''" _ uni, OF _ p t(1)]) (use a in auto)
  obtain single where single: "compile_path_pattern uni R (base @ ''/*'') = Ok single"
    "\<And>path. ascii path \<Longrightarrow> re_captures R single path \<noteq> None \<longleftrightarrow>
       (\<exists>bs. path_lang (map Lit base @ [Lit (CHR ''/''), Segment]) path bs)"
    by (rule compile_path_pattern_lang [OF assms(1), of "base @ ''/*''" _ uni, OF _ p t(2)]) (use a in auto)
  have pre: "(\<exists>bs. path_lang (map Lit base @ ts) path bs) \<longleftrightarrow> (\<exists>r. path = base @ r \<and> (\<exists>bs. path_lang ts r bs))" for ts path
    unfolding path_lang_literals by blast
  note deep = deep [unfolded pre path_lang_wildcard] and single = single [unfolded pre path_lang_wildcard]
  have "re_captures R deep base = None"
    using deep(2) [OF a] by simp
  moreover have "re_captures R deep path \<noteq> None \<longleftrightarrow> (\<exists>rest. path = base @ ''/'' @ rest \<and> CHR 0x0A \<notin> set rest)"
    "re_captures R single path \<noteq> None \<longleftrightarrow> (\<exists>rest. path = base @ ''/'' @ rest \<and> CHR ''/'' \<notin> set rest)"
    if "ascii path" for path
    unfolding deep(2) [OF that] single(2) [OF that] by blast+
  ultimately show ?thesis using deep(1) single(1) by blast
qed

theorem wildcard_needs_slash_witness:
  "\<exists>re. compile_path_pattern (\<lambda>_. False) sample_regex ''/api/**'' = Ok re \<and>
        re_captures sample_regex re ''/api'' = None \<and> re_captures sample_regex re ''/api/users/123'' \<noteq> None"
proof -
  have p: "list_all (\<lambda>c. plain_tok (Lit c) \<and> c \<noteq> CHR '':'') ''/api''" by code_simp
  let ?path = "''/api'' @ ''/'' @ ''users/123''"
  have a: "ascii ?path" and n: "CHR 0x0A \<notin> set ''users/123''" by code_simp+
  from wildcard_needs_slash [OF sample_regex_documented p, of "\<lambda>_. False"] show ?thesis
  proof (elim exE conjE)
    fix re single
    assume re: "compile_path_pattern (\<lambda>_. False) sample_regex (''/api'' @ ''/**'') = Ok re"
      "re_captures sample_regex re ''/api'' = None"
      and all: "\<forall>path. ascii path \<longrightarrow>
         (re_captures sample_regex re path \<noteq> None \<longleftrightarrow> (\<exists>rest. path = ''/api'' @ ''/'' @ rest \<and> CHR 0x0A \<notin> set rest)) \<and>
         (re_captures sample_regex single path \<noteq> None \<longleftrightarrow> (\<exists>rest. path = ''/api'' @ ''/'' @ rest \<and> CHR ''/'' \<notin> set rest))"
    from all [THEN spec, THEN mp, OF a, THEN conjunct1] n have "re_captures sample_regex re ?path \<noteq> None"
      by (metis append_assoc)
    with re show ?thesis by simp
  qed
qed

text \<open>
  For a pattern without wildcards whose parameters take whole segments, filling in values
  and matching are inverse: the filled path matches with exactly those values, and a path that
  matches is the pattern filled with the captured values, each non-empty and without a slash.
\<close>

lemma path_params_roundtrip:
  assumes "regex_documented R" and "ascii pattern" and "plain_toks (path_tokens pattern)"
    and "segmented (path_tokens pattern)" and "compile_path_pattern uni R pattern = Ok re"
  shows "(\<forall>f. segment_values f (path_tokens pattern) \<longrightarrow>
            (\<exists>caps. re_captures R re (fill f (path_tokens pattern)) = Some caps \<and>
               (\<forall>n \<in> set (tok_params (path_tokens pattern)). cap_name caps n = Some (f n)))) \<and>
         (\<forall>path caps. ascii path \<longrightarrow> re_captures R re path = Some caps \<longrightarrow>
            path = fill (\<lambda>n. the (cap_name caps n)) (path_tokens pattern) \<and>
            (\<forall>n v. cap_name caps n = Some v \<longrightarrow> v \<noteq> [] \<and> CHR ''/'' \<notin> set v))"
proof (intro conjI allI impI)
  let ?ts = "path_tokens pattern"
  obtain re' where "compile_path_pattern uni R pattern = Ok re'"
    and re': "\<And>path. ascii path \<Longrightarrow> re_captures R re' path =
      map_option (\<lambda>bs. \<lparr>cap_end = length path, cap_name = map_of bs\<rparr>) (tok_match ?ts path)"
    using compile_path_pattern_ok [OF assms(1-3)] by blast
  then have re: "\<And>path. ascii path \<Longrightarrow> re_captures R re path =
      map_option (\<lambda>bs. \<lparr>cap_end = length path, cap_name = map_of bs\<rparr>) (tok_match ?ts path)"
    using assms(5) by simp
  have d: "distinct (tok_params ?ts)" using assms(3) by (simp add: plain_toks_def)
  {
    fix f
    assume f: "segment_values f ?ts"
    have "ascii (fill f ts)" if "list_all plain_tok ts" "segment_values f ts" for ts
      using that by (induction ts rule: tok_params.induct) (auto simp: segment_values_def split: if_splits)
    then have a: "ascii (fill f ?ts)" using assms(3) f by (simp add: plain_toks_def)
    from path_lang_fill [OF assms(4) f] tok_match_iff [of ?ts "fill f ?ts"] tok_match_sound [of ?ts "fill f ?ts"]
    have "tok_match ?ts (fill f ?ts) = Some (map (\<lambda>n. (n, f n)) (tok_params ?ts))" by auto
    then show "\<exists>caps. re_captures R re (fill f ?ts) = Some caps \<and>
        (\<forall>n \<in> set (tok_params ?ts). cap_name caps n = Some (f n))"
      by (simp add: re [OF a] map_of_map_restrict)
  }
  fix path caps
  assume a: "ascii path" and c: "re_captures R re path = Some caps"
  then obtain bs where bs: "path_lang ?ts path bs" "cap_name caps = map_of bs"
    by (auto simp: re [OF a] dest: tok_match_sound)
  then show "path = fill (\<lambda>n. the (cap_name caps n)) ?ts"
    using path_lang_is_fill [OF bs(1) assms(4) d] by simp
  fix n v
  assume "cap_name caps n = Some v"
  then have "(n, v) \<in> set bs" using bs(2) map_of_SomeD by metis
  with path_lang_values [OF bs(1)] show "v \<noteq> []" "CHR ''/'' \<notin> set v" by blast+
qed

end
