(* ===== verification/Routing.thy ===== *)
theory Routing
  imports Path_Pattern Hash_Map Proxy_Store
begin

text \<open>
  Routing of \<open>src/proxy/mod.rs\<close>: compiled routes and the router of a namespace, the match of a
  domain pattern, the choice of the namespace of a host, and the path a request is forwarded to.
\<close>

section \<open>Routes\<close>

record 'r compiled_route =
  cpr_route :: route
  cpr_namespace :: namespace
  cpr_service :: "service option"
  cpr_modules :: "module list"
  cpr_path_patterns :: "'r list"
  cpr_methods :: "string list"

text \<open>The parameters of the first pattern that matches; names without a group are left out.\<close>

definition capture_params :: "'r regex_crate \<Rightarrow> key_placement \<Rightarrow> 'r \<Rightarrow> captures \<Rightarrow> string hash_map" where
  "capture_params R place pattern caps =
     fold (\<lambda>name params. case cap_name caps name of Some value \<Rightarrow> hash_insert place name value params | None \<Rightarrow> params)
       (re_names R pattern) []"

fun match_patterns :: "'r regex_crate \<Rightarrow> key_placement \<Rightarrow> string \<Rightarrow> 'r list \<Rightarrow> string hash_map option" where
  "match_patterns R place path [] = None"
| "match_patterns R place path (pattern # patterns) =
     (case re_captures R pattern path of
        Some caps \<Rightarrow> Some (capture_params R place pattern caps)
      | None \<Rightarrow> match_patterns R place path patterns)"

definition route_matches ::
  "'r regex_crate \<Rightarrow> key_placement \<Rightarrow> 'r compiled_route \<Rightarrow> string \<Rightarrow> string \<Rightarrow> string hash_map option" where
  "route_matches R place r path meth =
     (if \<not> list_ex (\<lambda>m. m = ''*'' \<or> eq_ignore_ascii_case m meth) (cpr_methods r) then None
      else match_patterns R place path (cpr_path_patterns r))"

record 'r ns_router =
  nr_namespace :: namespace
  nr_routes :: "'r compiled_route list"

definition ns_router_new :: "namespace \<Rightarrow> 'r ns_router" where
  "ns_router_new namespace = \<lparr>nr_namespace = namespace, nr_routes = []\<rparr>"

definition ns_router_add :: "'r compiled_route \<Rightarrow> 'r ns_router \<Rightarrow> 'r ns_router" where
  "ns_router_add compiled router = router\<lparr>nr_routes := nr_routes router @ [compiled]\<rparr>"

fun find_route_in ::
  "'r regex_crate \<Rightarrow> key_placement \<Rightarrow> string \<Rightarrow> string \<Rightarrow> 'r compiled_route list \<Rightarrow>
   ('r compiled_route \<times> string hash_map) option" where
  "find_route_in R place path meth [] = None"
| "find_route_in R place path meth (r # rs) =
     (case route_matches R place r path meth of
        Some params \<Rightarrow> Some (r, params)
      | None \<Rightarrow> find_route_in R place path meth rs)"

definition find_route ::
  "'r regex_crate \<Rightarrow> key_placement \<Rightarrow> 'r ns_router \<Rightarrow> string \<Rightarrow> string \<Rightarrow> ('r compiled_route \<times> string hash_map) option" where
  "find_route R place router path meth = find_route_in R place path meth (nr_routes router)"

section \<open>Domains\<close>

definition matches_pattern :: "string \<Rightarrow> string \<Rightarrow> bool" where
  "matches_pattern pattern host =
     (if pattern = ''*'' then True
      else let pattern_parts = split_on (CHR ''.'') pattern; host_parts = split_on (CHR ''.'') host
           in if length pattern_parts \<noteq> length host_parts then False
              else list_all (\<lambda>(p, h). \<not> (p \<noteq> ''*'' \<and> \<not> eq_ignore_ascii_case p h)) (zip pattern_parts host_parts))"

text \<open>\<open>resolved.sort_by(|a, b| b.domain.priority.cmp(&a.domain.priority))\<close>, a stable sort.\<close>

definition sort_domains :: "resolved_domain list \<Rightarrow> resolved_domain list" where
  "sort_domains = sort_key (\<lambda>d. - dom_priority (rd_domain d))"

text \<open>The loop over the domains and their patterns.\<close>

fun match_domains :: "string \<Rightarrow> resolved_domain list \<Rightarrow> namespace option" where
  "match_domains host [] = None"
| "match_domains host (d # ds) =
     (if list_ex (\<lambda>pattern. matches_pattern pattern host) (dom_patterns (rd_domain d)) then Some (rd_namespace d)
      else match_domains host ds)"

section \<open>The forwarded path\<close>

definition stripped :: "captures \<Rightarrow> string \<Rightarrow> string" where
  "stripped caps path =
     (let target = drop (cap_end caps) path in if starts_with target ''/'' then target else ''/'' @ target)"

fun strip_prefix_of :: "'r regex_crate \<Rightarrow> string \<Rightarrow> 'r list \<Rightarrow> string" where
  "strip_prefix_of R path [] = path"
| "strip_prefix_of R path (pattern # patterns) =
     (case re_captures R pattern path of
        Some caps \<Rightarrow> stripped caps path
      | None \<Rightarrow> strip_prefix_of R path patterns)"

definition target_path :: "'r regex_crate \<Rightarrow> 'r compiled_route \<Rightarrow> string \<Rightarrow> string" where
  "target_path R r path =
     (if rt_strip_path (cpr_route r) then strip_prefix_of R path (cpr_path_patterns r) else path)"

section \<open>Facts\<close>

lemma find_route_in_Some:
  "find_route_in R place path meth rs = Some (r, params) \<longleftrightarrow>
   (\<exists>us ws. rs = us @ r # ws \<and> (\<forall>u \<in> set us. route_matches R place u path meth = None) \<and>
            route_matches R place r path meth = Some params)"
proof (induction rs)
  case (Cons x rs)
  show ?case
  proof (cases "route_matches R place x path meth")
    case None
    show ?thesis
    proof
      assume "find_route_in R place path meth (x # rs) = Some (r, params)"
      with None Cons.IH obtain us ws where "rs = us @ r # ws" "\<forall>u \<in> set us. route_matches R place u path meth = None"
        "route_matches R place r path meth = Some params" by auto
      with None show "\<exists>us ws. x # rs = us @ r # ws \<and> (\<forall>u \<in> set us. route_matches R place u path meth = None) \<and>
          route_matches R place r path meth = Some params"
        by (intro exI [of _ "x # us"] exI [of _ ws]) simp
    next
      assume "\<exists>us ws. x # rs = us @ r # ws \<and> (\<forall>u \<in> set us. route_matches R place u path meth = None) \<and>
          route_matches R place r path meth = Some params"
      then obtain us ws where e: "x # rs = us @ r # ws" "\<forall>u \<in> set us. route_matches R place u path meth = None"
        "route_matches R place r path meth = Some params" by blast
      with None obtain us' where "us = x # us'" by (cases us) auto
      with e None Cons.IH show "find_route_in R place path meth (x # rs) = Some (r, params)" by auto
    qed
  next
    case (Some p)
    then show ?thesis
      by (auto simp: Cons_eq_append_conv)
  qed
qed simp

lemma find_route_in_None: "find_route_in R place path meth rs = None \<longleftrightarrow> (\<forall>r \<in> set rs. route_matches R place r path meth = None)"
  by (induction rs) (auto split: option.splits)

lemma match_domains_None:
  "match_domains host ds = None \<longleftrightarrow>
   (\<forall>d \<in> set ds. \<forall>p \<in> set (dom_patterns (rd_domain d)). \<not> matches_pattern p host)"
  by (induction ds) (auto simp: list_ex_iff)

lemma match_domains_Some:
  "match_domains host ds = Some ns \<Longrightarrow>
   \<exists>us d ws. ds = us @ d # ws \<and> rd_namespace d = ns \<and>
     (\<exists>p \<in> set (dom_patterns (rd_domain d)). matches_pattern p host) \<and>
     (\<forall>u \<in> set us. \<forall>p \<in> set (dom_patterns (rd_domain u)). \<not> matches_pattern p host)"
proof (induction ds)
  case (Cons x ds)
  show ?case
  proof (cases "list_ex (\<lambda>p. matches_pattern p host) (dom_patterns (rd_domain x))")
    case True
    with Cons.prems show ?thesis
      by (intro exI [of _ "[]"] exI [of _ x] exI [of _ ds]) (auto simp: list_ex_iff)
  next
    case False
    with Cons obtain us d ws where "ds = us @ d # ws" "rd_namespace d = ns"
      "\<exists>p \<in> set (dom_patterns (rd_domain d)). matches_pattern p host"
      "\<forall>u \<in> set us. \<forall>p \<in> set (dom_patterns (rd_domain u)). \<not> matches_pattern p host" by auto
    with False show ?thesis
      by (intro exI [of _ "x # us"] exI [of _ d] exI [of _ ws]) (auto simp: list_ex_iff)
  qed
qed simp

text \<open>The sorted list has the same domains, the higher priorities first, equals in their order.\<close>

lemma sort_domains_set [simp]: "set (sort_domains ds) = set ds"
  by (simp add: sort_domains_def)

lemma sort_domains_sorted: "sorted_wrt (\<lambda>a b. dom_priority (rd_domain b) \<le> dom_priority (rd_domain a)) (sort_domains ds)"
proof -
  have "sorted (map (\<lambda>d. - dom_priority (rd_domain d)) (sort_domains ds))"
    by (simp add: sort_domains_def)
  then show ?thesis by (simp add: sorted_map)
qed

lemma sort_domains_stable:
  "filter (\<lambda>d. dom_priority (rd_domain d) = k) (sort_domains ds) = filter (\<lambda>d. dom_priority (rd_domain d) = k) ds"
  using sort_key_stable [of "\<lambda>d. - dom_priority (rd_domain d)" "- k" ds] by (simp add: sort_domains_def)

lemma match_patterns_Some:
  "match_patterns R place path ps = Some params \<Longrightarrow> \<exists>p \<in> set ps. re_captures R p path \<noteq> None"
  by (induction ps) (auto split: option.splits)

text \<open>The patterns of a compiled route that the crate documents end every match at the end of the path.\<close>

definition documented_pattern :: "(string \<Rightarrow> bool) \<Rightarrow> 'r regex_crate \<Rightarrow> 'r \<Rightarrow> bool" where
  "documented_pattern uni R re \<longleftrightarrow>
     (\<exists>pattern. ascii pattern \<and> plain_toks (path_tokens pattern) \<and> compile_path_pattern uni R pattern = Ok re)"

lemma documented_pattern_end:
  assumes "regex_documented R" and "documented_pattern uni R re" and "ascii path"
    and "re_captures R re path = Some caps"
  shows "cap_end caps = length path"
proof -
  from assms(2) obtain pattern where p: "ascii pattern" "plain_toks (path_tokens pattern)"
    "compile_path_pattern uni R pattern = Ok re" unfolding documented_pattern_def by blast
  show ?thesis
    by (rule compile_path_pattern_ok [OF assms(1) p(1,2), of uni]) (use p(3) assms(3,4) in auto)
qed

lemma strip_prefix_documented:
  assumes "regex_documented R" and "\<forall>re \<in> set ps. documented_pattern uni R re" and "ascii path"
    and "match_patterns R place path ps = Some params"
  shows "strip_prefix_of R path ps = ''/''"
  using assms(2,4)
proof (induction ps)
  case (Cons p ps)
  show ?case
  proof (cases "re_captures R p path")
    case (Some caps)
    then have "cap_end caps = length path"
      using documented_pattern_end [OF assms(1) _ assms(3)] Cons.prems(1) by auto
    with Some show ?thesis by (simp add: stripped_def starts_with_def)
  next
    case None
    with Cons show ?thesis by simp
  qed
qed simp

lemma split_on_append: "c \<notin> set l \<Longrightarrow> split_on c (l @ c # d) = l # split_on c d"
  by (induction l) auto

lemma split_on_labels: "p \<in> set (split_on c s) \<Longrightarrow> c \<notin> set p"
  by (induction s arbitrary: p) (auto split: if_splits list.splits)

lemma split_on_lower:
  "split_on (CHR ''.'') (to_ascii_lowercase s) = map to_ascii_lowercase (split_on (CHR ''.'') s)"
proof (induction s)
  case Nil
  then show ?case by (simp add: to_ascii_lowercase_def)
next
  case (Cons c s)
  have "ascii_lower c = CHR ''.'' \<longleftrightarrow> c = CHR ''.''"
  proof
    assume a: "ascii_lower c = CHR ''.''"
    show "c = CHR ''.''"
    proof (cases "65 \<le> (of_char c :: nat) \<and> (of_char c :: nat) \<le> 90")
      case True
      then have "(of_char (ascii_lower c) :: nat) = of_char c + 32" by (simp add: ascii_lower_def)
      with a True show ?thesis by simp
    next
      case False
      with a show ?thesis by (auto simp: ascii_lower_def Let_def)
    qed
  qed (simp add: ascii_lower_def)
  with Cons show ?case
    by (cases "split_on (CHR ''.'') s") (auto simp: to_ascii_lowercase_def)
qed

lemma eq_ignore_case_labels:
  "eq_ignore_ascii_case a b \<longleftrightarrow>
   list_all2 eq_ignore_ascii_case (split_on (CHR ''.'') a) (split_on (CHR ''.'') b)"
proof
  assume "eq_ignore_ascii_case a b"
  then have "map to_ascii_lowercase (split_on (CHR ''.'') a) = map to_ascii_lowercase (split_on (CHR ''.'') b)"
    by (simp add: eq_ignore_ascii_case_def split_on_lower [symmetric])
  then show "list_all2 eq_ignore_ascii_case (split_on (CHR ''.'') a) (split_on (CHR ''.'') b)"
    by (simp add: list_all2_conv_all_nth eq_ignore_ascii_case_def list_eq_iff_nth_eq)
next
  assume "list_all2 eq_ignore_ascii_case (split_on (CHR ''.'') a) (split_on (CHR ''.'') b)"
  then have "map to_ascii_lowercase (split_on (CHR ''.'') a) = map to_ascii_lowercase (split_on (CHR ''.'') b)"
    by (simp add: list_all2_conv_all_nth eq_ignore_ascii_case_def list_eq_iff_nth_eq)
  then have "split_on (CHR ''.'') (to_ascii_lowercase a) = split_on (CHR ''.'') (to_ascii_lowercase b)"
    by (simp add: split_on_lower)
  then have "to_ascii_lowercase a = to_ascii_lowercase b" by (metis join_split_on)
  then show "eq_ignore_ascii_case a b" by (simp add: eq_ignore_ascii_case_def)
qed

lemma matches_labels:
  "pattern \<noteq> ''*'' \<Longrightarrow> matches_pattern pattern host \<longleftrightarrow>
   list_all2 (\<lambda>p h. p = ''*'' \<or> eq_ignore_ascii_case p h) (split_on (CHR ''.'') pattern) (split_on (CHR ''.'') host)"
  by (auto simp: matches_pattern_def Let_def list_all2_iff list_all_iff)

lemma matches_literal:
  assumes "''*'' \<notin> set (split_on (CHR ''.'') d)"
  shows "list_all2 (\<lambda>p h. p = ''*'' \<or> eq_ignore_ascii_case p h) (split_on (CHR ''.'') d) hs \<longleftrightarrow>
    list_all2 eq_ignore_ascii_case (split_on (CHR ''.'') d) hs"
  using assms by (auto simp: list_all2_conv_all_nth in_set_conv_nth)

section \<open>Properties\<close>

text \<open>
  A pattern \<open>*.d\<close> matches exactly the hosts with one label in front of \<open>d\<close>, upper or lower
  case: not \<open>d\<close> itself, and no deeper subdomain.
\<close>

lemma wildcard_subdomain:
  assumes "''*'' \<notin> set (split_on (CHR ''.'') d)"
  shows "matches_pattern (''*.'' @ d) host \<longleftrightarrow>
         (\<exists>label rest. host = label @ ''.'' @ rest \<and> CHR ''.'' \<notin> set label \<and> eq_ignore_ascii_case d rest)"
proof -
  have s: "split_on (CHR ''.'') (''*.'' @ d) = ''*'' # split_on (CHR ''.'') d"
    using split_on_append [of "CHR ''.''" "''*''" d] by simp
  have m: "matches_pattern (''*.'' @ d) host \<longleftrightarrow>
      (\<exists>h hs. split_on (CHR ''.'') host = h # hs \<and> list_all2 eq_ignore_ascii_case (split_on (CHR ''.'') d) hs)"
    by (subst matches_labels) (auto simp: s matches_literal [OF assms] list_all2_Cons1 simp del: append.simps append_Cons)
  show ?thesis
  proof
    assume "matches_pattern (''*.'' @ d) host"
    then obtain h hs where h: "split_on (CHR ''.'') host = h # hs"
      "list_all2 eq_ignore_ascii_case (split_on (CHR ''.'') d) hs" using m by blast
    then have "hs \<noteq> []" by auto
    then have host: "host = h @ ''.'' @ join ''.'' hs"
      using join_split_on [of "CHR ''.''" host] h(1) by (cases hs) auto
    moreover have label: "CHR ''.'' \<notin> set h" using split_on_labels [of h "CHR ''.''" host] h(1) by simp
    moreover have "split_on (CHR ''.'') (join ''.'' hs) = hs"
    proof -
      have "h # split_on (CHR ''.'') (join ''.'' hs) = split_on (CHR ''.'') (h @ CHR ''.'' # join ''.'' hs)"
        using label by (simp add: split_on_append)
      also have "\<dots> = h # hs" using h(1) unfolding host by simp
      finally show ?thesis by simp
    qed
    then have "eq_ignore_ascii_case d (join ''.'' hs)" using h(2) by (simp add: eq_ignore_case_labels)
    ultimately show "\<exists>label rest. host = label @ ''.'' @ rest \<and> CHR ''.'' \<notin> set label \<and> eq_ignore_ascii_case d rest"
      by blast
  next
    assume "\<exists>label rest. host = label @ ''.'' @ rest \<and> CHR ''.'' \<notin> set label \<and> eq_ignore_ascii_case d rest"
    then obtain label rest where "host = label @ ''.'' @ rest" "CHR ''.'' \<notin> set label" "eq_ignore_ascii_case d rest" by blast
    then show "matches_pattern (''*.'' @ d) host"
      unfolding m by (simp add: split_on_append eq_ignore_case_labels)
  qed
qed

text \<open>
  C36. The namespace chosen for a host by its domains is that of a domain with a matching
  pattern, and no domain with a matching pattern has a higher priority; there is none exactly
  when no domain matches.
\<close>

theorem domain_choice:
  "(case match_domains host (sort_domains ds) of
      None \<Rightarrow> \<forall>d \<in> set ds. \<forall>p \<in> set (dom_patterns (rd_domain d)). \<not> matches_pattern p host
    | Some ns \<Rightarrow> \<exists>d \<in> set ds. rd_namespace d = ns \<and> (\<exists>p \<in> set (dom_patterns (rd_domain d)). matches_pattern p host) \<and>
        (\<forall>d' \<in> set ds. (\<exists>p \<in> set (dom_patterns (rd_domain d')). matches_pattern p host) \<longrightarrow>
           dom_priority (rd_domain d') \<le> dom_priority (rd_domain d)))"
proof (cases "match_domains host (sort_domains ds)")
  case None
  then have "\<forall>d \<in> set ds. \<forall>p \<in> set (dom_patterns (rd_domain d)). \<not> matches_pattern p host"
    by (simp add: match_domains_None)
  with None show ?thesis by simp
next
  case (Some ns)
  then obtain us d ws where d: "sort_domains ds = us @ d # ws" "rd_namespace d = ns"
    "\<exists>p \<in> set (dom_patterns (rd_domain d)). matches_pattern p host"
    "\<forall>u \<in> set us. \<forall>p \<in> set (dom_patterns (rd_domain u)). \<not> matches_pattern p host"
    using match_domains_Some by blast
  have mem: "set ds = set us \<union> {d} \<union> set ws" using arg_cong [OF d(1), of set] by auto
  have "dom_priority (rd_domain d') \<le> dom_priority (rd_domain d)" if "d' \<in> set ws" for d'
    using sort_domains_sorted [of ds] that unfolding d(1) by (simp add: sorted_wrt_append)
  with d mem Some show ?thesis by auto
qed

definition low_domain :: resolved_domain where
  "low_domain = \<lparr>rd_domain = (domain_new ''low'' ''a'')\<lparr>dom_patterns := [''*'']\<rparr>, rd_namespace = namespace_new ''a''\<rparr>"

definition high_domain :: resolved_domain where
  "high_domain =
     \<lparr>rd_domain = (domain_new ''high'' ''b'')\<lparr>dom_patterns := [''*.x''], dom_priority := 9\<rparr>, rd_namespace = namespace_new ''b''\<rparr>"

theorem domain_choice_witness:
  "match_domains ''w.x'' (sort_domains [low_domain, high_domain]) = Some (namespace_new ''b'')"
proof -
  have m: "matches_pattern ''*.x'' ''w.x''" by code_simp
  have n: "match_domains ''w.x'' (sort_domains [low_domain, high_domain]) \<noteq> None"
    using m by (auto simp: match_domains_None high_domain_def domain_new_def)
  then obtain ns where ns: "match_domains ''w.x'' (sort_domains [low_domain, high_domain]) = Some ns" by auto
  have "ns \<noteq> rd_namespace low_domain"
    using domain_choice [of "[low_domain, high_domain]" "''w.x''"] m unfolding ns
    by (auto simp: low_domain_def high_domain_def domain_new_def namespace_new_def)
  then have "ns = rd_namespace high_domain"
    using domain_choice [of "[low_domain, high_domain]" "''w.x''"] unfolding ns by auto
  then show ?thesis using ns by (simp add: high_domain_def)
qed

text \<open>
  Stripping the path of a route always forwards to \<open>/\<close>: the compiled patterns match to the
  end of the path, so nothing is left after the match, whatever followed the fixed prefix.
\<close>

lemma strip_path_forwards_root:
  assumes "regex_documented R" and "\<forall>re \<in> set (cpr_path_patterns r). documented_pattern uni R re"
    and "ascii path" and "route_matches R place r path meth = Some params"
  shows "target_path R r path = (if rt_strip_path (cpr_route r) then ''/'' else path)"
proof -
  from assms(4) have "match_patterns R place path (cpr_path_patterns r) = Some params"
    by (simp add: route_matches_def split: if_splits)
  from strip_prefix_documented [OF assms(1-3) this] show ?thesis by (simp add: target_path_def)
qed

end
