(* ===== verification/Modules.thy ===== *)
theory Modules
  imports Hash_Map Proxy_Store
begin

text \<open>
  JavaScript modules, \<open>src/modules/mod.rs\<close>: the executor that holds the decoded sources, and the
  execution of a request's modules. QuickJS is the record \<open>js_engine\<close>; the program texts the code
  gives it are the datatype \<open>script\<close>, one constructor per template with what the code inserts
  into it. \<open>serde_json::Value\<close> is the record \<open>json_api\<close> over the value type \<open>'j\<close>.
\<close>

section \<open>Parameters\<close>

record 'j json_api =
  jv_null :: 'j
  jv_string :: "string \<Rightarrow> 'j"
  jv_u64 :: "u64 \<Rightarrow> 'j"
  jv_object :: "(string \<times> 'j) list \<Rightarrow> 'j"
  jv_index :: "'j \<Rightarrow> string \<Rightarrow> 'j"
  jv_as_str :: "'j \<Rightarrow> string option"
  jv_as_u64 :: "'j \<Rightarrow> u64 option"
  jv_as_object :: "'j \<Rightarrow> (string \<times> 'j) list option"
  jv_from_str :: "string \<Rightarrow> string + 'j"
  jv_quote :: "string \<Rightarrow> string + string"

text \<open>The programs: globals, contexts, the module templates, and what is read back.\<close>

datatype 'j script =
    JS_Console
  | JS_Base64
  | JS_Request_Context 'j
  | JS_Response_Writer
  | JS_Response_Context 'j
  | JS_Request_Modifier string
  | JS_Request_Handler string
  | JS_Response_Modifier string
  | JS_Error_Handler string string
  | JS_Fetch_Upstream_Url string
  | JS_Extract_Request
  | JS_Extract_Response
  | JS_Extract_Response_Context

record ('e, 'v, 'j) js_engine =
  je_runtime :: "string + unit"
  je_context :: "string + 'e"
  je_eval :: "'e \<Rightarrow> 'j script \<Rightarrow> (string + 'v) \<times> 'e"
  je_string :: "'v \<Rightarrow> string + string"
  je_is_null :: "'v \<Rightarrow> bool"
  je_is_undefined :: "'v \<Rightarrow> bool"
  je_as_string :: "'v \<Rightarrow> (string + string) option"

section \<open>Types\<close>

datatype module_func_type = RequestModifier | ResponseModifier | RequestHandler | ErrorHandler | FetchUpstreamUrl

fun export_name :: "module_func_type \<Rightarrow> string" where
  "export_name RequestModifier = ''requestModifier''"
| "export_name ResponseModifier = ''responseModifier''"
| "export_name RequestHandler = ''requestHandler''"
| "export_name ErrorHandler = ''errorHandler''"
| "export_name FetchUpstreamUrl = ''fetchUpstreamUrl''"

record 'j request_context =
  rc_method :: string
  rc_path :: string
  rc_query :: "string hash_map"
  rc_headers :: "string hash_map"
  rc_body :: "bytes option"
  rc_params :: "string hash_map"
  rc_route_name :: string
  rc_namespace :: string
  rc_service_name :: "string option"
  rc_documents :: "'j hash_map"

record response_context =
  rs_status_code :: u16
  rs_headers :: "string hash_map"
  rs_body :: "bytes option"

record 'j module_response =
  mr_status_code :: u16
  mr_headers :: "string hash_map"
  mr_body :: bytes
  mr_documents :: "'j hash_map"

definition module_response_default :: "'j module_response" where
  "module_response_default = \<lparr>mr_status_code = 200, mr_headers = [], mr_body = [], mr_documents = []\<rparr>"

datatype module_error =
    ME_DecodeError string
  | ME_JsError string
  | ME_FunctionNotFound string
  | ME_InvalidReturnValue
  | ME_CompilationError string
  | ME_RuntimeError string

fun module_error_to_string :: "module_error \<Rightarrow> string" where
  "module_error_to_string (ME_DecodeError s) = ''Failed to decode module payload: '' @ s"
| "module_error_to_string (ME_JsError s) = ''JavaScript error: '' @ s"
| "module_error_to_string (ME_FunctionNotFound s) = ''Module function not found: '' @ s"
| "module_error_to_string ME_InvalidReturnValue = ''Invalid return value from module''"
| "module_error_to_string (ME_CompilationError s) = ''Module compilation failed: '' @ s"
| "module_error_to_string (ME_RuntimeError s) = ''Runtime error: '' @ s"

section \<open>The executor\<close>

record compiled_module =
  cpm_source :: string
  cpm_name :: string
  cpm_namespace :: string

definition compiled_module_new :: "base64 \<Rightarrow> module \<Rightarrow> module_error + compiled_module" where
  "compiled_module_new b m =
     result_bind (map_err ME_DecodeError (decode_payload b m)) (\<lambda>source.
       Ok \<lparr>cpm_source = source, cpm_name = md_name m, cpm_namespace = md_namespace m\<rparr>)"

text \<open>The map of modules is only looked up, so it is a HOL map.\<close>

record module_executor =
  mx_modules :: "string \<rightharpoonup> compiled_module"

definition executor_new :: module_executor where
  "executor_new = \<lparr>mx_modules = Map.empty\<rparr>"

definition module_key :: "string \<Rightarrow> string \<Rightarrow> string" where
  "module_key namespace name = namespace @ '':'' @ name"

definition executor_add_module :: "base64 \<Rightarrow> module \<Rightarrow> module_executor \<Rightarrow> (module_error + unit) \<times> module_executor" where
  "executor_add_module b m X =
     (let key = module_key (md_namespace m) (md_name m)
      in case compiled_module_new b m of
           Err e \<Rightarrow> (Err e, X)
         | Ok compiled \<Rightarrow> (Ok (), X\<lparr>mx_modules := (mx_modules X)(key \<mapsto> compiled)\<rparr>))"

definition executor_remove_module :: "string \<Rightarrow> string \<Rightarrow> module_executor \<Rightarrow> module_executor" where
  "executor_remove_module namespace name X =
     X\<lparr>mx_modules := (mx_modules X)(module_key namespace name := None)\<rparr>"

definition executor_get_module :: "module_executor \<Rightarrow> string \<Rightarrow> string \<Rightarrow> compiled_module option" where
  "executor_get_module X namespace name = mx_modules X (module_key namespace name)"

record module_context =
  mc_sources :: "string list"

definition module_context_new :: "string list \<Rightarrow> module_context" where
  "module_context_new sources = \<lparr>mc_sources = sources\<rparr>"

definition create_context :: "module_executor \<Rightarrow> string list \<Rightarrow> string \<Rightarrow> module_context" where
  "create_context X modules namespace =
     module_context_new (map cpm_source (List.map_filter (executor_get_module X namespace) modules))"

section \<open>Contexts\<close>

definition json_strings :: "'j json_api \<Rightarrow> string hash_map \<Rightarrow> 'j" where
  "json_strings J m = jv_object J (map (\<lambda>(k, v). (k, jv_string J v)) m)"

definition json_opt :: "'j json_api \<Rightarrow> string option \<Rightarrow> 'j" where
  "json_opt J s = (case s of Some s \<Rightarrow> jv_string J s | None \<Rightarrow> jv_null J)"

definition request_json :: "'j json_api \<Rightarrow> 'j request_context \<Rightarrow> 'j" where
  "request_json J c =
     jv_object J
       [(''request'', jv_object J
          [(''method'', jv_string J (rc_method c)),
           (''path'', jv_string J (rc_path c)),
           (''query'', json_strings J (rc_query c)),
           (''headers'', json_strings J (rc_headers c)),
           (''body'', json_opt J (map_option from_utf8_lossy (rc_body c)))]),
        (''params'', json_strings J (rc_params c)),
        (''route'', jv_string J (rc_route_name c)),
        (''namespace'', jv_string J (rc_namespace c)),
        (''service'', json_opt J (rc_service_name c)),
        (''documents'', jv_object J (rc_documents c))]"

definition response_json :: "'j json_api \<Rightarrow> response_context \<Rightarrow> 'j" where
  "response_json J c =
     jv_object J
       [(''statusCode'', jv_u64 J (ucast (rs_status_code c))),
        (''headers'', json_strings J (rs_headers c)),
        (''body'', json_opt J (map_option from_utf8_lossy (rs_body c)))]"

text \<open>An evaluation whose value is dropped; its error is a \<open>JsError\<close>.\<close>

definition js_run :: "('e, 'v, 'j) js_engine \<Rightarrow> 'j script \<Rightarrow> 'e \<Rightarrow> (module_error + unit) \<times> 'e" where
  "js_run E code e = (case je_eval E e code of (r, e) \<Rightarrow> (result_bind (map_err ME_JsError r) (\<lambda>_. Ok ()), e))"

definition setup_globals :: "('e, 'v, 'j) js_engine \<Rightarrow> 'e \<Rightarrow> (module_error + unit) \<times> 'e" where
  "setup_globals E e = and_then (js_run E JS_Console e) (\<lambda>_. js_run E JS_Base64)"

definition setup_request_context ::
  "('e, 'v, 'j) js_engine \<Rightarrow> 'j json_api \<Rightarrow> 'j request_context \<Rightarrow> 'e \<Rightarrow> (module_error + unit) \<times> 'e" where
  "setup_request_context E J c e = js_run E (JS_Request_Context (request_json J c)) e"

definition setup_response_writer :: "('e, 'v, 'j) js_engine \<Rightarrow> 'e \<Rightarrow> (module_error + unit) \<times> 'e" where
  "setup_response_writer E e = js_run E JS_Response_Writer e"

definition setup_response_context ::
  "('e, 'v, 'j) js_engine \<Rightarrow> 'j json_api \<Rightarrow> response_context \<Rightarrow> 'e \<Rightarrow> (module_error + unit) \<times> 'e" where
  "setup_response_context E J c e = js_run E (JS_Response_Context (response_json J c)) e"

section \<open>Reading the results\<close>

definition extract_json ::
  "('e, 'v, 'j) js_engine \<Rightarrow> 'j json_api \<Rightarrow> 'j script \<Rightarrow> 'e \<Rightarrow> (module_error + 'j) \<times> 'e" where
  "extract_json E J code e =
     (case je_eval E e code of
        (r, e) \<Rightarrow> (map_err ME_JsError (result_bind (result_bind r (je_string E)) (jv_from_str J)), e))"

definition str_or :: "'j json_api \<Rightarrow> string \<Rightarrow> 'j \<Rightarrow> string" where
  "str_or J d v = (case jv_as_str J v of Some s \<Rightarrow> s | None \<Rightarrow> d)"

definition string_entries :: "'j json_api \<Rightarrow> key_placement \<Rightarrow> 'j \<Rightarrow> string hash_map" where
  "string_entries J place v =
     (case jv_as_object J v of
        Some o' \<Rightarrow> hash_collect place (List.map_filter (\<lambda>(k, v). map_option (Pair k) (jv_as_str J v)) o')
      | None \<Rightarrow> [])"

definition value_entries :: "'j json_api \<Rightarrow> key_placement \<Rightarrow> 'j \<Rightarrow> 'j hash_map" where
  "value_entries J place v =
     (case jv_as_object J v of Some o' \<Rightarrow> hash_collect place o' | None \<Rightarrow> [])"

definition extract_request_context ::
  "('e, 'v, 'j) js_engine \<Rightarrow> 'j json_api \<Rightarrow> key_placement \<Rightarrow> 'e \<Rightarrow> (module_error + 'j request_context) \<times> 'e" where
  "extract_request_context E J place e =
     and_then (extract_json E J JS_Extract_Request e) (\<lambda>parsed e. (Ok
       \<lparr>rc_method = str_or J ''GET'' (jv_index J parsed ''method''),
        rc_path = str_or J ''/'' (jv_index J parsed ''path''),
        rc_query = string_entries J place (jv_index J parsed ''query''),
        rc_headers = string_entries J place (jv_index J parsed ''headers''),
        rc_body = jv_as_str J (jv_index J parsed ''body''),
        rc_params = string_entries J place (jv_index J parsed ''params''),
        rc_route_name = str_or J [] (jv_index J parsed ''route''),
        rc_namespace = str_or J ''default'' (jv_index J parsed ''namespace''),
        rc_service_name = jv_as_str J (jv_index J parsed ''service''),
        rc_documents = value_entries J place (jv_index J parsed ''documents'')\<rparr>, e))"

text \<open>\<open>as_u64().unwrap_or(200) as u16\<close>: the cast keeps the low 16 bits.\<close>

definition status_of :: "'j json_api \<Rightarrow> 'j \<Rightarrow> u16" where
  "status_of J v = ucast (case jv_as_u64 J v of Some n \<Rightarrow> n | None \<Rightarrow> 200)"

definition extract_response ::
  "('e, 'v, 'j) js_engine \<Rightarrow> 'j json_api \<Rightarrow> key_placement \<Rightarrow> 'e \<Rightarrow> (module_error + 'j module_response) \<times> 'e" where
  "extract_response E J place e =
     and_then (extract_json E J JS_Extract_Response e) (\<lambda>parsed e.
       let response = jv_index J parsed ''response''
       in (Ok \<lparr>mr_status_code = status_of J (jv_index J response ''statusCode''),
              mr_headers = string_entries J place (jv_index J response ''headers''),
              mr_body = str_or J [] (jv_index J response ''body''),
              mr_documents = value_entries J place (jv_index J parsed ''documents'')\<rparr>, e))"

definition extract_response_context ::
  "('e, 'v, 'j) js_engine \<Rightarrow> 'j json_api \<Rightarrow> key_placement \<Rightarrow> 'e \<Rightarrow> (module_error + response_context) \<times> 'e" where
  "extract_response_context E J place e =
     and_then (extract_json E J JS_Extract_Response_Context e) (\<lambda>parsed e. (Ok
       \<lparr>rs_status_code = status_of J (jv_index J parsed ''statusCode''),
        rs_headers = string_entries J place (jv_index J parsed ''headers''),
        rs_body = jv_as_str J (jv_index J parsed ''body'')\<rparr>, e))"

section \<open>Execution\<close>

text \<open>A new runtime and context for each call.\<close>

definition new_engine :: "('e, 'v, 'j) js_engine \<Rightarrow> module_error + 'e" where
  "new_engine E =
     result_bind (map_err ME_RuntimeError (je_runtime E)) (\<lambda>_. map_err ME_RuntimeError (je_context E))"

fun modifier_loop ::
  "('e, 'v, 'j) js_engine \<Rightarrow> 'j json_api \<Rightarrow> key_placement \<Rightarrow> string list \<Rightarrow> 'j request_context \<Rightarrow> 'e \<Rightarrow>
   (module_error + 'j request_context) \<times> 'e" where
  "modifier_loop E J place [] result e = (Ok result, e)"
| "modifier_loop E J place (source # sources) result e =
     and_then (setup_globals E e) (\<lambda>_ e.
     and_then (setup_request_context E J result e) (\<lambda>_ e.
     and_then (js_run E (JS_Request_Modifier source) e) (\<lambda>_ e.
     and_then (extract_request_context E J place e) (\<lambda>result e.
       modifier_loop E J place sources result e))))"

definition execute_request_modifier ::
  "('e, 'v, 'j) js_engine \<Rightarrow> 'j json_api \<Rightarrow> key_placement \<Rightarrow> module_context \<Rightarrow> 'j request_context \<Rightarrow>
   module_error + 'j request_context" where
  "execute_request_modifier E J place M req_ctx =
     (if mc_sources M = [] then Ok req_ctx
      else result_bind (new_engine E) (\<lambda>e. fst (modifier_loop E J place (mc_sources M) req_ctx e)))"

definition execute_request_handler ::
  "('e, 'v, 'j) js_engine \<Rightarrow> 'j json_api \<Rightarrow> key_placement \<Rightarrow> module_context \<Rightarrow> 'j request_context \<Rightarrow>
   module_error + 'j module_response" where
  "execute_request_handler E J place M req_ctx =
     (if mc_sources M = [] then Err (ME_FunctionNotFound ''requestHandler'')
      else result_bind (new_engine E) (\<lambda>e.
        fst (and_then (setup_globals E e) (\<lambda>_ e.
             and_then (setup_request_context E J req_ctx e) (\<lambda>_ e.
             and_then (setup_response_writer E e) (\<lambda>_ e.
             and_then (js_run E (JS_Request_Handler (join [CHR 0x0A] (mc_sources M))) e) (\<lambda>_ e.
               extract_response E J place e)))))))"

definition execute_response_modifier ::
  "('e, 'v, 'j) js_engine \<Rightarrow> 'j json_api \<Rightarrow> key_placement \<Rightarrow> module_context \<Rightarrow> 'j request_context \<Rightarrow>
   response_context \<Rightarrow> module_error + response_context" where
  "execute_response_modifier E J place M req_ctx res_ctx =
     (if mc_sources M = [] then Ok res_ctx
      else result_bind (new_engine E) (\<lambda>e.
        fst (and_then (setup_globals E e) (\<lambda>_ e.
             and_then (setup_request_context E J req_ctx e) (\<lambda>_ e.
             and_then (setup_response_context E J res_ctx e) (\<lambda>_ e.
             and_then (js_run E (JS_Response_Modifier (join [CHR 0x0A] (mc_sources M))) e) (\<lambda>_ e.
               extract_response_context E J place e)))))))"

definition execute_error_handler ::
  "('e, 'v, 'j) js_engine \<Rightarrow> 'j json_api \<Rightarrow> key_placement \<Rightarrow> module_context \<Rightarrow> 'j request_context \<Rightarrow>
   string \<Rightarrow> module_error + 'j module_response" where
  "execute_error_handler E J place M req_ctx err_msg =
     (if mc_sources M = [] then Err (ME_FunctionNotFound ''errorHandler'')
      else result_bind (new_engine E) (\<lambda>e.
        fst (and_then (setup_globals E e) (\<lambda>_ e.
             and_then (setup_request_context E J req_ctx e) (\<lambda>_ e.
             and_then (setup_response_writer E e) (\<lambda>_ e.
             and_then (js_run E (JS_Error_Handler (join [CHR 0x0A] (mc_sources M))
                 (case jv_quote J err_msg of Ok q \<Rightarrow> q | Err _ \<Rightarrow> [CHR 0x22] @ ''Unknown error'' @ [CHR 0x22])) e) (\<lambda>_ e.
               extract_response E J place e)))))))"

definition execute_fetch_upstream_url ::
  "('e, 'v, 'j) js_engine \<Rightarrow> 'j json_api \<Rightarrow> module_context \<Rightarrow> 'j request_context \<Rightarrow>
   module_error + string option" where
  "execute_fetch_upstream_url E J M req_ctx =
     (if mc_sources M = [] then Ok None
      else result_bind (new_engine E) (\<lambda>e.
        case and_then (setup_globals E e) (\<lambda>_. setup_request_context E J req_ctx) of
          (Err err, _) \<Rightarrow> Err err
        | (Ok _, e) \<Rightarrow>
            result_bind (map_err ME_JsError (fst (je_eval E e (JS_Fetch_Upstream_Url (join [CHR 0x0A] (mc_sources M))))))
              (\<lambda>result.
                if je_is_null E result \<or> je_is_undefined E result then Ok None
                else (case je_as_string E result of
                        Some s \<Rightarrow> result_bind (map_err ME_JsError s) (\<lambda>s. Ok (Some s))
                      | None \<Rightarrow> Ok None))))"

section \<open>What the parameters document\<close>

definition json_documented :: "'j json_api \<Rightarrow> bool" where
  "json_documented J \<longleftrightarrow>
     (\<forall>s. jv_as_str J (jv_string J s) = Some s) \<and> jv_as_str J (jv_null J) = None \<and>
     (\<forall>n. jv_as_u64 J (jv_u64 J n) = Some n) \<and>
     (\<forall>kvs k. distinct (map fst kvs) \<longrightarrow>
        jv_index J (jv_object J kvs) k = (case map_of kvs k of Some v \<Rightarrow> v | None \<Rightarrow> jv_null J)) \<and>
     (\<forall>kvs. distinct (map fst kvs) \<longrightarrow>
        (\<exists>entries. jv_as_object J (jv_object J kvs) = Some entries \<and> distinct (map fst entries) \<and> set entries = set kvs))"

text \<open>What \<open>JS_Extract_Request\<close> returns when the context object is \<open>v\<close>.\<close>

definition extracted_request :: "'j json_api \<Rightarrow> 'j \<Rightarrow> 'j" where
  "extracted_request J v =
     (let request = jv_index J v ''request''
      in jv_object J
        [(''method'', jv_index J request ''method''), (''path'', jv_index J request ''path''),
         (''query'', jv_index J request ''query''), (''headers'', jv_index J request ''headers''),
         (''body'', jv_index J request ''body''), (''params'', jv_index J v ''params''),
         (''route'', jv_index J v ''route''), (''namespace'', jv_index J v ''namespace''),
         (''service'', jv_index J v ''service''), (''documents'', jv_index J v ''documents'')])"

text \<open>
  \<open>holds e v\<close>: in the engine state \<open>e\<close> the context object is \<open>v\<close>. Setting the context makes it
  hold, reading it back returns it as JSON text. \<open>plain\<close> leaves out objects with a key
  \<open>__proto__\<close>, which has a meaning of its own in a JavaScript literal.
\<close>

definition engine_documented ::
  "('e, 'v, 'j) js_engine \<Rightarrow> 'j json_api \<Rightarrow> ('j \<Rightarrow> bool) \<Rightarrow> ('e \<Rightarrow> 'j \<Rightarrow> bool) \<Rightarrow> bool" where
  "engine_documented E J plain holds \<longleftrightarrow>
     je_runtime E = Ok () \<and> is_ok (je_context E) \<and>
     (\<forall>e. is_ok (fst (je_eval E e JS_Console)) \<and> is_ok (fst (je_eval E e JS_Base64))) \<and>
     (\<forall>e v. plain v \<longrightarrow> is_ok (fst (je_eval E e (JS_Request_Context v))) \<and>
                         holds (snd (je_eval E e (JS_Request_Context v))) v) \<and>
     (\<forall>e v. holds e v \<longrightarrow>
        result_bind (result_bind (fst (je_eval E e JS_Extract_Request)) (je_string E)) (jv_from_str J) =
          Ok (extracted_request J v))"

text \<open>A source whose request modifier, if it has one, leaves the context alone.\<close>

definition inert_source :: "('e, 'v, 'j) js_engine \<Rightarrow> ('e \<Rightarrow> 'j \<Rightarrow> bool) \<Rightarrow> string \<Rightarrow> bool" where
  "inert_source E holds source \<longleftrightarrow>
     (\<forall>e v. holds e v \<longrightarrow> is_ok (fst (je_eval E e (JS_Request_Modifier source))) \<and>
                         holds (snd (je_eval E e (JS_Request_Modifier source))) v)"

section \<open>Facts\<close>

definition request_ok :: "'j request_context \<Rightarrow> bool" where
  "request_ok c \<longleftrightarrow> hash_ok (rc_query c) \<and> hash_ok (rc_headers c) \<and> hash_ok (rc_params c) \<and> hash_ok (rc_documents c)"

text \<open>The same request up to the iteration order of its maps, with the body decoded.\<close>

definition decoded_request :: "'j request_context \<Rightarrow> 'j request_context \<Rightarrow> bool" where
  "decoded_request c c' \<longleftrightarrow>
     rc_method c' = rc_method c \<and> rc_path c' = rc_path c \<and>
     map_of (rc_query c') = map_of (rc_query c) \<and> map_of (rc_headers c') = map_of (rc_headers c) \<and>
     rc_body c' = map_option from_utf8_lossy (rc_body c) \<and>
     map_of (rc_params c') = map_of (rc_params c) \<and> rc_route_name c' = rc_route_name c \<and>
     rc_namespace c' = rc_namespace c \<and> rc_service_name c' = rc_service_name c \<and>
     map_of (rc_documents c') = map_of (rc_documents c) \<and> request_ok c'"

lemma decoded_request_trans: "decoded_request a b \<Longrightarrow> decoded_request b c \<Longrightarrow> decoded_request a c"
  by (simp add: decoded_request_def option.map_comp comp_def)

lemma json_as_str:
  assumes "json_documented J"
  shows "jv_as_str J (jv_string J s) = Some s" and "jv_as_str J (jv_null J) = None"
  using assms by (simp_all add: json_documented_def)

lemma json_as_str_opt: "json_documented J \<Longrightarrow> jv_as_str J (json_opt J s) = s"
  by (cases s) (simp_all add: json_opt_def json_as_str)

lemma json_index:
  "json_documented J \<Longrightarrow> distinct (map fst kvs) \<Longrightarrow>
   jv_index J (jv_object J kvs) k = (case map_of kvs k of Some v \<Rightarrow> v | None \<Rightarrow> jv_null J)"
  by (simp add: json_documented_def)

lemma json_entries:
  assumes J: "json_documented J" and "hash_ok m"
  obtains entries where "jv_as_object J (jv_object J m) = Some entries" "distinct (map fst entries)"
    "map_of entries = map_of m"
proof -
  from J assms(2) obtain entries where e: "jv_as_object J (jv_object J m) = Some entries" "distinct (map fst entries)"
    "set entries = set m" unfolding json_documented_def hash_ok_def by blast
  with assms(2) have "map_of entries = map_of m" by (simp add: map_of_inject_set hash_ok_def)
  with e that show ?thesis by blast
qed

lemma value_entries_object:
  assumes "json_documented J" and "hash_ok m"
  shows "map_of (value_entries J place (jv_object J m)) = map_of m"
  by (rule json_entries [OF assms]) (simp add: value_entries_def map_of_hash_collect_distinct)

lemma string_entries_strings:
  assumes J: "json_documented J" and "hash_ok m"
  shows "map_of (string_entries J place (json_strings J m)) = map_of m"
proof -
  let ?f = "\<lambda>(k, v). (k, jv_string J v)"
  have ok: "hash_ok (map ?f m)" using assms(2) by (simp add: hash_ok_def comp_def case_prod_unfold)
  from J ok obtain entries where e: "jv_as_object J (jv_object J (map ?f m)) = Some entries"
    "distinct (map fst entries)" "set entries = set (map ?f m)"
    unfolding json_documented_def hash_ok_def by blast
  let ?g = "\<lambda>(k, v). map_option (Pair k) (jv_as_str J v)"
  have "set (List.map_filter ?g entries) = set m"
    using e(3) by (force simp: List.map_filter_def json_as_str [OF J])
  moreover have "distinct (map fst (List.map_filter ?g entries))"
  proof -
    have all: "\<forall>x \<in> set entries. \<exists>k v. x = (k, jv_string J v)" using e(3) by auto
    have "map fst (List.map_filter ?g xs) = map fst xs" if "\<forall>x \<in> set xs. \<exists>k v. x = (k, jv_string J v)"
      for xs :: "(string \<times> 'a) list"
      using that by (induction xs) (auto simp: List.map_filter_def json_as_str [OF J])
    from this [OF all] e(2) show ?thesis by simp
  qed
  ultimately show ?thesis
    using assms(2)
    by (simp add: string_entries_def json_strings_def e(1) map_of_hash_collect_distinct map_of_inject_set hash_ok_def)
qed

lemma string_entries_ok: "hash_ok (string_entries J place v)" "hash_ok (value_entries J place v)"
  by (simp_all add: string_entries_def value_entries_def split: option.splits)

lemma extract_decoded:
  assumes J: "json_documented J" and "request_ok c"
    and "extract_json E J JS_Extract_Request e = (Ok (extracted_request J (request_json J c)), e')"
  shows "\<exists>c'. extract_request_context E J place e = (Ok c', e') \<and> decoded_request c c'"
  using assms(2,3)
  by (auto simp: extract_request_context_def extracted_request_def request_json_def Let_def json_index [OF J]
      str_or_def json_as_str [OF J] json_as_str_opt [OF J] decoded_request_def request_ok_def
      string_entries_strings [OF J] value_entries_object [OF J] string_entries_ok)

lemma js_run_Ok: "is_ok (fst (je_eval E e code)) \<Longrightarrow> js_run E code e = (Ok (), snd (je_eval E e code))"
  by (cases "je_eval E e code"; cases "fst (je_eval E e code)") (auto simp: js_run_def)

lemma setup_Ok:
  assumes "engine_documented E J plain holds" and "plain (request_json J c)"
  obtains e1 e2 where "setup_globals E e = (Ok (), e1)" "setup_request_context E J c e1 = (Ok (), e2)"
    "holds e2 (request_json J c)"
proof -
  from assms(1) have "is_ok (fst (je_eval E e JS_Console))" "is_ok (fst (je_eval E e JS_Base64))" for e
    by (simp_all add: engine_documented_def)
  then obtain e1 where g: "setup_globals E e = (Ok (), e1)" by (simp add: setup_globals_def js_run_Ok)
  from assms have "is_ok (fst (je_eval E e1 (JS_Request_Context (request_json J c))))"
    "holds (snd (je_eval E e1 (JS_Request_Context (request_json J c)))) (request_json J c)"
    by (simp_all add: engine_documented_def)
  with g that show ?thesis by (simp add: setup_request_context_def js_run_Ok)
qed

lemma modifier_loop_inert:
  assumes J: "json_documented J" and E: "engine_documented E J plain holds"
  shows "\<forall>source \<in> set sources. inert_source E holds source \<Longrightarrow> request_ok c \<Longrightarrow>
    \<forall>c'. c' = c \<or> decoded_request c c' \<longrightarrow> plain (request_json J c') \<Longrightarrow>
    \<exists>c' e'. modifier_loop E J place sources c e = (Ok c', e') \<and>
      (if sources = [] then c' = c else decoded_request c c')"
proof (induction sources arbitrary: c e)
  case (Cons source sources)
  then have "plain (request_json J c)" by blast
  then obtain e1 e2 where s: "setup_globals E e = (Ok (), e1)" "setup_request_context E J c e1 = (Ok (), e2)"
    "holds e2 (request_json J c)" using setup_Ok [OF E] by blast
  define e3 where "e3 = snd (je_eval E e2 (JS_Request_Modifier source))"
  from Cons.prems(1) s(3) have m: "js_run E (JS_Request_Modifier source) e2 = (Ok (), e3)" "holds e3 (request_json J c)"
    by (simp_all add: inert_source_def js_run_Ok e3_def)
  define e4 where "e4 = snd (je_eval E e3 JS_Extract_Request)"
  have "extract_json E J JS_Extract_Request e3 = (Ok (extracted_request J (request_json J c)), e4)"
    using E m(2) by (simp add: engine_documented_def extract_json_def e4_def case_prod_unfold)
  from extract_decoded [OF J Cons.prems(2) this]
  obtain c1 where x: "extract_request_context E J place e3 = (Ok c1, e4)" "decoded_request c c1" by blast
  have step: "modifier_loop E J place (source # sources) c e = modifier_loop E J place sources c1 e4"
    by (simp add: s(1,2) m(1) x(1))
  have "request_ok c1" using x(2) by (simp add: decoded_request_def)
  moreover have "\<forall>c'. c' = c1 \<or> decoded_request c1 c' \<longrightarrow> plain (request_json J c')"
    using Cons.prems(3) x(2) decoded_request_trans by blast
  ultimately obtain c' e' where r: "modifier_loop E J place sources c1 e4 = (Ok c', e')"
    "if sources = [] then c' = c1 else decoded_request c1 c'" using Cons.IH [of c1 e4] Cons.prems(1) by auto
  then have "decoded_request c c'" using x(2) decoded_request_trans by (cases "sources = []") auto
  with r(1) step show ?case by simp
qed simp

lemma executor_get_after_add:
  assumes "decode_payload b m = Ok source"
  shows "executor_add_module b m X =
    (Ok (), X\<lparr>mx_modules := (mx_modules X)(module_key (md_namespace m) (md_name m) \<mapsto>
       \<lparr>cpm_source = source, cpm_name = md_name m, cpm_namespace = md_namespace m\<rparr>)\<rparr>)"
  using assms by (simp add: executor_add_module_def compiled_module_new_def Let_def)

lemma module_key_scoped: "module_key = scoped_key"
  by (simp add: fun_eq_iff module_key_def scoped_key_def)

section \<open>An instance\<close>

text \<open>JSON values are their own text; an object is its coded list of entries.\<close>

abbreviation entries_coder :: "(string \<times> string) list coder" where
  "entries_coder \<equiv> list_coder (pair_coder string_coder string_coder)"

definition sample_object :: "string \<Rightarrow> (string \<times> string) list option" where
  "sample_object v =
     (case v of c # r \<Rightarrow> if c = CHR ''O'' then map_option fst (snd entries_coder r) else None | [] \<Rightarrow> None)"

definition sample_json :: "string json_api" where
  "sample_json =
     \<lparr>jv_null = ''N'', jv_string = (\<lambda>s. CHR ''S'' # s), jv_u64 = (\<lambda>n. CHR ''U'' # fst word_coder n),
      jv_object = (\<lambda>kvs. CHR ''O'' # fst entries_coder kvs),
      jv_index = (\<lambda>v k. case sample_object v of
        Some kvs \<Rightarrow> (case map_of kvs k of Some x \<Rightarrow> x | None \<Rightarrow> ''N'') | None \<Rightarrow> ''N''),
      jv_as_str = (\<lambda>v. case v of c # s \<Rightarrow> if c = CHR ''S'' then Some s else None | [] \<Rightarrow> None),
      jv_as_u64 = (\<lambda>v. case v of c # s \<Rightarrow> if c = CHR ''U'' then map_option fst (snd word_coder s) else None | [] \<Rightarrow> None),
      jv_as_object = sample_object, jv_from_str = Ok, jv_quote = Ok\<rparr>"

lemma sample_object_entries [simp]: "sample_object (CHR ''O'' # fst entries_coder kvs) = Some kvs"
proof -
  have "lawful entries_coder" by (simp add: lawful_coders)
  from lawfulD [OF this, of kvs "[]"] show ?thesis by (simp add: sample_object_def)
qed

lemma sample_json_documented: "json_documented sample_json"
proof -
  have "snd word_coder (fst word_coder n @ []) = Some (n, [])" for n :: u64 by (rule lawfulD [OF lawful_word])
  then show ?thesis by (simp add: json_documented_def sample_json_def split: option.splits)
qed

text \<open>An engine whose state is the context object and whose modules do nothing.\<close>

fun sample_eval :: "string \<Rightarrow> string script \<Rightarrow> (string + string) \<times> string" where
  "sample_eval e (JS_Request_Context v) = (Ok [], v)"
| "sample_eval e JS_Extract_Request = (Ok (extracted_request sample_json e), e)"
| "sample_eval e _ = (Ok [], e)"

definition sample_engine :: "(string, string, string) js_engine" where
  "sample_engine =
     \<lparr>je_runtime = Ok (), je_context = Ok ''N'', je_eval = sample_eval, je_string = Ok,
      je_is_null = (\<lambda>v. v = ''N''), je_is_undefined = (\<lambda>_. False), je_as_string = (\<lambda>v. Some (Ok v))\<rparr>"

lemma sample_engine_documented: "engine_documented sample_engine sample_json (\<lambda>_. True) (=)"
  by (simp add: engine_documented_def sample_engine_def sample_json_def)

lemma sample_engine_inert: "inert_source sample_engine (=) source"
  by (simp add: inert_source_def sample_engine_def)

definition sample_request :: "bytes option \<Rightarrow> string request_context" where
  "sample_request body =
     \<lparr>rc_method = ''POST'', rc_path = ''/x'', rc_query = [(''q'', ''1'')], rc_headers = [(''host'', ''a'')], rc_body = body,
      rc_params = [], rc_route_name = ''r'', rc_namespace = ''default'', rc_service_name = Some ''s'', rc_documents = []\<rparr>"

section \<open>Properties\<close>

text \<open>
  Request modifiers that leave the context alone return the request they were given, through
  any number of modules, except for the body: it comes back as its lossy UTF-8 decoding. So a
  body that is not UTF-8 is changed by any module at all, and one that is stays as it was.
\<close>

lemma request_modifier_identity:
  assumes "json_documented J" and "engine_documented E J plain holds"
    and "\<forall>source \<in> set (mc_sources M). inert_source E holds source" and "mc_sources M \<noteq> []"
    and "request_ok c" and "\<forall>c'. c' = c \<or> decoded_request c c' \<longrightarrow> plain (request_json J c')"
  shows "\<exists>c'. execute_request_modifier E J place M c = Ok c' \<and> decoded_request c c' \<and>
           (\<forall>body. rc_body c = Some body \<longrightarrow> (rc_body c' = Some body \<longleftrightarrow> utf8_valid body))"
proof -
  from assms(2) obtain e where e: "new_engine E = Ok e"
    by (cases "je_context E") (auto simp: engine_documented_def new_engine_def)
  from modifier_loop_inert [OF assms(1,2,3,5,6), of place e] assms(4)
  obtain c' e' where r: "modifier_loop E J place (mc_sources M) c e = (Ok c', e')" "decoded_request c c'" by auto
  have "rc_body c' = Some body \<longleftrightarrow> utf8_valid body" if "rc_body c = Some body" for body
    using r(2) that from_utf8_lossy_valid [of body] utf8_valid_lossy [of body]
    by (auto simp: decoded_request_def)
  with r assms(4) show ?thesis by (auto simp: execute_request_modifier_def e)
qed

text \<open>
  The executor: adding a module whose payload decodes makes its source the one found under
  its namespace and name, replacing an older one; one whose payload does not decode is refused
  and leaves the executor as it was; removing forgets it; and for namespaces without a colon no
  other module is touched.
\<close>

lemma module_executor_operations:
  assumes "CHR '':'' \<notin> set (md_namespace m)" and "CHR '':'' \<notin> set ns" and "(ns, name) \<noteq> (md_namespace m, md_name m)"
  shows "(case decode_payload b m of
            Err e \<Rightarrow> executor_add_module b m X = (Err (ME_DecodeError e), X)
          | Ok source \<Rightarrow> fst (executor_add_module b m X) = Ok () \<and>
              map_option cpm_source (executor_get_module (snd (executor_add_module b m X)) (md_namespace m) (md_name m)) =
                Some source) \<and>
         executor_get_module (executor_remove_module (md_namespace m) (md_name m) X) (md_namespace m) (md_name m) = None \<and>
         executor_get_module (snd (executor_add_module b m X)) ns name = executor_get_module X ns name \<and>
         executor_get_module (executor_remove_module (md_namespace m) (md_name m) X) ns name = executor_get_module X ns name"
proof -
  have k: "module_key ns name \<noteq> module_key (md_namespace m) (md_name m)"
    using scoped_key_inj [of ns name "md_namespace m" "md_name m"] assms by (auto simp: module_key_scoped)
  show ?thesis
  proof (cases "decode_payload b m")
    case (Inl e)
    with k show ?thesis
      by (simp add: executor_add_module_def compiled_module_new_def Let_def executor_get_module_def executor_remove_module_def)
  next
    case (Inr source)
    with k show ?thesis
      by (simp add: executor_get_after_add executor_get_module_def executor_remove_module_def)
  qed
qed

end
