(* ===== verification/Proxy.thy ===== *)
theory Proxy
  imports Routing Modules Changes Config
begin

text \<open>
  The proxy state of \<open>src/proxy/mod.rs\<close> and the operations that change it: applying a change log
  (standalone and through a cluster), rebuilding the router of a namespace and the domain list,
  restoring after a start and loading the resources of the configuration.

  The store is shared with the cluster manager; \<open>px_store\<close> is its state. What the manager's
  \<open>propose\<close> does to its own state \<open>'n\<close> and the shared store is an argument.
\<close>

section \<open>State\<close>

datatype proxy_error =
    PE_Storage string
  | PE_NotFound string
  | PE_Deserialization string
  | PE_Module string
  | PE_Io string
  | PE_Cluster string

fun proxy_error_to_string :: "proxy_error \<Rightarrow> string" where
  "proxy_error_to_string (PE_Storage s) = ''Storage error: '' @ s"
| "proxy_error_to_string (PE_NotFound s) = ''Not found: '' @ s"
| "proxy_error_to_string (PE_Deserialization s) = ''Deserialization error: '' @ s"
| "proxy_error_to_string (PE_Module s) = ''Module error: '' @ s"
| "proxy_error_to_string (PE_Io s) = ''IO error: '' @ s"
| "proxy_error_to_string (PE_Cluster s) = ''Cluster error: '' @ s"

definition px_storage_error :: "storage_error \<Rightarrow> proxy_error" where
  "px_storage_error e = PE_Storage (storage_error_to_string e)"

record ('s, 'j, 'r) proxy_env =
  pe_store :: "('s, 'j) proxy_store"
  pe_base64 :: base64
  pe_regex :: "'r regex_crate"
  pe_alphanumeric :: "string \<Rightarrow> bool"

record ('s, 'j, 'r, 'n) proxy_state =
  px_config :: "'j dgate_config"
  px_store :: 's
  px_executor :: module_executor
  px_routers :: "string \<rightharpoonup> 'r ns_router"
  px_domains :: "resolved_domain list"
  px_ready :: bool
  px_change_hash :: u64
  px_cluster :: "'n option"
  px_change_rx :: "'j changelog list option"

definition proxy_new :: "'j dgate_config \<Rightarrow> 's \<Rightarrow> ('s, 'j, 'r, 'n) proxy_state" where
  "proxy_new config store =
     \<lparr>px_config = config, px_store = store, px_executor = executor_new, px_routers = Map.empty,
      px_domains = [], px_ready = False, px_change_hash = 0, px_cluster = None, px_change_rx = None\<rparr>"

section \<open>Routers and domains\<close>

definition compile_route ::
  "('s, 'j, 'r) proxy_env \<Rightarrow> 's \<Rightarrow> string \<Rightarrow> namespace \<Rightarrow> route \<Rightarrow> proxy_error + 'r compiled_route" where
  "compile_route E s namespace ns route =
     result_bind
       (case rt_service route of
          Some service_name \<Rightarrow> map_err px_storage_error (get_service (pe_store E) s namespace service_name)
        | None \<Rightarrow> Ok None) (\<lambda>service.
     result_bind
       (collect_results
         (map (\<lambda>mod_name. map_err px_storage_error (get_module (pe_store E) s namespace mod_name))
           (rt_modules route))) (\<lambda>modules.
     Ok \<lparr>cpr_route = route, cpr_namespace = ns, cpr_service = service,
         cpr_modules = List.map_filter id modules,
         cpr_path_patterns =
           List.map_filter (\<lambda>p. result_ok (compile_path_pattern (pe_alphanumeric E) (pe_regex E) p)) (rt_paths route),
         cpr_methods = rt_methods route\<rparr>))"

text \<open>The router that \<open>rebuild_router\<close> computes from the store.\<close>

definition compute_router ::
  "('s, 'j, 'r) proxy_env \<Rightarrow> 's \<Rightarrow> string \<Rightarrow> proxy_error + 'r ns_router" where
  "compute_router E s namespace =
     result_bind (map_err px_storage_error (get_namespace (pe_store E) s namespace)) (\<lambda>found.
     case found of
       None \<Rightarrow> Err (PE_NotFound (''Namespace '' @ namespace @ '' not found''))
     | Some ns \<Rightarrow>
     result_bind (map_err px_storage_error (list_routes (pe_store E) s namespace)) (\<lambda>routes.
     result_bind (collect_results (map (compile_route E s namespace ns) routes)) (\<lambda>compiled.
     Ok (fold ns_router_add compiled (ns_router_new ns)))))"

definition rebuild_router ::
  "('s, 'j, 'r) proxy_env \<Rightarrow> string \<Rightarrow> ('s, 'j, 'r, 'n) proxy_state \<Rightarrow>
   (proxy_error + unit) \<times> ('s, 'j, 'r, 'n) proxy_state" where
  "rebuild_router E namespace st =
     (case compute_router E (px_store st) namespace of
        Err e \<Rightarrow> (Err e, st)
      | Ok router \<Rightarrow> (Ok (), st\<lparr>px_routers := (px_routers st)(namespace \<mapsto> router)\<rparr>))"

fun resolve_domains ::
  "('s, 'j, 'r) proxy_env \<Rightarrow> 's \<Rightarrow> domain list \<Rightarrow> proxy_error + resolved_domain list" where
  "resolve_domains E s [] = Ok []"
| "resolve_domains E s (d # ds) =
     result_bind (map_err px_storage_error (get_namespace (pe_store E) s (dom_namespace d))) (\<lambda>found.
     result_bind (resolve_domains E s ds) (\<lambda>resolved.
     Ok (case found of
           Some ns \<Rightarrow> \<lparr>rd_domain = d, rd_namespace = ns\<rparr> # resolved
         | None \<Rightarrow> resolved)))"

definition compute_domains :: "('s, 'j, 'r) proxy_env \<Rightarrow> 's \<Rightarrow> proxy_error + resolved_domain list" where
  "compute_domains E s =
     result_bind (map_err px_storage_error (list_all_domains (pe_store E) s)) (\<lambda>all_domains.
     result_bind (resolve_domains E s all_domains) (\<lambda>resolved. Ok (sort_domains resolved)))"

definition rebuild_domains ::
  "('s, 'j, 'r) proxy_env \<Rightarrow> ('s, 'j, 'r, 'n) proxy_state \<Rightarrow> (proxy_error + unit) \<times> ('s, 'j, 'r, 'n) proxy_state" where
  "rebuild_domains E st =
     (case compute_domains E (px_store st) of
        Err e \<Rightarrow> (Err e, st)
      | Ok resolved \<Rightarrow> (Ok (), st\<lparr>px_domains := resolved\<rparr>))"

section \<open>Change logs\<close>

text \<open>Parsing the item and storing it, and a delete, with the proxy's errors.\<close>

definition px_set ::
  "('j, 't) codec \<Rightarrow> ('s \<Rightarrow> 't \<Rightarrow> (storage_error + unit) \<times> 's) \<Rightarrow> 'j \<Rightarrow> ('s, 'j, 'r, 'n) proxy_state \<Rightarrow>
   (proxy_error + 't) \<times> ('s, 'j, 'r, 'n) proxy_state" where
  "px_set c setter item st =
     (case map_err PE_Deserialization (from_value c item) of
        Err e \<Rightarrow> (Err e, st)
      | Ok x \<Rightarrow>
          (case setter (px_store st) x of
             (r, s) \<Rightarrow> (result_bind (map_err px_storage_error r) (\<lambda>_. Ok x), st\<lparr>px_store := s\<rparr>)))"

definition px_delete ::
  "('s \<Rightarrow> (storage_error + unit) \<times> 's) \<Rightarrow> ('s, 'j, 'r, 'n) proxy_state \<Rightarrow>
   (proxy_error + unit) \<times> ('s, 'j, 'r, 'n) proxy_state" where
  "px_delete deleter st =
     (case deleter (px_store st) of (r, s) \<Rightarrow> (map_err px_storage_error r, st\<lparr>px_store := s\<rparr>))"

definition px_add_module ::
  "('s, 'j, 'r) proxy_env \<Rightarrow> module \<Rightarrow> ('s, 'j, 'r, 'n) proxy_state \<Rightarrow>
   (module_error + unit) \<times> ('s, 'j, 'r, 'n) proxy_state" where
  "px_add_module E m st =
     (case executor_add_module (pe_base64 E) m (px_executor st) of (r, X) \<Rightarrow> (r, st\<lparr>px_executor := X\<rparr>))"

definition px_remove_module ::
  "string \<Rightarrow> string \<Rightarrow> ('s, 'j, 'r, 'n) proxy_state \<Rightarrow> ('s, 'j, 'r, 'n) proxy_state" where
  "px_remove_module namespace name st =
     st\<lparr>px_executor := executor_remove_module namespace name (px_executor st)\<rparr>"

definition process_changelog ::
  "('s, 'j, 'r) proxy_env \<Rightarrow> 'j changelog \<Rightarrow> ('s, 'j, 'r, 'n) proxy_state \<Rightarrow>
   (proxy_error + unit) \<times> ('s, 'j, 'r, 'n) proxy_state" where
  "process_changelog E cl st =
     (let P = pe_store E; S = ps_serde P; item = cl_item cl; ns = cl_namespace cl; name = cl_name cl
      in case cl_cmd cl of
        AddNamespace \<Rightarrow> and_then (px_set (sd_namespace S) (set_namespace P) item st) (\<lambda>_ st. (Ok (), st))
      | DeleteNamespace \<Rightarrow>
          and_then (px_delete (\<lambda>s. delete_namespace P s name) st)
            (\<lambda>_ st. (Ok (), st\<lparr>px_routers := (px_routers st)(name := None)\<rparr>))
      | AddRoute \<Rightarrow>
          and_then (px_set (sd_route S) (set_route P) item st) (\<lambda>_. rebuild_router E ns)
      | DeleteRoute \<Rightarrow>
          and_then (px_delete (\<lambda>s. delete_route P s ns name) st) (\<lambda>_. rebuild_router E ns)
      | AddService \<Rightarrow>
          and_then (px_set (sd_service S) (set_service P) item st) (\<lambda>_. rebuild_router E ns)
      | DeleteService \<Rightarrow>
          and_then (px_delete (\<lambda>s. delete_service P s ns name) st) (\<lambda>_. rebuild_router E ns)
      | AddModule \<Rightarrow>
          and_then (px_set (sd_module S) (set_module P) item st) (\<lambda>m st.
          and_then (map_err_st (PE_Module \<circ> module_error_to_string) (px_add_module E m st)) (\<lambda>_.
            rebuild_router E ns))
      | DeleteModule \<Rightarrow>
          and_then (px_delete (\<lambda>s. delete_module P s ns name) st) (\<lambda>_ st.
            rebuild_router E ns (px_remove_module ns name st))
      | AddDomain \<Rightarrow>
          and_then (px_set (sd_domain S) (set_domain P) item st) (\<lambda>_. rebuild_domains E)
      | DeleteDomain \<Rightarrow>
          and_then (px_delete (\<lambda>s. delete_domain P s ns name) st) (\<lambda>_. rebuild_domains E)
      | AddSecret \<Rightarrow> and_then (px_set (sd_secret S) (set_secret P) item st) (\<lambda>_ st. (Ok (), st))
      | DeleteSecret \<Rightarrow> px_delete (\<lambda>s. delete_secret P s ns name) st
      | AddCollection \<Rightarrow>
          and_then (px_set (sd_collection S) (set_collection P) item st) (\<lambda>_ st. (Ok (), st))
      | DeleteCollection \<Rightarrow> px_delete (\<lambda>s. delete_collection P s ns name) st
      | AddDocument \<Rightarrow> and_then (px_set (sd_document S) (set_document P) item st) (\<lambda>_ st. (Ok (), st))
      | DeleteDocument \<Rightarrow>
          (case map_err PE_Deserialization (from_value (sd_document S) item) of
             Err e \<Rightarrow> (Err e, st)
           | Ok doc \<Rightarrow> px_delete (\<lambda>s. delete_document P s ns (doc_collection doc) name) st))"

text \<open>
  \<open>propose\<close> is the cluster manager's operation, on its own state and the shared store; the
  response it returns is dropped.
\<close>

definition apply_changelog ::
  "('s, 'j, 'r) proxy_env \<Rightarrow> ('j changelog \<Rightarrow> 'n \<times> 's \<Rightarrow> (string + 'resp) \<times> ('n \<times> 's)) \<Rightarrow> 'j changelog \<Rightarrow>
   ('s, 'j, 'r, 'n) proxy_state \<Rightarrow> (proxy_error + unit) \<times> ('s, 'j, 'r, 'n) proxy_state" where
  "apply_changelog E propose cl st =
     (case px_cluster st of
        Some cluster \<Rightarrow>
          (case propose cl (cluster, px_store st) of
             (r, cluster, s) \<Rightarrow>
               (result_bind (map_err PE_Cluster r) (\<lambda>_. Ok ()), st\<lparr>px_cluster := Some cluster, px_store := s\<rparr>))
      | None \<Rightarrow>
          (case append_changelog (pe_store E) (px_store st) cl of
             (r, s) \<Rightarrow>
               and_then (map_err px_storage_error r, st\<lparr>px_store := s\<rparr>) (\<lambda>_ st.
               and_then (process_changelog E cl st) (\<lambda>_ st.
                 (Ok (), st\<lparr>px_change_hash := px_change_hash st + 1\<rparr>)))))"

section \<open>Changes applied through the cluster\<close>

definition handle_cluster_change ::
  "('s, 'j, 'r) proxy_env \<Rightarrow> 'j changelog \<Rightarrow> ('s, 'j, 'r, 'n) proxy_state \<Rightarrow>
   (proxy_error + unit) \<times> ('s, 'j, 'r, 'n) proxy_state" where
  "handle_cluster_change E cl st =
     (let S = ps_serde (pe_store E)
      in if cl_cmd cl \<in> {AddRoute, DeleteRoute, AddService, DeleteService, AddModule, DeleteModule} then
           and_then (rebuild_router E (cl_namespace cl) st) (\<lambda>_ st.
             (Ok (),
              if cl_cmd cl = AddModule then
                (case from_value (sd_module S) (cl_item cl) of
                   Ok m \<Rightarrow> snd (px_add_module E m st)
                 | Err _ \<Rightarrow> st)
              else if cl_cmd cl = DeleteModule then px_remove_module (cl_namespace cl) (cl_name cl) st
              else st))
         else if cl_cmd cl = AddNamespace then (Ok (), st)
         else if cl_cmd cl = DeleteNamespace then
           (Ok (), st\<lparr>px_routers := (px_routers st)(cl_name cl := None)\<rparr>)
         else if cl_cmd cl \<in> {AddDomain, DeleteDomain} then rebuild_domains E st
         else (Ok (), st))"

text \<open>One turn of the background task: an error is logged and the hash is counted up.\<close>

definition process_cluster_change ::
  "('s, 'j, 'r) proxy_env \<Rightarrow> 'j changelog \<Rightarrow> ('s, 'j, 'r, 'n) proxy_state \<Rightarrow> ('s, 'j, 'r, 'n) proxy_state" where
  "process_cluster_change E cl st =
     (let st = snd (handle_cluster_change E cl st) in st\<lparr>px_change_hash := px_change_hash st + 1\<rparr>)"

text \<open>The task takes the receiver, so a second one finds none; \<open>received\<close> is what arrives on it.\<close>

definition process_cluster_changes ::
  "('s, 'j, 'r) proxy_env \<Rightarrow> ('s, 'j, 'r, 'n) proxy_state \<Rightarrow> ('s, 'j, 'r, 'n) proxy_state" where
  "process_cluster_changes E st =
     (case px_change_rx st of
        None \<Rightarrow> st
      | Some received \<Rightarrow> fold (process_cluster_change E) received (st\<lparr>px_change_rx := None\<rparr>))"

definition init_cluster ::
  "(cluster_config \<Rightarrow> 's \<Rightarrow> string + 'n) \<Rightarrow> ('n \<Rightarrow> (string + unit) \<times> 'n) \<Rightarrow> ('s, 'j, 'r, 'n) proxy_state \<Rightarrow>
   (string + unit) \<times> ('s, 'j, 'r, 'n) proxy_state" where
  "init_cluster new_manager initialize st =
     (case cfg_cluster (px_config st) of
        None \<Rightarrow> (Ok (), st)
      | Some cfg \<Rightarrow>
          if \<not> cc_enabled cfg then (Ok (), st)
          else let st = st\<lparr>px_change_rx := Some []\<rparr>
               in (case new_manager cfg (px_store st) of
                     Err e \<Rightarrow> (Err e, st)
                   | Ok manager \<Rightarrow>
                       (case initialize manager of
                          (r, manager) \<Rightarrow> (r, st\<lparr>px_cluster := Some manager\<rparr>))))"

section \<open>Start\<close>

definition restore_from_changelogs ::
  "('s, 'j, 'r) proxy_env \<Rightarrow> ('s, 'j, 'r, 'n) proxy_state \<Rightarrow> (proxy_error + unit) \<times> ('s, 'j, 'r, 'n) proxy_state" where
  "restore_from_changelogs E st =
     (case map_err px_storage_error (list_changelogs (pe_store E) (px_store st)) of
        Err e \<Rightarrow> (Err e, st)
      | Ok changelogs \<Rightarrow>
          let changelogs = sort_key cl_timestamp changelogs;
              st = fold (\<lambda>cl st. snd (process_changelog E cl st)) changelogs st
          in and_then
               (if \<not> cfg_disable_default_namespace (px_config st) \<and>
                   (case get_namespace (pe_store E) (px_store st) ''default'' of Ok (Some _) \<Rightarrow> False | _ \<Rightarrow> True)
                then
                  (case set_namespace (pe_store E) (px_store st) default_namespace of
                     (r, s) \<Rightarrow>
                       and_then (map_err px_storage_error r, st\<lparr>px_store := s\<rparr>) (\<lambda>_ st.
                         (Ok (), snd (rebuild_router E ''default'' st))))
                else (Ok (), st))
               (\<lambda>_ st. (Ok (), st\<lparr>px_ready := True\<rparr>)))"

text \<open>
  The change logs of the configured resources in the order they are applied, each from the id
  and time it gets; a module whose payload or a domain whose files can not be read is an error.
\<close>

definition domain_of_spec :: "'j config_env \<Rightarrow> string \<Rightarrow> domain_spec \<Rightarrow> proxy_error + domain" where
  "domain_of_spec W config_dir spec =
     result_bind
       (case ds_cert_file spec of
          None \<Rightarrow> Ok (dom_cert (ds_domain spec))
        | Some path \<Rightarrow>
            let full_path = path_join config_dir path
            in map_err (\<lambda>e. PE_Io (''Failed to read cert file '' @ quoted full_path @ '': '' @ e))
                 (ce_read_to_string W full_path)) (\<lambda>cert.
     result_bind
       (case ds_key_file spec of
          None \<Rightarrow> Ok (dom_key (ds_domain spec))
        | Some path \<Rightarrow>
            let full_path = path_join config_dir path
            in map_err (\<lambda>e. PE_Io (''Failed to read key file '' @ quoted full_path @ '': '' @ e))
                 (ce_read_to_string W full_path)) (\<lambda>key.
     Ok ((ds_domain spec)\<lparr>dom_cert := cert, dom_key := key\<rparr>)))"

type_synonym 'j init_step = "string \<times> datetime \<Rightarrow> proxy_error + 'j changelog"

definition init_step_of ::
  "'j serde \<Rightarrow> ('j, 't) codec \<Rightarrow> change_command \<Rightarrow> string \<Rightarrow> string \<Rightarrow> 't \<Rightarrow> 'j init_step" where
  "init_step_of S c cmd namespace name item =
     (\<lambda>(uuid, now). Ok (changelog_new (sd_null S) c uuid now cmd namespace name item))"

definition init_steps ::
  "'j serde \<Rightarrow> base64 \<Rightarrow> 'j config_env \<Rightarrow> string \<Rightarrow> 'j init_resources \<Rightarrow> 'j init_step list" where
  "init_steps S b W dir init =
     map (\<lambda>x. init_step_of S (sd_namespace S) AddNamespace (ns_name x) (ns_name x) x) (ir_namespaces init) @
     map (\<lambda>spec stamp. result_bind (map_err PE_Io (to_module b W spec dir)) (\<lambda>x.
            init_step_of S (sd_module S) AddModule (md_namespace x) (md_name x) x stamp)) (ir_modules init) @
     map (\<lambda>x. init_step_of S (sd_service S) AddService (svc_namespace x) (svc_name x) x) (ir_services init) @
     map (\<lambda>x. init_step_of S (sd_route S) AddRoute (rt_namespace x) (rt_name x) x) (ir_routes init) @
     map (\<lambda>spec stamp. result_bind (domain_of_spec W dir spec) (\<lambda>x.
            init_step_of S (sd_domain S) AddDomain (dom_namespace x) (dom_name x) x stamp)) (ir_domains init) @
     map (\<lambda>x. init_step_of S (sd_collection S) AddCollection (col_namespace x) (col_name x) x) (ir_collections init) @
     map (\<lambda>x. init_step_of S (sd_document S) AddDocument (doc_namespace x) (doc_id x) x) (ir_documents init) @
     map (\<lambda>x. init_step_of S (sd_secret S) AddSecret (sec_namespace x) (sec_name x) x) (ir_secrets init)"

fun apply_init_steps ::
  "('s, 'j, 'r) proxy_env \<Rightarrow> ('j changelog \<Rightarrow> 'n \<times> 's \<Rightarrow> (string + 'resp) \<times> ('n \<times> 's)) \<Rightarrow>
   (nat \<Rightarrow> string \<times> datetime) \<Rightarrow> nat \<Rightarrow> 'j init_step list \<Rightarrow> ('s, 'j, 'r, 'n) proxy_state \<Rightarrow>
   (proxy_error + unit) \<times> ('s, 'j, 'r, 'n) proxy_state" where
  "apply_init_steps E propose stamp i [] st = (Ok (), st)"
| "apply_init_steps E propose stamp i (step # steps) st =
     (case step (stamp i) of
        Err e \<Rightarrow> (Err e, st)
      | Ok cl \<Rightarrow>
          and_then (apply_changelog E propose cl st) (\<lambda>_. apply_init_steps E propose stamp (Suc i) steps))"

definition init_from_config ::
  "('s, 'j, 'r) proxy_env \<Rightarrow> 'j config_env \<Rightarrow> ('j changelog \<Rightarrow> 'n \<times> 's \<Rightarrow> (string + 'resp) \<times> ('n \<times> 's)) \<Rightarrow>
   (nat \<Rightarrow> string \<times> datetime) \<Rightarrow> ('s, 'j, 'r, 'n) proxy_state \<Rightarrow>
   (proxy_error + unit) \<times> ('s, 'j, 'r, 'n) proxy_state" where
  "init_from_config E W propose stamp st =
     (case pc_init_resources (cfg_proxy (px_config st)) of
        None \<Rightarrow> (Ok (), st)
      | Some init \<Rightarrow>
          apply_init_steps E propose stamp 0
            (init_steps (ps_serde (pe_store E)) (pe_base64 E) W (cfg_config_dir (px_config st)) init) st)"

section \<open>The namespace of a host\<close>

definition find_namespace_for_host ::
  "('s, 'j, 'r) proxy_env \<Rightarrow> ('s, 'j, 'r, 'n) proxy_state \<Rightarrow> string \<Rightarrow> namespace option" where
  "find_namespace_for_host E st host =
     (let fallback =
        (if \<not> cfg_disable_default_namespace (px_config st) then
           (case get_namespace (pe_store E) (px_store st) ''default'' of Ok (Some ns) \<Rightarrow> Some ns | _ \<Rightarrow> None)
         else None)
      in case match_domains host (px_domains st) of
           Some ns \<Rightarrow> Some ns
         | None \<Rightarrow>
             if px_domains st = [] then
               (case list_namespaces (pe_store E) (px_store st) of
                  Err _ \<Rightarrow> None
                | Ok namespaces \<Rightarrow> if length namespaces = 1 then Some (hd namespaces) else fallback)
             else fallback)"

section \<open>Facts: which fields an operation leaves alone\<close>

lemma rebuild_router_frame [simp]:
  "px_store (snd (rebuild_router E ns st)) = px_store st"
  "px_config (snd (rebuild_router E ns st)) = px_config st"
  "px_executor (snd (rebuild_router E ns st)) = px_executor st"
  "px_domains (snd (rebuild_router E ns st)) = px_domains st"
  "px_cluster (snd (rebuild_router E ns st)) = px_cluster st"
  "px_change_hash (snd (rebuild_router E ns st)) = px_change_hash st"
  by (simp_all add: rebuild_router_def split: sum.splits)

lemma rebuild_domains_frame [simp]:
  "px_store (snd (rebuild_domains E st)) = px_store st"
  "px_config (snd (rebuild_domains E st)) = px_config st"
  "px_executor (snd (rebuild_domains E st)) = px_executor st"
  "px_routers (snd (rebuild_domains E st)) = px_routers st"
  "px_cluster (snd (rebuild_domains E st)) = px_cluster st"
  "px_change_hash (snd (rebuild_domains E st)) = px_change_hash st"
  by (simp_all add: rebuild_domains_def split: sum.splits)

lemma px_add_module_frame [simp]:
  "px_store (snd (px_add_module E m st)) = px_store st"
  "px_routers (snd (px_add_module E m st)) = px_routers st"
  "px_config (snd (px_add_module E m st)) = px_config st"
  "px_domains (snd (px_add_module E m st)) = px_domains st"
  "px_cluster (snd (px_add_module E m st)) = px_cluster st"
  by (simp_all add: px_add_module_def case_prod_unfold)

lemma px_remove_module_frame [simp]:
  "px_store (px_remove_module ns name st) = px_store st"
  "px_routers (px_remove_module ns name st) = px_routers st"
  "px_config (px_remove_module ns name st) = px_config st"
  "px_domains (px_remove_module ns name st) = px_domains st"
  "px_cluster (px_remove_module ns name st) = px_cluster st"
  by (simp_all add: px_remove_module_def)

section \<open>Facts: the store\<close>

text \<open>
  \<open>with_store st s\<close> changes the store only. The two shared steps are the appliers' steps on the
  store, and their errors are the appliers' errors under the proxy's names.
\<close>

abbreviation with_store :: "('s, 'j, 'r, 'n) proxy_state \<Rightarrow> 's \<Rightarrow> ('s, 'j, 'r, 'n) proxy_state" where
  "with_store st s \<equiv> st\<lparr>px_store := s\<rparr>"

lemma px_set_eq:
  "px_set c setter item st =
     ((case from_value c item of Err e \<Rightarrow> Err (PE_Deserialization e)
       | Ok x \<Rightarrow> result_bind (map_err px_storage_error (fst (setter (px_store st) x))) (\<lambda>_. Ok x)),
      with_store st (snd (change_add c setter msg item (px_store st))))"
proof (cases "from_value c item")
  case (Inr x)
  then show ?thesis
    by (cases "setter (px_store st) x"; cases "fst (setter (px_store st) x)")
      (auto simp: px_set_def change_add_def)
qed (simp add: px_set_def change_add_def)

lemma px_delete_eq:
  "px_delete deleter st =
     (map_err px_storage_error (fst (deleter (px_store st))),
      with_store st (snd (change_delete deleter msg (px_store st))))"
  by (cases "deleter (px_store st)"; cases "fst (deleter (px_store st))")
    (auto simp: px_delete_def change_delete_def)

lemma change_add_is_ok:
  "is_ok (fst (change_add c setter msg item s)) \<longleftrightarrow>
   (\<exists>x. from_value c item = Ok x \<and> is_ok (fst (setter s x)))"
proof (cases "from_value c item")
  case (Inr x)
  then show ?thesis by (cases "setter s x"; cases "fst (setter s x)") (auto simp: change_add_def)
qed (simp add: change_add_def)

lemma change_delete_is_ok: "is_ok (fst (change_delete deleter msg s)) \<longleftrightarrow> is_ok (fst (deleter s))"
  by (cases "deleter s"; cases "fst (deleter s)") (auto simp: change_delete_def)

text \<open>The first step of a change log, whatever follows it.\<close>

lemma px_set_step:
  "px_set c setter item st = (r, st') \<Longrightarrow>
   st' = with_store st (snd (change_add c setter msg item (px_store st))) \<and>
   is_ok r = is_ok (fst (change_add c setter msg item (px_store st))) \<and>
   (\<forall>x. r = Ok x \<longrightarrow> from_value c item = Ok x) \<and> r \<notin> range (Err \<circ> PE_Module)"
  using px_set_eq [of c setter item st msg]
  by (cases "from_value c item"; cases "fst (setter (px_store st) (projr (from_value c item)))")
    (auto simp: change_add_is_ok result_bind_eq_Ok px_storage_error_def)

lemma px_delete_step:
  "px_delete deleter st = (r, st') \<Longrightarrow>
   st' = with_store st (snd (change_delete deleter msg (px_store st))) \<and>
   is_ok r = is_ok (fst (change_delete deleter msg (px_store st))) \<and> r \<notin> range (Err \<circ> PE_Module)"
  using px_delete_eq [of deleter st msg]
  by (cases "fst (deleter (px_store st))") (auto simp: change_delete_is_ok px_storage_error_def)

section \<open>A change log is a store step and a cache step\<close>

text \<open>What follows the write, on the state that has it.\<close>

definition px_after ::
  "('s, 'j, 'r) proxy_env \<Rightarrow> 'j changelog \<Rightarrow> ('s, 'j, 'r, 'n) proxy_state \<Rightarrow>
   (proxy_error + unit) \<times> ('s, 'j, 'r, 'n) proxy_state" where
  "px_after E cl st =
     (case cl_cmd cl of
        DeleteNamespace \<Rightarrow> (Ok (), st\<lparr>px_routers := (px_routers st)(cl_name cl := None)\<rparr>)
      | AddRoute \<Rightarrow> rebuild_router E (cl_namespace cl) st
      | DeleteRoute \<Rightarrow> rebuild_router E (cl_namespace cl) st
      | AddService \<Rightarrow> rebuild_router E (cl_namespace cl) st
      | DeleteService \<Rightarrow> rebuild_router E (cl_namespace cl) st
      | AddModule \<Rightarrow>
          (case from_value (sd_module (ps_serde (pe_store E))) (cl_item cl) of
             Err _ \<Rightarrow> (Ok (), st)
           | Ok m \<Rightarrow> and_then (map_err_st (PE_Module \<circ> module_error_to_string) (px_add_module E m st))
                       (\<lambda>_. rebuild_router E (cl_namespace cl)))
      | DeleteModule \<Rightarrow> rebuild_router E (cl_namespace cl) (px_remove_module (cl_namespace cl) (cl_name cl) st)
      | AddDomain \<Rightarrow> rebuild_domains E st
      | DeleteDomain \<Rightarrow> rebuild_domains E st
      | _ \<Rightarrow> (Ok (), st))"

definition split_change ::
  "('s, 'j, 'r) proxy_env \<Rightarrow> 'j changelog \<Rightarrow> ('s, 'j, 'r, 'n) proxy_state \<Rightarrow>
   (proxy_error + unit) \<times> ('s, 'j, 'r, 'n) proxy_state \<Rightarrow> bool" where
  "split_change E cl st res \<longleftrightarrow>
     (let r = store_change (pe_store E) (px_store st) cl; st' = with_store st (snd r)
      in if is_ok (fst r) then res = px_after E cl st' else \<exists>e. e \<notin> range PE_Module \<and> res = (Err e, st'))"

lemma split_change_set:
  assumes "store_change (pe_store E) (px_store st) cl = change_add c setter msg (cl_item cl) (px_store st)"
    and "\<And>x st. from_value c (cl_item cl) = Ok x \<Longrightarrow> f x st = px_after E cl st"
  shows "split_change E cl st (and_then (px_set c setter (cl_item cl) st) f)"
proof (cases "px_set c setter (cl_item cl) st")
  case (Pair r st')
  from px_set_step [OF this, of msg] assms show ?thesis
    by (cases r) (auto simp: Pair split_change_def Let_def image_iff)
qed

lemma split_change_delete:
  assumes "store_change (pe_store E) (px_store st) cl = change_delete deleter msg (px_store st)"
    and "\<And>st. f () st = px_after E cl st"
  shows "split_change E cl st (and_then (px_delete deleter st) f)"
proof (cases "px_delete deleter st")
  case (Pair r st')
  from px_delete_step [OF this, of msg] assms show ?thesis
    by (cases r) (auto simp: Pair split_change_def Let_def image_iff)
qed

lemma and_then_Ok_unit: "and_then m (\<lambda>_ s. (Ok (), s)) = (m :: ('e + unit) \<times> 's)"
  by (cases m; cases "fst m") auto

lemma split_change_delete_only:
  fixes st :: "('s, 'j, 'r, 'n) proxy_state"
  assumes "store_change (pe_store E) (px_store st) cl = change_delete deleter msg (px_store st)"
    and "\<And>st :: ('s, 'j, 'r, 'n) proxy_state. px_after E cl st = (Ok (), st)"
  shows "split_change E cl st (px_delete deleter st)"
proof -
  have "split_change E cl st (and_then (px_delete deleter st) (\<lambda>_ st. (Ok (), st)))"
    by (rule split_change_delete [OF assms(1)]) (simp add: assms(2))
  then show ?thesis by (simp only: and_then_Ok_unit)
qed

lemma process_changelog_split: "split_change E cl st (process_changelog E cl st)"
proof (cases "cl_cmd cl = DeleteDocument")
  case True
  show ?thesis
  proof (cases "from_value (sd_document (ps_serde (pe_store E))) (cl_item cl)")
    case (Inl e)
    with True show ?thesis
      by (auto simp: process_changelog_def Let_def split_change_def store_change_cmds)
  next
    case (Inr doc)
    have "split_change E cl st
        (and_then (px_delete (\<lambda>s. delete_document (pe_store E) s (cl_namespace cl) (doc_collection doc) (cl_name cl)) st)
          (\<lambda>_ st. (Ok (), st)))"
      by (rule split_change_delete [where msg = "deleted ''Document'' (cl_name cl)"])
        (use True Inr in \<open>simp_all add: store_change_cmds px_after_def\<close>)
    with True Inr show ?thesis by (simp add: process_changelog_def Let_def and_then_Ok_unit)
  qed
next
  case False
  note unf = process_changelog_def Let_def px_after_def
  show ?thesis
  proof (cases "cl_cmd cl")
    case AddNamespace
    then show ?thesis by (auto simp: unf intro!: split_change_set [OF store_change_cmds(1)])
  next
    case DeleteNamespace
    then show ?thesis by (auto simp: unf intro!: split_change_delete [OF store_change_cmds(2)])
  next
    case AddRoute
    then show ?thesis by (auto simp: unf intro!: split_change_set [OF store_change_cmds(3)])
  next
    case DeleteRoute
    then show ?thesis by (auto simp: unf intro!: split_change_delete [OF store_change_cmds(4)])
  next
    case AddService
    then show ?thesis by (auto simp: unf intro!: split_change_set [OF store_change_cmds(5)])
  next
    case DeleteService
    then show ?thesis by (auto simp: unf intro!: split_change_delete [OF store_change_cmds(6)])
  next
    case AddModule
    then show ?thesis by (auto simp: unf intro!: split_change_set [OF store_change_cmds(7)])
  next
    case DeleteModule
    then show ?thesis by (auto simp: unf intro!: split_change_delete [OF store_change_cmds(8)])
  next
    case AddDomain
    then show ?thesis by (auto simp: unf intro!: split_change_set [OF store_change_cmds(9)])
  next
    case DeleteDomain
    then show ?thesis by (auto simp: unf intro!: split_change_delete [OF store_change_cmds(10)])
  next
    case AddSecret
    then show ?thesis by (auto simp: unf intro!: split_change_set [OF store_change_cmds(11)])
  next
    case DeleteSecret
    then show ?thesis by (auto simp: unf intro!: split_change_delete_only [OF store_change_cmds(12)])
  next
    case AddCollection
    then show ?thesis by (auto simp: unf intro!: split_change_set [OF store_change_cmds(13)])
  next
    case DeleteCollection
    then show ?thesis by (auto simp: unf intro!: split_change_delete_only [OF store_change_cmds(14)])
  next
    case AddDocument
    then show ?thesis by (auto simp: unf intro!: split_change_set [OF store_change_cmds(15)])
  next
    case DeleteDocument
    with False show ?thesis by simp
  qed
qed

end
