(* ===== verification/Requests.thy ===== *)
theory Requests
  imports Proxy
begin

text \<open>
  Serving a request, \<open>src/proxy/mod.rs\<close>: the choice of the route, the modules, the request to
  the upstream and its response, the gRPC and WebSocket requests, and the documents modules read
  and write. The http, reqwest, h2 and axum crates are records of parameters.
\<close>

section \<open>HTTP\<close>

text \<open>Headers in the order of the header map; names are lower case there.\<close>

type_synonym headers = "(string \<times> bytes) list"

record http_api =
  ha_to_str :: "bytes \<Rightarrow> string option"
  ha_status :: "u16 \<Rightarrow> bool"
  ha_name :: "string \<Rightarrow> string option"
  ha_value :: "bytes \<Rightarrow> bool"
  ha_method :: "string \<Rightarrow> string option"
  ha_form_parse :: "string \<Rightarrow> (string \<times> string) list"

record http_request =
  hq_method :: string
  hq_path :: string
  hq_query :: "string option"
  hq_headers :: headers
  hq_body :: "string + bytes"

datatype http_body = Body_Bytes bytes | Body_Trailers bytes headers

record axum_response =
  hs_status :: u16
  hs_headers :: headers
  hs_body :: http_body

text \<open>\<open>HeaderMap::get\<close>: the first value of the name.\<close>

definition header_get :: "headers \<Rightarrow> string \<Rightarrow> bytes option" where
  "header_get hs name = map_option snd (find (\<lambda>(k, v). k = name) hs)"

definition header_str :: "http_api \<Rightarrow> headers \<Rightarrow> string \<Rightarrow> string option" where
  "header_str H hs name = Option.bind (header_get hs name) (ha_to_str H)"

text \<open>\<open>(StatusCode, &str).into_response()\<close>\<close>

definition text_response :: "u16 \<Rightarrow> string \<Rightarrow> axum_response" where
  "text_response code s =
     \<lparr>hs_status = code, hs_headers = [(''content-type'', ''text/plain; charset=utf-8'')], hs_body = Body_Bytes s\<rparr>"

text \<open>\<open>Response::builder()\<close>: the first value that is refused makes the whole response fail.\<close>

type_synonym response_builder = "(u16 \<times> headers) option"

definition builder_status :: "http_api \<Rightarrow> u16 \<Rightarrow> response_builder" where
  "builder_status H code = (if ha_status H code then Some (code, []) else None)"

definition builder_header :: "http_api \<Rightarrow> string \<times> bytes \<Rightarrow> response_builder \<Rightarrow> response_builder" where
  "builder_header H kv b =
     (case b of
        None \<Rightarrow> None
      | Some (code, hs) \<Rightarrow>
          (case ha_name H (fst kv) of
             None \<Rightarrow> None
           | Some name \<Rightarrow> if ha_value H (snd kv) then Some (code, hs @ [(name, snd kv)]) else None))"

definition builder_body :: "response_builder \<Rightarrow> http_body \<Rightarrow> axum_response" where
  "builder_body b body =
     (case b of
        Some (code, hs) \<Rightarrow> \<lparr>hs_status = code, hs_headers = hs, hs_body = body\<rparr>
      | None \<Rightarrow> text_response 500 ''Response build error'')"

text \<open>\<open>axum::body::to_bytes\<close>: a body longer than the limit is an error.\<close>

definition to_bytes :: "string + bytes \<Rightarrow> nat \<Rightarrow> string + bytes" where
  "to_bytes body limit =
     result_bind body (\<lambda>b. if length b \<le> limit then Ok b else Err ''length limit exceeded'')"

definition body_limit :: nat where
  "body_limit = 10 * 1024 * 1024"

section \<open>What kind of request\<close>

definition is_websocket_upgrade :: "http_api \<Rightarrow> http_request \<Rightarrow> bool" where
  "is_websocket_upgrade H req =
     (case header_str H (hq_headers req) ''upgrade'' of
        Some v \<Rightarrow> eq_ignore_ascii_case v ''websocket''
      | None \<Rightarrow> False)"

definition is_grpc_request :: "http_api \<Rightarrow> http_request \<Rightarrow> bool" where
  "is_grpc_request H req =
     (case header_str H (hq_headers req) ''content-type'' of
        Some v \<Rightarrow> starts_with v ''application/grpc''
      | None \<Rightarrow> False)"

definition request_host :: "http_api \<Rightarrow> http_request \<Rightarrow> string" where
  "request_host H req =
     (case header_str H (hq_headers req) ''host'' of
        Some h \<Rightarrow> hd (split_on (CHR '':'') h)
      | None \<Rightarrow> ''localhost'')"

section \<open>Documents\<close>

text \<open>The key a module sees a document of a collection under.\<close>

definition document_name :: "string \<Rightarrow> collection \<Rightarrow> 'j document \<Rightarrow> string" where
  "document_name namespace col d =
     (if col_namespace col = namespace then col_name col @ '':'' @ doc_id d
      else col_namespace col @ ''/'' @ col_name col @ '':'' @ doc_id d)"

fun collect_documents ::
  "('s, 'j) proxy_store \<Rightarrow> key_placement \<Rightarrow> 's \<Rightarrow> string \<Rightarrow> collection list \<Rightarrow> 'j hash_map \<Rightarrow> 'j hash_map" where
  "collect_documents P place s namespace [] docs = docs"
| "collect_documents P place s namespace (col # cols) docs =
     collect_documents P place s namespace cols
       (if \<not> is_accessible_from col namespace then docs
        else (case list_documents P s (col_namespace col) (col_name col) of
                Ok documents \<Rightarrow>
                  fold (\<lambda>d. hash_insert place (document_name namespace col d) (doc_data d)) documents docs
              | Err _ \<Rightarrow> docs))"

definition get_documents_for_namespace ::
  "('s, 'j) proxy_store \<Rightarrow> key_placement \<Rightarrow> 's \<Rightarrow> string \<Rightarrow> 'j hash_map" where
  "get_documents_for_namespace P place s namespace =
     (case list_all_collections P s of
        Ok all_collections \<Rightarrow> collect_documents P place s namespace all_collections []
      | Err _ \<Rightarrow> [])"

text \<open>The namespace, collection and id a module's key names.\<close>

definition parse_document_name :: "string \<Rightarrow> string \<Rightarrow> (string \<times> string \<times> string) option" where
  "parse_document_name namespace key =
     (if CHR ''/'' \<in> set key then
        (case split_once (CHR '':'') key of
           Some (ns_col, docid) \<Rightarrow>
             (case split_once (CHR ''/'') ns_col of
                Some (ns, col) \<Rightarrow> Some (ns, col, docid)
              | None \<Rightarrow> None)
         | None \<Rightarrow> None)
      else
        (case split_once (CHR '':'') key of
           Some (col, docid) \<Rightarrow> Some (namespace, col, docid)
         | None \<Rightarrow> None))"

definition can_write :: "('s, 'j) proxy_store \<Rightarrow> 's \<Rightarrow> string \<Rightarrow> string \<Rightarrow> string \<Rightarrow> bool" where
  "can_write P s namespace target_namespace collection =
     (case get_collection P s target_namespace collection of
        Ok (Some col) \<Rightarrow> is_accessible_from col namespace
      | _ \<Rightarrow> target_namespace = namespace)"

text \<open>One entry; \<open>now\<close> are the two times read for it, and an error is logged only.\<close>

definition save_module_document ::
  "('s, 'j) proxy_store \<Rightarrow> (string \<Rightarrow> datetime \<times> datetime) \<Rightarrow> string \<Rightarrow> string \<times> 'j \<Rightarrow> 's \<Rightarrow> 's" where
  "save_module_document P now namespace kv s =
     (case parse_document_name namespace (fst kv) of
        None \<Rightarrow> s
      | Some (target_namespace, collection, docid) \<Rightarrow>
          if \<not> can_write P s namespace target_namespace collection then s
          else snd (set_document P s
                 \<lparr>doc_id = docid, doc_namespace = target_namespace, doc_collection = collection,
                  doc_data = snd kv, doc_created_at = fst (now (fst kv)), doc_updated_at = snd (now (fst kv))\<rparr>))"

definition save_module_documents ::
  "('s, 'j) proxy_store \<Rightarrow> (string \<Rightarrow> datetime \<times> datetime) \<Rightarrow> string \<Rightarrow> 'j hash_map \<Rightarrow> 's \<Rightarrow> 's" where
  "save_module_documents P now namespace documents s = fold (save_module_document P now namespace) documents s"

section \<open>The request to the upstream\<close>

record upstream_request =
  uq_method :: string
  uq_url :: string
  uq_headers :: "(string \<times> string) list"
  uq_body :: "bytes option"
  uq_timeout_ms :: "u64 option"

text \<open>What the client gets back: an error, or a status, headers and a body that may fail to arrive.\<close>

record upstream_response =
  us_status :: u16
  us_headers :: headers
  us_body :: "string + bytes"

text \<open>gRPC over h2: each step of the connection has its own result; \<open>'c\<close> is the connection.\<close>

record h2_request =
  h2_method :: string
  h2_uri :: string
  h2_headers :: headers

record 'c grpc_api =
  ga_parse :: "string \<Rightarrow> string + (string option \<times> u16 option)"
  ga_resolve :: "string \<Rightarrow> string + string list"
  ga_connect :: "string \<Rightarrow> string + 'c"
  ga_handshake :: "'c \<Rightarrow> string + 'c"
  ga_ready :: "'c \<Rightarrow> string + 'c"
  ga_build :: "h2_request \<Rightarrow> bool"
  ga_send_request :: "'c \<Rightarrow> h2_request \<Rightarrow> bool \<Rightarrow> string + 'c"
  ga_capacity :: "'c \<Rightarrow> nat \<Rightarrow> (string + 'c) option"
  ga_send_data :: "'c \<Rightarrow> bytes \<Rightarrow> bool \<Rightarrow> string + 'c"
  ga_response :: "'c \<Rightarrow> string + (u16 \<times> headers)"
  ga_chunks :: "'c \<Rightarrow> (string + bytes) list"
  ga_trailers :: "'c \<Rightarrow> string + headers option"

text \<open>
  Everything a request is served with. \<open>sv_send\<close> is the HTTP client, \<open>sv_upgrade\<close> the WebSocket
  extractor with its response.
\<close>

record ('s, 'j, 'r, 'e, 'v, 'c) serve_env =
  sv_proxy :: "('s, 'j, 'r) proxy_env"
  sv_http :: http_api
  sv_engine :: "('e, 'v, 'j) js_engine"
  sv_json :: "'j json_api"
  sv_place :: key_placement
  sv_send :: "upstream_request \<Rightarrow> string + upstream_response"
  sv_upgrade :: "http_request \<Rightarrow> string + axum_response"
  sv_grpc :: "'c grpc_api"

definition query_string :: "string hash_map \<Rightarrow> string" where
  "query_string query = join ''&'' (map (\<lambda>(k, v). k @ ''='' @ v) query)"

definition full_url :: "string \<Rightarrow> string \<Rightarrow> string \<Rightarrow> string" where
  "full_url upstream_url target query =
     (if query = [] then trim_end_matches (CHR ''/'') upstream_url @ target
      else trim_end_matches (CHR ''/'') upstream_url @ target @ ''?'' @ query)"

definition dgate_headers :: "service \<Rightarrow> 'r compiled_route \<Rightarrow> (string \<times> string) list" where
  "dgate_headers service c =
     (if svc_hide_dgate_headers service then []
      else [(''X-DGate-Route'', rt_name (cpr_route c)), (''X-DGate-Namespace'', ns_name (cpr_namespace c)),
            (''X-DGate-Service'', svc_name service)])"

text \<open>
  \<open>key.to_lowercase()\<close> is Unicode, but no other character than the ASCII ones has an image in
  \<open>"host"\<close>, so the comparison is the ASCII one.
\<close>

definition upstream_request_of ::
  "http_api \<Rightarrow> 'r regex_crate \<Rightarrow> 'j request_context \<Rightarrow> service \<Rightarrow> 'r compiled_route \<Rightarrow> string \<Rightarrow> upstream_request" where
  "upstream_request_of H R req_ctx service c upstream_url =
     \<lparr>uq_method = (case ha_method H (rc_method req_ctx) of Some m \<Rightarrow> m | None \<Rightarrow> ''GET''),
      uq_url = full_url upstream_url (target_path R c (rc_path req_ctx)) (query_string (rc_query req_ctx)),
      uq_headers =
        filter (\<lambda>(key, value). to_ascii_lowercase key \<noteq> ''host'' \<or> rt_preserve_host (cpr_route c)) (rc_headers req_ctx) @
        dgate_headers service c,
      uq_body = rc_body req_ctx,
      uq_timeout_ms = svc_request_timeout_ms service\<rparr>"

section \<open>Responses\<close>

text \<open>The response a module made.\<close>

definition module_http_response :: "http_api \<Rightarrow> 'j module_response \<Rightarrow> axum_response" where
  "module_http_response H r =
     builder_body (fold (builder_header H) (mr_headers r) (builder_status H (mr_status_code r))) (Body_Bytes (mr_body r))"

definition hop_by_hop :: "string set" where
  "hop_by_hop =
     {''transfer-encoding'', ''connection'', ''keep-alive'', ''proxy-authenticate'', ''proxy-authorization'',
      ''te'', ''trailer'', ''upgrade'', ''content-length''}"

text \<open>Headers whose values are text; the others are dropped.\<close>

definition text_headers :: "http_api \<Rightarrow> headers \<Rightarrow> (string \<times> string) list" where
  "text_headers H hs = List.map_filter (\<lambda>(k, v). map_option (Pair k) (ha_to_str H v)) hs"

definition module_context_of :: "module_executor \<Rightarrow> 'r compiled_route \<Rightarrow> string \<Rightarrow> module_context" where
  "module_context_of X c namespace = create_context X (rt_modules (cpr_route c)) namespace"

definition response_body_of ::
  "('s, 'j, 'r, 'e, 'v, 'c) serve_env \<Rightarrow> module_executor \<Rightarrow> 'j request_context \<Rightarrow> 'r compiled_route \<Rightarrow>
   u16 \<Rightarrow> headers \<Rightarrow> bytes \<Rightarrow> bytes" where
  "response_body_of V X req_ctx c status hs body =
     (if cpr_modules c = [] then body
      else (case execute_response_modifier (sv_engine V) (sv_json V) (sv_place V)
                   (module_context_of X c (ns_name (cpr_namespace c))) req_ctx
                   \<lparr>rs_status_code = status, rs_headers = hash_collect (sv_place V) (text_headers (sv_http V) hs),
                    rs_body = Some body\<rparr> of
              Ok modified \<Rightarrow> (case rs_body modified of Some b \<Rightarrow> b | None \<Rightarrow> body)
            | Err _ \<Rightarrow> body))"

definition proxied_response ::
  "http_api \<Rightarrow> (string \<times> string) list \<Rightarrow> u16 \<Rightarrow> headers \<Rightarrow> bytes \<Rightarrow> axum_response" where
  "proxied_response H global_headers status hs body =
     builder_body
       (fold (builder_header H) global_headers
         (builder_header H (''content-length'', show_nat (length body))
           (fold (builder_header H)
             (filter (\<lambda>(k, v). to_ascii_lowercase k \<notin> hop_by_hop) (text_headers H hs))
             (Some (status, [])))))
       (Body_Bytes body)"

definition proxy_to_upstream ::
  "('s, 'j, 'r, 'e, 'v, 'c) serve_env \<Rightarrow> ('s, 'j, 'r, 'n) proxy_state \<Rightarrow> 'j request_context \<Rightarrow> service \<Rightarrow>
   'r compiled_route \<Rightarrow> axum_response" where
  "proxy_to_upstream V st req_ctx service c =
     (case svc_urls service of
        [] \<Rightarrow> text_response 502 ''No upstream configured''
      | upstream_url # _ \<Rightarrow>
          (case sv_send V (upstream_request_of (sv_http V) (pe_regex (sv_proxy V)) req_ctx service c upstream_url) of
             Ok response \<Rightarrow>
               (case us_body response of
                  Err _ \<Rightarrow> text_response 502 ''Upstream read error''
                | Ok body \<Rightarrow>
                    proxied_response (sv_http V) (pc_global_headers (cfg_proxy (px_config st)))
                      (us_status response) (us_headers response)
                      (response_body_of V (px_executor st) req_ctx c (us_status response) (us_headers response) body))
           | Err e \<Rightarrow>
               if cpr_modules c = [] then text_response 502 ''Upstream error''
               else (case execute_error_handler (sv_engine V) (sv_json V) (sv_place V)
                            (module_context_of (px_executor st) c (ns_name (cpr_namespace c))) req_ctx e of
                       Ok error_response \<Rightarrow> module_http_response (sv_http V) error_response
                     | Err _ \<Rightarrow> text_response 502 ''Upstream error'')))"

section \<open>WebSocket and gRPC\<close>

text \<open>\<open>str::replace\<close>\<close>

function str_replace :: "string \<Rightarrow> string \<Rightarrow> string \<Rightarrow> string" where
  "str_replace old new s =
     (if s = [] \<or> old = [] then s
      else if starts_with s old then new @ str_replace old new (drop (length old) s)
      else hd s # str_replace old new (tl s))"
  by pat_completeness auto
termination
  by (relation "measure (\<lambda>(old, new, s). length s)") (auto simp: length_greater_0_conv)

declare str_replace.simps [simp del]

definition websocket_url :: "'r regex_crate \<Rightarrow> http_request \<Rightarrow> 'r compiled_route \<Rightarrow> string \<Rightarrow> string" where
  "websocket_url R req c upstream_url =
     (let ws_upstream = str_replace ''https://'' ''wss://'' (str_replace ''http://'' ''ws://'' upstream_url);
          url = trim_end_matches (CHR ''/'') ws_upstream @ target_path R c (hq_path req)
      in case hq_query req of Some query \<Rightarrow> url @ ''?'' @ query | None \<Rightarrow> url)"

text \<open>The response and the upstream URL the relay is started with.\<close>

definition handle_websocket_upgrade ::
  "('s, 'j, 'r, 'e, 'v, 'c) serve_env \<Rightarrow> http_request \<Rightarrow> service \<Rightarrow> 'r compiled_route \<Rightarrow>
   axum_response \<times> string option" where
  "handle_websocket_upgrade V req service c =
     (case svc_urls service of
        [] \<Rightarrow> (text_response 502 ''No upstream configured'', None)
      | upstream_url # _ \<Rightarrow>
          (case sv_upgrade V req of
             Err _ \<Rightarrow> (text_response 400 ''Invalid WebSocket request'', None)
           | Ok response \<Rightarrow> (response, Some (websocket_url (pe_regex (sv_proxy V)) req c upstream_url))))"

definition grpc_addr :: "string option \<times> u16 option \<Rightarrow> string" where
  "grpc_addr parsed =
     (case fst parsed of Some host \<Rightarrow> host | None \<Rightarrow> ''127.0.0.1'') @ '':'' @
     show_nat (unat (case snd parsed of Some port \<Rightarrow> port | None \<Rightarrow> 80))"

definition grpc_skipped :: "string \<Rightarrow> bool" where
  "grpc_skipped key =
     (let key = to_ascii_lowercase key
      in starts_with key '':'' \<or> key \<in> {''host'', ''connection'', ''keep-alive'', ''transfer-encoding''})"

definition grpc_request_of :: "'r regex_crate \<Rightarrow> http_request \<Rightarrow> 'r compiled_route \<Rightarrow> string \<Rightarrow> h2_request" where
  "grpc_request_of R req c addr =
     \<lparr>h2_method = hq_method req,
      h2_uri = ''http://'' @ addr @ target_path R c (hq_path req) @
        (case hq_query req of Some q \<Rightarrow> ''?'' @ q | None \<Rightarrow> []),
      h2_headers = filter (\<lambda>(key, value). \<not> grpc_skipped key) (hq_headers req) @ [(''host'', addr)]\<rparr>"

definition grpc_connect :: "'c grpc_api \<Rightarrow> string \<Rightarrow> string + 'c" where
  "grpc_connect G addr =
     (case ga_resolve G addr of
        Err _ \<Rightarrow> Err ''Address resolution failed''
      | Ok [] \<Rightarrow> Err ''Address resolution failed''
      | Ok (socket_addr # _) \<Rightarrow>
          result_bind (map_err (\<lambda>_. ''Upstream connection failed'') (ga_connect G socket_addr)) (\<lambda>c.
          result_bind (map_err (\<lambda>_. ''HTTP/2 handshake failed'') (ga_handshake G c)) (\<lambda>c.
            map_err (\<lambda>_. ''HTTP/2 client error'') (ga_ready G c))))"

text \<open>Sending the request and its body, if it has one.\<close>

definition grpc_send :: "'c grpc_api \<Rightarrow> h2_request \<Rightarrow> bytes \<Rightarrow> 'c \<Rightarrow> string + 'c" where
  "grpc_send G h2_req body c =
     result_bind (map_err (\<lambda>_. ''Request send failed'') (ga_send_request G c h2_req (body = []))) (\<lambda>c.
     if body = [] then Ok c
     else (case ga_capacity G c (length body) of
             None \<Rightarrow> Err ''Stream closed''
           | Some (Err _) \<Rightarrow> Err ''Capacity error''
           | Some (Ok c) \<Rightarrow> map_err (\<lambda>_. ''Body send failed'') (ga_send_data G c body True)))"

text \<open>The response: its names and values are valid already, so the builder can not fail.\<close>

definition grpc_response :: "'c grpc_api \<Rightarrow> 'c \<Rightarrow> string + axum_response" where
  "grpc_response G c =
     result_bind (map_err (\<lambda>_. ''Response receive failed'') (ga_response G c)) (\<lambda>(status, hs).
     result_bind (map_err (\<lambda>_. ''Response body error'') (collect_results (ga_chunks G c))) (\<lambda>chunks.
     Ok \<lparr>hs_status = status,
         hs_headers = filter (\<lambda>(k, v). to_ascii_lowercase k \<notin> {''transfer-encoding'', ''connection''}) hs,
         hs_body = (case ga_trailers G c of
                      Ok (Some trailers) \<Rightarrow> Body_Trailers (concat chunks) trailers
                    | _ \<Rightarrow> Body_Bytes (concat chunks))\<rparr>))"

definition handle_grpc_proxy ::
  "('s, 'j, 'r, 'e, 'v, 'c) serve_env \<Rightarrow> http_request \<Rightarrow> service \<Rightarrow> 'r compiled_route \<Rightarrow> axum_response" where
  "handle_grpc_proxy V req service c =
     (let G = sv_grpc V; bad = text_response 502
      in case svc_urls service of
           [] \<Rightarrow> bad ''No upstream configured''
         | upstream_url # _ \<Rightarrow>
     (case ga_parse G upstream_url of
        Err _ \<Rightarrow> bad ''Invalid upstream URL''
      | Ok parsed \<Rightarrow>
     (case grpc_connect G (grpc_addr parsed) of
        Err msg \<Rightarrow> bad msg
      | Ok h2_client \<Rightarrow>
     (case to_bytes (hq_body req) body_limit of
        Err _ \<Rightarrow> text_response 400 ''Failed to read body''
      | Ok body \<Rightarrow>
          let h2_req = grpc_request_of (pe_regex (sv_proxy V)) req c (grpc_addr parsed)
          in if \<not> ga_build G h2_req then text_response 500 ''Request build error''
             else (case result_bind (grpc_send G h2_req body h2_client) (grpc_response G) of
                     Err msg \<Rightarrow> bad msg
                   | Ok response \<Rightarrow> response)))))"

section \<open>handle_request\<close>

text \<open>The context modules see. A body that can not be read, or is too long, is none.\<close>

definition request_context_of ::
  "('s, 'j, 'r, 'e, 'v, 'c) serve_env \<Rightarrow> ('s, 'j, 'r, 'n) proxy_state \<Rightarrow> http_request \<Rightarrow> namespace \<Rightarrow>
   'r compiled_route \<Rightarrow> string hash_map \<Rightarrow> 'j request_context" where
  "request_context_of V st req namespace c params =
     \<lparr>rc_method = hq_method req, rc_path = hq_path req,
      rc_query = (case hq_query req of
                    Some q \<Rightarrow> hash_collect (sv_place V) (ha_form_parse (sv_http V) q)
                  | None \<Rightarrow> []),
      rc_headers = hash_collect (sv_place V) (text_headers (sv_http V) (hq_headers req)),
      rc_body = result_ok (to_bytes (hq_body req) body_limit),
      rc_params = params, rc_route_name = rt_name (cpr_route c), rc_namespace = ns_name namespace,
      rc_service_name = rt_service (cpr_route c),
      rc_documents = get_documents_for_namespace (pe_store (sv_proxy V)) (sv_place V) (px_store st) (ns_name namespace)\<rparr>"

text \<open>The result of a request handler, with the documents it saved.\<close>

definition handler_reply ::
  "('s, 'j, 'r, 'e, 'v, 'c) serve_env \<Rightarrow> (string \<Rightarrow> datetime \<times> datetime) \<Rightarrow> ('s, 'j, 'r, 'n) proxy_state \<Rightarrow>
   namespace \<Rightarrow> module_context \<Rightarrow> 'j request_context \<Rightarrow> axum_response \<times> ('s, 'j, 'r, 'n) proxy_state" where
  "handler_reply V now st namespace M req_ctx =
     (case execute_request_handler (sv_engine V) (sv_json V) (sv_place V) M req_ctx of
        Ok response \<Rightarrow>
          (module_http_response (sv_http V) response,
           if mr_documents response = [] then st
           else st\<lparr>px_store := save_module_documents (pe_store (sv_proxy V)) now (ns_name namespace)
                               (mr_documents response) (px_store st)\<rparr>)
      | Err e \<Rightarrow>
          (case execute_error_handler (sv_engine V) (sv_json V) (sv_place V) M req_ctx (module_error_to_string e) of
             Ok error_response \<Rightarrow> module_http_response (sv_http V) error_response
           | Err _ \<Rightarrow> text_response 500 ''Handler error'', st))"

definition serve_http ::
  "('s, 'j, 'r, 'e, 'v, 'c) serve_env \<Rightarrow> (string \<Rightarrow> datetime \<times> datetime) \<Rightarrow> ('s, 'j, 'r, 'n) proxy_state \<Rightarrow>
   namespace \<Rightarrow> 'r compiled_route \<Rightarrow> 'j request_context \<Rightarrow> axum_response \<times> ('s, 'j, 'r, 'n) proxy_state" where
  "serve_http V now st namespace c req_ctx =
     (let upstream = (\<lambda>req_ctx.
            (case cpr_service c of
               Some service \<Rightarrow> proxy_to_upstream V st req_ctx service c
             | None \<Rightarrow> text_response 501 ''No service or handler configured'', st))
      in if cpr_modules c = [] then upstream req_ctx
         else let M = module_context_of (px_executor st) c (ns_name namespace)
              in case execute_request_modifier (sv_engine V) (sv_json V) (sv_place V) M req_ctx of
                   Err _ \<Rightarrow> (text_response 500 ''Module error'', st)
                 | Ok req_ctx \<Rightarrow>
                     if cpr_service c = None then handler_reply V now st namespace M req_ctx else upstream req_ctx)"

definition handle_request ::
  "('s, 'j, 'r, 'e, 'v, 'c) serve_env \<Rightarrow> (string \<Rightarrow> datetime \<times> datetime) \<Rightarrow> http_request \<Rightarrow>
   ('s, 'j, 'r, 'n) proxy_state \<Rightarrow> (axum_response \<times> string option) \<times> ('s, 'j, 'r, 'n) proxy_state" where
  "handle_request V now req st =
     (let H = sv_http V; E = sv_proxy V
      in case find_namespace_for_host E st (request_host H req) of
           None \<Rightarrow> ((text_response 404 ''No namespace found'', None), st)
         | Some namespace \<Rightarrow>
     (case px_routers st (ns_name namespace) of
        None \<Rightarrow> ((text_response 404 ''No routes configured'', None), st)
      | Some router \<Rightarrow>
     (case find_route (pe_regex E) (sv_place V) router (hq_path req) (hq_method req) of
        None \<Rightarrow> ((text_response 404 ''Route not found'', None), st)
      | Some (c, params) \<Rightarrow>
          if is_websocket_upgrade H req then
            (case cpr_service c of
               Some service \<Rightarrow> (handle_websocket_upgrade V req service c, st)
             | None \<Rightarrow> ((text_response 502 ''No upstream service for WebSocket'', None), st))
          else if is_grpc_request H req then
            (case cpr_service c of
               Some service \<Rightarrow> ((handle_grpc_proxy V req service c, None), st)
             | None \<Rightarrow> ((text_response 502 ''No upstream service for gRPC'', None), st))
          else
            (case serve_http V now st namespace c (request_context_of V st req namespace c params) of
               (response, st) \<Rightarrow> ((response, None), st)))))"

end
