(* ===== verification/Proxy_Changes.thy ===== *)
theory Proxy_Changes
  imports Proxy
begin

text \<open>
  What the change operations of the proxy keep: the router of a namespace shows the routes,
  services and modules the store has for it (\<open>coherent\<close>), a change applied through a cluster
  leaves the same caches as one applied directly, and a restart replays the store's own history.
\<close>

section \<open>The cache of a namespace as a function of the store\<close>

definition entry_of :: "('j, 't) codec \<Rightarrow> (string \<rightharpoonup> bytes) \<Rightarrow> string \<Rightarrow> 't option" where
  "entry_of c m k = (case m k of Some b \<Rightarrow> result_ok (from_slice c b) | None \<Rightarrow> None)"

abbreviation service_key :: "service \<Rightarrow> string" where
  "service_key x \<equiv> scoped_key (svc_namespace x) (svc_name x)"

abbreviation stored_module_key :: "module \<Rightarrow> string" where
  "stored_module_key x \<equiv> scoped_key (md_namespace x) (md_name x)"

definition resource_wf :: "'j serde \<Rightarrow> kv \<Rightarrow> bool" where
  "resource_wf S m \<longleftrightarrow>
     table_wf (sd_namespace S) ns_name (m TBL_NAMESPACES) \<and>
     table_wf (sd_route S) route_key (m TBL_ROUTES) \<and>
     table_wf (sd_service S) service_key (m TBL_SERVICES) \<and>
     table_wf (sd_module S) stored_module_key (m TBL_MODULES) \<and>
     (\<forall>x \<in> stored (sd_route S) (m TBL_ROUTES). CHR '':'' \<notin> set (rt_namespace x))"

text \<open>A compiled route up to the copy of the namespace it holds, of which only the name is used.\<close>

definition erase_namespace :: "'r compiled_route \<Rightarrow> 'r compiled_route" where
  "erase_namespace c = c\<lparr>cpr_namespace := default_namespace\<rparr>"

definition compiled_of :: "('s, 'j, 'r) proxy_env \<Rightarrow> kv \<Rightarrow> string \<Rightarrow> route \<Rightarrow> 'r compiled_route" where
  "compiled_of E m ns r =
     (let S = ps_serde (pe_store E)
      in \<lparr>cpr_route = r, cpr_namespace = default_namespace,
          cpr_service = Option.bind (rt_service r) (\<lambda>n. entry_of (sd_service S) (m TBL_SERVICES) (scoped_key ns n)),
          cpr_modules = List.map_filter (\<lambda>n. entry_of (sd_module S) (m TBL_MODULES) (scoped_key ns n)) (rt_modules r),
          cpr_path_patterns =
            List.map_filter (\<lambda>p. result_ok (compile_path_pattern (pe_alphanumeric E) (pe_regex E) p)) (rt_paths r),
          cpr_methods = rt_methods r\<rparr>)"

definition routes_view :: "('s, 'j, 'r) proxy_env \<Rightarrow> kv \<Rightarrow> string \<Rightarrow> 'r compiled_route set" where
  "routes_view E m ns =
     compiled_of E m ns ` {r \<in> stored (sd_route (ps_serde (pe_store E))) (m TBL_ROUTES). rt_namespace r = ns}"

definition shows_store :: "('s, 'j, 'r) proxy_env \<Rightarrow> kv \<Rightarrow> string \<Rightarrow> 'r ns_router \<Rightarrow> bool" where
  "shows_store E m ns router \<longleftrightarrow> erase_namespace ` set (nr_routes router) = routes_view E m ns"

definition coherent :: "('s, 'j, 'r) proxy_env \<Rightarrow> kv \<Rightarrow> (string \<rightharpoonup> 'r ns_router) \<Rightarrow> bool" where
  "coherent E m routers \<longleftrightarrow>
     (\<forall>ns router. routers ns = Some router \<longrightarrow>
        CHR '':'' \<notin> set ns \<and> m TBL_NAMESPACES ns \<noteq> None \<and> shows_store E m ns router)"

lemma nr_routes_fold_add: "nr_routes (fold ns_router_add cs router) = nr_routes router @ cs"
  by (induction cs arbitrary: router) (simp_all add: ns_router_add_def)

lemma read_entry_wf:
  assumes "table_wf c key m"
  shows "read_entry c (m k) = Ok (entry_of c m k)"
proof (cases "m k")
  case (Some b)
  with assms obtain x where "from_slice c b = Ok x" by (auto simp: table_wf_def)
  with Some show ?thesis by (simp add: entry_of_def)
qed (simp add: entry_of_def)

context total_storage
begin

lemma compile_route_total:
  assumes "ps_storage (pe_store E) = ops" and "ok s" and "resource_tables \<subseteq> tables"
    and "resource_wf (ps_serde (pe_store E)) (content s)"
  shows "\<exists>c. compile_route E s ns n r = Ok c \<and> erase_namespace c = compiled_of E (content s) ns r"
proof -
  let ?P = "pe_store E" and ?m = "content s"
  let ?S = "ps_serde ?P"
  have t: "TBL_SERVICES \<in> tables" "TBL_MODULES \<in> tables" using assms(3) by (auto simp: resource_tables_def)
  have svc: "get_service ?P s ns x = Ok (entry_of (sd_service ?S) (?m TBL_SERVICES) (scoped_key ns x))" for x
    using assms(4) read_entry_wf [of "sd_service ?S" service_key "?m TBL_SERVICES"]
    by (simp add: get_service_def get_typed_eq [OF assms(1,2) t(1)] resource_wf_def)
  have md: "get_module ?P s ns x = Ok (entry_of (sd_module ?S) (?m TBL_MODULES) (scoped_key ns x))" for x
    using assms(4) read_entry_wf [of "sd_module ?S" stored_module_key "?m TBL_MODULES"]
    by (simp add: get_module_def get_typed_eq [OF assms(1,2) t(2)] resource_wf_def)
  have mods: "collect_results (map (\<lambda>x. map_err px_storage_error (get_module ?P s ns x)) (rt_modules r)) =
      Ok (map (\<lambda>x. entry_of (sd_module ?S) (?m TBL_MODULES) (scoped_key ns x)) (rt_modules r))"
    by (rule collect_results_map_Ok) (simp add: md)
  have flat: "List.map_filter id (map f xs) = List.map_filter f xs" for f :: "string \<Rightarrow> module option" and xs
    by (induction xs) (simp_all add: List.map_filter_simps split: option.split)
  have "(case rt_service r of Some x \<Rightarrow> map_err px_storage_error (get_service ?P s ns x) | None \<Rightarrow> Ok None) =
      Ok (Option.bind (rt_service r) (\<lambda>x. entry_of (sd_service ?S) (?m TBL_SERVICES) (scoped_key ns x)))"
    by (cases "rt_service r") (simp_all add: svc)
  with mods show ?thesis
    by (simp add: compile_route_def erase_namespace_def compiled_of_def Let_def flat)
qed

lemma compute_router_spec:
  assumes "ps_storage (pe_store E) = ops" and "ok s" and "resource_tables \<subseteq> tables"
    and "resource_wf (ps_serde (pe_store E)) (content s)" and "CHR '':'' \<notin> set ns"
  shows "case content s TBL_NAMESPACES ns of
      None \<Rightarrow> \<not> is_ok (compute_router E s ns)
    | Some _ \<Rightarrow> \<exists>router. compute_router E s ns = Ok router \<and> shows_store E (content s) ns router"
proof -
  let ?P = "pe_store E" and ?m = "content s"
  let ?S = "ps_serde ?P"
  have t: "TBL_NAMESPACES \<in> tables" "TBL_ROUTES \<in> tables" using assms(3) by (auto simp: resource_tables_def)
  have wf: "table_wf (sd_namespace ?S) ns_name (?m TBL_NAMESPACES)" "table_wf (sd_route ?S) route_key (?m TBL_ROUTES)"
    using assms(4) by (simp_all add: resource_wf_def)
  have get: "get_namespace ?P s ns = Ok (entry_of (sd_namespace ?S) (?m TBL_NAMESPACES) ns)"
    by (simp add: get_namespace_def get_typed_eq [OF assms(1,2) t(1)] read_entry_wf [OF wf(1)])
  show ?thesis
  proof (cases "?m TBL_NAMESPACES ns")
    case None
    then show ?thesis by (simp add: compute_router_def get entry_of_def)
  next
    case (Some b)
    with wf(1) obtain n where n: "from_slice (sd_namespace ?S) b = Ok n" by (auto simp: table_wf_def)
    have "is_ok (list_typed (sd_route ?S) ?P s TBL_ROUTES (ns @ '':''))"
      by (rule list_typed_total [OF assms(1,2) t(2)]) (use wf(2) in \<open>force simp: table_wf_def\<close>)
    then obtain rs where rs: "list_typed (sd_route ?S) ?P s TBL_ROUTES (ns @ '':'') = Ok rs"
      by (cases "list_typed (sd_route ?S) ?P s TBL_ROUTES (ns @ '':'')") auto
    have set: "set rs = {r \<in> stored (sd_route ?S) (?m TBL_ROUTES). rt_namespace r = ns}"
      by (rule list_scoped [OF assms(1,2) t(2) rs wf(2) assms(5)]) (use assms(4) in \<open>auto simp: resource_wf_def\<close>)
    obtain f where f: "\<And>r. compile_route E s ns n r = Ok (f r)" "\<And>r. erase_namespace (f r) = compiled_of E ?m ns r"
      using compile_route_total [OF assms(1-4), of ns n] by metis
    have "compute_router E s ns = Ok (fold ns_router_add (map f rs) (ns_router_new n))"
      using rs f(1) Some n collect_results_map_Ok [of rs "compile_route E s ns n" f]
      by (simp add: compute_router_def get entry_of_def list_routes_def)
    moreover have "shows_store E ?m ns (fold ns_router_add (map f rs) (ns_router_new n))"
      by (simp add: shows_store_def nr_routes_fold_add ns_router_new_def routes_view_def image_image f(2) set)
    ultimately show ?thesis using Some by simp
  qed
qed

end

section \<open>What a change log writes\<close>

text \<open>The item of an addition is of the namespace the change log names, which has no colon.\<close>

definition changelog_wf :: "'j serde \<Rightarrow> 'j changelog \<Rightarrow> bool" where
  "changelog_wf S cl \<longleftrightarrow>
     CHR '':'' \<notin> set (cl_namespace cl) \<and>
     (case cl_cmd cl of
        AddRoute \<Rightarrow> \<forall>x. from_value (sd_route S) (cl_item cl) = Ok x \<longrightarrow> rt_namespace x = cl_namespace cl
      | AddService \<Rightarrow> \<forall>x. from_value (sd_service S) (cl_item cl) = Ok x \<longrightarrow> svc_namespace x = cl_namespace cl
      | AddModule \<Rightarrow> \<forall>x. from_value (sd_module S) (cl_item cl) = Ok x \<longrightarrow> md_namespace x = cl_namespace cl
      | _ \<Rightarrow> True)"

text \<open>A write to the table \<open>t\<close> at a key of the namespace, whose value, if any, is one of that key.\<close>

definition typed_write :: "('j, 't) codec \<Rightarrow> ('t \<Rightarrow> string) \<Rightarrow> string \<Rightarrow> kv_write \<Rightarrow> bool" where
  "typed_write c key t w \<longleftrightarrow>
     write_table w = t \<and> (\<forall>b. write_value w = Some b \<longrightarrow> (\<exists>x. from_slice c b = Ok x \<and> key x = write_key w))"

definition scoped_write :: "('j, 't) codec \<Rightarrow> ('t \<Rightarrow> string) \<Rightarrow> ('t \<Rightarrow> string) \<Rightarrow> string \<Rightarrow> string \<Rightarrow> kv_write \<Rightarrow> bool" where
  "scoped_write c nsf nmf ns t w \<longleftrightarrow>
     typed_write c (\<lambda>x. scoped_key (nsf x) (nmf x)) t w \<and> (\<exists>n. write_key w = scoped_key ns n) \<and>
     (\<forall>b x. write_value w = Some b \<longrightarrow> from_slice c b = Ok x \<longrightarrow> nsf x = ns)"

lemma put_effect_Ok:
  assumes "put_effect c t key msg item = Ok (w, m)" and "codec_ok (\<lambda>_. True) c"
  obtains x b where "from_value c item = Ok x" "from_slice c b = Ok x" "w = KV_Put t (key x) b"
proof -
  from assms(1) obtain x b where x: "from_value c item = Ok x" "to_vec c x = Ok b" "w = KV_Put t (key x) b"
    by (auto simp: put_effect_def result_bind_eq_Ok)
  from codec_ok_vec [OF assms(2) TrueI, of x] x(2) have "from_slice c b = Ok x" by auto
  with x that show ?thesis by blast
qed

lemma put_effect_scoped:
  assumes "put_effect c t (\<lambda>x. scoped_key (nsf x) (nmf x)) msg item = Ok (w, m)" and "codec_ok (\<lambda>_. True) c"
    and "\<forall>x. from_value c item = Ok x \<longrightarrow> nsf x = ns"
  shows "scoped_write c nsf nmf ns t w"
  by (rule put_effect_Ok [OF assms(1,2)]) (use assms(3) in \<open>auto simp: scoped_write_def typed_write_def\<close>)

lemma delete_scoped: "scoped_write c nsf nmf ns t (KV_Del t (scoped_key ns n))"
  by (auto simp: scoped_write_def typed_write_def)

lemma change_writes:
  assumes "change_effect S cl = Ok (w, msg)" and "serde_ok S" and "changelog_wf S cl"
  shows "cl_cmd cl \<in> {AddRoute, DeleteRoute} \<Longrightarrow>
      scoped_write (sd_route S) rt_namespace rt_name (cl_namespace cl) TBL_ROUTES w"
    and "cl_cmd cl \<in> {AddService, DeleteService} \<Longrightarrow>
      scoped_write (sd_service S) svc_namespace svc_name (cl_namespace cl) TBL_SERVICES w"
    and "cl_cmd cl \<in> {AddModule, DeleteModule} \<Longrightarrow>
      scoped_write (sd_module S) md_namespace md_name (cl_namespace cl) TBL_MODULES w"
    and "cl_cmd cl = AddNamespace \<Longrightarrow>
      typed_write (sd_namespace S) ns_name TBL_NAMESPACES w \<and> write_value w \<noteq> None"
    and "cl_cmd cl = DeleteNamespace \<Longrightarrow> w = KV_Del TBL_NAMESPACES (cl_name cl)"
    and "cl_cmd cl \<notin> {AddRoute, DeleteRoute, AddService, DeleteService, AddModule, DeleteModule, AddNamespace, DeleteNamespace}
      \<Longrightarrow> write_table w \<notin> {TBL_NAMESPACES, TBL_ROUTES, TBL_SERVICES, TBL_MODULES}"
proof -
  note codecs = serde_okD [OF assms(2)]
  note eff = assms(1) [unfolded change_effect_def Let_def]
  show "scoped_write (sd_route S) rt_namespace rt_name (cl_namespace cl) TBL_ROUTES w"
    if "cl_cmd cl \<in> {AddRoute, DeleteRoute}"
    using that eff assms(3)
    by (auto simp: changelog_wf_def delete_scoped intro: put_effect_scoped [OF _ codecs(2)])
  show "scoped_write (sd_service S) svc_namespace svc_name (cl_namespace cl) TBL_SERVICES w"
    if "cl_cmd cl \<in> {AddService, DeleteService}"
    using that eff assms(3)
    by (auto simp: changelog_wf_def delete_scoped intro: put_effect_scoped [OF _ codecs(3)])
  show "scoped_write (sd_module S) md_namespace md_name (cl_namespace cl) TBL_MODULES w"
    if "cl_cmd cl \<in> {AddModule, DeleteModule}"
    using that eff assms(3)
    by (auto simp: changelog_wf_def delete_scoped intro: put_effect_scoped [OF _ codecs(4)])
  show "typed_write (sd_namespace S) ns_name TBL_NAMESPACES w \<and> write_value w \<noteq> None"
    if "cl_cmd cl = AddNamespace"
    using that eff by (auto simp: typed_write_def elim!: put_effect_Ok [OF _ codecs(1)])
  show "w = KV_Del TBL_NAMESPACES (cl_name cl)" if "cl_cmd cl = DeleteNamespace" using that eff by simp
  show "write_table w \<notin> {TBL_NAMESPACES, TBL_ROUTES, TBL_SERVICES, TBL_MODULES}"
    if "cl_cmd cl \<notin> {AddRoute, DeleteRoute, AddService, DeleteService, AddModule, DeleteModule, AddNamespace, DeleteNamespace}"
    using that eff
    by (cases "cl_cmd cl") (auto simp: tbl_defs result_bind_eq_Ok dest!: put_effect_table)
qed

section \<open>What a write does to the tables and the views\<close>

lemma apply_write_table:
  "apply_write w m t = (if write_table w = t then (m t)(write_key w := write_value w) else m t)"
  by (rule ext) (auto simp: apply_write_apply)

lemma table_wf_upd:
  "table_wf c key m \<Longrightarrow> (\<And>b. v = Some b \<Longrightarrow> \<exists>x. from_slice c b = Ok x \<and> key x = k) \<Longrightarrow> table_wf c key (m(k := v))"
  by (auto simp: table_wf_def)

lemma table_wf_write:
  assumes "table_wf c key (m t)" and "write_table w = t \<Longrightarrow> typed_write c key t w"
  shows "table_wf c key (apply_write w m t)"
  using assms by (auto simp: apply_write_table typed_write_def intro!: table_wf_upd)

lemma stored_upd_other:
  assumes "table_wf c (\<lambda>x. scoped_key (nsf x) (nmf x)) m" and "\<forall>x \<in> stored c m. CHR '':'' \<notin> set (nsf x)"
    and "CHR '':'' \<notin> set ns" and "ns' \<noteq> ns" and "\<forall>b x. v = Some b \<longrightarrow> from_slice c b = Ok x \<longrightarrow> nsf x = ns"
  shows "{x \<in> stored c (m(scoped_key ns n := v)). nsf x = ns'} = {x \<in> stored c m. nsf x = ns'}"
proof -
  have "nsf x = ns" if "m (scoped_key ns n) = Some b" "from_slice c b = Ok x" for b x
  proof -
    from that assms(1) have "scoped_key (nsf x) (nmf x) = scoped_key ns n" by (force simp: table_wf_def)
    moreover have "CHR '':'' \<notin> set (nsf x)" using assms(2) that by (auto simp: stored_def)
    ultimately show ?thesis using scoped_key_inj assms(3) by blast
  qed
  note old = this
  have "x \<in> stored c (m(scoped_key ns n := v)) \<longleftrightarrow> x \<in> stored c m" if x: "nsf x = ns'" for x
  proof
    assume "x \<in> stored c (m(scoped_key ns n := v))"
    then obtain k b where kb: "(m(scoped_key ns n := v)) k = Some b" "from_slice c b = Ok x"
      by (auto simp: stored_def)
    then have "k \<noteq> scoped_key ns n" using assms(4,5) x by auto
    with kb show "x \<in> stored c m" by (auto simp: stored_def)
  next
    assume "x \<in> stored c m"
    then obtain k b where kb: "m k = Some b" "from_slice c b = Ok x" by (auto simp: stored_def)
    then have "k \<noteq> scoped_key ns n" using old assms(4) x by auto
    with kb have "(m(scoped_key ns n := v)) k = Some b" by simp
    with kb(2) show "x \<in> stored c (m(scoped_key ns n := v))" unfolding stored_def by blast
  qed
  then show ?thesis by blast
qed

lemma routes_view_other_table:
  "write_table w \<notin> {TBL_ROUTES, TBL_SERVICES, TBL_MODULES} \<Longrightarrow> routes_view E (apply_write w m) ns = routes_view E m ns"
  by (simp add: routes_view_def compiled_of_def apply_write_table)

lemma routes_view_other_ns:
  assumes "resource_wf (ps_serde (pe_store E)) m" and "CHR '':'' \<notin> set ns" and "CHR '':'' \<notin> set ns'" and "ns' \<noteq> ns"
    and "scoped_write (sd_route (ps_serde (pe_store E))) rt_namespace rt_name ns TBL_ROUTES w \<or>
         scoped_write (sd_service (ps_serde (pe_store E))) svc_namespace svc_name ns TBL_SERVICES w \<or>
         scoped_write (sd_module (ps_serde (pe_store E))) md_namespace md_name ns TBL_MODULES w"
  shows "routes_view E (apply_write w m) ns' = routes_view E m ns'"
proof -
  let ?S = "ps_serde (pe_store E)"
  from assms(5) obtain n where k: "write_key w = scoped_key ns n" by (auto simp: scoped_write_def)
  have "scoped_key ns' n' \<noteq> write_key w" for n' using scoped_key_inj assms(2-4) k by metis
  then have c: "compiled_of E (apply_write w m) ns' = compiled_of E m ns'"
    by (simp add: fun_eq_iff compiled_of_def apply_write_table entry_of_def)
  have "{x \<in> stored (sd_route ?S) (apply_write w m TBL_ROUTES). rt_namespace x = ns'} =
      {x \<in> stored (sd_route ?S) (m TBL_ROUTES). rt_namespace x = ns'}"
  proof (cases "write_table w = TBL_ROUTES")
    case True
    with assms(5) have "scoped_write (sd_route ?S) rt_namespace rt_name ns TBL_ROUTES w"
      by (auto simp: scoped_write_def typed_write_def tbl_defs)
    then have "\<forall>b x. write_value w = Some b \<longrightarrow> from_slice (sd_route ?S) b = Ok x \<longrightarrow> rt_namespace x = ns"
      by (auto simp: scoped_write_def)
    with stored_upd_other [of "sd_route ?S" rt_namespace rt_name "m TBL_ROUTES" ns ns' "write_value w" n] assms(1,2,4)
    show ?thesis by (simp add: apply_write_table True k resource_wf_def)
  qed (simp add: apply_write_table)
  with c show ?thesis by (simp add: routes_view_def)
qed

lemma resource_wf_write:
  assumes "resource_wf S m" and "change_effect S cl = Ok (w, msg)" and "serde_ok S" and "changelog_wf S cl"
  shows "resource_wf S (apply_write w m)"
proof -
  note cw = change_writes [OF assms(2-4)]
  have t: "typed_write (sd_namespace S) ns_name TBL_NAMESPACES w" if "write_table w = TBL_NAMESPACES"
    using that cw by (cases "cl_cmd cl") (auto simp: scoped_write_def typed_write_def tbl_defs)
  have r: "scoped_write (sd_route S) rt_namespace rt_name (cl_namespace cl) TBL_ROUTES w" if "write_table w = TBL_ROUTES"
    using that cw by (cases "cl_cmd cl") (auto simp: scoped_write_def typed_write_def tbl_defs)
  have s: "typed_write (sd_service S) service_key TBL_SERVICES w" if "write_table w = TBL_SERVICES"
    using that cw by (cases "cl_cmd cl") (auto simp: scoped_write_def typed_write_def tbl_defs)
  have d: "typed_write (sd_module S) stored_module_key TBL_MODULES w" if "write_table w = TBL_MODULES"
    using that cw by (cases "cl_cmd cl") (auto simp: scoped_write_def typed_write_def tbl_defs)
  have "CHR '':'' \<notin> set (rt_namespace x)" if x: "x \<in> stored (sd_route S) (apply_write w m TBL_ROUTES)" for x
  proof (cases "x \<in> stored (sd_route S) (m TBL_ROUTES)")
    case True
    with assms(1) show ?thesis by (simp add: resource_wf_def)
  next
    case False
    with x have "write_table w = TBL_ROUTES" "\<exists>b. write_value w = Some b \<and> from_slice (sd_route S) b = Ok x"
      by (auto simp: stored_def apply_write_table split: if_splits)
    with r have "rt_namespace x = cl_namespace cl" by (auto simp: scoped_write_def)
    with assms(4) show ?thesis by (simp add: changelog_wf_def)
  qed
  moreover have "typed_write (sd_route S) route_key TBL_ROUTES w" if "write_table w = TBL_ROUTES"
    using r [OF that] by (simp add: scoped_write_def)
  ultimately show ?thesis
    using assms(1) t s d by (simp add: resource_wf_def table_wf_write)
qed

section \<open>The caches stay coherent\<close>

definition px_inv ::
  "('s, 'j, 'r) proxy_env \<Rightarrow> ('s \<Rightarrow> bool) \<Rightarrow> ('s \<Rightarrow> kv) \<Rightarrow> ('s, 'j, 'r, 'n) proxy_state \<Rightarrow> bool" where
  "px_inv E ok content st \<longleftrightarrow>
     ok (px_store st) \<and> resource_wf (ps_serde (pe_store E)) (content (px_store st)) \<and>
     coherent E (content (px_store st)) (px_routers st)"

text \<open>Every router but the one of \<open>ns\<close> shows the store.\<close>

definition coherent_but ::
  "('s, 'j, 'r) proxy_env \<Rightarrow> kv \<Rightarrow> string \<Rightarrow> (string \<rightharpoonup> 'r ns_router) \<Rightarrow> bool" where
  "coherent_but E m ns routers \<longleftrightarrow>
     (\<forall>ns' router. routers ns' = Some router \<longrightarrow>
        CHR '':'' \<notin> set ns' \<and> m TBL_NAMESPACES ns' \<noteq> None \<and> (ns' \<noteq> ns \<longrightarrow> shows_store E m ns' router))"

definition px_inv_but ::
  "('s, 'j, 'r) proxy_env \<Rightarrow> ('s \<Rightarrow> bool) \<Rightarrow> ('s \<Rightarrow> kv) \<Rightarrow> string \<Rightarrow> ('s, 'j, 'r, 'n) proxy_state \<Rightarrow> bool" where
  "px_inv_but E ok content ns st \<longleftrightarrow>
     ok (px_store st) \<and> resource_wf (ps_serde (pe_store E)) (content (px_store st)) \<and>
     coherent_but E (content (px_store st)) ns (px_routers st)"

lemma coherent_write_other:
  assumes "coherent E m routers" and "write_table w \<notin> {TBL_NAMESPACES, TBL_ROUTES, TBL_SERVICES, TBL_MODULES}"
  shows "coherent E (apply_write w m) routers"
  using assms by (auto simp: coherent_def shows_store_def routes_view_other_table apply_write_table)

lemma coherent_write_namespace:
  assumes "coherent E m routers" and "write_table w = TBL_NAMESPACES"
    and "write_value w = None \<Longrightarrow> routers (write_key w) = None"
  shows "coherent E (apply_write w m) routers"
proof -
  have "write_table w \<notin> {TBL_ROUTES, TBL_SERVICES, TBL_MODULES}" using assms(2) by (simp add: tbl_defs)
  then show ?thesis
    using assms
    by (cases "write_value w") (auto simp: coherent_def shows_store_def routes_view_other_table apply_write_table)
qed

lemma coherent_write_scoped:
  assumes "coherent E m routers" and "resource_wf (ps_serde (pe_store E)) m" and "CHR '':'' \<notin> set ns"
    and "scoped_write (sd_route (ps_serde (pe_store E))) rt_namespace rt_name ns TBL_ROUTES w \<or>
         scoped_write (sd_service (ps_serde (pe_store E))) svc_namespace svc_name ns TBL_SERVICES w \<or>
         scoped_write (sd_module (ps_serde (pe_store E))) md_namespace md_name ns TBL_MODULES w"
  shows "coherent_but E (apply_write w m) ns routers"
proof -
  have "write_table w \<noteq> TBL_NAMESPACES" using assms(4) by (auto simp: scoped_write_def typed_write_def tbl_defs)
  then show ?thesis
    using assms(1) routes_view_other_ns [OF assms(2,3) _ _ assms(4)]
    by (auto simp: coherent_def coherent_but_def shows_store_def apply_write_table)
qed

lemma compute_no_module_error:
  "compute_router E s ns \<noteq> Err (PE_Module e)" "compute_domains E s \<noteq> Err (PE_Module e)"
proof -
  have storage: "map_err px_storage_error r \<noteq> Err (PE_Module e)" for r :: "storage_error + 'y"
    by (cases r) (simp_all add: px_storage_error_def)
  have compile: "compile_route E s ns n r \<noteq> Err (PE_Module e)" for n r
    by (auto simp: storage storage [THEN not_sym] compile_route_def result_bind_eq_Err dest!: collect_results_eq_Err split: option.splits)
  show "compute_router E s ns \<noteq> Err (PE_Module e)"
    by (auto simp: storage compile compile [THEN not_sym] compute_router_def result_bind_eq_Err dest!: collect_results_eq_Err split: option.splits)
  have "resolve_domains E s ds \<noteq> Err (PE_Module e)" for ds
    using storage by (induction ds) (auto simp: result_bind_eq_Err)
  then show "compute_domains E s \<noteq> Err (PE_Module e)"
    by (auto simp: storage storage [THEN not_sym] compute_domains_def result_bind_eq_Err)
qed

lemma px_after_module_error:
  assumes "fst (px_after E cl st) = Err (PE_Module e)"
  shows "cl_cmd cl = AddModule" and "px_store (snd (px_after E cl st)) = px_store st"
    and "px_routers (snd (px_after E cl st)) = px_routers st"
proof -
  have rebuild: "fst (rebuild_router E ns st) \<noteq> Err (PE_Module e)" "fst (rebuild_domains E st) \<noteq> Err (PE_Module e)"
    for ns and st :: "('a, 'b, 'c, 'd) proxy_state"
    using compute_no_module_error [where E = E and e = e]
    by (auto simp: rebuild_router_def rebuild_domains_def split: sum.split)
  show cmd: "cl_cmd cl = AddModule"
    using assms rebuild by (cases "cl_cmd cl") (auto simp: px_after_def)
  obtain m where m: "from_value (sd_module (ps_serde (pe_store E))) (cl_item cl) = Ok m"
    using assms by (cases "from_value (sd_module (ps_serde (pe_store E))) (cl_item cl)") (auto simp: px_after_def cmd)
  obtain r st' where a: "px_add_module E m st = (r, st')" by (rule prod.exhaust)
  with px_add_module_frame [of E m st] have f: "px_store st' = px_store st" "px_routers st' = px_routers st" by simp_all
  have "\<not> is_ok r"
    using assms rebuild by (cases r) (auto simp: px_after_def cmd m a)
  then have "snd (px_after E cl st) = st'"
    by (cases r) (auto simp: px_after_def cmd m a)
  with f show "px_store (snd (px_after E cl st)) = px_store st" "px_routers (snd (px_after E cl st)) = px_routers st" by simp_all
qed

context total_storage
begin

lemma rebuild_coherent:
  assumes "ps_storage (pe_store E) = ops" and "ok (px_store st)" and "resource_tables \<subseteq> tables"
    and "resource_wf (ps_serde (pe_store E)) (content (px_store st))" and "CHR '':'' \<notin> set ns"
    and "coherent_but E (content (px_store st)) ns (px_routers st)"
  shows "coherent E (content (px_store st)) (px_routers (snd (rebuild_router E ns st)))"
proof -
  note spec = compute_router_spec [OF assms(1-5)]
  show ?thesis
  proof (cases "content (px_store st) TBL_NAMESPACES ns")
    case None
    with spec obtain e where "compute_router E (px_store st) ns = Err e"
      by (cases "compute_router E (px_store st) ns") auto
    moreover have "ns' \<noteq> ns" if "px_routers st ns' = Some router" for ns' router
      using that None assms(6) unfolding coherent_but_def by metis
    ultimately show ?thesis using assms(6) by (auto simp: rebuild_router_def coherent_def coherent_but_def)
  next
    case (Some b)
    with spec obtain router where "compute_router E (px_store st) ns = Ok router"
      "shows_store E (content (px_store st)) ns router" by auto
    with Some assms(5,6) show ?thesis by (auto simp: rebuild_router_def coherent_def coherent_but_def)
  qed
qed

lemma px_after_coherent:
  assumes P: "ps_storage (pe_store E) = ops" "ok (px_store st')" "resource_tables \<subseteq> tables"
    and S: "serde_ok (ps_serde (pe_store E))" "changelog_wf (ps_serde (pe_store E)) cl"
    and w: "change_effect (ps_serde (pe_store E)) cl = Ok (w, msg)"
    and m: "content (px_store st') = apply_write w m" "resource_wf (ps_serde (pe_store E)) m"
      "coherent E m (px_routers st')"
    and no: "\<And>e. fst (px_after E cl st') \<noteq> Err (PE_Module e)"
  shows "coherent E (content (px_store st')) (px_routers (snd (px_after E cl st')))"
proof -
  note cw = change_writes [OF w S]
  have ns: "CHR '':'' \<notin> set (cl_namespace cl)" using S(2) by (simp add: changelog_wf_def)
  have wf: "resource_wf (ps_serde (pe_store E)) (content (px_store st'))"
    unfolding m(1) by (rule resource_wf_write [OF m(2) w S])
  have reb: "coherent E (content (px_store st'')) (px_routers (snd (rebuild_router E (cl_namespace cl) st'')))"
    if "cl_cmd cl \<in> {AddRoute, DeleteRoute, AddService, DeleteService, AddModule, DeleteModule}"
      "px_store st'' = px_store st'" "px_routers st'' = px_routers st'" for st''
  proof (rule rebuild_coherent [OF P(1) _ P(3) _ ns])
    show "ok (px_store st'')" "resource_wf (ps_serde (pe_store E)) (content (px_store st''))"
      using that(2) P(2) wf by simp_all
    show "coherent_but E (content (px_store st'')) (cl_namespace cl) (px_routers st'')"
      unfolding that(2,3) m(1) by (rule coherent_write_scoped [OF m(3,2) ns]) (use that(1) cw(1-3) in auto)
  qed
  consider (rebuild) "cl_cmd cl \<in> {AddRoute, DeleteRoute, AddService, DeleteService}"
    | (add) "cl_cmd cl = AddModule" | (del) "cl_cmd cl = DeleteModule" | (ns) "cl_cmd cl = AddNamespace"
    | (dns) "cl_cmd cl = DeleteNamespace"
    | (other) "cl_cmd cl \<notin> {AddRoute, DeleteRoute, AddService, DeleteService, AddModule, DeleteModule, AddNamespace, DeleteNamespace}"
    by blast
  then show ?thesis
  proof cases
    case rebuild
    then show ?thesis using reb [of st'] by (auto simp: px_after_def)
  next
    case add
    then obtain x where x: "from_value (sd_module (ps_serde (pe_store E))) (cl_item cl) = Ok x"
      using w by (auto simp: change_effect_def Let_def put_effect_def result_bind_eq_Ok)
    show ?thesis
    proof (cases "px_add_module E x st'")
      case (Pair r st'')
      then have f: "px_store st'' = px_store st'" "px_routers st'' = px_routers st'"
        using px_add_module_frame [of E x st'] by simp_all
      from no have "r = Ok ()" by (cases r) (auto simp: px_after_def add x Pair)
      with reb [OF _ f] add show ?thesis by (simp add: px_after_def x Pair f(1))
    qed
  next
    case del
    then show ?thesis using reb [of "px_remove_module (cl_namespace cl) (cl_name cl) st'"] by (simp add: px_after_def)
  next
    case ns
    then have "write_table w = TBL_NAMESPACES" "write_value w \<noteq> None" using cw(4) by (auto simp: typed_write_def)
    with coherent_write_namespace [OF m(3), of w] ns show ?thesis by (simp add: px_after_def m(1))
  next
    case dns
    then have "w = KV_Del TBL_NAMESPACES (cl_name cl)" using cw(5) by simp
    moreover have "coherent E m ((px_routers st')(cl_name cl := None))" using m(3) by (simp add: coherent_def)
    ultimately show ?thesis
      using coherent_write_namespace [of E m "(px_routers st')(cl_name cl := None)" w] dns
      by (simp add: px_after_def m(1))
  next
    case other
    then have "coherent E (apply_write w m) (px_routers st')" using coherent_write_other [OF m(3)] cw(6) by simp
    moreover have "px_routers (snd (px_after E cl st')) = px_routers st'"
      using other by (cases "cl_cmd cl") (simp_all add: px_after_def)
    ultimately show ?thesis by (simp add: m(1))
  qed
qed

text \<open>
  A change fails with a module error only when it is an AddModule whose payload does not decode;
  the module is stored then, and only the router of its namespace may be out of date.
\<close>

lemma process_changelog_module_error:
  assumes "ps_storage (pe_store E) = ops" and "resource_tables \<subseteq> tables"
    and "serde_ok (ps_serde (pe_store E))" and "changelog_wf (ps_serde (pe_store E)) cl"
    and "px_inv E ok content st" and "fst (process_changelog E cl st) = Err (PE_Module e)"
  shows "cl_cmd cl = AddModule" and "px_routers (snd (process_changelog E cl st)) = px_routers st"
    and "px_inv_but E ok content (cl_namespace cl) (snd (process_changelog E cl st))"
    and "\<exists>w msg. change_effect (ps_serde (pe_store E)) cl = Ok (w, msg) \<and>
      content (px_store (snd (process_changelog E cl st))) (write_table w) (write_key w) = write_value w"
proof -
  let ?r = "store_change (pe_store E) (px_store st) cl"
  let ?st' = "with_store st (snd ?r)"
  have inv: "ok (px_store st)" "resource_wf (ps_serde (pe_store E)) (content (px_store st))"
    "coherent E (content (px_store st)) (px_routers st)" using assms(5) by (simp_all add: px_inv_def)
  note sc = store_change_content [OF assms(1) inv(1) assms(2), of cl]
  obtain msg where msg: "fst ?r = Ok msg" and res: "process_changelog E cl st = px_after E cl ?st'"
    using process_changelog_split [of E cl st] assms(6)
    by (cases "fst ?r") (auto simp: split_change_def Let_def)
  note err = px_after_module_error [of E cl ?st' e, folded res, OF assms(6)]
  from sc(2) [OF msg] obtain w where w: "change_effect (ps_serde (pe_store E)) cl = Ok (w, msg)"
    "content (snd ?r) = apply_write w (content (px_store st))" by blast
  have ns: "CHR '':'' \<notin> set (cl_namespace cl)" using assms(4) by (simp add: changelog_wf_def)
  show "cl_cmd cl = AddModule" by (rule err(1))
  show "px_routers (snd (process_changelog E cl st)) = px_routers st" using err(3) by simp
  have "coherent_but E (apply_write w (content (px_store st))) (cl_namespace cl) (px_routers st)"
    by (rule coherent_write_scoped [OF inv(3,2) ns])
      (use err(1) change_writes(1-3) [OF w(1) assms(3,4)] in auto)
  moreover have "resource_wf (ps_serde (pe_store E)) (apply_write w (content (px_store st)))"
    by (rule resource_wf_write [OF inv(2) w(1) assms(3,4)])
  ultimately show "px_inv_but E ok content (cl_namespace cl) (snd (process_changelog E cl st))"
    using sc(1) by (simp add: px_inv_but_def err(2,3) w(2))
  show "\<exists>w msg. change_effect (ps_serde (pe_store E)) cl = Ok (w, msg) \<and>
      content (px_store (snd (process_changelog E cl st))) (write_table w) (write_key w) = write_value w"
    using w by (auto simp: err(2) apply_write_apply)
qed

lemma process_changelog_inv:
  assumes "ps_storage (pe_store E) = ops" and "resource_tables \<subseteq> tables"
    and "serde_ok (ps_serde (pe_store E))" and "changelog_wf (ps_serde (pe_store E)) cl"
    and "px_inv E ok content st" and "\<And>e. fst (process_changelog E cl st) \<noteq> Err (PE_Module e)"
  shows "px_inv E ok content (snd (process_changelog E cl st))"
proof -
  let ?r = "store_change (pe_store E) (px_store st) cl"
  let ?st' = "with_store st (snd ?r)"
  have inv: "ok (px_store st)" "resource_wf (ps_serde (pe_store E)) (content (px_store st))"
    "coherent E (content (px_store st)) (px_routers st)" using assms(5) by (simp_all add: px_inv_def)
  note sc = store_change_content [OF assms(1) inv(1) assms(2), of cl]
  show ?thesis
  proof (cases "fst ?r")
    case (Inl e)
    then have "\<not> is_ok (fst ?r)" by simp
    with process_changelog_split [of E cl st] obtain e' where "process_changelog E cl st = (Err e', ?st')"
      by (auto simp: split_change_def Let_def)
    with inv sc(1) sc(3) Inl show ?thesis by (simp add: px_inv_def)
  next
    case (Inr msg)
    then have res: "process_changelog E cl st = px_after E cl ?st'"
      using process_changelog_split [of E cl st] by (simp add: split_change_def Let_def)
    from sc(2) [OF Inr] obtain w where w: "change_effect (ps_serde (pe_store E)) cl = Ok (w, msg)"
      "content (snd ?r) = apply_write w (content (px_store st))" by blast
    have store: "px_store (snd (px_after E cl ?st')) = snd ?r"
      by (cases "cl_cmd cl"; simp add: px_after_def split: sum.split)
        (auto simp: px_add_module_def and_then_def map_err_st_def split: prod.splits sum.splits)
    have "coherent E (content (snd ?r)) (px_routers (snd (px_after E cl ?st')))"
      using px_after_coherent [OF assms(1) _ assms(2-4) w(1), of ?st' "content (px_store st)"] sc(1) w(2) inv assms(6)
      by (simp add: res)
    moreover have "resource_wf (ps_serde (pe_store E)) (content (snd ?r))"
      unfolding w(2) by (rule resource_wf_write [OF inv(2) w(1) assms(3,4)])
    ultimately show ?thesis using sc(1) by (simp add: px_inv_def res store)
  qed
qed

end

section \<open>Standalone application\<close>

lemma apply_standalone:
  "px_cluster st = None \<Longrightarrow>
   apply_changelog E propose cl st =
     (case append_changelog (pe_store E) (px_store st) cl of
        (Err e, s) \<Rightarrow> (Err (px_storage_error e), with_store st s)
      | (Ok _, s) \<Rightarrow>
          and_then (process_changelog E cl (with_store st s)) (\<lambda>_ st.
            (Ok (), st\<lparr>px_change_hash := px_change_hash st + 1\<rparr>)))"
  by (auto simp: apply_changelog_def split: prod.splits sum.splits)

text \<open>Every router a change rebuilds is there afterwards.\<close>

lemma px_after_router:
  "px_after E cl st = (Ok (), st') \<Longrightarrow>
   cl_cmd cl \<in> {AddRoute, DeleteRoute, AddService, DeleteService, DeleteModule} \<Longrightarrow>
   px_routers st' (cl_namespace cl) \<noteq> None"
  by (auto simp: px_after_def rebuild_router_def split: sum.splits)

context total_storage
begin

lemma append_changelog_inv:
  assumes "ps_storage (pe_store E) = ops" and "TBL_CHANGELOGS \<in> tables" and "px_inv E ok content st"
  shows "px_inv E ok content (with_store st (snd (append_changelog (pe_store E) (px_store st) cl)))"
proof -
  let ?s = "snd (append_changelog (pe_store E) (px_store st) cl)"
  have inv: "ok (px_store st)" "resource_wf (ps_serde (pe_store E)) (content (px_store st))"
    "coherent E (content (px_store st)) (px_routers st)" using assms(3) by (simp_all add: px_inv_def)
  have ok: "ok ?s" unfolding append_changelog_def by (rule set_typed_ok [OF assms(1) inv(1) assms(2)])
  show ?thesis
  proof (cases "is_ok (fst (append_changelog (pe_store E) (px_store st) cl))")
    case True
    then obtain b where "content ?s = kv_put TBL_CHANGELOGS (cl_id cl) b (content (px_store st))"
      unfolding append_changelog_def using set_typed_Ok [OF assms(1) inv(1) assms(2)] by metis
    then have c: "content ?s = apply_write (KV_Put TBL_CHANGELOGS (cl_id cl) b) (content (px_store st))" by simp
    have t: "TBL_CHANGELOGS \<notin> {TBL_NAMESPACES, TBL_ROUTES, TBL_SERVICES, TBL_MODULES}" by (simp add: tbl_defs)
    then have "coherent E (content ?s) (px_routers st)"
      unfolding c by (intro coherent_write_other [OF inv(3)]) simp
    moreover have "resource_wf (ps_serde (pe_store E)) (content ?s)"
      using inv(2) t by (auto simp: c resource_wf_def kv_put_def)
    ultimately show ?thesis using ok by (simp add: px_inv_def)
  next
    case False
    then have "content ?s = content (px_store st)"
      unfolding append_changelog_def by (rule set_typed_Err [OF assms(1) inv(1) assms(2)])
    with ok inv show ?thesis by (simp add: px_inv_def)
  qed
qed

lemma apply_changelog_inv:
  assumes "ps_storage (pe_store E) = ops" and "resource_tables \<subseteq> tables" and "TBL_CHANGELOGS \<in> tables"
    and "serde_ok (ps_serde (pe_store E))" and "changelog_wf (ps_serde (pe_store E)) cl"
    and "px_cluster st = None" and "px_inv E ok content st"
    and no: "\<And>e. fst (apply_changelog E propose cl st) \<noteq> Err (PE_Module e)"
  shows "px_inv E ok content (snd (apply_changelog E propose cl st))"
proof (cases "append_changelog (pe_store E) (px_store st) cl")
  case (Pair r s)
  have inv: "px_inv E ok content (with_store st s)"
    using append_changelog_inv [OF assms(1,3,7), of cl] by (simp add: Pair)
  show ?thesis
  proof (cases r)
    case (Inl e)
    with inv show ?thesis by (simp add: apply_standalone [OF assms(6)] Pair)
  next
    case (Inr u)
    let ?res = "process_changelog E cl (with_store st s)"
    have eq: "apply_changelog E propose cl st =
        and_then ?res (\<lambda>_ st. (Ok (), st\<lparr>px_change_hash := px_change_hash st + 1\<rparr>))"
      by (simp add: apply_standalone [OF assms(6)] Pair Inr)
    have "fst ?res \<noteq> Err (PE_Module e)" for e
      using no [of e] unfolding eq by (cases ?res; cases "fst ?res") auto
    from process_changelog_inv [OF assms(1,2,4,5) inv this]
    have "px_inv E ok content (snd ?res)" .
    then show ?thesis unfolding eq by (cases ?res; cases "fst ?res") (auto simp: px_inv_def)
  qed
qed

lemma apply_changelog_module_error:
  assumes "ps_storage (pe_store E) = ops" and "resource_tables \<subseteq> tables" and "TBL_CHANGELOGS \<in> tables"
    and "serde_ok (ps_serde (pe_store E))" and "changelog_wf (ps_serde (pe_store E)) cl"
    and "px_cluster st = None" and "px_inv E ok content st"
    and err: "fst (apply_changelog E propose cl st) = Err (PE_Module e)"
  shows "cl_cmd cl = AddModule \<and> px_routers (snd (apply_changelog E propose cl st)) = px_routers st \<and>
         px_inv_but E ok content (cl_namespace cl) (snd (apply_changelog E propose cl st)) \<and>
         (\<exists>w msg. change_effect (ps_serde (pe_store E)) cl = Ok (w, msg) \<and>
            content (px_store (snd (apply_changelog E propose cl st))) (write_table w) (write_key w) = write_value w)"
proof (cases "append_changelog (pe_store E) (px_store st) cl")
  case (Pair r s)
  have inv: "px_inv E ok content (with_store st s)"
    using append_changelog_inv [OF assms(1,3,7), of cl] by (simp add: Pair)
  have r: "r = Ok ()"
    using err by (cases r) (auto simp: apply_standalone [OF assms(6)] Pair px_storage_error_def)
  let ?res = "process_changelog E cl (with_store st s)"
  have eq: "apply_changelog E propose cl st =
      and_then ?res (\<lambda>_ st. (Ok (), st\<lparr>px_change_hash := px_change_hash st + 1\<rparr>))"
    by (simp add: apply_standalone [OF assms(6)] Pair r)
  have "fst ?res = Err (PE_Module e)" and "snd (apply_changelog E propose cl st) = snd ?res"
    using err unfolding eq by (cases ?res; cases "fst ?res"; simp)+
  with process_changelog_module_error [OF assms(1,2,4,5) inv] show ?thesis by simp
qed

end

lemma proxy_new_inv: "px_inv E mem_ok mem_content (proxy_new config mem_new)"
  by (simp add: px_inv_def proxy_new_def mem_ok_new resource_wf_def mem_content_new table_wf_empty stored_def coherent_def)

text \<open>After a change of a route or service that succeeds its namespace has a router.\<close>

lemma apply_changelog_router:
  assumes "px_cluster st = None" and "fst (apply_changelog E propose cl st) = Ok ()"
    and "cl_cmd cl \<in> {AddRoute, DeleteRoute, AddService, DeleteService}"
  obtains router where "px_routers (snd (apply_changelog E propose cl st)) (cl_namespace cl) = Some router"
proof -
  let ?res = "apply_changelog E propose cl st"
  obtain r s where a: "append_changelog (pe_store E) (px_store st) cl = (r, s)" by (rule prod.exhaust)
  with assms(2) have r: "r = Ok ()" by (cases r) (auto simp: apply_standalone [OF assms(1)])
  define q where "q = process_changelog E cl (with_store st s)"
  have eq: "?res = and_then q (\<lambda>_ st. (Ok (), st\<lparr>px_change_hash := px_change_hash st + 1\<rparr>))"
    by (simp add: apply_standalone [OF assms(1)] a r q_def)
  have p: "fst (process_changelog E cl (with_store st s)) = Ok ()"
    "px_routers (snd ?res) = px_routers (snd (process_changelog E cl (with_store st s)))"
    using assms(2) unfolding eq q_def [symmetric] by (cases q; cases "fst q"; simp)+
  let ?r = "store_change (pe_store E) s cl"
  have "process_changelog E cl (with_store st s) = px_after E cl (with_store st (snd ?r))"
    using process_changelog_split [of E cl "with_store st s"] p(1)
    by (auto simp: split_change_def Let_def split: if_splits)
  with p(1) have "px_after E cl (with_store st (snd ?r)) = (Ok (), snd (process_changelog E cl (with_store st s)))"
    by (metis prod.collapse)
  from px_after_router [OF this] assms(3) p(2) that show ?thesis by auto
qed

section \<open>Properties\<close>

text \<open>
  C2. In standalone mode the routers show the store: if they do before a change is applied, they
  do after it, whether it succeeds or fails. The one exception is an AddModule that fails because
  its payload does not decode: the module is stored and the routers stay as they were, so all
  of them but that of its namespace still show the store. After a change of a route or service
  that succeeds, its namespace has a router, and that router has exactly the namespace's
  routes, each with its service and modules as stored.
\<close>

theorem router_cache_coherent:
  assumes "ps_storage (pe_store E) = mem_ops place" and "serde_ok (ps_serde (pe_store E))"
    and "changelog_wf (ps_serde (pe_store E)) cl" and "px_cluster st = None" and "px_inv E mem_ok mem_content st"
  shows "(if \<exists>e. fst (apply_changelog E propose cl st) = Err (PE_Module e)
          then cl_cmd cl = AddModule \<and> px_routers (snd (apply_changelog E propose cl st)) = px_routers st \<and>
               px_inv_but E mem_ok mem_content (cl_namespace cl) (snd (apply_changelog E propose cl st)) \<and>
               (\<exists>w msg. change_effect (ps_serde (pe_store E)) cl = Ok (w, msg) \<and>
                  mem_content (px_store (snd (apply_changelog E propose cl st))) (write_table w) (write_key w) = write_value w)
          else px_inv E mem_ok mem_content (snd (apply_changelog E propose cl st))) \<and>
         (fst (apply_changelog E propose cl st) = Ok () \<longrightarrow>
          cl_cmd cl \<in> {AddRoute, DeleteRoute, AddService, DeleteService} \<longrightarrow>
          (\<exists>router. px_routers (snd (apply_changelog E propose cl st)) (cl_namespace cl) = Some router \<and>
             shows_store E (mem_content (px_store (snd (apply_changelog E propose cl st)))) (cl_namespace cl) router))"
proof (cases "\<exists>e. fst (apply_changelog E propose cl st) = Err (PE_Module e)")
  case True
  then obtain e where e: "fst (apply_changelog E propose cl st) = Err (PE_Module e)" by blast
  from mem.apply_changelog_module_error [OF assms(1) subset_UNIV UNIV_I assms(2-5) e] e show ?thesis by simp
next
  case False
  let ?res = "apply_changelog E propose cl st"
  have inv: "px_inv E mem_ok mem_content (snd ?res)"
    by (rule mem.apply_changelog_inv [OF assms(1) subset_UNIV UNIV_I assms(2-5)]) (use False in blast)
  then have agrees: "shows_store E (mem_content (px_store (snd ?res))) (cl_namespace cl) router"
    if "px_routers (snd ?res) (cl_namespace cl) = Some router" for router
    using that by (auto simp: px_inv_def coherent_def)
  show ?thesis
    using False inv agrees apply_changelog_router [OF assms(4), of E propose cl] by metis
qed

definition sample_env :: "(mem_storage, string, rx list) proxy_env" where
  "sample_env =
     \<lparr>pe_store = \<lparr>ps_storage = mem_ops (\<lambda>_. []), ps_serde = sample_serde\<rparr>,
      pe_base64 = \<lparr>b64_encode = id, b64_decode = Ok\<rparr>, pe_regex = sample_regex, pe_alphanumeric = (\<lambda>_. False)\<rparr>"

definition no_cluster :: "string changelog \<Rightarrow> unit \<times> mem_storage \<Rightarrow> (string + unit) \<times> (unit \<times> mem_storage)" where
  "no_cluster cl ns = (Err ''no cluster'', ns)"

definition add_namespace_change :: "string changelog" where
  "add_namespace_change =
     changelog_new ''null'' (sd_namespace sample_serde) ''1'' 1 AddNamespace ''a'' ''a'' (namespace_new ''a'')"

definition add_route_change :: "string changelog" where
  "add_route_change =
     changelog_new ''null'' (sd_route sample_serde) ''2'' 2 AddRoute ''a'' ''r''
       ((route_new ''r'' ''a'')\<lparr>rt_paths := [''/x'']\<rparr>)"

definition fresh_proxy :: "(mem_storage, string, rx list, unit) proxy_state" where
  "fresh_proxy = proxy_new (dgate_config_default undefined) mem_new"


lemma sample_env_sel [simp]:
  "ps_storage (pe_store sample_env) = mem_ops (\<lambda>_. [])" "ps_serde (pe_store sample_env) = sample_serde"
  by (simp_all add: sample_env_def)

definition with_namespace :: "(mem_storage, string, rx list, unit) proxy_state" where
  "with_namespace = snd (apply_changelog sample_env no_cluster add_namespace_change fresh_proxy)"

lemma sample_applies:
  "fst (apply_changelog sample_env no_cluster add_namespace_change fresh_proxy) = Ok ()"
  "fst (apply_changelog sample_env no_cluster add_route_change with_namespace) = Ok ()"
  by code_simp+

lemma sample_changes_wf:
  "changelog_wf sample_serde add_namespace_change" "changelog_wf sample_serde add_route_change"
proof -
  have "from_value (sd_route sample_serde) (cl_item add_route_change) = Ok ((route_new ''r'' ''a'')\<lparr>rt_paths := [''/x'']\<rparr>)"
    unfolding add_route_change_def by (rule changelog_new_item [OF serde_ok_route [OF sample_serde_ok] TrueI])
  then show "changelog_wf sample_serde add_route_change"
    by (simp add: changelog_wf_def add_route_change_def route_new_def)
qed (simp add: changelog_wf_def add_namespace_change_def)

lemma with_namespace_inv: "px_cluster with_namespace = None" "px_inv sample_env mem_ok mem_content with_namespace"
proof -
  show "px_cluster with_namespace = None" by code_simp
  have "px_cluster fresh_proxy = None" by (simp add: fresh_proxy_def proxy_new_def)
  moreover have "px_inv sample_env mem_ok mem_content fresh_proxy" unfolding fresh_proxy_def by (rule proxy_new_inv)
  ultimately show "px_inv sample_env mem_ok mem_content with_namespace"
    unfolding with_namespace_def
    by (intro mem.apply_changelog_inv [of sample_env "\<lambda>_. []"])
      (simp_all add: sample_applies sample_serde_ok sample_changes_wf)
qed

theorem router_cache_coherent_witness:
  "\<exists>router. px_routers (snd (apply_changelog sample_env no_cluster add_route_change with_namespace)) ''a'' = Some router \<and>
     shows_store sample_env
       (mem_content (px_store (snd (apply_changelog sample_env no_cluster add_route_change with_namespace)))) ''a'' router"
proof -
  have c: "cl_cmd add_route_change = AddRoute" "cl_namespace add_route_change = ''a''"
    by (simp_all add: add_route_change_def)
  from router_cache_coherent [OF sample_env_sel(1) _ _ with_namespace_inv, of add_route_change no_cluster] c
  show ?thesis by (simp add: sample_applies sample_serde_ok sample_changes_wf)
qed

text \<open>
  C14. The two ways of applying a change leave the same state: if a change log applied directly
  succeeds, then writing it to the store and handling the notification of the cluster succeeds
  too and gives the same routers, domains and executor; and the store is in both cases what the
  shared specification of the change makes of it.
\<close>

theorem cluster_change_equivalent:
  assumes "process_changelog E cl st = (Ok (), st1)"
  shows "handle_cluster_change E cl (with_store st (snd (store_change (pe_store E) (px_store st) cl))) = (Ok (), st1) \<and>
         px_store st1 = snd (store_change (pe_store E) (px_store st) cl)"
proof -
  let ?r = "store_change (pe_store E) (px_store st) cl"
  let ?st' = "with_store st (snd ?r)"
  have a: "is_ok (fst ?r)" "px_after E cl ?st' = (Ok (), st1)"
    using process_changelog_split [of E cl st] assms by (auto simp: split_change_def Let_def split: if_splits)
  have item: "\<exists>m. from_value (sd_module (ps_serde (pe_store E))) (cl_item cl) = Ok m" if "cl_cmd cl = AddModule"
    using a(1) that by (auto simp: store_change_cmds change_add_is_ok)
  have "handle_cluster_change E cl ?st' = (Ok (), st1) \<and> px_store st1 = snd ?r"
  proof (cases "cl_cmd cl = AddModule")
    case True
    with item obtain m where m: "from_value (sd_module (ps_serde (pe_store E))) (cl_item cl) = Ok m" by blast
    obtain X where x: "executor_add_module (pe_base64 E) m (px_executor ?st') = (Ok (), X)"
      using a(2) by (cases "executor_add_module (pe_base64 E) m (px_executor ?st')"; cases "fst (executor_add_module (pe_base64 E) m (px_executor ?st'))")
        (auto simp: px_after_def True m px_add_module_def)
    then show ?thesis
      using a(2) by (auto simp: px_after_def handle_cluster_change_def True m px_add_module_def rebuild_router_def
          split: sum.splits)
  next
    case False
    then show ?thesis
      using a(2)
      by (cases "cl_cmd cl")
        (auto simp: px_after_def handle_cluster_change_def px_remove_module_def rebuild_router_def rebuild_domains_def
          split: sum.splits)
  qed
  then show ?thesis by simp
qed

theorem cluster_change_equivalent_witness:
  "\<exists>st1. handle_cluster_change sample_env add_route_change
     (with_store with_namespace (snd (store_change (pe_store sample_env) (px_store with_namespace) add_route_change))) = (Ok (), st1)"
proof -
  have "fst (process_changelog sample_env add_route_change with_namespace) = Ok ()" by code_simp
  then obtain st1 where "process_changelog sample_env add_route_change with_namespace = (Ok (), st1)" by (metis prod.collapse)
  from cluster_change_equivalent [OF this] show ?thesis by blast
qed

end
