(* ===== verification/Request_Safety.thy ===== *)
theory Request_Safety
  imports Requests Proxy_Changes
begin

text \<open>
  What serving a request can read and change: modules write documents only where the visibility
  of the collection lets them, and see only documents of collections they may read; nothing else
  of the state changes. And what is sent to the upstream and comes back from it.
\<close>

section \<open>The keys modules use\<close>

lemma parse_document_name_nocolon:
  assumes "parse_document_name namespace key = Some (ns, col, docid)" and "CHR '':'' \<notin> set namespace"
  shows "CHR '':'' \<notin> set ns \<and> CHR '':'' \<notin> set col"
proof (cases "CHR ''/'' \<in> set key")
  case True
  with assms(1) obtain ns_col where "split_once (CHR '':'') key = Some (ns_col, docid)"
    and ns: "split_once (CHR ''/'') ns_col = Some (ns, col)"
    by (auto simp: parse_document_name_def split: option.splits)
  then have "CHR '':'' \<notin> set ns_col" using split_once_SomeD by blast
  with split_once_SomeD [OF ns] show ?thesis by simp
next
  case False
  with assms(1) have "ns = namespace" "split_once (CHR '':'') key = Some (col, docid)"
    by (auto simp: parse_document_name_def split: option.splits)
  with assms(2) split_once_SomeD show ?thesis by blast
qed

text \<open>A name a module sees is the name it writes back to, unless an id has a slash.\<close>

lemma parse_document_name_local:
  "CHR ''/'' \<notin> set (col @ docid) \<Longrightarrow> CHR '':'' \<notin> set col \<Longrightarrow>
   parse_document_name namespace (col @ '':'' @ docid) = Some (namespace, col, docid)"
  by (auto simp: parse_document_name_def split_once_append)

lemma parse_document_name_cross:
  "CHR ''/'' \<notin> set ns \<Longrightarrow> CHR '':'' \<notin> set ns \<Longrightarrow> CHR '':'' \<notin> set col \<Longrightarrow>
   parse_document_name namespace (ns @ ''/'' @ col @ '':'' @ docid) = Some (ns, col, docid)"
  using split_once_append [of "CHR '':''" "ns @ ''/'' @ col" docid]
  by (auto simp: parse_document_name_def split_once_append)

section \<open>What modules write\<close>

definition isolated_slot :: "string \<Rightarrow> string \<Rightarrow> string \<Rightarrow> string \<Rightarrow> bool" where
  "isolated_slot pns pcol t k \<longleftrightarrow> t \<noteq> TBL_DOCUMENTS \<or> (\<exists>docid. k = document_key pns pcol docid)"

definition closed_collection :: "('s, 'j) proxy_store \<Rightarrow> 's \<Rightarrow> string \<Rightarrow> string \<Rightarrow> string \<Rightarrow> bool" where
  "closed_collection P s namespace pns pcol \<longleftrightarrow>
     (\<exists>col. get_collection P s pns pcol = Ok (Some col) \<and> \<not> is_accessible_from col namespace)"

context kv_storage
begin

lemma save_document_isolated:
  assumes "ps_storage P = ops" and "ok s" and "TBL_DOCUMENTS \<in> tables"
    and "CHR '':'' \<notin> set namespace" and "CHR '':'' \<notin> set pns" and "CHR '':'' \<notin> set pcol"
    and "closed_collection P s namespace pns pcol"
  shows "ok (save_module_document P now namespace kv s) \<and>
    (\<forall>t k. isolated_slot pns pcol t k \<longrightarrow> content (save_module_document P now namespace kv s) t k = content s t k)"
proof (cases "parse_document_name namespace (fst kv)")
  case (Some target)
  obtain ns col docid where target: "target = (ns, col, docid)" by (cases target)
  note nc = parse_document_name_nocolon [OF Some [unfolded target] assms(4)]
  show ?thesis
  proof (cases "can_write P s namespace ns col")
    case True
    with assms(7) have other: "\<not> (ns = pns \<and> col = pcol)" by (auto simp: can_write_def closed_collection_def)
    let ?d = "\<lparr>doc_id = docid, doc_namespace = ns, doc_collection = col, doc_data = snd kv,
      doc_created_at = fst (now (fst kv)), doc_updated_at = snd (now (fst kv))\<rparr>"
    let ?s = "snd (set_document P s ?d)"
    have s: "save_module_document P now namespace kv s = ?s"
      by (simp add: save_module_document_def Some target True)
    have ok: "ok ?s" unfolding set_document_def by (rule set_typed_ok [OF assms(1-3)])
    have "content ?s t k = content s t k" if "isolated_slot pns pcol t k" for t k
    proof (cases "is_ok (fst (set_document P s ?d))")
      case True
      then obtain b where b: "content ?s = kv_put TBL_DOCUMENTS (document_key ns col docid) b (content s)"
        unfolding set_document_def using set_typed_Ok [OF assms(1-3)] by (metis document.select_convs(1-3))
      have "\<not> (t = TBL_DOCUMENTS \<and> k = document_key ns col docid)"
        using that other nc assms(5,6) document_key_inj unfolding isolated_slot_def by blast
      then show ?thesis by (auto simp: b kv_put_apply)
    next
      case False
      then show ?thesis unfolding set_document_def by (simp add: set_typed_Err [OF assms(1-3)])
    qed
    with ok show ?thesis by (simp add: s)
  next
    case False
    with assms(2) show ?thesis by (simp add: save_module_document_def Some target)
  qed
qed (use assms(2) in \<open>simp add: save_module_document_def\<close>)

end

context total_storage
begin

lemma closed_collection_content:
  assumes "ps_storage P = ops" and "ok s" and "ok s'" and "TBL_COLLECTIONS \<in> tables"
    and "content s' TBL_COLLECTIONS = content s TBL_COLLECTIONS"
  shows "closed_collection P s' namespace pns pcol = closed_collection P s namespace pns pcol"
  using assms by (simp add: closed_collection_def get_collection_def get_typed_eq)

lemma save_documents_isolated:
  assumes "ps_storage P = ops" and "TBL_DOCUMENTS \<in> tables" and "TBL_COLLECTIONS \<in> tables"
    and "CHR '':'' \<notin> set namespace" and "CHR '':'' \<notin> set pns" and "CHR '':'' \<notin> set pcol"
  shows "ok s \<Longrightarrow> closed_collection P s namespace pns pcol \<Longrightarrow>
    ok (save_module_documents P now namespace documents s) \<and>
    (\<forall>t k. isolated_slot pns pcol t k \<longrightarrow>
       content (save_module_documents P now namespace documents s) t k = content s t k)"
proof (induction documents arbitrary: s)
  case (Cons kv documents)
  let ?s = "save_module_document P now namespace kv s"
  note step = save_document_isolated [OF assms(1) Cons.prems(1) assms(2,4-6) Cons.prems(2), of now kv]
  have "isolated_slot pns pcol TBL_COLLECTIONS k" for k by (simp add: isolated_slot_def tbl_defs)
  with step have "content ?s TBL_COLLECTIONS = content s TBL_COLLECTIONS" by (intro ext) blast
  with closed_collection_content [OF assms(1) Cons.prems(1) _ assms(3), of ?s] step Cons.prems(2)
  have "closed_collection P ?s namespace pns pcol" by blast
  with Cons.IH [of ?s] step show ?case by (simp add: save_module_documents_def)
qed (simp add: save_module_documents_def)

end

text \<open>A request changes nothing of the state but the documents a handler saves.\<close>

lemma handler_reply_state:
  "\<exists>documents. snd (handler_reply V now st namespace M req_ctx) =
     st\<lparr>px_store := save_module_documents (pe_store (sv_proxy V)) now (ns_name namespace) documents (px_store st)\<rparr>"
proof -
  have "st = st\<lparr>px_store := save_module_documents (pe_store (sv_proxy V)) now (ns_name namespace) [] (px_store st)\<rparr>"
    by (simp add: save_module_documents_def)
  then show ?thesis
    by (cases "execute_request_handler (sv_engine V) (sv_json V) (sv_place V) M req_ctx")
      (auto simp: handler_reply_def intro: exI [of _ "[]"])
qed

lemma serve_http_state:
  "\<exists>documents. snd (serve_http V now st namespace c req_ctx) =
     st\<lparr>px_store := save_module_documents (pe_store (sv_proxy V)) now (ns_name namespace) documents (px_store st)\<rparr>"
proof -
  have same: "st = st\<lparr>px_store := save_module_documents (pe_store (sv_proxy V)) now (ns_name namespace) [] (px_store st)\<rparr>"
    by (simp add: save_module_documents_def)
  show ?thesis
    using handler_reply_state [of V now st namespace] same
    by (auto simp: serve_http_def Let_def split: sum.split option.split)
qed

lemma handle_request_state:
  assumes "find_namespace_for_host (sv_proxy V) st (request_host (sv_http V) req) = Some namespace"
  shows "\<exists>documents. snd (handle_request V now req st) =
     st\<lparr>px_store := save_module_documents (pe_store (sv_proxy V)) now (ns_name namespace) documents (px_store st)\<rparr>"
proof -
  have same: "st = st\<lparr>px_store := save_module_documents (pe_store (sv_proxy V)) now (ns_name namespace) [] (px_store st)\<rparr>"
    by (simp add: save_module_documents_def)
  have "snd (handle_request V now req st) = st \<or>
      (\<exists>c req_ctx. snd (handle_request V now req st) = snd (serve_http V now st namespace c req_ctx))"
    by (auto simp: handle_request_def Let_def assms split: option.split prod.split) (metis snd_conv)+
  with serve_http_state [of V now st namespace] same show ?thesis by metis
qed

section \<open>What modules read\<close>

context kv_storage
begin

lemma list_documents_of:
  assumes "ps_storage P = ops" and "ok s" and "TBL_DOCUMENTS \<in> tables"
    and "list_documents P s ns col = Ok ds" and "d \<in> set ds"
    and "table_wf (sd_document (ps_serde P)) (\<lambda>d. document_key (doc_namespace d) (doc_collection d) (doc_id d))
           (content s TBL_DOCUMENTS)"
    and "\<forall>d \<in> stored (sd_document (ps_serde P)) (content s TBL_DOCUMENTS).
           CHR '':'' \<notin> set (doc_namespace d) \<and> CHR '':'' \<notin> set (doc_collection d)"
    and "CHR '':'' \<notin> set ns" and "CHR '':'' \<notin> set col"
  shows "d \<in> stored (sd_document (ps_serde P)) (content s TBL_DOCUMENTS) \<and> doc_namespace d = ns \<and> doc_collection d = col"
proof -
  from list_typed_Ok(1) [OF assms(1-3) assms(4) [unfolded list_documents_def]] assms(5)
  obtain k b where kb: "content s TBL_DOCUMENTS k = Some b" "starts_with k (ns @ '':'' @ col @ '':'')"
    "from_slice (sd_document (ps_serde P)) b = Ok d" by blast
  then have st: "d \<in> stored (sd_document (ps_serde P)) (content s TBL_DOCUMENTS)" by (auto simp: stored_def)
  have "k = document_key (doc_namespace d) (doc_collection d) (doc_id d)"
    using assms(6) kb(1,3) by (force simp: table_wf_def)
  with kb(2) st assms(7-9) document_key_prefix show ?thesis by blast
qed

end

text \<open>Every entry of the collected documents is a document of one of the collections that may be read.\<close>

definition readable_entry ::
  "('s, 'j) proxy_store \<Rightarrow> 's \<Rightarrow> string \<Rightarrow> collection list \<Rightarrow> string \<times> 'j \<Rightarrow> bool" where
  "readable_entry P s namespace cols kv \<longleftrightarrow>
     (\<exists>col \<in> set cols. is_accessible_from col namespace \<and>
        (\<exists>ds d. list_documents P s (col_namespace col) (col_name col) = Ok ds \<and> d \<in> set ds \<and>
                kv = (document_name namespace col d, doc_data d)))"

lemma set_hash_insert: "set (hash_insert place k v m) \<subseteq> insert (k, v) (set m)"
proof -
  have "set (AList.update k v m) \<subseteq> insert (k, v) (set m)" by (induction m) auto
  moreover have "set (reorder ps xs) = set xs" for ps and xs :: "(string \<times> 'a) list" by (metis mset_reorder set_mset_mset)
  ultimately show ?thesis by (auto simp: hash_insert_def)
qed

lemma fold_documents_entries:
  "kv \<in> set (fold (\<lambda>d. hash_insert place (f d) (doc_data d)) ds m) \<Longrightarrow>
   kv \<in> set m \<or> (\<exists>d \<in> set ds. kv = (f d, doc_data d))"
proof (induction ds arbitrary: m)
  case (Cons d ds)
  then show ?case using set_hash_insert [of place "f d" "doc_data d" m] by fastforce
qed simp

lemma collect_documents_entries:
  "kv \<in> set (collect_documents P place s namespace cols m) \<Longrightarrow>
   kv \<in> set m \<or> readable_entry P s namespace cols kv"
proof (induction cols arbitrary: m)
  case (Cons col cols)
  let ?m = "if \<not> is_accessible_from col namespace then m
    else (case list_documents P s (col_namespace col) (col_name col) of
            Ok documents \<Rightarrow> fold (\<lambda>d. hash_insert place (document_name namespace col d) (doc_data d)) documents m
          | Err _ \<Rightarrow> m)"
  from Cons.prems have "kv \<in> set (collect_documents P place s namespace cols ?m)" by simp
  from Cons.IH [OF this] consider "kv \<in> set ?m" | "readable_entry P s namespace cols kv" by blast
  then show ?case
  proof cases
    case 1
    show ?thesis
    proof (cases "kv \<in> set m")
      case False
      with 1 obtain ds where acc: "is_accessible_from col namespace"
        and ds: "list_documents P s (col_namespace col) (col_name col) = Ok ds"
        and "kv \<in> set (fold (\<lambda>d. hash_insert place (document_name namespace col d) (doc_data d)) ds m)"
        by (auto split: if_splits sum.splits)
      with fold_documents_entries [of kv place "document_name namespace col" ds m] False
      show ?thesis by (auto simp: readable_entry_def)
    qed simp
  next
    case 2
    then show ?thesis by (auto simp: readable_entry_def)
  qed
qed simp

section \<open>An instance\<close>

text \<open>A store with one collection of namespace \<open>b\<close> and a document in it.\<close>

definition memo :: "string document" where
  "memo = \<lparr>doc_id = ''1'', doc_namespace = ''b'', doc_collection = ''notes'', doc_data = ''N'',
           doc_created_at = 0, doc_updated_at = 0\<rparr>"

definition memos :: "collection_visibility \<Rightarrow> collection" where
  "memos vis = (collection_new ''notes'' ''b'')\<lparr>col_visibility := vis\<rparr>"

abbreviation sample_store :: "(mem_storage, string) proxy_store" where
  "sample_store \<equiv> pe_store sample_env"

definition memo_store :: "collection_visibility \<Rightarrow> mem_storage" where
  "memo_store vis = snd (set_document sample_store (snd (set_collection sample_store mem_new (memos vis))) memo)"

lemma memo_store_content:
  obtains cb db where "from_slice (sd_collection sample_serde) cb = Ok (memos vis)"
    and "from_slice (sd_document sample_serde) db = Ok memo"
    and "mem_content (memo_store vis) = kv_put TBL_DOCUMENTS (document_key ''b'' ''notes'' ''1'') db
           (kv_put TBL_COLLECTIONS (scoped_key ''b'' ''notes'') cb (mem_content mem_new))"
    and "mem_ok (memo_store vis)"
proof -
  obtain cb where cb: "to_vec (sd_collection sample_serde) (memos vis) = Ok cb"
    "from_slice (sd_collection sample_serde) cb = Ok (memos vis)"
    by (rule codec_ok_vec [OF serde_ok_collection [OF sample_serde_ok] TrueI])
  obtain db where db: "to_vec (sd_document sample_serde) memo = Ok db" "from_slice (sd_document sample_serde) db = Ok memo"
    by (rule codec_ok_vec [OF serde_ok_document [OF sample_serde_ok] TrueI])
  let ?s = "snd (set_collection sample_store mem_new (memos vis))"
  have k: "col_namespace (memos vis) = ''b''" "col_name (memos vis) = ''notes''"
    "doc_namespace memo = ''b''" "doc_collection memo = ''notes''" "doc_id memo = ''1''"
    by (simp_all add: memos_def collection_new_def memo_def)
  note st = sample_env_sel(1)
  have ok: "mem_ok ?s" unfolding set_collection_def by (rule mem.set_typed_ok [OF st mem_ok_new UNIV_I])
  have "mem_content ?s = kv_put TBL_COLLECTIONS (scoped_key ''b'' ''notes'') cb (mem_content mem_new)"
    using mem.set_typed_eq(2) [OF st mem_ok_new UNIV_I cb(1)] by (simp add: set_collection_def k)
  moreover have "mem_content (memo_store vis) = kv_put TBL_DOCUMENTS (document_key ''b'' ''notes'' ''1'') db (mem_content ?s)"
    using mem.set_typed_eq(2) [OF st ok UNIV_I db(1)] by (simp add: memo_store_def set_document_def k)
  moreover have "mem_ok (memo_store vis)"
    unfolding memo_store_def set_document_def by (rule mem.set_typed_ok [OF st ok UNIV_I])
  ultimately show ?thesis using that [OF cb(2) db(2)] by simp
qed

definition sample_http :: http_api where
  "sample_http =
     \<lparr>ha_to_str = Some, ha_status = (\<lambda>_. True), ha_name = (\<lambda>s. Some (to_ascii_lowercase s)), ha_value = (\<lambda>_. True),
      ha_method = Some, ha_form_parse = (\<lambda>_. [])\<rparr>"

definition sample_grpc :: "unit grpc_api" where
  "sample_grpc =
     \<lparr>ga_parse = (\<lambda>_. Err []), ga_resolve = (\<lambda>_. Err []), ga_connect = (\<lambda>_. Err []), ga_handshake = (\<lambda>_. Err []),
      ga_ready = (\<lambda>_. Err []), ga_build = (\<lambda>_. False), ga_send_request = (\<lambda>_ _ _. Err []), ga_capacity = (\<lambda>_ _. None),
      ga_send_data = (\<lambda>_ _ _. Err []), ga_response = (\<lambda>_. Err []), ga_chunks = (\<lambda>_. []), ga_trailers = (\<lambda>_. Err [])\<rparr>"

text \<open>An engine whose handler answers and writes one document of its own and one of \<open>b\<close>.\<close>

definition writing_engine :: "(string, string, string) js_engine" where
  "writing_engine =
     sample_engine\<lparr>je_eval := (\<lambda>e code.
       (Ok (case code of
              JS_Extract_Response \<Rightarrow>
                jv_object sample_json
                  [(''response'', jv_object sample_json [(''body'', jv_string sample_json ''hello'')]),
                   (''documents'', jv_object sample_json [(''mine:1'', ''N''), (''b/notes:1'', ''S'')])]
            | JS_Extract_Request \<Rightarrow> jv_object sample_json []
            | _ \<Rightarrow> []), e))\<rparr>"

definition sample_serve :: "(mem_storage, string, rx list, string, string, unit) serve_env" where
  "sample_serve =
     \<lparr>sv_proxy = sample_env, sv_http = sample_http, sv_engine = writing_engine, sv_json = sample_json,
      sv_place = (\<lambda>_. []), sv_send = (\<lambda>_. Err ''no network''), sv_upgrade = (\<lambda>_. Err ''no upgrade''),
      sv_grpc = sample_grpc\<rparr>"

text \<open>A proxy that serves namespace \<open>a\<close> with one route, handled by one module.\<close>

definition handled_route :: "rx list compiled_route" where
  "handled_route =
     \<lparr>cpr_route = (route_new ''r'' ''a'')\<lparr>rt_modules := [''m'']\<rparr>, cpr_namespace = namespace_new ''a'', cpr_service = None,
      cpr_modules = [module_new ''m'' ''a''], cpr_path_patterns = [[RX_Star CC_Any]], cpr_methods = [''*'']\<rparr>"

definition handling_proxy :: "(mem_storage, string, rx list, unit) proxy_state" where
  "handling_proxy = fresh_proxy
     \<lparr>px_store := memo_store Private,
      px_executor := snd (executor_add_module (pe_base64 sample_env) (module_new ''m'' ''a'') executor_new),
      px_routers := [''a'' \<mapsto> ns_router_add handled_route (ns_router_new (namespace_new ''a''))],
      px_domains := [\<lparr>rd_domain = (domain_new ''d'' ''a'')\<lparr>dom_patterns := [''*'']\<rparr>, rd_namespace = namespace_new ''a''\<rparr>]\<rparr>"

definition sample_get :: http_request where
  "sample_get = \<lparr>hq_method = ''GET'', hq_path = ''/x'', hq_query = None, hq_headers = [], hq_body = Ok []\<rparr>"

section \<open>Properties\<close>

text \<open>
  C4. A request served for one namespace changes no document of a private collection of another
  namespace, whatever its modules return; and apart from documents it changes nothing at all: no
  other table, and no router, domain, module or setting of the proxy.
\<close>

theorem request_writes_isolated:
  assumes "ps_storage (pe_store (sv_proxy V)) = mem_ops place" and "mem_ok (px_store st)"
    and "find_namespace_for_host (sv_proxy V) st (request_host (sv_http V) req) = Some namespace"
    and "get_collection (pe_store (sv_proxy V)) (px_store st) pns pcol = Ok (Some col)"
    and "col_visibility col = Private" and "col_namespace col = pns" and "pns \<noteq> ns_name namespace"
    and "CHR '':'' \<notin> set (ns_name namespace)" and "CHR '':'' \<notin> set pns" and "CHR '':'' \<notin> set pcol"
    and "handle_request V now req st = (response, st')"
  shows "mem_content (px_store st') TBL_DOCUMENTS (document_key pns pcol docid) =
           mem_content (px_store st) TBL_DOCUMENTS (document_key pns pcol docid) \<and>
         (t \<noteq> TBL_DOCUMENTS \<longrightarrow> mem_content (px_store st') t = mem_content (px_store st) t) \<and>
         st' = st\<lparr>px_store := px_store st'\<rparr>"
proof -
  let ?P = "pe_store (sv_proxy V)"
  obtain documents where
    st': "st' = st\<lparr>px_store := save_module_documents ?P now (ns_name namespace) documents (px_store st)\<rparr>"
    using handle_request_state [OF assms(3), of now] assms(11) by auto
  have "closed_collection ?P (px_store st) (ns_name namespace) pns pcol"
    using assms(4-7) by (simp add: closed_collection_def is_accessible_from_def)
  from mem.save_documents_isolated [OF assms(1) UNIV_I UNIV_I assms(8-10) assms(2) this]
  have keep: "mem_content (px_store st') t k = mem_content (px_store st) t k" if "isolated_slot pns pcol t k" for t k
    using that by (simp add: st')
  have "isolated_slot pns pcol TBL_DOCUMENTS (document_key pns pcol docid)" by (auto simp: isolated_slot_def)
  moreover have "isolated_slot pns pcol t k" if "t \<noteq> TBL_DOCUMENTS" for k using that by (simp add: isolated_slot_def)
  ultimately show ?thesis using keep by (auto simp: st')
qed

theorem request_writes_isolated_witness:
  "mem_content (px_store (snd (handle_request sample_serve (\<lambda>_. (0, 0)) sample_get handling_proxy)))
     TBL_DOCUMENTS (document_key ''b'' ''notes'' ''1'') =
   mem_content (memo_store Private) TBL_DOCUMENTS (document_key ''b'' ''notes'' ''1'') \<and>
   (case execute_request_handler writing_engine sample_json (\<lambda>_. [])
            (module_context_of (px_executor handling_proxy) handled_route ''a'') (sample_request None) of
      Ok r \<Rightarrow> map fst (mr_documents r)
    | Err _ \<Rightarrow> []) = [''b/notes:1'', ''mine:1'']"
proof
  have "px_store handling_proxy = memo_store Private" by (simp add: handling_proxy_def)
  moreover obtain cb db where cb: "from_slice (sd_collection sample_serde) cb = Ok (memos Private)"
    and content: "mem_content (memo_store Private) = kv_put TBL_DOCUMENTS (document_key ''b'' ''notes'' ''1'') db
           (kv_put TBL_COLLECTIONS (scoped_key ''b'' ''notes'') cb (mem_content mem_new))"
    and ok: "mem_ok (memo_store Private)"
    by (rule memo_store_content)
  moreover have "mem_content (memo_store Private) TBL_COLLECTIONS (scoped_key ''b'' ''notes'') = Some cb"
    by (simp add: content kv_put_def tbl_defs)
  then have "get_collection sample_store (memo_store Private) ''b'' ''notes'' = Ok (Some (memos Private))"
    by (simp add: get_collection_def mem.get_typed_eq [OF sample_env_sel(1) ok UNIV_I] cb)
  moreover have "find_namespace_for_host (sv_proxy sample_serve) handling_proxy (request_host (sv_http sample_serve) sample_get) =
      Some (namespace_new ''a'')"
    by code_simp
  moreover have "sv_proxy sample_serve = sample_env" by (simp add: sample_serve_def)
  ultimately show "mem_content (px_store (snd (handle_request sample_serve (\<lambda>_. (0, 0)) sample_get handling_proxy)))
     TBL_DOCUMENTS (document_key ''b'' ''notes'' ''1'') =
   mem_content (memo_store Private) TBL_DOCUMENTS (document_key ''b'' ''notes'' ''1'')"
    using request_writes_isolated [of sample_serve "\<lambda>_. []" handling_proxy sample_get "namespace_new ''a''" "''b''" "''notes''"
        "memos Private" "\<lambda>_. (0, 0)"]
    by (simp add: memos_def collection_new_def namespace_new_def) (metis prod.collapse)
  show "(case execute_request_handler writing_engine sample_json (\<lambda>_. [])
            (module_context_of (px_executor handling_proxy) handled_route ''a'') (sample_request None) of
      Ok r \<Rightarrow> map fst (mr_documents r)
    | Err _ \<Rightarrow> []) = [''b/notes:1'', ''mine:1'']"
    by code_simp
qed

text \<open>
  C28. What modules are given: every document in a request's context is one of a collection of its
  own namespace or of a public one, under the name of that collection. So no module reads a
  document of a private collection of another namespace.
\<close>

theorem module_documents_visible:
  assumes "ps_storage P = mem_ops place" and "mem_ok s"
    and "(k, v) \<in> set (get_documents_for_namespace P hplace s namespace)"
    and "table_wf (sd_document (ps_serde P)) (\<lambda>d. document_key (doc_namespace d) (doc_collection d) (doc_id d))
           (mem_content s TBL_DOCUMENTS)"
    and "\<forall>d \<in> stored (sd_document (ps_serde P)) (mem_content s TBL_DOCUMENTS).
           CHR '':'' \<notin> set (doc_namespace d) \<and> CHR '':'' \<notin> set (doc_collection d)"
    and "\<forall>c \<in> stored (sd_collection (ps_serde P)) (mem_content s TBL_COLLECTIONS).
           CHR '':'' \<notin> set (col_namespace c) \<and> CHR '':'' \<notin> set (col_name c)"
  shows "\<exists>col d. col \<in> stored (sd_collection (ps_serde P)) (mem_content s TBL_COLLECTIONS) \<and>
           d \<in> stored (sd_document (ps_serde P)) (mem_content s TBL_DOCUMENTS) \<and>
           doc_namespace d = col_namespace col \<and> doc_collection d = col_name col \<and>
           (col_namespace col = namespace \<or> col_visibility col = Public) \<and>
           k = document_name namespace col d \<and> v = doc_data d"
proof -
  from assms(3) obtain cols where cols: "list_all_collections P s = Ok cols"
    and "(k, v) \<in> set (collect_documents P hplace s namespace cols [])"
    by (cases "list_all_collections P s") (auto simp: get_documents_for_namespace_def)
  with collect_documents_entries have "readable_entry P s namespace cols (k, v)" by fastforce
  then obtain col ds d where col: "col \<in> set cols" "is_accessible_from col namespace"
    and ds: "list_documents P s (col_namespace col) (col_name col) = Ok ds" "d \<in> set ds"
    and kv: "k = document_name namespace col d" "v = doc_data d" by (auto simp: readable_entry_def)
  have stc: "col \<in> stored (sd_collection (ps_serde P)) (mem_content s TBL_COLLECTIONS)"
    using mem.list_typed_Ok(1) [OF assms(1,2) UNIV_I cols [unfolded list_all_collections_def]] col(1)
    by (auto simp: stored_def)
  from mem.list_documents_of [OF assms(1,2) UNIV_I ds assms(4,5)] assms(6) stc
  have "d \<in> stored (sd_document (ps_serde P)) (mem_content s TBL_DOCUMENTS) \<and>
      doc_namespace d = col_namespace col \<and> doc_collection d = col_name col" by blast
  with stc col(2) kv show ?thesis
    by (intro exI [of _ col] exI [of _ d]) (auto simp: is_accessible_from_def split: collection_visibility.splits)
qed

theorem module_documents_visible_witness:
  "get_documents_for_namespace sample_store (\<lambda>_. []) (memo_store Public) ''a'' = [(''b/notes:1'', ''N'')] \<and>
   doc_data memo = ''N'' \<and> document_name ''a'' (memos Public) memo = ''b/notes:1''"
proof -
  obtain cb db where cb: "from_slice (sd_collection sample_serde) cb = Ok (memos Public)"
    and db: "from_slice (sd_document sample_serde) db = Ok memo"
    and content: "mem_content (memo_store Public) = kv_put TBL_DOCUMENTS (document_key ''b'' ''notes'' ''1'') db
           (kv_put TBL_COLLECTIONS (scoped_key ''b'' ''notes'') cb (mem_content mem_new))"
    and ok: "mem_ok (memo_store Public)"
    by (rule memo_store_content)
  have tables: "mem_content (memo_store Public) TBL_DOCUMENTS = [document_key ''b'' ''notes'' ''1'' \<mapsto> db]"
    "mem_content (memo_store Public) TBL_COLLECTIONS = [scoped_key ''b'' ''notes'' \<mapsto> cb]"
    by (simp_all add: content kv_put_def tbl_defs mem_content_new)
  have got: "get_documents_for_namespace sample_store (\<lambda>_. []) (memo_store Public) ''a'' = [(''b/notes:1'', ''N'')]"
    by code_simp
  have docs: "stored (sd_document sample_serde) (mem_content (memo_store Public) TBL_DOCUMENTS) = {memo}"
    and cols: "stored (sd_collection sample_serde) (mem_content (memo_store Public) TBL_COLLECTIONS) = {memos Public}"
    by (auto simp: tables stored_def db cb)
  have "table_wf (sd_document sample_serde) (\<lambda>d. document_key (doc_namespace d) (doc_collection d) (doc_id d))
      (mem_content (memo_store Public) TBL_DOCUMENTS)"
    by (simp add: tables table_wf_def db memo_def)
  from module_documents_visible [OF sample_env_sel(1) ok, of "''b/notes:1''" "''N''" "\<lambda>_. []" "''a''",
      unfolded sample_env_sel docs cols, OF _ this] got
  have "''b/notes:1'' = document_name ''a'' (memos Public) memo \<and> ''N'' = doc_data memo"
    by (simp add: memo_def memos_def collection_new_def)
  with got show ?thesis by simp
qed

end
