(* ===== verification/Request_Forwarding.thy ===== *)
theory Request_Forwarding
  imports Request_Safety
begin

text \<open>
  What a route without modules sends to the upstream and returns to the client, and the requests
  that are answered without an upstream.
\<close>

section \<open>Building a response\<close>

definition normal_headers :: "http_api \<Rightarrow> (string \<times> bytes) list \<Rightarrow> headers" where
  "normal_headers H hs = List.map_filter (\<lambda>(k, v). map_option (\<lambda>name. (name, v)) (ha_name H k)) hs"

definition accepted_headers :: "http_api \<Rightarrow> (string \<times> bytes) list \<Rightarrow> bool" where
  "accepted_headers H hs \<longleftrightarrow> (\<forall>(k, v) \<in> set hs. ha_name H k \<noteq> None \<and> ha_value H v)"

lemma normal_headers_append: "normal_headers H (hs @ hs') = normal_headers H hs @ normal_headers H hs'"
  by (simp add: normal_headers_def List.map_filter_def)

lemma fold_builder_header:
  "accepted_headers H hs \<Longrightarrow>
   fold (builder_header H) hs (Some (code, hs0)) = Some (code, hs0 @ normal_headers H hs)"
proof (induction hs arbitrary: hs0)
  case (Cons kv hs)
  then show ?case
    by (cases kv) (auto simp: accepted_headers_def builder_header_def normal_headers_def List.map_filter_simps)
qed (simp add: normal_headers_def List.map_filter_simps)

text \<open>The headers that come back, before the names are put in normal form.\<close>

definition returned_headers ::
  "http_api \<Rightarrow> (string \<times> string) list \<Rightarrow> headers \<Rightarrow> bytes \<Rightarrow> (string \<times> string) list" where
  "returned_headers H global_headers hs body =
     filter (\<lambda>(k, v). to_ascii_lowercase k \<notin> hop_by_hop) (text_headers H hs) @
     [(''content-length'', show_nat (length body))] @ global_headers"

lemma proxied_response_accepted:
  assumes "accepted_headers H (returned_headers H global_headers hs body)"
  shows "proxied_response H global_headers status hs body =
    \<lparr>hs_status = status, hs_headers = normal_headers H (returned_headers H global_headers hs body),
     hs_body = Body_Bytes body\<rparr>"
proof -
  let ?keep = "filter (\<lambda>(k, v). to_ascii_lowercase k \<notin> hop_by_hop) (text_headers H hs)"
  let ?len = "(''content-length'', show_nat (length body))"
  have acc: "accepted_headers H ?keep" "accepted_headers H [?len]" "accepted_headers H global_headers"
    using assms by (auto simp: returned_headers_def accepted_headers_def)
  have "builder_header H ?len (Some (status, hs0)) = Some (status, hs0 @ normal_headers H [?len])" for hs0
    using fold_builder_header [OF acc(2), of status hs0] by simp
  then show ?thesis
    by (simp add: proxied_response_def fold_builder_header [OF acc(1)] fold_builder_header [OF acc(3)]
        builder_body_def returned_headers_def normal_headers_append)
      (metis append_Cons append_Nil normal_headers_append)
qed

section \<open>The headers and body that are sent\<close>

lemma request_headers_sent:
  "(k, v) \<in> set (rc_headers (request_context_of V st req namespace c params)) \<longleftrightarrow>
   map_of (rev (text_headers (sv_http V) (hq_headers req))) k = Some v"
  by (simp add: request_context_of_def hash_entries map_of_hash_collect)

lemma to_bytes_ok:
  "result_ok (to_bytes body limit) = (case body of Ok b \<Rightarrow> if length b \<le> limit then Some b else None | Err _ \<Rightarrow> None)"
  by (cases body) (simp_all add: to_bytes_def)

section \<open>Properties\<close>

text \<open>
  C20. A request to a route without modules and with a service goes to the first URL of the
  service and its response comes back. What is sent: the method, the path (or the stripped one),
  of every request header with a text value the last value, \<open>Host\<close> only when it is preserved,
  the DGate headers unless hidden, and the body, which is left out when it can not be read or is
  longer than 10 MiB; the service's \<open>disable_query_params\<close> changes nothing. What comes back: the
  status and body of the upstream, its headers without the hop-by-hop ones, the length of the
  body and the global headers. The state stays as it was.
\<close>

theorem request_forwarded:
  assumes "find_namespace_for_host (sv_proxy V) st (request_host (sv_http V) req) = Some namespace"
    and "px_routers st (ns_name namespace) = Some router"
    and "find_route (pe_regex (sv_proxy V)) (sv_place V) router (hq_path req) (hq_method req) = Some (c, params)"
    and "\<not> is_websocket_upgrade (sv_http V) req" and "\<not> is_grpc_request (sv_http V) req"
    and "cpr_modules c = []" and "cpr_service c = Some service" and "svc_urls service = u # us"
    and "q = upstream_request_of (sv_http V) (pe_regex (sv_proxy V))
               (request_context_of V st req namespace c params) service c u"
    and "sv_send V q = Ok response" and "us_body response = Ok body"
    and "hs = returned_headers (sv_http V) (pc_global_headers (cfg_proxy (px_config st))) (us_headers response) body"
    and "accepted_headers (sv_http V) hs"
  shows "handle_request V now req st =
           ((\<lparr>hs_status = us_status response, hs_headers = normal_headers (sv_http V) hs, hs_body = Body_Bytes body\<rparr>, None), st) \<and>
         uq_body q = (case hq_body req of Ok b \<Rightarrow> if length b \<le> 10485760 then Some b else None | Err _ \<Rightarrow> None) \<and>
         ((k, v) \<in> set (uq_headers q) \<longleftrightarrow>
            map_of (rev (text_headers (sv_http V) (hq_headers req))) k = Some v \<and>
              (to_ascii_lowercase k \<noteq> ''host'' \<or> rt_preserve_host (cpr_route c)) \<or>
            (k, v) \<in> set (dgate_headers service c)) \<and>
         q = upstream_request_of (sv_http V) (pe_regex (sv_proxy V))
               (request_context_of V st req namespace c params) (service\<lparr>svc_disable_query_params := b\<rparr>) c u"
proof -
  have "proxy_to_upstream V st (request_context_of V st req namespace c params) service c =
      \<lparr>hs_status = us_status response, hs_headers = normal_headers (sv_http V) hs, hs_body = Body_Bytes body\<rparr>"
    using assms(6,8,10,11) proxied_response_accepted [OF assms(13) [unfolded assms(12)]]
    by (simp add: proxy_to_upstream_def assms(9) [symmetric] response_body_of_def assms(12))
  then have "handle_request V now req st =
      ((\<lparr>hs_status = us_status response, hs_headers = normal_headers (sv_http V) hs, hs_body = Body_Bytes body\<rparr>, None), st)"
    by (simp add: handle_request_def Let_def assms(1-7) serve_http_def)
  moreover have "uq_body q = (case hq_body req of Ok b \<Rightarrow> if length b \<le> 10485760 then Some b else None | Err _ \<Rightarrow> None)"
    by (simp add: assms(9) upstream_request_of_def request_context_of_def to_bytes_ok body_limit_def split: sum.split)
  moreover have "(k, v) \<in> set (uq_headers q) \<longleftrightarrow>
      map_of (rev (text_headers (sv_http V) (hq_headers req))) k = Some v \<and>
        (to_ascii_lowercase k \<noteq> ''host'' \<or> rt_preserve_host (cpr_route c)) \<or>
      (k, v) \<in> set (dgate_headers service c)"
    using request_headers_sent [of k v V st req namespace c params]
    by (auto simp: assms(9) upstream_request_of_def)
  moreover have "q = upstream_request_of (sv_http V) (pe_regex (sv_proxy V))
      (request_context_of V st req namespace c params) (service\<lparr>svc_disable_query_params := b\<rparr>) c u"
    by (simp add: assms(9) upstream_request_of_def dgate_headers_def)
  ultimately show ?thesis by blast
qed

definition forwarded_route :: "rx list compiled_route" where
  "forwarded_route =
     \<lparr>cpr_route = route_new ''r'' ''a'', cpr_namespace = namespace_new ''a'',
      cpr_service = Some ((service_new ''s'' ''a'')\<lparr>svc_urls := [''http://up'']\<rparr>),
      cpr_modules = [], cpr_path_patterns = [[RX_Star CC_Any]], cpr_methods = [''*'']\<rparr>"

definition forwarding_proxy :: "(mem_storage, string, rx list, unit) proxy_state" where
  "forwarding_proxy = handling_proxy
     \<lparr>px_routers := [''a'' \<mapsto> ns_router_add forwarded_route (ns_router_new (namespace_new ''a''))],
      px_config := dgate_config_default undefined\<rparr>"

definition teapot :: upstream_response where
  "teapot = \<lparr>us_status = 418, us_headers = [(''connection'', ''close''), (''x-tea'', ''green'')], us_body = Ok ''short''\<rparr>"

definition teapot_serve :: "(mem_storage, string, rx list, string, string, unit) serve_env" where
  "teapot_serve = sample_serve\<lparr>sv_send := (\<lambda>q. if uq_url q = ''http://up/x'' then Ok teapot else Err ''other host'')\<rparr>"

theorem request_forwarded_witness:
  "fst (fst (handle_request teapot_serve (\<lambda>_. (0, 0)) sample_get forwarding_proxy)) =
   \<lparr>hs_status = 418, hs_headers = [(''x-tea'', ''green''), (''content-length'', ''5'')], hs_body = Body_Bytes ''short''\<rparr>"
proof -
  let ?ns = "namespace_new ''a''" and ?s = "(service_new ''s'' ''a'')\<lparr>svc_urls := [''http://up'']\<rparr>"
  let ?router = "ns_router_add forwarded_route (ns_router_new ?ns)"
  have a: "find_namespace_for_host (sv_proxy teapot_serve) forwarding_proxy (request_host (sv_http teapot_serve) sample_get) = Some ?ns"
    by code_simp
  have b: "px_routers forwarding_proxy (ns_name ?ns) = Some ?router"
    by (simp add: forwarding_proxy_def namespace_new_def)
  have c: "map_option fst (find_route (pe_regex (sv_proxy teapot_serve)) (sv_place teapot_serve) ?router
      (hq_path sample_get) (hq_method sample_get)) = Some forwarded_route"
    by code_simp
  then obtain params where c: "find_route (pe_regex (sv_proxy teapot_serve)) (sv_place teapot_serve) ?router
      (hq_path sample_get) (hq_method sample_get) = Some (forwarded_route, params)"
    by auto
  have d: "\<not> is_websocket_upgrade (sv_http teapot_serve) sample_get" "\<not> is_grpc_request (sv_http teapot_serve) sample_get"
    by code_simp+
  have e: "cpr_modules forwarded_route = []" "cpr_service forwarded_route = Some ?s" "svc_urls ?s = [''http://up'']"
    by (simp_all add: forwarded_route_def)
  let ?q = "upstream_request_of (sv_http teapot_serve) (pe_regex (sv_proxy teapot_serve))
      (request_context_of teapot_serve forwarding_proxy sample_get ?ns forwarded_route params) ?s forwarded_route ''http://up''"
  have "uq_url ?q = ''http://up/x''"
    by (simp add: upstream_request_of_def request_context_of_def sample_get_def forwarded_route_def target_path_def
        route_new_def full_url_def query_string_def trim_end_matches_def)
  then have f: "sv_send teapot_serve ?q = Ok teapot" by (simp add: teapot_serve_def)
  have g: "us_body teapot = Ok ''short''" by (simp add: teapot_def)
  let ?hs = "returned_headers (sv_http teapot_serve) (pc_global_headers (cfg_proxy (px_config forwarding_proxy)))
      (us_headers teapot) ''short''"
  have h: "?hs = [(''x-tea'', ''green''), (''content-length'', ''5'')]" by code_simp
  have i: "accepted_headers (sv_http teapot_serve) ?hs" unfolding h by (simp add: accepted_headers_def teapot_serve_def sample_serve_def sample_http_def)
  have j: "normal_headers (sv_http teapot_serve) ?hs = ?hs" unfolding h by code_simp
  from request_forwarded [OF a b c d e refl f g refl i, of "\<lambda>_. (0, 0)"] j h
  show ?thesis by (simp add: teapot_def)
qed

end
