(* ===== verification/Ws_Relay.thy ===== *)
theory Ws_Relay
  imports Prelude
begin

text \<open>
  The WebSocket relay, \<open>relay_websocket\<close> of \<open>src/proxy/mod.rs\<close>: two loops that read one socket and
  write the other, run together until the first of them ends. One step is one turn of one loop;
  whether a send succeeds is up to the peer. A socket is the messages it still gives, an error
  of the socket being one of them; after the last one the stream has ended.
\<close>

section \<open>Messages\<close>

datatype client_message =
    Client_Text string
  | Client_Binary bytes
  | Client_Ping bytes
  | Client_Pong bytes
  | Client_Close "(u16 \<times> string) option"

datatype upstream_message =
    Upstream_Text string
  | Upstream_Binary bytes
  | Upstream_Ping bytes
  | Upstream_Pong bytes
  | Upstream_Close "(u16 \<times> string) option"
  | Upstream_Frame bytes

record relay =
  rl_client_rx :: "(string + client_message) list"
  rl_upstream_rx :: "(string + upstream_message) list"
  rl_upstream_tx :: "upstream_message list"
  rl_client_tx :: "client_message list"
  rl_ended :: bool

definition relay_start :: "(string + client_message) list \<Rightarrow> (string + upstream_message) list \<Rightarrow> relay" where
  "relay_start client upstream =
     \<lparr>rl_client_rx = client, rl_upstream_rx = upstream, rl_upstream_tx = [], rl_client_tx = [], rl_ended = False\<rparr>"

section \<open>The two loops\<close>

text \<open>
  \<open>relay_websocket\<close> relays nothing when it can not connect; \<open>connect\<close> is \<open>connect_async\<close>, whose
  socket is what will be read from it.
\<close>

definition relay_websocket ::
  "(string \<Rightarrow> string + (string + upstream_message) list) \<Rightarrow> (string + client_message) list \<Rightarrow> string \<Rightarrow> relay option" where
  "relay_websocket connect client upstream_url =
     (case connect upstream_url of Ok upstream \<Rightarrow> Some (relay_start client upstream) | Err _ \<Rightarrow> None)"

text \<open>\<open>send(m).await\<close>: \<open>sent\<close> says whether it succeeds; a loop breaks when it does not.\<close>

definition send_upstream :: "bool \<Rightarrow> upstream_message \<Rightarrow> relay \<Rightarrow> relay" where
  "send_upstream sent m r =
     (if sent then r\<lparr>rl_upstream_tx := rl_upstream_tx r @ [m]\<rparr> else r\<lparr>rl_ended := True\<rparr>)"

definition send_client :: "bool \<Rightarrow> client_message \<Rightarrow> relay \<Rightarrow> relay" where
  "send_client sent m r =
     (if sent then r\<lparr>rl_client_tx := rl_client_tx r @ [m]\<rparr> else r\<lparr>rl_ended := True\<rparr>)"

definition client_to_upstream :: "bool \<Rightarrow> relay \<Rightarrow> relay" where
  "client_to_upstream sent r =
     (case rl_client_rx r of
        [] \<Rightarrow> r\<lparr>rl_ended := True\<rparr>
      | msg # rest \<Rightarrow>
          let r = r\<lparr>rl_client_rx := rest\<rparr>
          in (case msg of
                Ok (Client_Text text) \<Rightarrow> send_upstream sent (Upstream_Text text) r
              | Ok (Client_Binary data) \<Rightarrow> send_upstream sent (Upstream_Binary data) r
              | Ok (Client_Ping data) \<Rightarrow> send_upstream sent (Upstream_Ping data) r
              | Ok (Client_Pong data) \<Rightarrow> send_upstream sent (Upstream_Pong data) r
              | Ok (Client_Close _) \<Rightarrow> (send_upstream sent (Upstream_Close None) r)\<lparr>rl_ended := True\<rparr>
              | Err _ \<Rightarrow> (send_upstream sent (Upstream_Close None) r)\<lparr>rl_ended := True\<rparr>))"

definition upstream_to_client :: "bool \<Rightarrow> relay \<Rightarrow> relay" where
  "upstream_to_client sent r =
     (case rl_upstream_rx r of
        [] \<Rightarrow> r\<lparr>rl_ended := True\<rparr>
      | msg # rest \<Rightarrow>
          let r = r\<lparr>rl_upstream_rx := rest\<rparr>
          in (case msg of
                Ok (Upstream_Text text) \<Rightarrow> send_client sent (Client_Text text) r
              | Ok (Upstream_Binary data) \<Rightarrow> send_client sent (Client_Binary data) r
              | Ok (Upstream_Ping data) \<Rightarrow> send_client sent (Client_Ping data) r
              | Ok (Upstream_Pong data) \<Rightarrow> send_client sent (Client_Pong data) r
              | Ok (Upstream_Close _) \<Rightarrow> (send_client sent (Client_Close None) r)\<lparr>rl_ended := True\<rparr>
              | Ok (Upstream_Frame _) \<Rightarrow> r
              | Err _ \<Rightarrow> (send_client sent (Client_Close None) r)\<lparr>rl_ended := True\<rparr>))"

text \<open>\<open>tokio::select!\<close>: either loop may take the next turn until one has ended.\<close>

inductive relay_step :: "relay \<Rightarrow> relay \<Rightarrow> bool" where
  client: "\<not> rl_ended r \<Longrightarrow> relay_step r (client_to_upstream sent r)"
| upstream: "\<not> rl_ended r \<Longrightarrow> relay_step r (upstream_to_client sent r)"

inductive_cases relay_stepE: "relay_step r r'"

inductive relay_run :: "nat \<Rightarrow> relay \<Rightarrow> relay \<Rightarrow> bool" where
  start: "relay_run 0 r r"
| turn: "relay_run n r r' \<Longrightarrow> relay_step r' r'' \<Longrightarrow> relay_run (Suc n) r r''"

text \<open>
  A schedule: for each turn whether the loop of the client takes it and whether what it sends is
  accepted; turns after the end are none.
\<close>

definition relay_turn :: "bool \<times> bool \<Rightarrow> relay \<Rightarrow> relay" where
  "relay_turn turn r =
     (if rl_ended r then r
      else if fst turn then client_to_upstream (snd turn) r else upstream_to_client (snd turn) r)"

definition relay_turns :: "(bool \<times> bool) list \<Rightarrow> relay \<Rightarrow> relay" where
  "relay_turns turns r = fold relay_turn turns r"

section \<open>The specification\<close>

text \<open>What of a stream may be passed on before it closes or fails.\<close>

fun client_data :: "(string + client_message) list \<Rightarrow> upstream_message list" where
  "client_data (Ok (Client_Text text) # rest) = Upstream_Text text # client_data rest"
| "client_data (Ok (Client_Binary data) # rest) = Upstream_Binary data # client_data rest"
| "client_data (Ok (Client_Ping data) # rest) = Upstream_Ping data # client_data rest"
| "client_data (Ok (Client_Pong data) # rest) = Upstream_Pong data # client_data rest"
| "client_data _ = []"

fun upstream_data :: "(string + upstream_message) list \<Rightarrow> client_message list" where
  "upstream_data (Ok (Upstream_Text text) # rest) = Client_Text text # upstream_data rest"
| "upstream_data (Ok (Upstream_Binary data) # rest) = Client_Binary data # upstream_data rest"
| "upstream_data (Ok (Upstream_Ping data) # rest) = Client_Ping data # upstream_data rest"
| "upstream_data (Ok (Upstream_Pong data) # rest) = Client_Pong data # upstream_data rest"
| "upstream_data (Ok (Upstream_Frame _) # rest) = upstream_data rest"
| "upstream_data _ = []"

text \<open>What the other side has got when all of a stream has been relayed.\<close>

fun upstream_gets :: "(string + client_message) list \<Rightarrow> upstream_message list" where
  "upstream_gets [] = []"
| "upstream_gets (Ok (Client_Text text) # rest) = Upstream_Text text # upstream_gets rest"
| "upstream_gets (Ok (Client_Binary data) # rest) = Upstream_Binary data # upstream_gets rest"
| "upstream_gets (Ok (Client_Ping data) # rest) = Upstream_Ping data # upstream_gets rest"
| "upstream_gets (Ok (Client_Pong data) # rest) = Upstream_Pong data # upstream_gets rest"
| "upstream_gets (Ok (Client_Close _) # _) = [Upstream_Close None]"
| "upstream_gets (Err _ # _) = [Upstream_Close None]"

fun client_gets :: "(string + upstream_message) list \<Rightarrow> client_message list" where
  "client_gets [] = []"
| "client_gets (Ok (Upstream_Text text) # rest) = Client_Text text # client_gets rest"
| "client_gets (Ok (Upstream_Binary data) # rest) = Client_Binary data # client_gets rest"
| "client_gets (Ok (Upstream_Ping data) # rest) = Client_Ping data # client_gets rest"
| "client_gets (Ok (Upstream_Pong data) # rest) = Client_Pong data # client_gets rest"
| "client_gets (Ok (Upstream_Frame _) # rest) = client_gets rest"
| "client_gets (Ok (Upstream_Close _) # _) = [Client_Close None]"
| "client_gets (Err _ # _) = [Client_Close None]"

definition passes_on :: "'m \<Rightarrow> 'm list \<Rightarrow> 'm list \<Rightarrow> bool" where
  "passes_on close sent data \<longleftrightarrow> prefix sent data \<or> sent = data @ [close]"

text \<open>While the relay runs, what is sent and what is still to come make up the data of the stream.\<close>

definition relay_inv :: "(string + client_message) list \<Rightarrow> (string + upstream_message) list \<Rightarrow> relay \<Rightarrow> bool" where
  "relay_inv client upstream r \<longleftrightarrow>
     passes_on (Upstream_Close None) (rl_upstream_tx r) (client_data client) \<and>
     passes_on (Client_Close None) (rl_client_tx r) (upstream_data upstream) \<and>
     (\<not> rl_ended r \<longrightarrow>
        rl_upstream_tx r @ client_data (rl_client_rx r) = client_data client \<and>
        rl_client_tx r @ upstream_data (rl_upstream_rx r) = upstream_data upstream)"

definition relay_size :: "relay \<Rightarrow> nat" where
  "relay_size r = (if rl_ended r then 0 else length (rl_client_rx r) + length (rl_upstream_rx r) + 1)"

lemmas relay_defs = send_upstream_def send_client_def client_to_upstream_def upstream_to_client_def

lemma passes_on_snoc: "tx @ m # rest = data \<Longrightarrow> passes_on close (tx @ [m]) data"
  unfolding passes_on_def by (metis append.assoc append_Cons append_Nil prefixI)

lemma forward_upstream_inv:
  assumes "relay_inv client upstream r" and "\<not> rl_ended r" and "client_data (rl_client_rx r) = m # client_data rest"
  shows "relay_inv client upstream (send_upstream sent m (r\<lparr>rl_client_rx := rest\<rparr>))"
proof -
  have "rl_upstream_tx r @ m # client_data rest = client_data client" using assms by (simp add: relay_inv_def)
  then show ?thesis using assms(1,2) passes_on_snoc by (auto simp: relay_inv_def send_upstream_def)
qed

lemma close_upstream_inv:
  assumes "relay_inv client upstream r" and "\<not> rl_ended r" and "client_data (rl_client_rx r) = []"
  shows "relay_inv client upstream
    ((send_upstream sent (Upstream_Close None) (r\<lparr>rl_client_rx := rest\<rparr>))\<lparr>rl_ended := True\<rparr>)"
proof -
  have "rl_upstream_tx r = client_data client" using assms by (simp add: relay_inv_def)
  then show ?thesis using assms(1) by (simp add: relay_inv_def send_upstream_def passes_on_def)
qed

lemma forward_client_inv:
  assumes "relay_inv client upstream r" and "\<not> rl_ended r" and "upstream_data (rl_upstream_rx r) = m # upstream_data rest"
  shows "relay_inv client upstream (send_client sent m (r\<lparr>rl_upstream_rx := rest\<rparr>))"
proof -
  have "rl_client_tx r @ m # upstream_data rest = upstream_data upstream" using assms by (simp add: relay_inv_def)
  then show ?thesis using assms(1,2) passes_on_snoc by (auto simp: relay_inv_def send_client_def)
qed

lemma close_client_inv:
  assumes "relay_inv client upstream r" and "\<not> rl_ended r" and "upstream_data (rl_upstream_rx r) = []"
  shows "relay_inv client upstream
    ((send_client sent (Client_Close None) (r\<lparr>rl_upstream_rx := rest\<rparr>))\<lparr>rl_ended := True\<rparr>)"
proof -
  have "rl_client_tx r = upstream_data upstream" using assms by (simp add: relay_inv_def)
  then show ?thesis using assms(1) by (simp add: relay_inv_def send_client_def passes_on_def)
qed

lemma client_turn_inv:
  assumes "relay_inv client upstream r" and "\<not> rl_ended r"
  shows "relay_inv client upstream (client_to_upstream sent r)"
proof (cases "rl_client_rx r")
  case Nil
  with assms(1) show ?thesis by (simp add: relay_inv_def client_to_upstream_def)
next
  case (Cons msg rest)
  note intros = forward_upstream_inv [OF assms] close_upstream_inv [OF assms]
  show ?thesis
  proof (cases msg)
    case (Inr m)
    then show ?thesis using Cons intros by (cases m) (simp_all add: client_to_upstream_def)
  qed (use Cons intros in \<open>simp add: client_to_upstream_def\<close>)
qed

lemma upstream_turn_inv:
  assumes "relay_inv client upstream r" and "\<not> rl_ended r"
  shows "relay_inv client upstream (upstream_to_client sent r)"
proof (cases "rl_upstream_rx r")
  case Nil
  with assms(1) show ?thesis by (simp add: relay_inv_def upstream_to_client_def)
next
  case (Cons msg rest)
  note intros = forward_client_inv [OF assms] close_client_inv [OF assms]
  show ?thesis
  proof (cases msg)
    case (Inr m)
    show ?thesis
    proof (cases "\<exists>f. m = Upstream_Frame f")
      case True
      with assms Cons Inr show ?thesis by (auto simp: relay_inv_def upstream_to_client_def)
    next
      case False
      then show ?thesis using Cons Inr intros by (cases m) (simp_all add: upstream_to_client_def)
    qed
  qed (use Cons intros in \<open>simp add: upstream_to_client_def\<close>)
qed

lemma relay_step_inv: "relay_step r r' \<Longrightarrow> relay_inv client upstream r \<Longrightarrow> relay_inv client upstream r'"
  by (erule relay_stepE) (simp_all add: client_turn_inv upstream_turn_inv)

lemma relay_run_inv: "relay_run n r r' \<Longrightarrow> relay_inv client upstream r \<Longrightarrow> relay_inv client upstream r'"
  by (induction rule: relay_run.induct) (simp_all add: relay_step_inv)

lemma relay_start_inv: "relay_inv client upstream (relay_start client upstream)"
  by (simp add: relay_inv_def relay_start_def passes_on_def)

text \<open>Every turn takes a message or ends the relay.\<close>

lemma client_turn_size: "\<not> rl_ended r \<Longrightarrow> relay_size (client_to_upstream sent r) < relay_size r"
  by (cases "rl_client_rx r")
    (auto simp: relay_size_def client_to_upstream_def send_upstream_def Let_def split: sum.split client_message.split)

lemma upstream_turn_size: "\<not> rl_ended r \<Longrightarrow> relay_size (upstream_to_client sent r) < relay_size r"
  by (cases "rl_upstream_rx r")
    (auto simp: relay_size_def upstream_to_client_def send_client_def Let_def split: sum.split upstream_message.split)

lemma relay_step_size: "relay_step r r' \<Longrightarrow> relay_size r' < relay_size r"
  by (erule relay_stepE) (simp_all add: client_turn_size upstream_turn_size)

lemma relay_run_size: "relay_run n r r' \<Longrightarrow> relay_size r' + n \<le> relay_size r"
proof (induction rule: relay_run.induct)
  case (turn n r r' r'')
  then show ?case using relay_step_size [of r' r''] by simp
qed simp

lemma relay_turn_size: "relay_size (relay_turn t r) \<le> relay_size r - 1"
  using client_turn_size [of r "snd t"] upstream_turn_size [of r "snd t"]
  by (cases "rl_ended r") (auto simp: relay_turn_def relay_size_def [of r])

lemma relay_turns_size: "relay_size (relay_turns ts r) \<le> relay_size r - length ts"
proof (induction ts arbitrary: r)
  case (Cons t ts)
  show ?case using Cons.IH [of "relay_turn t r"] relay_turn_size [of t r] by (simp add: relay_turns_def)
qed (simp add: relay_turns_def)

lemma relay_size_ended: "relay_size r = 0 \<longleftrightarrow> rl_ended r"
  by (simp add: relay_size_def)

text \<open>A schedule is a run of the two loops.\<close>

lemma relay_turns_run: "\<exists>n. relay_run n r (relay_turns ts r)"
proof (induction ts rule: rev_induct)
  case (snoc t ts)
  then obtain n where n: "relay_run n r (relay_turns ts r)" by blast
  have eq: "relay_turns (ts @ [t]) r = relay_turn t (relay_turns ts r)" by (simp add: relay_turns_def)
  show ?case
  proof (cases "rl_ended (relay_turns ts r)")
    case True
    with n show ?thesis by (auto simp: eq relay_turn_def)
  next
    case False
    then have "relay_step (relay_turns ts r) (relay_turn t (relay_turns ts r))"
      by (simp add: relay_turn_def relay_step.intros)
    with n show ?thesis unfolding eq by (blast intro: relay_run.turn)
  qed
qed (auto simp: relay_turns_def intro: relay_run.start)

text \<open>
  While every send is accepted, what is sent and what is still to come make up what the other
  side gets; the relay ends when that is complete in one direction.
\<close>

definition relay_complete :: "(string + client_message) list \<Rightarrow> (string + upstream_message) list \<Rightarrow> relay \<Rightarrow> bool" where
  "relay_complete client upstream r \<longleftrightarrow>
     (if rl_ended r then rl_upstream_tx r = upstream_gets client \<or> rl_client_tx r = client_gets upstream
      else rl_upstream_tx r @ upstream_gets (rl_client_rx r) = upstream_gets client \<and>
           rl_client_tx r @ client_gets (rl_upstream_rx r) = client_gets upstream)"

lemma client_turn_complete:
  assumes "relay_complete client upstream r" and "\<not> rl_ended r"
  shows "relay_complete client upstream (client_to_upstream True r)"
proof (cases "rl_client_rx r")
  case (Cons msg rest)
  show ?thesis
  proof (cases msg)
    case (Inr m)
    with Cons assms show ?thesis
      by (cases m) (auto simp: relay_complete_def client_to_upstream_def send_upstream_def)
  qed (use Cons assms in \<open>auto simp: relay_complete_def client_to_upstream_def send_upstream_def\<close>)
qed (use assms in \<open>auto simp: relay_complete_def client_to_upstream_def\<close>)

lemma upstream_turn_complete:
  assumes "relay_complete client upstream r" and "\<not> rl_ended r"
  shows "relay_complete client upstream (upstream_to_client True r)"
proof (cases "rl_upstream_rx r")
  case (Cons msg rest)
  show ?thesis
  proof (cases msg)
    case (Inr m)
    with Cons assms show ?thesis
      by (cases m) (auto simp: relay_complete_def upstream_to_client_def send_client_def)
  qed (use Cons assms in \<open>auto simp: relay_complete_def upstream_to_client_def send_client_def\<close>)
qed (use assms in \<open>auto simp: relay_complete_def upstream_to_client_def\<close>)

lemma relay_turns_complete:
  "relay_complete client upstream r \<Longrightarrow> list_all snd ts \<Longrightarrow> relay_complete client upstream (relay_turns ts r)"
proof (induction ts arbitrary: r)
  case (Cons t ts)
  then have "relay_complete client upstream (relay_turn t r)"
    by (auto simp: relay_turn_def client_turn_complete upstream_turn_complete)
  with Cons show ?case by (simp add: relay_turns_def)
qed (simp add: relay_turns_def)

section \<open>Properties\<close>

text \<open>
  C23. Whatever the two peers do and however the two loops take turns, what the upstream has
  received is a beginning of the messages the client sent before it closed or failed, in their
  order and unchanged, or all of them followed by a close frame without code and reason; and the
  same the other way round, where raw frames are left out.
\<close>

theorem relay_in_order:
  assumes "relay_run n (relay_start client upstream) r"
  shows "passes_on (Upstream_Close None) (rl_upstream_tx r) (client_data client) \<and>
         passes_on (Client_Close None) (rl_client_tx r) (upstream_data upstream)"
  using relay_run_inv [OF assms relay_start_inv] by (simp add: relay_inv_def)

theorem relay_in_order_witness:
  "\<exists>r. relay_run 2 (relay_start [Ok (Client_Text ''a''), Ok (Client_Close (Some (1000, ''bye'')))] []) r \<and>
       rl_upstream_tx r = [Upstream_Text ''a'', Upstream_Close None] \<and>
       passes_on (Upstream_Close None) (rl_upstream_tx r)
         (client_data [Ok (Client_Text ''a''), Ok (Client_Close (Some (1000, ''bye'')))])"
proof -
  let ?client = "[Ok (Client_Text ''a''), Ok (Client_Close (Some (1000, ''bye'')))]"
  let ?r0 = "relay_start ?client []"
  let ?r1 = "client_to_upstream True ?r0"
  let ?r2 = "client_to_upstream True ?r1"
  have "relay_step ?r0 ?r1" by (rule relay_step.client) (simp add: relay_start_def)
  moreover have "relay_step ?r1 ?r2"
    by (rule relay_step.client) (simp add: relay_start_def client_to_upstream_def send_upstream_def)
  ultimately have "relay_run (Suc (Suc 0)) ?r0 ?r2" by (blast intro: relay_run.intros)
  then have run: "relay_run 2 ?r0 ?r2" by (simp add: numeral_2_eq_2)
  moreover have "rl_upstream_tx ?r2 = [Upstream_Text ''a'', Upstream_Close None]"
    by (simp add: relay_start_def client_to_upstream_def send_upstream_def)
  ultimately show ?thesis using relay_in_order [OF run] by blast
qed

text \<open>
  C34. However the loops take turns, the relay ends within one turn more than there are messages.
  It ends for a reason: while every send is accepted it does not stop before one of the two
  streams has been relayed completely, its data in order and, if the stream closed or failed, one
  close frame after which nothing is sent; and also when a send fails, each side has a beginning
  of what the other one sent.
\<close>

theorem relay_terminates:
  assumes "length client + length upstream < length turns"
    and "r = relay_turns turns (relay_start client upstream)"
  shows "rl_ended r \<and>
         (list_all snd turns \<longrightarrow> rl_upstream_tx r = upstream_gets client \<or> rl_client_tx r = client_gets upstream) \<and>
         passes_on (Upstream_Close None) (rl_upstream_tx r) (client_data client) \<and>
         passes_on (Client_Close None) (rl_client_tx r) (upstream_data upstream)"
proof -
  let ?r0 = "relay_start client upstream"
  have "relay_size ?r0 = length client + length upstream + 1" by (simp add: relay_size_def relay_start_def)
  with relay_turns_size [of turns ?r0] assms have ended: "rl_ended r" by (simp flip: relay_size_ended)
  have "relay_complete client upstream ?r0" by (simp add: relay_complete_def relay_start_def)
  from relay_turns_complete [OF this] ended assms(2)
  have "list_all snd turns \<longrightarrow> rl_upstream_tx r = upstream_gets client \<or> rl_client_tx r = client_gets upstream"
    by (auto simp: relay_complete_def)
  moreover have "relay_inv client upstream r"
    using relay_turns_run [of ?r0 turns] relay_run_inv [OF _ relay_start_inv] assms(2) by blast
  ultimately show ?thesis using ended by (simp add: relay_inv_def)
qed

theorem relay_terminates_witness:
  "rl_ended (relay_turns [(True, True), (True, True), (False, True)] (relay_start [Ok (Client_Text ''x''), Err ''reset''] [])) \<and>
   list_all snd [(True, True), (True, True), (False, True)]"
  using relay_terminates [of "[Ok (Client_Text ''x''), Err ''reset'']" "[]"
      "[(True, True), (True, True), (False, True)]", OF _ refl]
  by simp

end
