(* ===== verification/Admin.thy ===== *)
theory Admin
  imports Proxy Cluster
begin

text \<open>
  The admin API, \<open>src/admin/mod.rs\<close>: the route table and every handler. A handler is a function of
  what axum extracts from the request (path parameters, query, decoded body); encoding the
  response as JSON and decoding the body are axum's. \<open>stamp\<close> is the id and time the new change
  log gets, \<open>now\<close> the time a resource made for a deletion gets.
\<close>

section \<open>Responses\<close>

record 'a api_response =
  ar_data :: "'a option"
  ar_error :: "string option"
  ar_success :: bool

definition api_success :: "'a \<Rightarrow> 'a api_response" where
  "api_success data = \<lparr>ar_data = Some data, ar_error = None, ar_success = True\<rparr>"

record error_response =
  er_error :: string
  er_success :: bool

definition error_response_new :: "string \<Rightarrow> error_response" where
  "error_response_new msg = \<lparr>er_error = msg, er_success = False\<rparr>"

record api_error =
  ae_status :: u16
  ae_message :: string

definition api_not_found :: "string \<Rightarrow> api_error" where
  "api_not_found msg = \<lparr>ae_status = 404, ae_message = msg\<rparr>"

definition api_internal :: "string \<Rightarrow> api_error" where
  "api_internal msg = \<lparr>ae_status = 500, ae_message = msg\<rparr>"

definition api_bad_request :: "string \<Rightarrow> api_error" where
  "api_bad_request msg = \<lparr>ae_status = 400, ae_message = msg\<rparr>"

definition api_error_into_response :: "api_error \<Rightarrow> u16 \<times> error_response" where
  "api_error_into_response e = (ae_status e, error_response_new (ae_message e))"

record list_query =
  lq_namespace :: "string option"
  lq_collection :: "string option"

text \<open>\<open>.map_err(|e| ApiError::internal(e.to_string()))?\<close> on the store, and what the reads share.\<close>

definition api_storage :: "storage_error \<Rightarrow> api_error" where
  "api_storage e = api_internal (storage_error_to_string e)"

definition api_list :: "storage_error + 'a list \<Rightarrow> api_error + 'a list api_response" where
  "api_list r = result_bind (map_err api_storage r) (\<lambda>xs. Ok (api_success xs))"

definition api_get :: "string \<Rightarrow> storage_error + 'a option \<Rightarrow> api_error + 'a api_response" where
  "api_get missing r =
     result_bind (map_err api_storage r) (\<lambda>found.
       case found of Some x \<Rightarrow> Ok (api_success x) | None \<Rightarrow> Err (api_not_found missing))"

text \<open>The resources of every namespace in turn; what can not be listed is left out.\<close>

definition list_every_namespace ::
  "('s, 'j) proxy_store \<Rightarrow> 's \<Rightarrow> (string \<Rightarrow> storage_error + 'a list) \<Rightarrow> 'a list" where
  "list_every_namespace P s lister =
     (case list_namespaces P s of
        Ok namespaces \<Rightarrow> concat (map (\<lambda>ns. case lister (ns_name ns) of Ok xs \<Rightarrow> xs | Err _ \<Rightarrow> []) namespaces)
      | Err _ \<Rightarrow> [])"

type_synonym ('s, 'j, 'n) propose = "'j changelog \<Rightarrow> 'n \<times> 's \<Rightarrow> (string + consensus_response) \<times> ('n \<times> 's)"

text \<open>A change log for the item, applied, and the answer.\<close>

definition api_change ::
  "('s, 'j, 'r) proxy_env \<Rightarrow> ('s, 'j, 'n) propose \<Rightarrow> string \<times> datetime \<Rightarrow> ('j, 't) codec \<Rightarrow> change_command \<Rightarrow>
   string \<Rightarrow> string \<Rightarrow> 't \<Rightarrow> 'a \<Rightarrow> ('s, 'j, 'r, 'n) proxy_state \<Rightarrow>
   (api_error + 'a api_response) \<times> ('s, 'j, 'r, 'n) proxy_state" where
  "api_change E propose stamp c cmd namespace name item answer st =
     and_then
       (map_err_st (api_internal \<circ> proxy_error_to_string)
         (apply_changelog E propose
           (changelog_new (sd_null (ps_serde (pe_store E))) c (fst stamp) (snd stamp) cmd namespace name item) st))
       (\<lambda>_ st. (Ok (api_success answer), st))"

section \<open>Root\<close>

text \<open>The two headers and the text; health and readiness as their status and flag.\<close>

definition root_handler :: "string \<Rightarrow> ('s, 'j, 'r, 'n) proxy_state \<Rightarrow> (string \<times> string) list \<times> string" where
  "root_handler version st =
     ([(''X-DGate-Version'', version), (''X-DGate-ChangeHash'', show_nat (unat (px_change_hash st)))],
      ''DGate Admin API'')"

definition health_handler :: "(string \<times> string) list" where
  "health_handler = [(''status'', ''healthy'')]"

definition readyz_handler :: "('s, 'j, 'r, 'n) proxy_state \<Rightarrow> u16 \<times> (string \<times> bool) list" where
  "readyz_handler st = (if px_ready st then (200, [(''ready'', True)]) else (503, [(''ready'', False)]))"

section \<open>Namespaces\<close>

definition admin_list_namespaces :: "('s, 'j, 'r) proxy_env \<Rightarrow> ('s, 'j, 'r, 'n) proxy_state \<Rightarrow> api_error + namespace list api_response" where
  "admin_list_namespaces E st = api_list (list_namespaces (pe_store E) (px_store st))"

definition admin_get_namespace :: "('s, 'j, 'r) proxy_env \<Rightarrow> string \<Rightarrow> ('s, 'j, 'r, 'n) proxy_state \<Rightarrow> api_error + namespace api_response" where
  "admin_get_namespace E name st =
     api_get ''Namespace not found'' (get_namespace (pe_store E) (px_store st) name)"

definition admin_put_namespace ::
  "('s, 'j, 'r) proxy_env \<Rightarrow> ('s, 'j, 'n) propose \<Rightarrow> string \<times> datetime \<Rightarrow> string \<Rightarrow> namespace \<Rightarrow>
   ('s, 'j, 'r, 'n) proxy_state \<Rightarrow> (api_error + namespace api_response) \<times> ('s, 'j, 'r, 'n) proxy_state" where
  "admin_put_namespace E propose stamp name item st =
     (let x = item\<lparr>ns_name := name\<rparr>
      in api_change E propose stamp (sd_namespace (ps_serde (pe_store E))) AddNamespace (ns_name x) (ns_name x) x x st)"

definition admin_delete_namespace ::
  "('s, 'j, 'r) proxy_env \<Rightarrow> ('s, 'j, 'n) propose \<Rightarrow> string \<times> datetime \<Rightarrow> string \<Rightarrow>
   ('s, 'j, 'r, 'n) proxy_state \<Rightarrow> (api_error + unit api_response) \<times> ('s, 'j, 'r, 'n) proxy_state" where
  "admin_delete_namespace E propose stamp name st =
     api_change E propose stamp (sd_namespace (ps_serde (pe_store E))) DeleteNamespace name name (namespace_new name) () st"

section \<open>Routes, services, modules and domains\<close>

definition admin_list_routes ::
  "('s, 'j, 'r) proxy_env \<Rightarrow> list_query \<Rightarrow> ('s, 'j, 'r, 'n) proxy_state \<Rightarrow> api_error + route list api_response" where
  "admin_list_routes E query st =
     (let P = pe_store E; s = px_store st
      in api_list (case lq_namespace query of Some ns \<Rightarrow> list_routes P s ns | None \<Rightarrow> list_all_routes P s))"

definition admin_get_route ::
  "('s, 'j, 'r) proxy_env \<Rightarrow> string \<Rightarrow> string \<Rightarrow> ('s, 'j, 'r, 'n) proxy_state \<Rightarrow> api_error + route api_response" where
  "admin_get_route E namespace name st =
     api_get ''Route not found'' (get_route (pe_store E) (px_store st) namespace name)"

definition admin_put_route ::
  "('s, 'j, 'r) proxy_env \<Rightarrow> ('s, 'j, 'n) propose \<Rightarrow> string \<times> datetime \<Rightarrow> string \<Rightarrow> string \<Rightarrow> route \<Rightarrow>
   ('s, 'j, 'r, 'n) proxy_state \<Rightarrow> (api_error + route api_response) \<times> ('s, 'j, 'r, 'n) proxy_state" where
  "admin_put_route E propose stamp namespace name item st =
     (let x = item\<lparr>rt_name := name, rt_namespace := namespace\<rparr>
      in api_change E propose stamp (sd_route (ps_serde (pe_store E))) AddRoute namespace (rt_name x) x x st)"

definition admin_delete_route ::
  "('s, 'j, 'r) proxy_env \<Rightarrow> ('s, 'j, 'n) propose \<Rightarrow> string \<times> datetime \<Rightarrow> string \<Rightarrow> string \<Rightarrow>
   ('s, 'j, 'r, 'n) proxy_state \<Rightarrow> (api_error + unit api_response) \<times> ('s, 'j, 'r, 'n) proxy_state" where
  "admin_delete_route E propose stamp namespace name st =
     api_change E propose stamp (sd_route (ps_serde (pe_store E))) DeleteRoute namespace name
       (route_new name namespace) () st"

definition admin_list_services ::
  "('s, 'j, 'r) proxy_env \<Rightarrow> list_query \<Rightarrow> ('s, 'j, 'r, 'n) proxy_state \<Rightarrow> api_error + service list api_response" where
  "admin_list_services E query st =
     (let P = pe_store E; s = px_store st
      in api_list (case lq_namespace query of
           Some ns \<Rightarrow> list_services P s ns
         | None \<Rightarrow> Ok (list_every_namespace P s (list_services P s))))"

definition admin_get_service ::
  "('s, 'j, 'r) proxy_env \<Rightarrow> string \<Rightarrow> string \<Rightarrow> ('s, 'j, 'r, 'n) proxy_state \<Rightarrow> api_error + service api_response" where
  "admin_get_service E namespace name st =
     api_get ''Service not found'' (get_service (pe_store E) (px_store st) namespace name)"

definition admin_put_service ::
  "('s, 'j, 'r) proxy_env \<Rightarrow> ('s, 'j, 'n) propose \<Rightarrow> string \<times> datetime \<Rightarrow> string \<Rightarrow> string \<Rightarrow> service \<Rightarrow>
   ('s, 'j, 'r, 'n) proxy_state \<Rightarrow> (api_error + service api_response) \<times> ('s, 'j, 'r, 'n) proxy_state" where
  "admin_put_service E propose stamp namespace name item st =
     (let x = item\<lparr>svc_name := name, svc_namespace := namespace\<rparr>
      in api_change E propose stamp (sd_service (ps_serde (pe_store E))) AddService namespace (svc_name x) x x st)"

definition admin_delete_service ::
  "('s, 'j, 'r) proxy_env \<Rightarrow> ('s, 'j, 'n) propose \<Rightarrow> string \<times> datetime \<Rightarrow> string \<Rightarrow> string \<Rightarrow>
   ('s, 'j, 'r, 'n) proxy_state \<Rightarrow> (api_error + unit api_response) \<times> ('s, 'j, 'r, 'n) proxy_state" where
  "admin_delete_service E propose stamp namespace name st =
     api_change E propose stamp (sd_service (ps_serde (pe_store E))) DeleteService namespace name
       (service_new name namespace) () st"

definition admin_list_modules ::
  "('s, 'j, 'r) proxy_env \<Rightarrow> list_query \<Rightarrow> ('s, 'j, 'r, 'n) proxy_state \<Rightarrow> api_error + module list api_response" where
  "admin_list_modules E query st =
     (let P = pe_store E; s = px_store st
      in api_list (case lq_namespace query of
           Some ns \<Rightarrow> list_modules P s ns
         | None \<Rightarrow> Ok (list_every_namespace P s (list_modules P s))))"

definition admin_get_module ::
  "('s, 'j, 'r) proxy_env \<Rightarrow> string \<Rightarrow> string \<Rightarrow> ('s, 'j, 'r, 'n) proxy_state \<Rightarrow> api_error + module api_response" where
  "admin_get_module E namespace name st =
     api_get ''Module not found'' (get_module (pe_store E) (px_store st) namespace name)"

definition admin_put_module ::
  "('s, 'j, 'r) proxy_env \<Rightarrow> ('s, 'j, 'n) propose \<Rightarrow> string \<times> datetime \<Rightarrow> string \<Rightarrow> string \<Rightarrow> module \<Rightarrow>
   ('s, 'j, 'r, 'n) proxy_state \<Rightarrow> (api_error + module api_response) \<times> ('s, 'j, 'r, 'n) proxy_state" where
  "admin_put_module E propose stamp namespace name item st =
     (let x = item\<lparr>md_name := name, md_namespace := namespace\<rparr>
      in api_change E propose stamp (sd_module (ps_serde (pe_store E))) AddModule namespace (md_name x) x x st)"

definition admin_delete_module ::
  "('s, 'j, 'r) proxy_env \<Rightarrow> ('s, 'j, 'n) propose \<Rightarrow> string \<times> datetime \<Rightarrow> string \<Rightarrow> string \<Rightarrow>
   ('s, 'j, 'r, 'n) proxy_state \<Rightarrow> (api_error + unit api_response) \<times> ('s, 'j, 'r, 'n) proxy_state" where
  "admin_delete_module E propose stamp namespace name st =
     api_change E propose stamp (sd_module (ps_serde (pe_store E))) DeleteModule namespace name
       (module_new name namespace) () st"

definition admin_list_domains ::
  "('s, 'j, 'r) proxy_env \<Rightarrow> list_query \<Rightarrow> ('s, 'j, 'r, 'n) proxy_state \<Rightarrow> api_error + domain list api_response" where
  "admin_list_domains E query st =
     (let P = pe_store E; s = px_store st
      in api_list (case lq_namespace query of Some ns \<Rightarrow> list_domains P s ns | None \<Rightarrow> list_all_domains P s))"

definition admin_get_domain ::
  "('s, 'j, 'r) proxy_env \<Rightarrow> string \<Rightarrow> string \<Rightarrow> ('s, 'j, 'r, 'n) proxy_state \<Rightarrow> api_error + domain api_response" where
  "admin_get_domain E namespace name st =
     api_get ''Domain not found'' (get_domain (pe_store E) (px_store st) namespace name)"

definition admin_put_domain ::
  "('s, 'j, 'r) proxy_env \<Rightarrow> ('s, 'j, 'n) propose \<Rightarrow> string \<times> datetime \<Rightarrow> string \<Rightarrow> string \<Rightarrow> domain \<Rightarrow>
   ('s, 'j, 'r, 'n) proxy_state \<Rightarrow> (api_error + domain api_response) \<times> ('s, 'j, 'r, 'n) proxy_state" where
  "admin_put_domain E propose stamp namespace name item st =
     (let x = item\<lparr>dom_name := name, dom_namespace := namespace\<rparr>
      in api_change E propose stamp (sd_domain (ps_serde (pe_store E))) AddDomain namespace (dom_name x) x x st)"

definition admin_delete_domain ::
  "('s, 'j, 'r) proxy_env \<Rightarrow> ('s, 'j, 'n) propose \<Rightarrow> string \<times> datetime \<Rightarrow> string \<Rightarrow> string \<Rightarrow>
   ('s, 'j, 'r, 'n) proxy_state \<Rightarrow> (api_error + unit api_response) \<times> ('s, 'j, 'r, 'n) proxy_state" where
  "admin_delete_domain E propose stamp namespace name st =
     api_change E propose stamp (sd_domain (ps_serde (pe_store E))) DeleteDomain namespace name
       (domain_new name namespace) () st"

section \<open>Secrets\<close>

definition redact :: "secret \<Rightarrow> secret" where
  "redact s = s\<lparr>sec_data := ''[REDACTED]''\<rparr>"

definition admin_list_secrets ::
  "('s, 'j, 'r) proxy_env \<Rightarrow> list_query \<Rightarrow> ('s, 'j, 'r, 'n) proxy_state \<Rightarrow> api_error + secret list api_response" where
  "admin_list_secrets E query st =
     (let P = pe_store E; s = px_store st
      in case lq_namespace query of
           Some ns \<Rightarrow> result_bind (map_err api_storage (list_secrets P s ns)) (\<lambda>secrets. Ok (api_success (map redact secrets)))
         | None \<Rightarrow>
             Ok (api_success (list_every_namespace P s (\<lambda>ns. result_bind (list_secrets P s ns) (\<lambda>xs. Ok (map redact xs))))))"

definition admin_get_secret ::
  "('s, 'j, 'r) proxy_env \<Rightarrow> string \<Rightarrow> string \<Rightarrow> ('s, 'j, 'r, 'n) proxy_state \<Rightarrow> api_error + secret api_response" where
  "admin_get_secret E namespace name st =
     result_bind (api_get ''Secret not found'' (get_secret (pe_store E) (px_store st) namespace name))
       (\<lambda>r. Ok (r\<lparr>ar_data := map_option redact (ar_data r)\<rparr>))"

definition admin_put_secret ::
  "('s, 'j, 'r) proxy_env \<Rightarrow> ('s, 'j, 'n) propose \<Rightarrow> string \<times> datetime \<Rightarrow> string \<Rightarrow> string \<Rightarrow> secret \<Rightarrow>
   ('s, 'j, 'r, 'n) proxy_state \<Rightarrow> (api_error + secret api_response) \<times> ('s, 'j, 'r, 'n) proxy_state" where
  "admin_put_secret E propose stamp namespace name item st =
     (let x = item\<lparr>sec_name := name, sec_namespace := namespace\<rparr>
      in api_change E propose stamp (sd_secret (ps_serde (pe_store E))) AddSecret namespace (sec_name x) x (redact x) st)"

definition admin_delete_secret ::
  "('s, 'j, 'r) proxy_env \<Rightarrow> ('s, 'j, 'n) propose \<Rightarrow> string \<times> datetime \<Rightarrow> datetime \<Rightarrow> string \<Rightarrow> string \<Rightarrow>
   ('s, 'j, 'r, 'n) proxy_state \<Rightarrow> (api_error + unit api_response) \<times> ('s, 'j, 'r, 'n) proxy_state" where
  "admin_delete_secret E propose stamp now namespace name st =
     api_change E propose stamp (sd_secret (ps_serde (pe_store E))) DeleteSecret namespace name
       (secret_new now name namespace) () st"

section \<open>Collections and documents\<close>

definition admin_list_collections ::
  "('s, 'j, 'r) proxy_env \<Rightarrow> list_query \<Rightarrow> ('s, 'j, 'r, 'n) proxy_state \<Rightarrow> api_error + collection list api_response" where
  "admin_list_collections E query st =
     (let P = pe_store E; s = px_store st
      in api_list (case lq_namespace query of
           Some ns \<Rightarrow> list_collections P s ns
         | None \<Rightarrow> Ok (list_every_namespace P s (list_collections P s))))"

definition admin_get_collection ::
  "('s, 'j, 'r) proxy_env \<Rightarrow> string \<Rightarrow> string \<Rightarrow> ('s, 'j, 'r, 'n) proxy_state \<Rightarrow> api_error + collection api_response" where
  "admin_get_collection E namespace name st =
     api_get ''Collection not found'' (get_collection (pe_store E) (px_store st) namespace name)"

definition admin_put_collection ::
  "('s, 'j, 'r) proxy_env \<Rightarrow> ('s, 'j, 'n) propose \<Rightarrow> string \<times> datetime \<Rightarrow> string \<Rightarrow> string \<Rightarrow> collection \<Rightarrow>
   ('s, 'j, 'r, 'n) proxy_state \<Rightarrow> (api_error + collection api_response) \<times> ('s, 'j, 'r, 'n) proxy_state" where
  "admin_put_collection E propose stamp namespace name item st =
     (let x = item\<lparr>col_name := name, col_namespace := namespace\<rparr>
      in api_change E propose stamp (sd_collection (ps_serde (pe_store E))) AddCollection namespace (col_name x) x x st)"

definition admin_delete_collection ::
  "('s, 'j, 'r) proxy_env \<Rightarrow> ('s, 'j, 'n) propose \<Rightarrow> string \<times> datetime \<Rightarrow> string \<Rightarrow> string \<Rightarrow>
   ('s, 'j, 'r, 'n) proxy_state \<Rightarrow> (api_error + unit api_response) \<times> ('s, 'j, 'r, 'n) proxy_state" where
  "admin_delete_collection E propose stamp namespace name st =
     api_change E propose stamp (sd_collection (ps_serde (pe_store E))) DeleteCollection namespace name
       (collection_new name namespace) () st"

definition admin_list_documents ::
  "('s, 'j, 'r) proxy_env \<Rightarrow> list_query \<Rightarrow> ('s, 'j, 'r, 'n) proxy_state \<Rightarrow> api_error + 'j document list api_response" where
  "admin_list_documents E query st =
     (let namespace = (case lq_namespace query of Some ns \<Rightarrow> ns | None \<Rightarrow> ''default'')
      in case lq_collection query of
           None \<Rightarrow> Err (api_bad_request ''collection query parameter is required'')
         | Some collection \<Rightarrow> api_list (list_documents (pe_store E) (px_store st) namespace collection))"

definition admin_get_document ::
  "('s, 'j, 'r) proxy_env \<Rightarrow> string \<Rightarrow> string \<Rightarrow> string \<Rightarrow> ('s, 'j, 'r, 'n) proxy_state \<Rightarrow>
   api_error + 'j document api_response" where
  "admin_get_document E namespace collection docid st =
     api_get ''Document not found'' (get_document (pe_store E) (px_store st) namespace collection docid)"

definition admin_put_document ::
  "('s, 'j, 'r) proxy_env \<Rightarrow> ('s, 'j, 'n) propose \<Rightarrow> string \<times> datetime \<Rightarrow> string \<Rightarrow> string \<Rightarrow> string \<Rightarrow>
   'j document \<Rightarrow> ('s, 'j, 'r, 'n) proxy_state \<Rightarrow> (api_error + 'j document api_response) \<times> ('s, 'j, 'r, 'n) proxy_state" where
  "admin_put_document E propose stamp namespace collection docid item st =
     (let x = item\<lparr>doc_id := docid, doc_namespace := namespace, doc_collection := collection\<rparr>
      in api_change E propose stamp (sd_document (ps_serde (pe_store E))) AddDocument namespace (doc_id x) x x st)"

definition admin_delete_document ::
  "('s, 'j, 'r) proxy_env \<Rightarrow> ('s, 'j, 'n) propose \<Rightarrow> string \<times> datetime \<Rightarrow> datetime \<Rightarrow> string \<Rightarrow> string \<Rightarrow>
   string \<Rightarrow> ('s, 'j, 'r, 'n) proxy_state \<Rightarrow> (api_error + unit api_response) \<times> ('s, 'j, 'r, 'n) proxy_state" where
  "admin_delete_document E propose stamp now namespace collection docid st =
     api_change E propose stamp (sd_document (ps_serde (pe_store E))) DeleteDocument namespace docid
       (document_new (sd_null (ps_serde (pe_store E))) now docid namespace collection) () st"

definition admin_list_changelogs ::
  "('s, 'j, 'r) proxy_env \<Rightarrow> ('s, 'j, 'r, 'n) proxy_state \<Rightarrow> api_error + 'j changelog list api_response" where
  "admin_list_changelogs E st = api_list (list_changelogs (pe_store E) (px_store st))"

section \<open>Cluster\<close>

record cluster_status =
  cls_enabled :: bool
  cls_mode :: string
  cls_node_id :: "u64 option"
  cls_can_write :: bool
  cls_is_leader :: bool
  cls_leader_id :: "u64 option"
  cls_term :: "u64 option"
  cls_last_applied_log :: "u64 option"
  cls_commit_index :: "u64 option"
  cls_state :: string

record cluster_member_info =
  cmi_id :: u64
  cmi_addr :: string
  cmi_is_leader :: "bool option"

fun mode_str :: "cluster_mode \<Rightarrow> string" where
  "mode_str CM_Simple = ''simple''"
| "mode_str CM_Raft = ''raft''"
| "mode_str CM_Tempo = ''tempo''"

type_synonym ('s, 'j, 'r, 'f) clustered = "('s, 'j, 'r, ('s, 'j, 'f) cluster_manager) proxy_state"

definition api_cluster_status :: "('f, 'j) openraft \<Rightarrow> ('s, 'j, 'r, 'f) clustered \<Rightarrow> cluster_status api_response" where
  "api_cluster_status R st =
     (case px_cluster st of
        Some cluster \<Rightarrow>
          (let metrics = cluster_get_metrics R cluster;
               can_write = cluster_is_leader R cluster
           in api_success
                \<lparr>cls_enabled = True, cls_mode = mode_str (cluster_get_mode cluster), cls_node_id = Some (clm_id metrics),
                 cls_can_write = can_write, cls_is_leader = can_write, cls_leader_id = cluster_leader_id R cluster,
                 cls_term = clm_current_term metrics, cls_last_applied_log = clm_last_applied metrics,
                 cls_commit_index = clm_committed metrics, cls_state = clm_state metrics\<rparr>)
      | None \<Rightarrow>
          api_success
            \<lparr>cls_enabled = False, cls_mode = ''standalone'', cls_node_id = None, cls_can_write = True,
             cls_is_leader = True, cls_leader_id = None, cls_term = None, cls_last_applied_log = None,
             cls_commit_index = None, cls_state = ''standalone''\<rparr>)"

definition api_cluster_members ::
  "('f, 'j) openraft \<Rightarrow> ('s, 'j, 'r, 'f) clustered \<Rightarrow> cluster_member_info list api_response" where
  "api_cluster_members R st =
     (case px_cluster st of
        Some cluster \<Rightarrow>
          (let leader_id = cluster_leader_id R cluster
           in api_success
                (map (\<lambda>m. \<lparr>cmi_id = cmb_id m, cmi_addr = cmb_addr m, cmi_is_leader = Some (leader_id = Some (cmb_id m))\<rparr>)
                  (clm_members (cluster_get_metrics R cluster))))
      | None \<Rightarrow> api_success [])"

text \<open>The manager, if there is one and this node may change it.\<close>

definition writable_cluster ::
  "('f, 'j) openraft \<Rightarrow> ('s, 'j, 'r, 'f) clustered \<Rightarrow> api_error + ('s, 'j, 'f) cluster_manager" where
  "writable_cluster R st =
     (case px_cluster st of
        None \<Rightarrow> Err (api_bad_request ''Cluster mode is not enabled'')
      | Some cluster \<Rightarrow>
          if \<not> cluster_is_leader R cluster then Err (api_bad_request ''This node is not the leader'') else Ok cluster)"

definition api_cluster_add_member ::
  "('f, 'j) openraft \<Rightarrow> u64 \<Rightarrow> string \<Rightarrow> ('s, 'j, 'r, 'f) clustered \<Rightarrow>
   (api_error + cluster_member_info api_response) \<times> ('s, 'j, 'r, 'f) clustered" where
  "api_cluster_add_member R node_id addr st =
     (case writable_cluster R st of
        Err e \<Rightarrow> (Err e, st)
      | Ok cluster \<Rightarrow>
          (case cluster_add_node R node_id addr cluster of
             (r, cluster) \<Rightarrow>
               and_then (map_err (\<lambda>e. api_internal (''Failed to add node: '' @ e)) r, st\<lparr>px_cluster := Some cluster\<rparr>) (\<lambda>_ st.
                 (Ok (api_success \<lparr>cmi_id = node_id, cmi_addr = addr, cmi_is_leader = Some False\<rparr>), st))))"

definition api_cluster_remove_member ::
  "('f, 'j) openraft \<Rightarrow> u64 \<Rightarrow> ('s, 'j, 'r, 'f) clustered \<Rightarrow>
   (api_error + unit api_response) \<times> ('s, 'j, 'r, 'f) clustered" where
  "api_cluster_remove_member R node_id st =
     (case writable_cluster R st of
        Err e \<Rightarrow> (Err e, st)
      | Ok cluster \<Rightarrow>
          (case cluster_remove_node R node_id cluster of
             (r, cluster) \<Rightarrow>
               and_then (map_err (\<lambda>e. api_internal (''Failed to remove node: '' @ e)) r, st\<lparr>px_cluster := Some cluster\<rparr>) (\<lambda>_ st.
                 (Ok (api_success ()), st))))"

definition api_internal_replicate ::
  "('s, 'j, 'n) propose \<Rightarrow> 'j changelog \<Rightarrow> ('s, 'j, 'r, 'n) proxy_state \<Rightarrow>
   (api_error + unit api_response) \<times> ('s, 'j, 'r, 'n) proxy_state" where
  "api_internal_replicate propose changelog st =
     (case px_cluster st of
        None \<Rightarrow> (Err (api_bad_request ''Cluster mode is not enabled''), st)
      | Some cluster \<Rightarrow>
          (case propose changelog (cluster, px_store st) of
             (r, cluster, s) \<Rightarrow>
               (case r of
                  Ok response \<Rightarrow>
                    if cr_success response then Ok (api_success ())
                    else Err (api_internal (case cr_message response of
                                Some m \<Rightarrow> m | None \<Rightarrow> ''Failed to apply replicated change''))
                | Err e \<Rightarrow> Err (api_internal (''Raft propose failed: '' @ e)),
                st\<lparr>px_cluster := Some cluster, px_store := s\<rparr>)))"

text \<open>The three Raft messages: the operation of the engine, its request and its answer.\<close>

definition raft_rpc ::
  "string \<Rightarrow> ('f \<Rightarrow> 'q \<Rightarrow> (string + 'a) \<times> 'f) \<Rightarrow> 'q \<Rightarrow> ('s, 'j, 'r, 'f) clustered \<Rightarrow>
   (api_error + 'a) \<times> ('s, 'j, 'r, 'f) clustered" where
  "raft_rpc failed operation req st =
     (case px_cluster st of
        None \<Rightarrow> (Err (api_bad_request ''Cluster mode is not enabled''), st)
      | Some cluster \<Rightarrow>
          (case cluster of
             Manage_Tempo _ \<Rightarrow> (Err (api_bad_request ''Not in Raft mode''), st)
           | Manage_Raft N \<Rightarrow>
               (case operation (rf_raft N) req of
                  (r, raft) \<Rightarrow>
                    (map_err (\<lambda>e. api_internal (failed @ '': '' @ e)) r,
                     st\<lparr>px_cluster := Some (Manage_Raft (N\<lparr>rf_raft := raft\<rparr>))\<rparr>))))"

definition api_raft_vote ::
  "('f \<Rightarrow> 'q \<Rightarrow> (string + 'a) \<times> 'f) \<Rightarrow> 'q \<Rightarrow> ('s, 'j, 'r, 'f) clustered \<Rightarrow>
   (api_error + 'a) \<times> ('s, 'j, 'r, 'f) clustered" where
  "api_raft_vote operation req st = raft_rpc ''Vote failed'' operation req st"

definition api_raft_append_entries ::
  "('f \<Rightarrow> 'q \<Rightarrow> (string + 'a) \<times> 'f) \<Rightarrow> 'q \<Rightarrow> ('s, 'j, 'r, 'f) clustered \<Rightarrow>
   (api_error + 'a) \<times> ('s, 'j, 'r, 'f) clustered" where
  "api_raft_append_entries operation req st = raft_rpc ''Append entries failed'' operation req st"

definition api_raft_install_snapshot ::
  "('f \<Rightarrow> 'q \<Rightarrow> (string + 'a) \<times> 'f) \<Rightarrow> 'q \<Rightarrow> ('s, 'j, 'r, 'f) clustered \<Rightarrow>
   (api_error + 'a) \<times> ('s, 'j, 'r, 'f) clustered" where
  "api_raft_install_snapshot operation req st = raft_rpc ''Install snapshot failed'' operation req st"

definition api_tempo_message ::
  "'j tempo_request \<Rightarrow> ('s, 'j, 'r, 'f) clustered \<Rightarrow> (api_error + unit api_response) \<times> ('s, 'j, 'r, 'f) clustered" where
  "api_tempo_message req st =
     (case px_cluster st of
        None \<Rightarrow> (Err (api_bad_request ''Cluster mode is not enabled''), st)
      | Some cluster \<Rightarrow>
          (case cluster of
             Manage_Raft _ \<Rightarrow> (Err (api_bad_request ''Not in Tempo/Simple mode''), st)
           | Manage_Tempo N \<Rightarrow>
               (Ok (api_success ()),
                st\<lparr>px_cluster := Some (Manage_Tempo (handle_incoming_message (tq_from req) (tq_message req) N))\<rparr>)))"

section \<open>The route table\<close>

text \<open>
  Method, path and handler of every route, with the prefixes of the nested routers. \<open>{name}\<close> is
  axum's parameter: one non-empty segment.
\<close>

definition admin_table :: "(string \<times> string \<times> string) list" where
  "admin_table =
     [(''GET'', ''/'', ''root_handler''),
      (''GET'', ''/health'', ''health_handler''),
      (''GET'', ''/readyz'', ''readyz_handler''),
      (''GET'', ''/api/v1/namespace'', ''list_namespaces''),
      (''GET'', ''/api/v1/namespace/{name}'', ''get_namespace''),
      (''PUT'', ''/api/v1/namespace/{name}'', ''put_namespace''),
      (''DELETE'', ''/api/v1/namespace/{name}'', ''delete_namespace''),
      (''GET'', ''/api/v1/route'', ''list_routes''),
      (''GET'', ''/api/v1/route/{namespace}/{name}'', ''get_route''),
      (''PUT'', ''/api/v1/route/{namespace}/{name}'', ''put_route''),
      (''DELETE'', ''/api/v1/route/{namespace}/{name}'', ''delete_route''),
      (''GET'', ''/api/v1/service'', ''list_services''),
      (''GET'', ''/api/v1/service/{namespace}/{name}'', ''get_service''),
      (''PUT'', ''/api/v1/service/{namespace}/{name}'', ''put_service''),
      (''DELETE'', ''/api/v1/service/{namespace}/{name}'', ''delete_service''),
      (''GET'', ''/api/v1/module'', ''list_modules''),
      (''GET'', ''/api/v1/module/{namespace}/{name}'', ''get_module''),
      (''PUT'', ''/api/v1/module/{namespace}/{name}'', ''put_module''),
      (''DELETE'', ''/api/v1/module/{namespace}/{name}'', ''delete_module''),
      (''GET'', ''/api/v1/domain'', ''list_domains''),
      (''GET'', ''/api/v1/domain/{namespace}/{name}'', ''get_domain''),
      (''PUT'', ''/api/v1/domain/{namespace}/{name}'', ''put_domain''),
      (''DELETE'', ''/api/v1/domain/{namespace}/{name}'', ''delete_domain''),
      (''GET'', ''/api/v1/secret'', ''list_secrets''),
      (''GET'', ''/api/v1/secret/{namespace}/{name}'', ''get_secret''),
      (''PUT'', ''/api/v1/secret/{namespace}/{name}'', ''put_secret''),
      (''DELETE'', ''/api/v1/secret/{namespace}/{name}'', ''delete_secret''),
      (''GET'', ''/api/v1/collection'', ''list_collections''),
      (''GET'', ''/api/v1/collection/{namespace}/{name}'', ''get_collection''),
      (''PUT'', ''/api/v1/collection/{namespace}/{name}'', ''put_collection''),
      (''DELETE'', ''/api/v1/collection/{namespace}/{name}'', ''delete_collection''),
      (''GET'', ''/api/v1/document'', ''list_documents''),
      (''GET'', ''/api/v1/document/{namespace}/{collection}/{id}'', ''get_document''),
      (''PUT'', ''/api/v1/document/{namespace}/{collection}/{id}'', ''put_document''),
      (''DELETE'', ''/api/v1/document/{namespace}/{collection}/{id}'', ''delete_document''),
      (''GET'', ''/api/v1/changelog'', ''list_changelogs''),
      (''GET'', ''/api/v1/cluster/status'', ''cluster_status''),
      (''GET'', ''/api/v1/cluster/members'', ''cluster_members''),
      (''PUT'', ''/api/v1/cluster/members/{node_id}'', ''cluster_add_member''),
      (''DELETE'', ''/api/v1/cluster/members/{node_id}'', ''cluster_remove_member''),
      (''POST'', ''/internal/replicate'', ''internal_replicate''),
      (''POST'', ''/raft/vote'', ''raft_vote''),
      (''POST'', ''/raft/append'', ''raft_append_entries''),
      (''POST'', ''/raft/snapshot'', ''raft_install_snapshot''),
      (''POST'', ''/tempo/message'', ''tempo_message'')]"

text \<open>
  axum matches a request against the table: \<open>matches\<close> is its match of a pattern and a path. As
  axum documents it, a segment in braces takes one segment of the path that is not empty, and any
  other segment takes itself (\<open>axum_routing_ok\<close>).
\<close>

definition admin_dispatch :: "(string \<Rightarrow> string \<Rightarrow> bool) \<Rightarrow> string \<Rightarrow> string \<Rightarrow> string option" where
  "admin_dispatch matches meth path =
     map_option (\<lambda>(_, _, handler). handler)
       (find (\<lambda>(m, pattern, _). m = meth \<and> matches pattern path) admin_table)"

definition segment_matches :: "string \<Rightarrow> string \<Rightarrow> bool" where
  "segment_matches pattern seg = (if starts_with pattern ''{'' then seg \<noteq> [] else pattern = seg)"

definition path_matches :: "string \<Rightarrow> string \<Rightarrow> bool" where
  "path_matches pattern path =
     list_all2 segment_matches (split_on (CHR ''/'') pattern) (split_on (CHR ''/'') path)"

definition axum_routing_ok :: "(string \<Rightarrow> string \<Rightarrow> bool) \<Rightarrow> bool" where
  "axum_routing_ok matches \<longleftrightarrow>
     (\<forall>row \<in> set admin_table. \<forall>path. matches (fst (snd row)) path = path_matches (fst (snd row)) path)"

end
