(* ===== verification/Proxy_Start.thy ===== *)
theory Proxy_Start
  imports Proxy_Changes
begin

text \<open>
  Restart and failure of the proxy: \<open>restore_from_changelogs\<close> replays the history the store
  holds, a change that fails in standalone mode is nevertheless stored, a response of the cluster
  is not looked at, and a deleted namespace is still chosen by its domains.
\<close>

section \<open>The store along a run\<close>

lemma px_after_frame [simp]:
  "px_store (snd (px_after E cl st)) = px_store st"
  "px_config (snd (px_after E cl st)) = px_config st"
  "px_cluster (snd (px_after E cl st)) = px_cluster st"
proof -
  have "px_store (snd (px_after E cl st)) = px_store st \<and> px_config (snd (px_after E cl st)) = px_config st \<and>
      px_cluster (snd (px_after E cl st)) = px_cluster st"
  proof (cases "cl_cmd cl = AddModule")
    case True
    show ?thesis
    proof (cases "from_value (sd_module (ps_serde (pe_store E))) (cl_item cl)")
      case (Inr m)
      then show ?thesis
        using px_add_module_frame [of E m st]
        by (cases "px_add_module E m st"; cases "fst (px_add_module E m st)") (auto simp: px_after_def True)
    qed (simp add: px_after_def True)
  next
    case False
    then show ?thesis by (cases "cl_cmd cl") (simp_all add: px_after_def)
  qed
  then show "px_store (snd (px_after E cl st)) = px_store st" "px_config (snd (px_after E cl st)) = px_config st"
    "px_cluster (snd (px_after E cl st)) = px_cluster st" by simp_all
qed

lemma process_changelog_frame:
  "px_store (snd (process_changelog E cl st)) = snd (store_change (pe_store E) (px_store st) cl)"
  "px_config (snd (process_changelog E cl st)) = px_config st"
  "px_cluster (snd (process_changelog E cl st)) = px_cluster st"
  using process_changelog_split [of E cl st] by (auto simp: split_change_def Let_def split: if_splits)

definition run_changes ::
  "('s, 'j, 'r) proxy_env \<Rightarrow> ('j changelog \<Rightarrow> 'n \<times> 's \<Rightarrow> (string + 'resp) \<times> ('n \<times> 's)) \<Rightarrow> 'j changelog list \<Rightarrow>
   ('s, 'j, 'r, 'n) proxy_state \<Rightarrow> ('s, 'j, 'r, 'n) proxy_state" where
  "run_changes E propose cls st = fold (\<lambda>cl st. snd (apply_changelog E propose cl st)) cls st"

context kv_storage
begin

lemma list_typed_keys:
  assumes "ps_storage P = ops" and "ok s" and "t \<in> tables" and "list_typed c P s t p = Ok xs"
    and "table_wf c key (content s t)"
  shows "distinct (map key xs)"
proof -
  from assms(1,4) obtain items where items: "st_list ops s t p = Ok items"
    and m: "map (\<lambda>(_, data). map_err SE_Serialization (from_slice c data)) items = map Ok xs"
    by (auto simp: list_typed_def result_bind_eq_Ok collect_results_eq_Ok)
  have set: "distinct (map fst items)" "set items = kv_entries (content s) t p"
    using list_Ok [OF assms(2,3) items] by simp_all
  have "map key xs = map fst items"
  proof (rule nth_equalityI)
    show l: "length (map key xs) = length (map fst items)" using m by (metis length_map)
    fix i
    assume i: "i < length (map key xs)"
    have "from_slice c (snd (items ! i)) = Ok (xs ! i)"
      using arg_cong [OF m, of "\<lambda>ys. ys ! i"] i l by (simp add: case_prod_unfold)
    moreover have "content s t (fst (items ! i)) = Some (snd (items ! i))"
      using set(2) i l nth_mem [of i items] by (auto simp: kv_entries_def)
    ultimately show "map key xs ! i = map fst items ! i"
      using assms(5) i l by (force simp: table_wf_def)
  qed
  with set(1) show ?thesis by simp
qed

end

text \<open>A list of distinct elements sorted by a key that increases along another list of the same set.\<close>

lemma sorted_key_unique:
  assumes "set xs = set ys" and "distinct xs" and "sorted_wrt (<) (map (f :: 'a \<Rightarrow> 'k :: linorder) ys)"
  shows "sort_key f xs = ys"
proof -
  have inj: "inj_on f (set ys)" using assms(3) by (metis distinct_map strict_sorted_iff)
  have "map f (sort_key f xs) = map f ys"
  proof (rule sorted_distinct_set_unique)
    show "sorted (map f (sort_key f xs))" by simp
    show "distinct (map f (sort_key f xs))" using assms(1,2) inj by (simp add: distinct_map)
    show "sorted (map f ys)" "distinct (map f ys)" using assms(3) by (simp_all add: strict_sorted_iff)
    show "set (map f (sort_key f xs)) = set (map f ys)" using assms(1) by simp
  qed
  then show ?thesis
    using inj assms(1) by (intro map_inj_on [of f]) simp_all
qed

context total_storage
begin

lemma store_change_effect:
  assumes "ps_storage P = ops" and "ok s" and "resource_tables \<subseteq> tables"
  shows "ok (snd (store_change P s cl)) \<and>
    content (snd (store_change P s cl)) = apply_writes (writes_of (ps_serde P) [cl]) (content s)"
  using store_change_content(1) [OF assms] store_change_total(2) [OF assms, of cl]
  by (auto split: sum.splits)

lemma writes_of_Cons: "writes_of S (cl # cls) = writes_of S [cl] @ writes_of S cls"
  using writes_of_append [of S "[cl]" cls] by simp

lemma replay_content:
  assumes "ps_storage (pe_store E) = ops" and "resource_tables \<subseteq> tables"
  shows "ok (px_store st) \<Longrightarrow>
    ok (px_store (fold (\<lambda>cl st. snd (process_changelog E cl st)) cls st)) \<and>
    content (px_store (fold (\<lambda>cl st. snd (process_changelog E cl st)) cls st)) =
      apply_writes (writes_of (ps_serde (pe_store E)) cls) (content (px_store st)) \<and>
    px_config (fold (\<lambda>cl st. snd (process_changelog E cl st)) cls st) = px_config st"
proof (induction cls arbitrary: st)
  case (Cons cl cls)
  have s: "ok (px_store (snd (process_changelog E cl st)))"
    "content (px_store (snd (process_changelog E cl st))) =
      apply_writes (writes_of (ps_serde (pe_store E)) [cl]) (content (px_store st))"
    using store_change_effect [OF assms(1) Cons.prems assms(2), of cl] by (simp_all add: process_changelog_frame)
  from Cons.IH [OF s(1)] show ?case
    by (simp add: s(2) process_changelog_frame(2) writes_of_Cons apply_writes_append)
qed simp

text \<open>
  Along a standalone run the change log table gets the change logs and every other table the
  writes, whatever the results.
\<close>

lemma apply_content:
  assumes "ps_storage (pe_store E) = ops" and "resource_tables \<subseteq> tables" and "TBL_CHANGELOGS \<in> tables"
    and "serde_ok (ps_serde (pe_store E))" and "px_cluster st = None" and "ok (px_store st)"
  shows "\<exists>b. from_slice (sd_changelog (ps_serde (pe_store E))) b = Ok cl \<and>
    ok (px_store (snd (apply_changelog E propose cl st))) \<and>
    content (px_store (snd (apply_changelog E propose cl st))) =
      apply_writes (KV_Put TBL_CHANGELOGS (cl_id cl) b # writes_of (ps_serde (pe_store E)) [cl]) (content (px_store st)) \<and>
    px_cluster (snd (apply_changelog E propose cl st)) = None"
proof -
  obtain b where b: "to_vec (sd_changelog (ps_serde (pe_store E))) cl = Ok b"
    "from_slice (sd_changelog (ps_serde (pe_store E))) b = Ok cl"
    by (rule codec_ok_vec [OF serde_ok_changelog [OF assms(4)] TrueI])
  obtain r s where a: "append_changelog (pe_store E) (px_store st) cl = (r, s)" by (rule prod.exhaust)
  have s: "r = Ok ()" "content s = kv_put TBL_CHANGELOGS (cl_id cl) b (content (px_store st))"
    using set_typed_eq [OF assms(1,6,3) b(1), of "cl_id cl"] a by (simp_all add: append_changelog_def)
  have ok: "ok s" using set_typed_ok [OF assms(1,6,3), of "sd_changelog (ps_serde (pe_store E))" "cl_id cl" cl] a
    by (simp add: append_changelog_def)
  define q where "q = process_changelog E cl (with_store st s)"
  have eq: "apply_changelog E propose cl st =
      and_then q (\<lambda>_ st. (Ok (), st\<lparr>px_change_hash := px_change_hash st + 1\<rparr>))"
    by (simp add: apply_standalone [OF assms(5)] a s(1) q_def)
  have st: "px_store (snd (apply_changelog E propose cl st)) = px_store (snd q)"
    "px_cluster (snd (apply_changelog E propose cl st)) = px_cluster (snd q)"
    unfolding eq by (cases q; cases "fst q"; simp)+
  have "px_cluster (snd q) = None" by (simp add: q_def process_changelog_frame assms(5))
  moreover have "ok (px_store (snd q))"
    "content (px_store (snd q)) = apply_writes (writes_of (ps_serde (pe_store E)) [cl]) (content s)"
    using store_change_effect [OF assms(1) ok assms(2), of cl] by (simp_all add: q_def process_changelog_frame)
  ultimately show ?thesis using b(2) st s(2) by (intro exI [of _ b]) simp
qed

end

section \<open>The log a run leaves\<close>

text \<open>The change log table after a run: the change logs of the run at their ids, nothing else.\<close>

definition changelog_table :: "'j serde \<Rightarrow> 'j changelog list \<Rightarrow> (string \<rightharpoonup> bytes) \<Rightarrow> bool" where
  "changelog_table S cls m \<longleftrightarrow>
     dom m = cl_id ` set cls \<and> (\<forall>cl \<in> set cls. \<exists>b. m (cl_id cl) = Some b \<and> from_slice (sd_changelog S) b = Ok cl)"

definition payload_ok :: "('s, 'j, 'r) proxy_env \<Rightarrow> 'j changelog \<Rightarrow> bool" where
  "payload_ok E cl \<longleftrightarrow>
     (cl_cmd cl = AddModule \<longrightarrow>
        (\<forall>m. from_value (sd_module (ps_serde (pe_store E))) (cl_item cl) = Ok m \<longrightarrow>
           is_ok (decode_payload (pe_base64 E) m)))"

lemma changelog_table_wf: "changelog_table S cls m \<Longrightarrow> table_wf (sd_changelog S) cl_id m"
  unfolding table_wf_def
proof (intro allI impI)
  fix k b
  assume t: "changelog_table S cls m" and k: "m k = Some b"
  then obtain cl where cl: "cl \<in> set cls" "k = cl_id cl" unfolding changelog_table_def by blast
  with t k show "\<exists>x. from_slice (sd_changelog S) b = Ok x \<and> cl_id x = k" by (auto simp: changelog_table_def)
qed

lemma changelog_table_stored:
  assumes "changelog_table S cls m"
  shows "{x. \<exists>k b. m k = Some b \<and> from_slice (sd_changelog S) b = Ok x} = set cls"
proof (intro set_eqI iffI)
  fix x
  assume "x \<in> {x. \<exists>k b. m k = Some b \<and> from_slice (sd_changelog S) b = Ok x}"
  then obtain k b where k: "m k = Some b" "from_slice (sd_changelog S) b = Ok x" by blast
  with assms obtain cl where cl: "cl \<in> set cls" "k = cl_id cl" unfolding changelog_table_def by blast
  with assms obtain b' where "m k = Some b'" "from_slice (sd_changelog S) b' = Ok cl"
    unfolding changelog_table_def by blast
  with k cl(1) show "x \<in> set cls" by simp
next
  fix x
  assume "x \<in> set cls"
  with assms show "x \<in> {x. \<exists>k b. m k = Some b \<and> from_slice (sd_changelog S) b = Ok x}"
    unfolding changelog_table_def by blast
qed

lemma changelog_table_snoc:
  assumes "changelog_table S cls m" and "cl_id cl \<notin> cl_id ` set cls" and "from_slice (sd_changelog S) b = Ok cl"
  shows "changelog_table S (cls @ [cl]) (m(cl_id cl \<mapsto> b))"
proof -
  have "cl_id x \<noteq> cl_id cl" if "x \<in> set cls" for x using assms(2) that by (metis imageI)
  with assms(1,3) show ?thesis by (simp add: changelog_table_def)
qed

lemma writes_of_tables: "w \<in> set (writes_of S cls) \<Longrightarrow> write_table w \<in> resource_tables"
  by (induction cls) (auto split: sum.splits dest: change_effect_table [OF sym])

lemma changelogs_not_resource: "TBL_CHANGELOGS \<notin> resource_tables"
  by (simp add: resource_tables_def tbl_defs)

lemma resource_writes_changelogs: "apply_writes (writes_of S cls) m TBL_CHANGELOGS = m TBL_CHANGELOGS"
proof
  fix k
  have "(TBL_CHANGELOGS, k) \<notin> write_slots (writes_of S cls)"
    using writes_of_tables [of _ S cls] changelogs_not_resource unfolding write_slots_def by force
  then show "apply_writes (writes_of S cls) m TBL_CHANGELOGS k = m TBL_CHANGELOGS k" by (rule apply_writes_other)
qed

text \<open>Only adding a module fails with a module error.\<close>

definition no_module_error :: "proxy_error + 'a \<Rightarrow> bool" where
  "no_module_error r \<longleftrightarrow> (case r of Err (PE_Module _) \<Rightarrow> False | _ \<Rightarrow> True)"

lemma no_module_error_simps [simp]:
  "no_module_error (Ok x)" "no_module_error (map_err px_storage_error r)" "no_module_error (Err (PE_NotFound s))"
  by (simp_all add: no_module_error_def px_storage_error_def map_err_def split: sum.split)

lemma no_module_error_bind:
  "no_module_error r \<Longrightarrow> (\<And>x. no_module_error (f x)) \<Longrightarrow> no_module_error (result_bind r f)"
  by (cases r) (simp_all add: no_module_error_def)

lemma no_module_error_collect: "\<forall>r \<in> set rs. no_module_error r \<Longrightarrow> no_module_error (collect_results rs)"
  by (induction rs rule: collect_results.induct) (auto simp: no_module_error_bind, simp add: no_module_error_def)

lemma no_module_error_router: "no_module_error (fst (rebuild_router E ns st))"
proof -
  have "no_module_error (compile_route E s namespace n r)" for s namespace n r
    unfolding compile_route_def
    by (intro no_module_error_bind no_module_error_collect) (auto split: option.split)
  then have "no_module_error (compute_router E s namespace)" for s namespace
    unfolding compute_router_def
    by (auto intro!: no_module_error_bind no_module_error_collect split: option.split)
  from this [of "px_store st" ns] show ?thesis
    by (auto simp: rebuild_router_def no_module_error_def split: sum.splits)
qed

lemma no_module_error_domains: "no_module_error (fst (rebuild_domains E st))"
proof -
  have "no_module_error (resolve_domains E s ds)" for s ds
    by (induction ds) (auto intro!: no_module_error_bind)
  then have "no_module_error (compute_domains E s)" for s
    unfolding compute_domains_def by (auto intro!: no_module_error_bind)
  from this [of "px_store st"] show ?thesis
    by (auto simp: rebuild_domains_def no_module_error_def split: sum.splits)
qed

lemma px_after_no_module_error:
  assumes "payload_ok E cl"
  shows "no_module_error (fst (px_after E cl st))"
proof (cases "cl_cmd cl = AddModule")
  case True
  show ?thesis
  proof (cases "from_value (sd_module (ps_serde (pe_store E))) (cl_item cl)")
    case (Inr m)
    with assms True obtain src where "decode_payload (pe_base64 E) m = Ok src"
      by (cases "decode_payload (pe_base64 E) m") (auto simp: payload_ok_def)
    then show ?thesis
      by (simp add: px_after_def True Inr px_add_module_def executor_get_after_add no_module_error_router)
  qed (simp add: px_after_def True)
next
  case False
  then show ?thesis
    by (cases "cl_cmd cl") (simp_all add: px_after_def no_module_error_router no_module_error_domains)
qed

lemma process_no_module_error:
  assumes "payload_ok E cl"
  shows "no_module_error (fst (process_changelog E cl st))"
proof (cases "is_ok (fst (store_change (pe_store E) (px_store st) cl))")
  case True
  then show ?thesis
    using process_changelog_split [of E cl st] px_after_no_module_error [OF assms]
    by (simp add: split_change_def Let_def)
next
  case False
  then show ?thesis
    using process_changelog_split [of E cl st]
    by (auto simp: split_change_def Let_def no_module_error_def split: proxy_error.split)
qed

lemma no_module_errorD: "no_module_error r \<Longrightarrow> r \<noteq> Err (PE_Module e)"
  by (auto simp: no_module_error_def)

lemma apply_no_module_error:
  assumes "payload_ok E cl" and "px_cluster st = None"
  shows "no_module_error (fst (apply_changelog E propose cl st))"
proof -
  obtain r s where a: "append_changelog (pe_store E) (px_store st) cl = (r, s)" by (rule prod.exhaust)
  show ?thesis
  proof (cases r)
    case (Inl e)
    then show ?thesis by (simp add: apply_standalone [OF assms(2)] a no_module_error_def px_storage_error_def)
  next
    case (Inr u)
    then show ?thesis
      using process_no_module_error [OF assms(1), of "with_store st s"]
      by (cases "process_changelog E cl (with_store st s)"; cases "fst (process_changelog E cl (with_store st s))")
        (auto simp: apply_standalone [OF assms(2)] a no_module_error_def)
  qed
qed

section \<open>A standalone run and the replay of its log\<close>

text \<open>Change logs a run may apply: their items fit their namespaces and module payloads decode.\<close>

definition run_wf :: "('s, 'j, 'r) proxy_env \<Rightarrow> 'j changelog list \<Rightarrow> bool" where
  "run_wf E cls \<longleftrightarrow> (\<forall>cl \<in> set cls. changelog_wf (ps_serde (pe_store E)) cl \<and> payload_ok E cl)"

lemma run_changes_snoc:
  "run_changes E propose (cls @ [cl]) st = snd (apply_changelog E propose cl (run_changes E propose cls st))"
  by (simp add: run_changes_def)

text \<open>What follows the replay: the default namespace, if it is missing and not disabled.\<close>

definition ensure_default ::
  "('s, 'j, 'r) proxy_env \<Rightarrow> ('s, 'j, 'r, 'n) proxy_state \<Rightarrow> (proxy_error + unit) \<times> ('s, 'j, 'r, 'n) proxy_state" where
  "ensure_default E st =
     (if \<not> cfg_disable_default_namespace (px_config st) \<and>
         (case get_namespace (pe_store E) (px_store st) ''default'' of Ok (Some _) \<Rightarrow> False | _ \<Rightarrow> True)
      then
        (case set_namespace (pe_store E) (px_store st) default_namespace of
           (r, s) \<Rightarrow>
             and_then (map_err px_storage_error r, st\<lparr>px_store := s\<rparr>) (\<lambda>_ st.
               (Ok (), snd (rebuild_router E ''default'' st))))
      else (Ok (), st))"

lemma restore_eq:
  assumes "list_changelogs (pe_store E) (px_store st) = Ok xs"
  shows "restore_from_changelogs E st =
    and_then (ensure_default E (fold (\<lambda>cl st. snd (process_changelog E cl st)) (sort_key cl_timestamp xs) st))
      (\<lambda>_ st. (Ok (), st\<lparr>px_ready := True\<rparr>))"
  by (simp add: restore_from_changelogs_def assms ensure_default_def Let_def)

context total_storage
begin

lemma run_inv:
  assumes "ps_storage (pe_store E) = ops" and "resource_tables \<subseteq> tables" and "TBL_CHANGELOGS \<in> tables"
    and "serde_ok (ps_serde (pe_store E))" and "px_cluster st = None" and "px_inv E ok content st"
  shows "run_wf E cls \<Longrightarrow>
    px_cluster (run_changes E propose cls st) = None \<and> px_inv E ok content (run_changes E propose cls st)"
proof (induction cls rule: rev_induct)
  case (snoc cl cls)
  let ?st = "run_changes E propose cls st"
  have ih: "px_cluster ?st = None" "px_inv E ok content ?st" and wf: "changelog_wf (ps_serde (pe_store E)) cl" "payload_ok E cl"
    using snoc by (auto simp: run_wf_def)
  have "ok (px_store ?st)" using ih(2) by (simp add: px_inv_def)
  from apply_content [OF assms(1-4) ih(1) this, of cl propose]
  have "px_cluster (snd (apply_changelog E propose cl ?st)) = None" by blast
  moreover have "px_inv E ok content (snd (apply_changelog E propose cl ?st))"
    by (rule apply_changelog_inv [OF assms(1-4) wf(1) ih])
      (rule no_module_errorD, rule apply_no_module_error [OF wf(2) ih(1)])
  ultimately show ?case by (simp add: run_changes_snoc)
qed (use assms in \<open>simp add: run_changes_def\<close>)

lemma run_content:
  assumes "ps_storage (pe_store E) = ops" and "resource_tables \<subseteq> tables" and "TBL_CHANGELOGS \<in> tables"
    and "serde_ok (ps_serde (pe_store E))" and "px_cluster st = None" and "px_inv E ok content st"
    and "content (px_store st) TBL_CHANGELOGS = Map.empty"
  shows "run_wf E cls \<Longrightarrow> distinct (map cl_id cls) \<Longrightarrow>
    changelog_table (ps_serde (pe_store E)) cls (content (px_store (run_changes E propose cls st)) TBL_CHANGELOGS) \<and>
    (\<forall>t. t \<noteq> TBL_CHANGELOGS \<longrightarrow>
       content (px_store (run_changes E propose cls st)) t =
         apply_writes (writes_of (ps_serde (pe_store E)) cls) (content (px_store st)) t)"
proof (induction cls rule: rev_induct)
  case Nil
  then show ?case by (simp add: run_changes_def changelog_table_def assms(7))
next
  case (snoc cl cls)
  let ?S = "ps_serde (pe_store E)" and ?st = "run_changes E propose cls st"
  let ?m = "content (px_store ?st)" and ?m' = "content (px_store (run_changes E propose (cls @ [cl]) st))"
  have wf: "run_wf E cls" using snoc.prems(1) by (simp add: run_wf_def)
  have ih: "changelog_table ?S cls (?m TBL_CHANGELOGS)"
    "\<And>t. t \<noteq> TBL_CHANGELOGS \<Longrightarrow> ?m t = apply_writes (writes_of ?S cls) (content (px_store st)) t"
    using snoc.IH [OF wf] snoc.prems(2) by simp_all
  have inv: "px_cluster ?st = None" "ok (px_store ?st)"
    using run_inv [OF assms(1-6) wf, of propose] by (simp_all add: px_inv_def)
  obtain b where b: "from_slice (sd_changelog ?S) b = Ok cl"
    and m': "?m' = apply_writes (writes_of ?S [cl]) (kv_put TBL_CHANGELOGS (cl_id cl) b ?m)"
    using apply_content [OF assms(1-4) inv, of cl propose] by (auto simp: run_changes_snoc)
  have "changelog_table ?S (cls @ [cl]) (?m' TBL_CHANGELOGS)"
    using changelog_table_snoc [OF ih(1) _ b] snoc.prems(2)
    unfolding m' resource_writes_changelogs kv_put_def by (simp add: fun_upd_def)
  moreover have "?m' t = apply_writes (writes_of ?S (cls @ [cl])) (content (px_store st)) t"
    if "t \<noteq> TBL_CHANGELOGS" for t
  proof
    fix k
    have "kv_put TBL_CHANGELOGS (cl_id cl) b ?m t k = apply_writes (writes_of ?S cls) (content (px_store st)) t k"
      using that ih(2) by (simp add: kv_put_def)
    then show "?m' t k = apply_writes (writes_of ?S (cls @ [cl])) (content (px_store st)) t k"
      unfolding m' writes_of_append apply_writes_append by (intro apply_writes_cong disjI2)
  qed
  ultimately show ?case by blast
qed

lemma replay_inv:
  assumes "ps_storage (pe_store E) = ops" and "resource_tables \<subseteq> tables" and "serde_ok (ps_serde (pe_store E))"
  shows "run_wf E cls \<Longrightarrow> px_inv E ok content st \<Longrightarrow>
    px_inv E ok content (fold (\<lambda>cl st. snd (process_changelog E cl st)) cls st)"
proof (induction cls arbitrary: st)
  case (Cons cl cls)
  then have wf: "changelog_wf (ps_serde (pe_store E)) cl" "payload_ok E cl" "run_wf E cls" by (simp_all add: run_wf_def)
  have "px_inv E ok content (snd (process_changelog E cl st))"
    by (rule process_changelog_inv [OF assms(1,2,3) wf(1) Cons.prems(2)])
      (rule no_module_errorD, rule process_no_module_error [OF wf(2)])
  from Cons.IH [OF wf(3) this] show ?case by simp
qed simp

text \<open>A log is listed, and sorted by its times it is the run.\<close>

lemma list_changelogs_table:
  assumes "ps_storage (pe_store E) = ops" and "TBL_CHANGELOGS \<in> tables" and "ok s"
    and "changelog_table (ps_serde (pe_store E)) cls (content s TBL_CHANGELOGS)"
    and "sorted_wrt (<) (map cl_timestamp cls)"
  obtains xs where "list_changelogs (pe_store E) s = Ok xs" and "sort_key cl_timestamp xs = cls"
proof -
  let ?c = "sd_changelog (ps_serde (pe_store E))"
  note wf = changelog_table_wf [OF assms(4)]
  have "is_ok (list_typed ?c (pe_store E) s TBL_CHANGELOGS '''')"
    by (rule list_typed_total [OF assms(1,3,2)]) (use wf in \<open>force simp: table_wf_def\<close>)
  then obtain xs where xs: "list_typed ?c (pe_store E) s TBL_CHANGELOGS '''' = Ok xs"
    by (cases "list_typed ?c (pe_store E) s TBL_CHANGELOGS ''''") auto
  have "set xs = set cls"
    using list_typed_Ok(1) [OF assms(1,3,2) xs] changelog_table_stored [OF assms(4)] by simp
  moreover have "distinct xs"
    using list_typed_keys [OF assms(1,3,2) xs wf] by (simp add: distinct_map)
  ultimately have "sort_key cl_timestamp xs = cls" by (rule sorted_key_unique [OF _ _ assms(5)])
  with xs that show ?thesis by (simp add: list_changelogs_def)
qed

lemma ensure_default_spec:
  assumes "ps_storage (pe_store E) = ops" and "resource_tables \<subseteq> tables" and "serde_ok (ps_serde (pe_store E))"
    and "px_inv E ok content st"
  shows "\<exists>st'. ensure_default E st = (Ok (), st') \<and> px_inv E ok content st' \<and> px_config st' = px_config st \<and>
    (\<forall>t k. (t, k) \<noteq> (TBL_NAMESPACES, ''default'') \<or> content (px_store st) t k \<noteq> None \<longrightarrow>
       content (px_store st') t k = content (px_store st) t k) \<and>
    (if cfg_disable_default_namespace (px_config st) then px_store st' = px_store st
     else content (px_store st') TBL_NAMESPACES ''default'' \<noteq> None)"
proof -
  let ?P = "pe_store E" and ?m = "content (px_store st)"
  let ?S = "ps_serde ?P"
  have t: "TBL_NAMESPACES \<in> tables" using assms(2) by (auto simp: resource_tables_def)
  have inv: "ok (px_store st)" "resource_wf ?S ?m" "coherent E ?m (px_routers st)" using assms(4) by (simp_all add: px_inv_def)
  have get: "get_namespace ?P (px_store st) ''default'' = Ok (entry_of (sd_namespace ?S) (?m TBL_NAMESPACES) ''default'')"
    using inv(2) read_entry_wf [of "sd_namespace ?S" ns_name "?m TBL_NAMESPACES" "''default''"]
    by (simp add: get_namespace_def get_typed_eq [OF assms(1) inv(1) t] resource_wf_def)
  have entry: "entry_of (sd_namespace ?S) (?m TBL_NAMESPACES) ''default'' = None \<longleftrightarrow> ?m TBL_NAMESPACES ''default'' = None"
  proof (cases "?m TBL_NAMESPACES ''default''")
    case (Some b)
    moreover have "table_wf (sd_namespace ?S) ns_name (?m TBL_NAMESPACES)" using inv(2) by (simp add: resource_wf_def)
    ultimately obtain x where "from_slice (sd_namespace ?S) b = Ok x" by (auto simp: table_wf_def)
    with Some show ?thesis by (simp add: entry_of_def)
  qed (simp add: entry_of_def)
  show ?thesis
  proof (cases "\<not> cfg_disable_default_namespace (px_config st) \<and> ?m TBL_NAMESPACES ''default'' = None")
    case False
    then have "ensure_default E st = (Ok (), st)"
      using entry by (auto simp: ensure_default_def get split: option.split)
    with False assms(4) show ?thesis by auto
  next
    case True
    obtain b where b: "to_vec (sd_namespace ?S) default_namespace = Ok b" "from_slice (sd_namespace ?S) b = Ok default_namespace"
      by (rule codec_ok_vec [OF serde_okD(1) [OF assms(3)] TrueI])
    obtain r s where s: "set_namespace ?P (px_store st) default_namespace = (r, s)" by (rule prod.exhaust)
    note w = set_typed_eq [OF assms(1) inv(1) t b(1), of "''default''"]
    have r: "r = Ok ()" "content s = apply_write (KV_Put TBL_NAMESPACES ''default'' b) ?m"
      using w s by (simp_all add: set_namespace_def default_namespace_def)
    have ok: "ok s" using set_typed_ok [OF assms(1) inv(1) t, of "sd_namespace ?S" "''default''" default_namespace] s
      by (simp add: set_namespace_def default_namespace_def)
    have "table_wf (sd_namespace ?S) ns_name ((?m TBL_NAMESPACES)(ns_name default_namespace \<mapsto> b))"
      by (rule table_wf_put [OF _ b(2)]) (use inv(2) in \<open>simp add: resource_wf_def\<close>)
    then have tn: "table_wf (sd_namespace ?S) ns_name (content s TBL_NAMESPACES)"
      by (simp add: r(2) kv_put_def default_namespace_def)
    have "TBL_NAMESPACES \<notin> {TBL_ROUTES, TBL_SERVICES, TBL_MODULES}" by (simp add: tbl_defs)
    then have other: "content s TBL_ROUTES = ?m TBL_ROUTES" "content s TBL_SERVICES = ?m TBL_SERVICES"
      "content s TBL_MODULES = ?m TBL_MODULES" by (auto simp: r(2) kv_put_def)
    have wf: "resource_wf ?S (content s)"
      using inv(2) tn unfolding resource_wf_def other by blast
    have coh: "coherent E (content s) (px_routers st)"
      unfolding r(2) by (rule coherent_write_namespace [OF inv(3)]) simp_all
    let ?st' = "snd (rebuild_router E ''default'' (with_store st s))"
    have "coherent_but E (content s) ''default'' (px_routers st)"
      using coh unfolding coherent_but_def coherent_def by blast
    then have "coherent E (content s) (px_routers ?st')"
      using rebuild_coherent [OF assms(1) _ assms(2), of "with_store st s" "''default''"] ok wf by simp
    then have "px_inv E ok content ?st'" using ok wf by (simp add: px_inv_def)
    moreover have "ensure_default E st = (Ok (), ?st')"
      using True entry by (simp add: ensure_default_def get s r(1))
    ultimately show ?thesis using True r(2) by (intro exI [of _ ?st']) (auto simp: kv_put_apply)
  qed
qed

end

section \<open>Properties\<close>

text \<open>
  C1. A restart restores the proxy: after any run of change logs in standalone mode, with
  distinct ids and increasing times, a new proxy on the same store replays the log without an
  error, is ready, and its routers show its store; and the store is what the run left, except
  that the default namespace is added where it is missing and not disabled.
\<close>

theorem restart_restores:
  fixes E :: "(mem_storage, 'j, 'r) proxy_env"
  assumes "ps_storage (pe_store E) = mem_ops place" and "serde_ok (ps_serde (pe_store E))"
    and "px_cluster st = None" and "px_inv E mem_ok mem_content st"
    and "mem_content (px_store st) TBL_CHANGELOGS = Map.empty"
    and "run_wf E cls" and "distinct (map cl_id cls)" and "sorted_wrt (<) (map cl_timestamp cls)"
    and "st1 = run_changes E propose cls st"
  shows "\<exists>st2 :: (mem_storage, 'j, 'r, 'm) proxy_state.
           restore_from_changelogs E (proxy_new config (px_store st1)) = (Ok (), st2) \<and>
           px_ready st2 \<and> px_inv E mem_ok mem_content st2 \<and>
           (\<forall>t k. (t, k) \<noteq> (TBL_NAMESPACES, ''default'') \<or> mem_content (px_store st1) t k \<noteq> None \<longrightarrow>
              mem_content (px_store st2) t k = mem_content (px_store st1) t k) \<and>
           (if cfg_disable_default_namespace config
            then mem_content (px_store st2) = mem_content (px_store st1)
            else mem_content (px_store st2) TBL_NAMESPACES ''default'' \<noteq> None)"
proof -
  let ?S = "ps_serde (pe_store E)" and ?m1 = "mem_content (px_store st1)"
  let ?n = "proxy_new config (px_store st1) :: (mem_storage, 'j, 'r, 'm) proxy_state"
  note mem = assms(1) subset_UNIV UNIV_I assms(2-4)
  note run = mem.run_content [OF mem assms(5-7), of propose, folded assms(9)]
  have inv1: "px_inv E mem_ok mem_content st1"
    using mem.run_inv [OF mem assms(6), of propose] by (simp add: assms(9))
  then have inv: "px_inv E mem_ok mem_content ?n" by (simp add: px_inv_def proxy_new_def coherent_def)
  have ok: "mem_ok (px_store ?n)" and store: "px_store ?n = px_store st1"
    using inv by (simp_all add: px_inv_def proxy_new_def)
  have log: "changelog_table ?S cls (mem_content (px_store ?n) TBL_CHANGELOGS)" using run store by simp
  obtain xs where xs: "list_changelogs (pe_store E) (px_store ?n) = Ok xs" "sort_key cl_timestamp xs = cls"
    by (rule mem.list_changelogs_table [OF assms(1) UNIV_I ok log assms(8)])
  define q where "q = fold (\<lambda>cl st. snd (process_changelog E cl st)) cls ?n"
  have "apply_writes (writes_of ?S cls) ?m1 t = ?m1 t" for t
  proof (cases "t = TBL_CHANGELOGS")
    case False
    with run have m1: "?m1 t = apply_writes (writes_of ?S cls) (mem_content (px_store st)) t" by blast
    show ?thesis
    proof
      fix k
      have "apply_writes (writes_of ?S cls) ?m1 t k =
          apply_writes (writes_of ?S cls) (apply_writes (writes_of ?S cls) (mem_content (px_store st))) t k"
        by (rule apply_writes_cong) (simp add: m1)
      then show "apply_writes (writes_of ?S cls) ?m1 t k = ?m1 t k" by (simp add: apply_writes_absorb m1)
    qed
  qed (simp add: resource_writes_changelogs)
  then have q: "mem_content (px_store q) = ?m1" "px_config q = config"
    using mem.replay_content [OF assms(1) subset_UNIV ok, of cls] unfolding q_def store
    by (auto simp: proxy_new_def)
  have inv_q: "px_inv E mem_ok mem_content q"
    unfolding q_def by (rule mem.replay_inv [OF assms(1) subset_UNIV assms(2,6) inv])
  obtain st' where st': "ensure_default E q = (Ok (), st')" "px_inv E mem_ok mem_content st'"
    "\<forall>t k. (t, k) \<noteq> (TBL_NAMESPACES, ''default'') \<or> ?m1 t k \<noteq> None \<longrightarrow> mem_content (px_store st') t k = ?m1 t k"
    "if cfg_disable_default_namespace config then px_store st' = px_store q
     else mem_content (px_store st') TBL_NAMESPACES ''default'' \<noteq> None"
    using mem.ensure_default_spec [OF assms(1) subset_UNIV assms(2) inv_q]
    unfolding q by blast
  have "restore_from_changelogs E ?n = (Ok (), st'\<lparr>px_ready := True\<rparr>)"
    by (simp add: restore_eq [OF xs(1)] xs(2) q_def [symmetric] st'(1))
  moreover have "px_inv E mem_ok mem_content (st'\<lparr>px_ready := True\<rparr>)" using st'(2) by (simp add: px_inv_def)
  moreover have "if cfg_disable_default_namespace config then mem_content (px_store (st'\<lparr>px_ready := True\<rparr>)) = ?m1
      else mem_content (px_store (st'\<lparr>px_ready := True\<rparr>)) TBL_NAMESPACES ''default'' \<noteq> None"
    using st'(4) q(1) by (simp split: if_splits)
  moreover have "\<forall>t k. (t, k) \<noteq> (TBL_NAMESPACES, ''default'') \<or> ?m1 t k \<noteq> None \<longrightarrow>
      mem_content (px_store (st'\<lparr>px_ready := True\<rparr>)) t k = ?m1 t k"
    using st'(3) by simp
  moreover have "px_ready (st'\<lparr>px_ready := True\<rparr>)" by simp
  ultimately show ?thesis by blast
qed

theorem restart_restores_witness:
  "\<exists>st2 :: (mem_storage, string, rx list, unit) proxy_state. restore_from_changelogs sample_env
      (proxy_new (dgate_config_default undefined)
        (px_store (run_changes sample_env no_cluster [add_namespace_change, add_route_change] fresh_proxy))) = (Ok (), st2) \<and>
     px_ready st2 \<and> mem_content (px_store st2) TBL_NAMESPACES ''default'' \<noteq> None"
proof -
  have "payload_ok sample_env add_namespace_change" "payload_ok sample_env add_route_change"
    by (simp_all add: payload_ok_def add_namespace_change_def add_route_change_def)
  then have "run_wf sample_env [add_namespace_change, add_route_change]"
    by (simp add: run_wf_def sample_changes_wf)
  moreover have "px_cluster fresh_proxy = None" "mem_content (px_store fresh_proxy) TBL_CHANGELOGS = Map.empty"
    "px_inv sample_env mem_ok mem_content fresh_proxy"
    unfolding fresh_proxy_def by (simp_all add: proxy_new_inv) (simp_all add: proxy_new_def mem_content_new)
  ultimately show ?thesis
    using restart_restores [OF sample_env_sel(1), of fresh_proxy "[add_namespace_change, add_route_change]" _ no_cluster
        "dgate_config_default undefined"]
    by (auto simp: sample_serde_ok add_namespace_change_def add_route_change_def dgate_config_default_def)
qed

text \<open>
  C30. A route for a namespace that is not there is refused too late: \<open>apply_changelog\<close> returns
  \<open>NotFound\<close>, the routers and the change hash are as before, but the change log and the route are
  both in the store, so that a restart replays the change.
\<close>

theorem refused_route_is_stored:
  assumes "ps_storage (pe_store E) = mem_ops place" and "serde_ok (ps_serde (pe_store E))"
    and "px_cluster st = None" and "mem_ok (px_store st)"
    and "mem_content (px_store st) TBL_NAMESPACES (cl_namespace cl) = None"
    and "cl_cmd cl = AddRoute" and "from_value (sd_route (ps_serde (pe_store E))) (cl_item cl) = Ok r"
  shows "fst (apply_changelog E propose cl st) = Err (PE_NotFound (''Namespace '' @ cl_namespace cl @ '' not found'')) \<and>
         px_routers (snd (apply_changelog E propose cl st)) = px_routers st \<and>
         px_change_hash (snd (apply_changelog E propose cl st)) = px_change_hash st \<and>
         (\<exists>lb rb. from_slice (sd_changelog (ps_serde (pe_store E))) lb = Ok cl \<and>
            from_slice (sd_route (ps_serde (pe_store E))) rb = Ok r \<and>
            mem_content (px_store (snd (apply_changelog E propose cl st))) =
              kv_put TBL_ROUTES (route_key r) rb (kv_put TBL_CHANGELOGS (cl_id cl) lb (mem_content (px_store st))))"
proof -
  let ?S = "ps_serde (pe_store E)" and ?ns = "cl_namespace cl"
  note mem = assms(1) subset_UNIV UNIV_I assms(2-4)
  obtain rb where rb: "to_vec (sd_route ?S) r = Ok rb" "from_slice (sd_route ?S) rb = Ok r"
    by (rule codec_ok_vec [OF serde_okD(2) [OF assms(2)] TrueI])
  have eff: "change_effect ?S cl = Ok (KV_Put TBL_ROUTES (route_key r) rb, created ''Route'' (rt_name r))"
    by (simp add: change_effect_def Let_def assms(6,7) put_effect_def rb(1))
  obtain lb where lb: "from_slice (sd_changelog ?S) lb = Ok cl"
    and content: "mem_content (px_store (snd (apply_changelog E propose cl st))) =
      kv_put TBL_ROUTES (route_key r) rb (kv_put TBL_CHANGELOGS (cl_id cl) lb (mem_content (px_store st)))"
    using mem.apply_content [OF mem, of cl propose] by (auto simp: eff)
  obtain res s where a: "append_changelog (pe_store E) (px_store st) cl = (res, s)" by (rule prod.exhaust)
  obtain b where b: "to_vec (sd_changelog ?S) cl = Ok b"
    by (rule codec_ok_vec [OF serde_ok_changelog [OF assms(2)] TrueI])
  have ok: "mem_ok s" and res: "res = Ok ()"
    and s: "mem_content s = kv_put TBL_CHANGELOGS (cl_id cl) b (mem_content (px_store st))"
    using mem.set_typed_ok [OF assms(1,4) UNIV_I, of "sd_changelog ?S" TBL_CHANGELOGS "cl_id cl" cl]
      mem.set_typed_eq [OF assms(1,4) UNIV_I b, of TBL_CHANGELOGS "cl_id cl"] a by (simp_all add: append_changelog_def)
  let ?st = "with_store st (snd (store_change (pe_store E) s cl))"
  have sc: "is_ok (fst (store_change (pe_store E) s cl))" "mem_ok (px_store ?st)"
    "mem_content (px_store ?st) TBL_NAMESPACES ?ns = None"
    using mem.store_change_total [OF assms(1) ok subset_UNIV, of cl] mem.store_change_effect [OF assms(1) ok subset_UNIV, of cl]
      assms(5) by (simp_all add: eff s kv_put_def tbl_defs)
  have "compute_router E (px_store ?st) ?ns = Err (PE_NotFound (''Namespace '' @ ?ns @ '' not found''))"
    by (simp only: compute_router_def get_namespace_def mem.get_typed_eq [OF assms(1) sc(2) UNIV_I] sc(3)) simp
  then have "process_changelog E cl (with_store st s) = (Err (PE_NotFound (''Namespace '' @ ?ns @ '' not found'')), ?st)"
    using process_changelog_split [of E cl "with_store st s"] sc(1)
    by (simp add: split_change_def Let_def px_after_def assms(6) rebuild_router_def)
  then have "apply_changelog E propose cl st = (Err (PE_NotFound (''Namespace '' @ ?ns @ '' not found'')), ?st)"
    by (simp add: apply_standalone [OF assms(3)] a res)
  with lb rb(2) content show ?thesis by auto
qed

theorem refused_route_is_stored_witness:
  "fst (apply_changelog sample_env no_cluster add_route_change fresh_proxy) = Err (PE_NotFound ''Namespace a not found'')"
proof -
  have "from_value (sd_route sample_serde) (cl_item add_route_change) = Ok ((route_new ''r'' ''a'')\<lparr>rt_paths := [''/x'']\<rparr>)"
    unfolding add_route_change_def by (rule changelog_new_item [OF serde_ok_route [OF sample_serde_ok] TrueI])
  moreover have "px_cluster fresh_proxy = None" "mem_ok (px_store fresh_proxy)"
    "mem_content (px_store fresh_proxy) TBL_NAMESPACES (cl_namespace add_route_change) = None"
    by (simp_all add: fresh_proxy_def proxy_new_def mem_ok_new mem_content_new)
  moreover have "cl_cmd add_route_change = AddRoute" "cl_namespace add_route_change = ''a''"
    by (simp_all add: add_route_change_def)
  ultimately show ?thesis
    using refused_route_is_stored [OF sample_env_sel(1), of fresh_proxy add_route_change _ no_cluster]
    by (simp add: sample_serde_ok)
qed

end
