(* ===== verification/Admin_Facts.thy ===== *)
theory Admin_Facts
  imports Admin Proxy_Start
begin

text \<open>
  What the admin API promises of the resources it changes: a put is read back, and secrets are
  redacted by the secret endpoints but not by the one that lists the change logs.
\<close>

section \<open>A change through the API\<close>

lemma api_change_eq:
  "api_change E propose stamp c cmd namespace name item answer st =
     (let r = apply_changelog E propose
                (changelog_new (sd_null (ps_serde (pe_store E))) c (fst stamp) (snd stamp) cmd namespace name item) st
      in (result_bind (map_err (api_internal \<circ> proxy_error_to_string) (fst r)) (\<lambda>_. Ok (api_success answer)), snd r))"
  by (cases "apply_changelog E propose (changelog_new (sd_null (ps_serde (pe_store E))) c (fst stamp) (snd stamp) cmd namespace name item) st")
    (auto simp: api_change_def and_then_def split: sum.splits)

text \<open>After a standalone change the store holds its write, whatever was answered.\<close>

lemma mem_apply_content:
  assumes "ps_storage (pe_store E) = mem_ops place" and "serde_ok (ps_serde (pe_store E))"
    and "px_cluster st = None" and "mem_ok (px_store st)"
    and "change_effect (ps_serde (pe_store E)) cl = Ok (w, msg)"
  obtains b where "from_slice (sd_changelog (ps_serde (pe_store E))) b = Ok cl"
    and "mem_ok (px_store (snd (apply_changelog E propose cl st)))"
    and "mem_content (px_store (snd (apply_changelog E propose cl st))) =
      apply_write w (kv_put TBL_CHANGELOGS (cl_id cl) b (mem_content (px_store st)))"
  using mem.apply_content [OF assms(1) subset_UNIV UNIV_I assms(2-4), of cl propose] assms(5) by auto

lemma changelog_new_add_effect:
  assumes "codec_ok (\<lambda>_. True) c"
  shows "\<exists>b. put_effect c table key msg (cl_item (changelog_new null c uuid now cmd ns name x)) = Ok (KV_Put table (key x) b, msg x) \<and>
    from_slice c b = Ok x"
proof -
  obtain b where b: "to_vec c x = Ok b" "from_slice c b = Ok x" by (rule codec_ok_vec [OF assms TrueI])
  with changelog_new_item [OF assms TrueI, of null uuid now cmd ns name x] show ?thesis by (auto simp: put_effect_def)
qed

text \<open>The state after a put or a delete of a route, whatever was answered.\<close>

lemma put_route_stored:
  assumes "ps_storage (pe_store E) = mem_ops place" and "serde_ok (ps_serde (pe_store E))"
    and "px_cluster st = None" and "mem_ok (px_store st)"
    and "admin_put_route E propose stamp namespace name item st = (r, st')"
  obtains b where "mem_ok (px_store st')" and "mem_content (px_store st') TBL_ROUTES (scoped_key namespace name) = Some b"
    and "from_slice (sd_route (ps_serde (pe_store E))) b = Ok (item\<lparr>rt_name := name, rt_namespace := namespace\<rparr>)"
proof -
  let ?S = "ps_serde (pe_store E)" and ?x = "item\<lparr>rt_name := name, rt_namespace := namespace\<rparr>"
  let ?cl = "changelog_new (sd_null ?S) (sd_route ?S) (fst stamp) (snd stamp) AddRoute namespace name ?x"
  obtain b where b: "change_effect ?S ?cl = Ok (KV_Put TBL_ROUTES (scoped_key namespace name) b, created ''Route'' name)"
    "from_slice (sd_route ?S) b = Ok ?x"
    using changelog_new_add_effect [OF serde_ok_route [OF assms(2)], of TBL_ROUTES "\<lambda>x. scoped_key (rt_namespace x) (rt_name x)"
        "\<lambda>x. created ''Route'' (rt_name x)" "sd_null ?S" "fst stamp" "snd stamp" AddRoute namespace name ?x]
    by (auto simp: change_effect_def)
  have "st' = snd (apply_changelog E propose ?cl st)"
    using assms(5) by (simp add: admin_put_route_def Let_def api_change_eq)
  then have "mem_ok (px_store st')" "mem_content (px_store st') TBL_ROUTES (scoped_key namespace name) = Some b"
    using mem_apply_content [OF assms(1-4) b(1), of propose] by (metis, metis apply_write.simps(1) kv_put_apply)
  with b(2) that show ?thesis by blast
qed

lemma delete_route_stored:
  assumes "ps_storage (pe_store E) = mem_ops place" and "serde_ok (ps_serde (pe_store E))"
    and "px_cluster st = None" and "mem_ok (px_store st)"
    and "admin_delete_route E propose stamp namespace name st = (r, st')"
  shows "mem_content (px_store st') TBL_ROUTES (scoped_key namespace name) = None"
proof -
  let ?S = "ps_serde (pe_store E)"
  let ?cl = "changelog_new (sd_null ?S) (sd_route ?S) (fst stamp) (snd stamp) DeleteRoute namespace name (route_new name namespace)"
  have effect: "change_effect ?S ?cl = Ok (KV_Del TBL_ROUTES (scoped_key namespace name), deleted ''Route'' name)"
    by (simp add: change_effect_def)
  have "st' = snd (apply_changelog E propose ?cl st)"
    using assms(5) by (simp add: admin_delete_route_def Let_def api_change_eq)
  then show ?thesis
    using mem_apply_content [OF assms(1-4) effect, of propose] by (metis apply_write.simps(2) kv_del_def fun_upd_same)
qed

lemma list_every_namespace_set:
  assumes "x \<in> set (list_every_namespace P s lister)"
  obtains ns ys where "lister ns = Ok ys" and "x \<in> set ys"
  using assms that [OF sym] by (auto simp: list_every_namespace_def split: sum.splits)

section \<open>Properties\<close>

text \<open>The consensus of a standalone node, which no operation reaches.\<close>

definition no_manager :: "string changelog \<Rightarrow> unit \<times> mem_storage \<Rightarrow> (string + consensus_response) \<times> (unit \<times> mem_storage)" where
  "no_manager cl g = (Err ''no manager'', g)"

text \<open>
  C22. What is put is what is got: in standalone mode, whatever the put of a route answered, the
  get of its namespace and name answers with the route as it was sent, under the name and the
  namespace of the path, and the list of all routes contains it.
\<close>

theorem put_route_then_get:
  assumes "ps_storage (pe_store E) = mem_ops place" and "serde_ok (ps_serde (pe_store E))"
    and "px_cluster st = None" and "mem_ok (px_store st)"
    and "admin_put_route E propose stamp namespace name item st = (r, st')"
  shows "admin_get_route E namespace name st' = Ok (api_success (item\<lparr>rt_name := name, rt_namespace := namespace\<rparr>)) \<and>
         (admin_list_routes E \<lparr>lq_namespace = None, lq_collection = None\<rparr> st' = Ok all \<longrightarrow>
          (\<exists>xs. ar_data all = Some xs \<and> item\<lparr>rt_name := name, rt_namespace := namespace\<rparr> \<in> set xs))"
proof -
  let ?P = "pe_store E" and ?x = "item\<lparr>rt_name := name, rt_namespace := namespace\<rparr>"
  obtain b where ok: "mem_ok (px_store st')" and at: "mem_content (px_store st') TBL_ROUTES (scoped_key namespace name) = Some b"
    and b: "from_slice (sd_route (ps_serde ?P)) b = Ok ?x"
    by (rule put_route_stored [OF assms])
  have "get_route ?P (px_store st') namespace name = Ok (Some ?x)"
    by (simp add: get_route_def mem.get_typed_eq [OF assms(1) ok UNIV_I] at b)
  moreover have "?x \<in> set xs" if "list_all_routes ?P (px_store st') = Ok xs" for xs
    using mem.list_typed_Ok(1) [OF assms(1) ok UNIV_I that [unfolded list_all_routes_def]] at b by auto
  ultimately show ?thesis
    by (auto simp: admin_get_route_def api_get_def admin_list_routes_def api_list_def api_success_def result_bind_eq_Ok)
qed

theorem put_route_then_get_witness:
  "case admin_put_route sample_env no_manager (''1'', 1) ''a'' ''r'' (route_new ''x'' ''y'') fresh_proxy of (_, st') \<Rightarrow>
     admin_get_route sample_env ''a'' ''r'' st' =
       Ok (api_success ((route_new ''x'' ''y'')\<lparr>rt_name := ''r'', rt_namespace := ''a''\<rparr>))"
proof -
  have "px_cluster fresh_proxy = None" "mem_ok (px_store fresh_proxy)"
    by (simp_all add: fresh_proxy_def proxy_new_def mem_ok_new)
  then show ?thesis
    by (cases "admin_put_route sample_env no_manager (''1'', 1) ''a'' ''r'' (route_new ''x'' ''y'') fresh_proxy")
      (simp add: conjunct1 [OF put_route_then_get [OF sample_env_sel(1), where all = "api_success []"]] sample_serde_ok)
qed

text \<open>
  C26. The secret endpoints never return the data of a secret: list, get and put answer with
  \<open>[REDACTED]\<close> in its place. But the data is in the change log of the put, and in standalone mode
  the list of change logs returns it as it was sent.
\<close>

theorem secret_redacted_but_logged:
  assumes "ps_storage (pe_store E) = mem_ops place" and "serde_ok (ps_serde (pe_store E))"
    and "px_cluster st = None" and "mem_ok (px_store st)"
    and "table_wf (sd_changelog (ps_serde (pe_store E))) cl_id (mem_content (px_store st) TBL_CHANGELOGS)"
    and "sec_data item \<noteq> []"
    and "admin_put_secret E propose stamp namespace name item st = (r, st')"
  shows "(\<forall>answer. r = Ok answer \<longrightarrow> map_option sec_data (ar_data answer) = Some ''[REDACTED]'') \<and>
         (\<forall>answer. admin_get_secret E ns k st' = Ok answer \<longrightarrow> map_option sec_data (ar_data answer) = Some ''[REDACTED]'') \<and>
         (\<forall>answer. admin_list_secrets E query st' = Ok answer \<longrightarrow>
            (\<forall>xs. ar_data answer = Some xs \<longrightarrow> (\<forall>s \<in> set xs. sec_data s = ''[REDACTED]''))) \<and>
         (\<exists>logs cl s. admin_list_changelogs E st' = Ok (api_success logs) \<and> cl \<in> set logs \<and>
            from_value (sd_secret (ps_serde (pe_store E))) (cl_item cl) = Ok s \<and> sec_data s = sec_data item)"
proof (intro conjI)
  let ?P = "pe_store E" and ?x = "item\<lparr>sec_name := name, sec_namespace := namespace\<rparr>"
  let ?S = "ps_serde ?P"
  let ?cl = "changelog_new (sd_null ?S) (sd_secret ?S) (fst stamp) (snd stamp) AddSecret namespace name ?x"
  have put: "r = result_bind (map_err (api_internal \<circ> proxy_error_to_string) (fst (apply_changelog E propose ?cl st)))
      (\<lambda>_. Ok (api_success (redact ?x)))" "st' = snd (apply_changelog E propose ?cl st)"
    using assms(7) by (simp_all add: admin_put_secret_def Let_def api_change_eq)
  show "\<forall>answer. r = Ok answer \<longrightarrow> map_option sec_data (ar_data answer) = Some ''[REDACTED]''"
    by (auto simp: put(1) result_bind_eq_Ok api_success_def redact_def)
  show "\<forall>answer. admin_get_secret E ns k st' = Ok answer \<longrightarrow> map_option sec_data (ar_data answer) = Some ''[REDACTED]''"
    by (auto simp: admin_get_secret_def api_get_def result_bind_eq_Ok api_success_def redact_def split: option.splits)
  show "\<forall>answer. admin_list_secrets E query st' = Ok answer \<longrightarrow>
      (\<forall>xs. ar_data answer = Some xs \<longrightarrow> (\<forall>s \<in> set xs. sec_data s = ''[REDACTED]''))"
    by (auto simp: admin_list_secrets_def Let_def result_bind_eq_Ok api_success_def redact_def
        split: option.splits elim!: list_every_namespace_set)
  show "\<exists>logs cl s. admin_list_changelogs E st' = Ok (api_success logs) \<and> cl \<in> set logs \<and>
      from_value (sd_secret ?S) (cl_item cl) = Ok s \<and> sec_data s = sec_data item"
  proof -
    have x: "sec_data ?x \<noteq> []" using assms(6) by simp
    note good = serde_ok_secret [OF assms(2)]
    note item = changelog_new_item [OF good, of ?x, OF x, of "sd_null ?S" "fst stamp" "snd stamp" AddSecret namespace name]
    obtain b where b: "to_vec (sd_secret ?S) ?x = Ok b" by (rule codec_ok_vec [OF good, of ?x, OF x])
    have eff: "change_effect ?S ?cl = Ok (KV_Put TBL_SECRETS (scoped_key namespace name) b, created ''Secret'' name)"
      using item b by (simp add: change_effect_def Let_def put_effect_def)
    obtain lb where lb: "from_slice (sd_changelog ?S) lb = Ok ?cl" and ok: "mem_ok (px_store st')"
      and content: "mem_content (px_store st') =
        apply_write (KV_Put TBL_SECRETS (scoped_key namespace name) b) (kv_put TBL_CHANGELOGS (cl_id ?cl) lb (mem_content (px_store st)))"
      using mem_apply_content [OF assms(1-4) eff, of propose] by (metis put(2))
    have log: "mem_content (px_store st') TBL_CHANGELOGS = (mem_content (px_store st) TBL_CHANGELOGS)(cl_id ?cl \<mapsto> lb)"
      unfolding content by (simp add: kv_put_def tbl_defs)
    have "is_ok (list_typed (sd_changelog ?S) ?P (px_store st') TBL_CHANGELOGS '''')"
      by (rule mem.list_typed_total [OF assms(1) ok UNIV_I]) (use assms(5) lb log in \<open>auto simp: table_wf_def split: if_splits\<close>, force)
    then obtain logs where logs: "list_typed (sd_changelog ?S) ?P (px_store st') TBL_CHANGELOGS '''' = Ok logs"
      by (cases "list_typed (sd_changelog ?S) ?P (px_store st') TBL_CHANGELOGS ''''") auto
    have "?cl \<in> set logs"
      using mem.list_typed_Ok(1) [OF assms(1) ok UNIV_I logs] lb by (auto simp: log intro!: exI [of _ "cl_id ?cl"])
    moreover have "admin_list_changelogs E st' = Ok (api_success logs)"
      using logs by (simp add: admin_list_changelogs_def api_list_def list_changelogs_def)
    ultimately show ?thesis using item by (intro exI [of _ logs] exI [of _ ?cl] exI [of _ ?x]) simp
  qed
qed

theorem secret_redacted_but_logged_witness:
  "case admin_put_secret sample_env no_manager (''1'', 1) ''a'' ''k'' ((secret_new 1 ''k'' ''a'')\<lparr>sec_data := ''key''\<rparr>) fresh_proxy of
     (_, st') \<Rightarrow> \<exists>logs cl s. admin_list_changelogs sample_env st' = Ok (api_success logs) \<and> cl \<in> set logs \<and>
       from_value (sd_secret sample_serde) (cl_item cl) = Ok s \<and> sec_data s = ''key''"
proof -
  have "px_cluster fresh_proxy = None" "mem_ok (px_store fresh_proxy)"
    "mem_content (px_store fresh_proxy) TBL_CHANGELOGS = Map.empty"
    by (simp_all add: fresh_proxy_def proxy_new_def mem_ok_new mem_content_new)
  moreover obtain r st' where
    "admin_put_secret sample_env no_manager (''1'', 1) ''a'' ''k'' ((secret_new 1 ''k'' ''a'')\<lparr>sec_data := ''key''\<rparr>) fresh_proxy = (r, st')"
    by (rule prod.exhaust)
  ultimately show ?thesis
    using secret_redacted_but_logged [OF sample_env_sel(1), of fresh_proxy "(secret_new 1 ''k'' ''a'')\<lparr>sec_data := ''key''\<rparr>"
        no_manager "(''1'', 1)" "''a''" "''k''" r st']
    by (simp add: sample_serde_ok table_wf_empty)
qed

end
