(* ===== verification/Gateway.thy ===== *)
theory Gateway
  imports Admin_Facts
begin

text \<open>
  From the admin API to the request: what a put or delete of a route through \<open>admin/mod.rs\<close>
  means for the routes that \<open>proxy/mod.rs\<close> serves.
\<close>

section \<open>A change of a route through the API\<close>

lemma api_change_ok:
  assumes "api_change E propose stamp c cmd namespace name item answer st = (Ok a, st')"
  shows "fst (apply_changelog E propose
           (changelog_new (sd_null (ps_serde (pe_store E))) c (fst stamp) (snd stamp) cmd namespace name item) st) = Ok ()"
    and "st' = snd (apply_changelog E propose
           (changelog_new (sd_null (ps_serde (pe_store E))) c (fst stamp) (snd stamp) cmd namespace name item) st)"
  using assms by (auto simp: api_change_eq Let_def result_bind_eq_Ok)

lemma route_change_inv:
  fixes E :: "(mem_storage, 'j, 'r) proxy_env"
  assumes "ps_storage (pe_store E) = mem_ops place" and "serde_ok (ps_serde (pe_store E))"
    and "px_cluster st = None" and "px_inv E mem_ok mem_content st" and "CHR '':'' \<notin> set namespace"
    and "api_change E propose stamp (sd_route (ps_serde (pe_store E))) cmd namespace name x answer st = (Ok a, st')"
    and "cmd = AddRoute \<or> cmd = DeleteRoute" and "rt_namespace x = namespace"
  obtains router where "px_inv E mem_ok mem_content st'" and "px_cluster st' = None"
    and "px_routers st' namespace = Some router"
    and "shows_store E (mem_content (px_store st')) namespace router"
proof -
  let ?S = "ps_serde (pe_store E)"
  let ?cl = "changelog_new (sd_null ?S) (sd_route ?S) (fst stamp) (snd stamp) cmd namespace name x"
  note applied = api_change_ok [OF assms(6)]
  have wf: "changelog_wf ?S ?cl"
    using assms(5,7,8) changelog_new_item [OF serde_ok_route [OF assms(2)] TrueI, of "sd_null ?S" "fst stamp" "snd stamp" cmd namespace name x]
    by (auto simp: changelog_wf_def)
  have inv: "px_inv E mem_ok mem_content st'"
    unfolding applied(2)
    by (rule mem.apply_changelog_inv [OF assms(1) subset_UNIV UNIV_I assms(2) wf assms(3,4)]) (simp add: applied(1))
  obtain router where router: "px_routers st' namespace = Some router"
    using apply_changelog_router [OF assms(3) applied(1)] assms(7) unfolding applied(2) by auto
  have "mem_ok (px_store st)" using assms(4) by (simp add: px_inv_def)
  moreover obtain w msg where "change_effect ?S ?cl = Ok (w, msg)"
    using assms(7) changelog_new_add_effect [OF serde_ok_route [OF assms(2)], of TBL_ROUTES route_key
        "\<lambda>x. created ''Route'' (rt_name x)" "sd_null ?S" "fst stamp" "snd stamp" cmd namespace name x]
    by (auto simp: change_effect_def)
  ultimately have "px_cluster st' = None"
    using mem.apply_content [OF assms(1) subset_UNIV UNIV_I assms(2,3), of ?cl propose] unfolding applied(2) by blast
  moreover have "shows_store E (mem_content (px_store st')) namespace router"
    using inv router by (auto simp: px_inv_def coherent_def)
  ultimately show ?thesis using inv router that by blast
qed

lemma erase_sel [simp]:
  "cpr_route (erase_namespace c) = cpr_route c" "cpr_methods (erase_namespace c) = cpr_methods c"
  "cpr_path_patterns (erase_namespace c) = cpr_path_patterns c"
  by (simp_all add: erase_namespace_def)

lemma compiled_sel [simp]:
  "cpr_route (compiled_of E m ns r) = r" "cpr_methods (compiled_of E m ns r) = rt_methods r"
  "cpr_path_patterns (compiled_of E m ns r) =
     List.map_filter (\<lambda>p. result_ok (compile_path_pattern (pe_alphanumeric E) (pe_regex E) p)) (rt_paths r)"
  by (simp_all add: compiled_of_def Let_def)

lemma shows_store_route:
  assumes "shows_store E m ns router" and "c \<in> set (nr_routes router)"
  shows "cpr_route c \<in> stored (sd_route (ps_serde (pe_store E))) (m TBL_ROUTES)" and "rt_namespace (cpr_route c) = ns"
proof -
  have "erase_namespace c \<in> routes_view E m ns" using assms by (auto simp: shows_store_def)
  then obtain r where r: "r \<in> stored (sd_route (ps_serde (pe_store E))) (m TBL_ROUTES)" "rt_namespace r = ns"
    and c: "erase_namespace c = compiled_of E m ns r" by (auto simp: routes_view_def)
  have "cpr_route c = r" using arg_cong [OF c, of cpr_route] by simp
  with r show "cpr_route c \<in> stored (sd_route (ps_serde (pe_store E))) (m TBL_ROUTES)" "rt_namespace (cpr_route c) = ns"
    by simp_all
qed

lemma shows_store_compiled:
  assumes "shows_store E m ns router" and "r \<in> stored (sd_route (ps_serde (pe_store E))) (m TBL_ROUTES)" and "rt_namespace r = ns"
  obtains c where "c \<in> set (nr_routes router)" and "cpr_methods c = rt_methods r"
    and "cpr_path_patterns c =
      List.map_filter (\<lambda>p. result_ok (compile_path_pattern (pe_alphanumeric E) (pe_regex E) p)) (rt_paths r)"
proof -
  have "compiled_of E m ns r \<in> erase_namespace ` set (nr_routes router)"
    using assms unfolding shows_store_def routes_view_def by blast
  then obtain c where c: "c \<in> set (nr_routes router)" "compiled_of E m ns r = erase_namespace c" by blast
  note c(1)
  moreover have "cpr_methods c = rt_methods r" using arg_cong [OF c(2), of cpr_methods] by simp
  moreover have "cpr_path_patterns c =
      List.map_filter (\<lambda>p. result_ok (compile_path_pattern (pe_alphanumeric E) (pe_regex E) p)) (rt_paths r)"
    using arg_cong [OF c(2), of cpr_path_patterns] by simp
  ultimately show ?thesis by (rule that)
qed

lemma find_route_mem: "find_route R place router path meth = Some (c, params) \<Longrightarrow> c \<in> set (nr_routes router)"
  by (auto simp: find_route_def find_route_in_Some)

lemma match_patterns_hit:
  assumes "re \<in> set patterns" and "re_captures R re path \<noteq> None"
  shows "match_patterns R place path patterns \<noteq> None"
  using assms by (induction patterns) (auto split: option.split)

definition shop_route :: route where
  "shop_route = (route_new ''r'' ''a'')\<lparr>rt_paths := [''/x'']\<rparr>"

definition sample_put :: "(api_error + route api_response) \<times> (mem_storage, string, rx list, unit) proxy_state" where
  "sample_put = admin_put_route sample_env no_manager (''7'', 7) ''a'' ''r'' shop_route with_namespace"

definition sample_delete :: "(api_error + unit api_response) \<times> (mem_storage, string, rx list, unit) proxy_state" where
  "sample_delete = admin_delete_route sample_env no_manager (''8'', 8) ''a'' ''r'' (snd sample_put)"

lemma sample_put_ok: "is_ok (fst sample_put)"
  by code_simp

lemma sample_delete_ok: "is_ok (fst sample_delete)"
  by code_simp

lemma sample_pattern: "re_captures sample_regex [RX_Begin, RX_One (CC_Char (CHR ''/'')), RX_One (CC_Char (CHR ''x'')), RX_End] ''/x'' \<noteq> None"
  "compile_path_pattern (\<lambda>_. False) sample_regex ''/x'' =
     Ok [RX_Begin, RX_One (CC_Char (CHR ''/'')), RX_One (CC_Char (CHR ''x'')), RX_End]"
  by code_simp+

section \<open>Properties\<close>

text \<open>
  C12. The life of a route, from the admin API to the router: in standalone mode, when a put of a
  route succeeds, every path that one of its patterns matches, with one of its methods, is served
  by the router of its namespace, with a route that is stored for that namespace; and when its
  delete then succeeds, no path is served by a route of that name any more.
\<close>

theorem route_lifecycle:
  fixes E :: "(mem_storage, 'j, 'r) proxy_env"
  assumes "ps_storage (pe_store E) = mem_ops place" and "serde_ok (ps_serde (pe_store E))"
    and "px_cluster st = None" and "px_inv E mem_ok mem_content st" and "CHR '':'' \<notin> set namespace"
    and "admin_put_route E propose stamp namespace name item st = (Ok a, st1)"
    and "p \<in> set (rt_paths item)" and "compile_path_pattern (pe_alphanumeric E) (pe_regex E) p = Ok re"
    and "re_captures (pe_regex E) re path \<noteq> None"
    and "m \<in> set (rt_methods item)" and "m = ''*'' \<or> eq_ignore_ascii_case m meth"
    and "admin_delete_route E propose stamp' namespace name st1 = (Ok b, st2)"
  shows "(\<exists>router c params. px_routers st1 namespace = Some router \<and>
            find_route (pe_regex E) hplace router path meth = Some (c, params) \<and>
            rt_namespace (cpr_route c) = namespace \<and>
            cpr_route c \<in> stored (sd_route (ps_serde (pe_store E))) (mem_content (px_store st1) TBL_ROUTES)) \<and>
         (\<exists>router. px_routers st2 namespace = Some router \<and>
            (\<forall>path meth c params. find_route (pe_regex E) hplace router path meth = Some (c, params) \<longrightarrow>
               rt_name (cpr_route c) \<noteq> name))"
proof
  let ?S = "ps_serde (pe_store E)" and ?x = "item\<lparr>rt_name := name, rt_namespace := namespace\<rparr>"
  have put: "api_change E propose stamp (sd_route ?S) AddRoute namespace name ?x ?x st = (Ok a, st1)"
    using assms(6) by (simp add: admin_put_route_def Let_def)
  have del: "api_change E propose stamp' (sd_route ?S) DeleteRoute namespace name (route_new name namespace) () st1 = (Ok b, st2)"
    using assms(12) by (simp add: admin_delete_route_def Let_def)
  obtain router where inv1: "px_inv E mem_ok mem_content st1" "px_cluster st1 = None"
    and router: "px_routers st1 namespace = Some router" "shows_store E (mem_content (px_store st1)) namespace router"
    by (rule route_change_inv [OF assms(1-5) put]) auto
  have "mem_ok (px_store st)" using assms(4) by (simp add: px_inv_def)
  then obtain v where "mem_content (px_store st1) TBL_ROUTES (scoped_key namespace name) = Some v" "from_slice (sd_route ?S) v = Ok ?x"
    by (rule put_route_stored [OF assms(1-3) _ assms(6)])
  then have "?x \<in> stored (sd_route ?S) (mem_content (px_store st1) TBL_ROUTES)" by (auto simp: stored_def)
  from shows_store_compiled [OF router(2) this] obtain c where c: "c \<in> set (nr_routes router)" "cpr_methods c = rt_methods item"
    "cpr_path_patterns c = List.map_filter (\<lambda>p. result_ok (compile_path_pattern (pe_alphanumeric E) (pe_regex E) p)) (rt_paths item)"
    by auto
  have "re \<in> set (cpr_path_patterns c)"
    using assms(7,8) by (force simp: c(3) map_filter_def)
  then have "route_matches (pe_regex E) hplace c path meth \<noteq> None"
    using match_patterns_hit [OF _ assms(9)] assms(10,11) by (auto simp: route_matches_def c(2) list_ex_iff)
  then have "find_route (pe_regex E) hplace router path meth \<noteq> None"
    using c(1) by (auto simp: find_route_def find_route_in_None)
  then obtain c' params where find: "find_route (pe_regex E) hplace router path meth = Some (c', params)" by auto
  then have "c' \<in> set (nr_routes router)" by (rule find_route_mem)
  with router find shows_store_route [OF router(2)]
  show "\<exists>router c params. px_routers st1 namespace = Some router \<and>
      find_route (pe_regex E) hplace router path meth = Some (c, params) \<and> rt_namespace (cpr_route c) = namespace \<and>
      cpr_route c \<in> stored (sd_route ?S) (mem_content (px_store st1) TBL_ROUTES)" by blast
  obtain router2 where inv2: "px_inv E mem_ok mem_content st2"
    and router2: "px_routers st2 namespace = Some router2" "shows_store E (mem_content (px_store st2)) namespace router2"
    by (rule route_change_inv [OF assms(1,2) inv1(2,1) assms(5) del]) (auto simp: route_new_def)
  have gone: "mem_content (px_store st2) TBL_ROUTES (scoped_key namespace name) = None"
    by (rule delete_route_stored [OF assms(1,2) inv1(2) _ assms(12)]) (use inv1(1) in \<open>simp add: px_inv_def\<close>)
  have wf: "table_wf (sd_route ?S) route_key (mem_content (px_store st2) TBL_ROUTES)"
    using inv2 by (simp add: px_inv_def resource_wf_def)
  have "rt_name (cpr_route c) \<noteq> name" if "c \<in> set (nr_routes router2)" for c
  proof
    assume "rt_name (cpr_route c) = name"
    with shows_store_route [OF router2(2) that] wf gone show False
      by (fastforce simp: stored_def table_wf_def)
  qed
  with router2(1) show "\<exists>router. px_routers st2 namespace = Some router \<and>
      (\<forall>path meth c params. find_route (pe_regex E) hplace router path meth = Some (c, params) \<longrightarrow> rt_name (cpr_route c) \<noteq> name)"
    using find_route_mem by blast
qed

theorem route_lifecycle_witness:
  "\<exists>router c params. px_routers (snd sample_put) ''a'' = Some router \<and>
     find_route sample_regex (\<lambda>_. []) router ''/x'' ''GET'' = Some (c, params) \<and> rt_namespace (cpr_route c) = ''a''"
proof -
  obtain a where put: "admin_put_route sample_env no_manager (''7'', 7) ''a'' ''r'' shop_route with_namespace = (Ok a, snd sample_put)"
    using sample_put_ok by (cases sample_put; cases "fst sample_put") (auto simp: sample_put_def)
  obtain b where del: "admin_delete_route sample_env no_manager (''8'', 8) ''a'' ''r'' (snd sample_put) = (Ok b, snd sample_delete)"
    using sample_delete_ok by (cases sample_delete; cases "fst sample_delete") (auto simp: sample_delete_def)
  have regex: "pe_alphanumeric sample_env = (\<lambda>_. False)" "pe_regex sample_env = sample_regex"
    "serde_ok (ps_serde (pe_store sample_env))" by (simp_all add: sample_env_def sample_serde_ok)
  have "CHR '':'' \<notin> set ''a''" "''/x'' \<in> set (rt_paths shop_route)" "''*'' \<in> set (rt_methods shop_route)"
    by (simp_all add: shop_route_def route_new_def)
  from route_lifecycle [OF sample_env_sel(1) regex(3) with_namespace_inv this(1) put this(2) _ _ this(3) _ del, of _ "''/x''" "''GET''" "\<lambda>_. []"]
  show ?thesis using sample_pattern unfolding regex by blast
qed

end
