(* ===== verification/Cli.thy ===== *)
theory Cli
  imports Prelude
begin

text \<open>
  The command line client, \<open>src/bin/dgate-cli.rs\<close>: \<open>parse_props\<close>, the requests of
  \<open>AdminClient\<close>, \<open>handle_resource\<close>, \<open>handle_document\<close> and the rows of \<open>print_output\<close>. clap's
  parse of the arguments is the record \<open>cli\<close>; serde\_json's values are the record \<open>value_api\<close>; the
  network, the terminal and base64 are the record \<open>cli_world\<close>. What \<open>--verbose\<close> writes to the
  error stream is left out.
\<close>

section \<open>Parameters\<close>

record ('j, 'f) value_api =
  va_from_str :: "string \<Rightarrow> string + 'j"
  va_bool :: "bool \<Rightarrow> 'j"
  va_i64 :: "int \<Rightarrow> 'j"
  va_f64 :: "'f \<Rightarrow> 'j option"
  va_string :: "string \<Rightarrow> 'j"
  va_object :: "(string \<rightharpoonup> 'j) \<Rightarrow> 'j"
  va_get :: "'j \<Rightarrow> string \<Rightarrow> 'j option"
  va_as_str :: "'j \<Rightarrow> string option"
  va_as_array :: "'j \<Rightarrow> 'j list option"
  va_is_object :: "'j \<Rightarrow> bool"
  va_parse_f64 :: "string \<Rightarrow> 'f option"

text \<open>Documented behaviour of \<open>serde_json::Value\<close>: what is inserted is read back, and only a
  string is read as one.\<close>

definition value_api_ok :: "('j, 'f) value_api \<Rightarrow> bool" where
  "value_api_ok V \<longleftrightarrow>
     (\<forall>m k. va_get V (va_object V m) k = m k) \<and> (\<forall>s. va_as_str V (va_string V s) = Some s) \<and>
     (\<forall>n. va_as_str V (va_i64 V n) = None) \<and> (\<forall>b. va_as_str V (va_bool V b) = None)"

datatype http_verb = Http_GET | Http_PUT | Http_DELETE

fun verb_name :: "http_verb \<Rightarrow> string" where
  "verb_name Http_GET = ''GET''"
| "verb_name Http_PUT = ''PUT''"
| "verb_name Http_DELETE = ''DELETE''"

record 'j cli_request =
  cr_verb :: http_verb
  cr_url :: string
  cr_headers :: "(string \<times> string) list"
  cr_body :: "'j option"

text \<open>A response is its status and its text, which may fail to be read.\<close>

record ('j, 'w) cli_world =
  cw_send :: "'j cli_request \<Rightarrow> 'w \<Rightarrow> (string + nat \<times> (string + string)) \<times> 'w"
  cw_prompt :: "string \<Rightarrow> string"
  cw_base64 :: "string \<Rightarrow> string"
  cw_header_value :: "string \<Rightarrow> bool"

section \<open>Arguments\<close>

datatype output_format = Table_Format | Json_Format | Yaml_Format

datatype resource_action =
    Create_Resource "string list"
  | Delete_Resource string "string option"
  | List_Resource "string option"
  | Get_Resource string "string option"

datatype document_action =
    Create_Document "string list"
  | Delete_Document string string string
  | List_Document string string
  | Get_Document string string string

datatype cli_command =
    Namespace_Command resource_action
  | Service_Command resource_action
  | Module_Command resource_action
  | Route_Command resource_action
  | Domain_Command resource_action
  | Collection_Command resource_action
  | Document_Command document_action
  | Secret_Command resource_action

record cli =
  cli_admin :: string
  cli_auth :: "string option"
  cli_follow :: bool
  cli_verbose :: bool
  cli_output :: output_format
  cli_command :: cli_command

section \<open>AdminClient\<close>

datatype redirect_policy = Redirect_Limited nat | Redirect_None

record admin_client =
  ac_base_url :: string
  ac_client :: redirect_policy
  ac_auth :: "string option"
  ac_verbose :: bool

definition admin_client_new :: "string \<Rightarrow> string option \<Rightarrow> bool \<Rightarrow> bool \<Rightarrow> admin_client" where
  "admin_client_new base_url auth follow verbose =
     \<lparr>ac_base_url = trim_end_matches (CHR ''/'') base_url,
      ac_client = (if follow then Redirect_Limited 10 else Redirect_None),
      ac_auth = auth, ac_verbose = verbose\<rparr>"

text \<open>\<open>headers\<close>; None is the panic of \<open>HeaderValue::from_str(..).unwrap()\<close>.\<close>

definition client_headers :: "('j, 'w) cli_world \<Rightarrow> admin_client \<Rightarrow> (string \<times> string) list option" where
  "client_headers W client =
     (let headers = [(''content-type'', ''application/json'')]
      in case ac_auth client of
           None \<Rightarrow> Some headers
         | Some auth \<Rightarrow>
             (let encoded = (if CHR '':'' \<in> set auth then cw_base64 W auth
                             else cw_base64 W (auth @ '':'' @ cw_prompt W (''Password for '' @ auth @ '': '')));
                  basic = ''Basic '' @ encoded
              in if cw_header_value W basic then Some (headers @ [(''authorization'', basic)]) else None))"

text \<open>How a command ends early: with a message, or with a panic.\<close>

datatype cli_error = Message string | Panic

definition client_handle_response ::
  "('j, 'f) value_api \<Rightarrow> nat \<times> (string + string) \<Rightarrow> cli_error + 'j" where
  "client_handle_response V response =
     (case response of (status, text) \<Rightarrow>
        (case text of
           Err e \<Rightarrow> Err (Message (''Failed to read response: '' @ e))
         | Ok body \<Rightarrow>
             if 200 \<le> status \<and> status < 300
             then map_err (\<lambda>e. Message (''Invalid JSON response: '' @ e)) (va_from_str V body)
             else (case Option.bind (Option.bind (result_ok (va_from_str V body)) (\<lambda>json. va_get V json ''error'')) (va_as_str V) of
                     Some error \<Rightarrow> Err (Message error)
                   | None \<Rightarrow> Err (Message (''Request failed with status '' @ show_nat status @ '': '' @ body)))))"

text \<open>The output so far is a list of lines beside the world.\<close>

record resource_row =
  row_name :: string
  row_namespace :: string
  row_details :: string

datatype 'j cli_line =
    Text_Line string
  | Json_Pretty 'j
  | Yaml 'j
  | Rows "resource_row list"
  | Plain 'j

definition client_send ::
  "('j, 'f) value_api \<Rightarrow> ('j, 'w) cli_world \<Rightarrow> admin_client \<Rightarrow> http_verb \<Rightarrow> string \<Rightarrow> 'j option \<Rightarrow>
     'w \<times> 'j cli_line list \<Rightarrow> (cli_error + 'j) \<times> ('w \<times> 'j cli_line list)" where
  "client_send V W client verb path body st =
     (let url = ac_base_url client @ path
      in case client_headers W client of
           None \<Rightarrow> (Err Panic, st)
         | Some headers \<Rightarrow>
             (case cw_send W \<lparr>cr_verb = verb, cr_url = url, cr_headers = headers, cr_body = body\<rparr> (fst st) of
                (Err e, w) \<Rightarrow> (Err (Message (''Request failed: '' @ e)), (w, snd st))
              | (Ok response, w) \<Rightarrow> (client_handle_response V response, (w, snd st))))"

definition client_get where
  "client_get V W client path = client_send V W client Http_GET path None"

definition client_put where
  "client_put V W client path body = client_send V W client Http_PUT path (Some body)"

definition client_delete where
  "client_delete V W client path = client_send V W client Http_DELETE path None"

section \<open>Properties on the command line\<close>

text \<open>\<open>str::parse::<i64>\<close>: a sign or none, then at least one digit, within 64 bits.\<close>

definition is_digit :: "char \<Rightarrow> bool" where
  "is_digit c \<longleftrightarrow> 48 \<le> (of_char c :: nat) \<and> (of_char c :: nat) \<le> 57"

definition digits_value :: "string \<Rightarrow> int" where
  "digits_value ds = foldl (\<lambda>a d. 10 * a + (int (of_char d) - 48)) 0 ds"

definition parse_i64 :: "string \<Rightarrow> int option" where
  "parse_i64 s =
     (let (neg, ds) = (case s of
            [] \<Rightarrow> (False, [])
          | c # rest \<Rightarrow> if c = CHR ''-'' then (True, rest) else if c = CHR ''+'' then (False, rest) else (False, s));
          v = (if neg then - digits_value ds else digits_value ds)
      in if ds = [] \<or> \<not> list_all is_digit ds then None
         else if - (2 ^ 63) \<le> v \<and> v < 2 ^ 63 then Some v else None)"

definition prop_value :: "('j, 'f) value_api \<Rightarrow> string \<Rightarrow> string \<Rightarrow> string + 'j" where
  "prop_value V key val =
     (if starts_with val ''['' \<or> starts_with val ''{''
      then map_err (\<lambda>e. ''Invalid JSON value for '' @ [CHR 0x27] @ key @ [CHR 0x27] @ '': '' @ e) (va_from_str V val)
      else if val = ''true'' then Ok (va_bool V True)
      else if val = ''false'' then Ok (va_bool V False)
      else case parse_i64 val of
             Some n \<Rightarrow> Ok (va_i64 V n)
           | None \<Rightarrow>
               (case va_parse_f64 V val of
                  Some x \<Rightarrow> Ok (case va_f64 V x of Some j \<Rightarrow> j | None \<Rightarrow> va_string V val)
                | None \<Rightarrow> Ok (va_string V val)))"

definition prop_key :: "string \<Rightarrow> string" where
  "prop_key key = (if key \<noteq> [] \<and> last key = CHR '':'' then trim_end_matches (CHR '':'') key else key)"

fun parse_props_loop :: "('j, 'f) value_api \<Rightarrow> (string \<rightharpoonup> 'j) \<Rightarrow> string list \<Rightarrow> string + (string \<rightharpoonup> 'j)" where
  "parse_props_loop V m [] = Ok m"
| "parse_props_loop V m (prop # props) =
     (case split_once (CHR ''='') prop of
        None \<Rightarrow> Err (''Invalid property format: '' @ [CHR 0x27] @ prop @ [CHR 0x27] @ ''. Expected key=value'')
      | Some (key, val) \<Rightarrow>
          result_bind (prop_value V key val) (\<lambda>json. parse_props_loop V (m(prop_key key \<mapsto> json)) props))"

definition parse_props :: "('j, 'f) value_api \<Rightarrow> string list \<Rightarrow> string + 'j" where
  "parse_props V props = result_bind (parse_props_loop V Map.empty props) (\<lambda>m. Ok (va_object V m))"

section \<open>Output\<close>

definition str_at :: "('j, 'f) value_api \<Rightarrow> 'j \<Rightarrow> string \<Rightarrow> string option" where
  "str_at V j k = Option.bind (va_get V j k) (va_as_str V)"

definition arr_at :: "('j, 'f) value_api \<Rightarrow> 'j \<Rightarrow> string \<Rightarrow> 'j list option" where
  "arr_at V j k = Option.bind (va_get V j k) (va_as_array V)"

definition listed :: "('j, 'f) value_api \<Rightarrow> string \<Rightarrow> 'j list \<Rightarrow> string" where
  "listed V label xs = label @ '': ['' @ join '', '' (List.map_filter (va_as_str V) xs) @ '']''"

definition row_of :: "('j, 'f) value_api \<Rightarrow> 'j \<Rightarrow> resource_row" where
  "row_of V item =
     (let name = (case Option.bind (case va_get V item ''name'' of Some v \<Rightarrow> Some v | None \<Rightarrow> va_get V item ''id'') (va_as_str V) of
                    Some s \<Rightarrow> s | None \<Rightarrow> ''-'');
          namespace = (case str_at V item ''namespace'' of Some s \<Rightarrow> s | None \<Rightarrow> ''-'');
          details =
            (case arr_at V item ''urls'' of Some urls \<Rightarrow> [''urls: '' @ show_nat (length urls)] | None \<Rightarrow> []) @
            (case arr_at V item ''paths'' of Some paths \<Rightarrow> [listed V ''paths'' paths] | None \<Rightarrow> []) @
            (case arr_at V item ''patterns'' of Some patterns \<Rightarrow> [listed V ''patterns'' patterns] | None \<Rightarrow> []) @
            (case arr_at V item ''tags'' of Some tags \<Rightarrow> if tags \<noteq> [] then [listed V ''tags'' tags] else [] | None \<Rightarrow> []) @
            (case str_at V item ''visibility'' of Some v \<Rightarrow> [''visibility: '' @ v] | None \<Rightarrow> [])
      in \<lparr>row_name = name, row_namespace = namespace,
          row_details = (if details = [] then ''-'' else join '', '' details)\<rparr>)"

definition print_output :: "('j, 'f) value_api \<Rightarrow> 'j \<Rightarrow> output_format \<Rightarrow> 'j cli_line list" where
  "print_output V data format =
     (case format of
        Json_Format \<Rightarrow> [Json_Pretty data]
      | Yaml_Format \<Rightarrow> [Yaml data]
      | Table_Format \<Rightarrow>
          (case va_as_array V data of
             Some arr \<Rightarrow> if arr = [] then [Text_Line ''No resources found''] else [Rows (map (row_of V) arr)]
           | None \<Rightarrow> if va_is_object V data then [Yaml data] else [Plain data]))"

definition print_lines :: "'j cli_line list \<Rightarrow> 'w \<times> 'j cli_line list \<Rightarrow> (cli_error + unit) \<times> ('w \<times> 'j cli_line list)" where
  "print_lines xs st = (Ok (), (fst st, snd st @ xs))"

definition data_lines :: "('j, 'f) value_api \<Rightarrow> 'j \<Rightarrow> output_format \<Rightarrow> 'j cli_line list" where
  "data_lines V result output =
     (case va_get V result ''data'' of Some data \<Rightarrow> print_output V data output | None \<Rightarrow> [])"

section \<open>Commands\<close>

text \<open>The path of one resource, built the same way by create, delete and get.\<close>

definition resource_path :: "string \<Rightarrow> string \<Rightarrow> string \<Rightarrow> string" where
  "resource_path resource_type ns name =
     (if resource_type = ''namespace'' then ''/api/v1/'' @ resource_type @ ''/'' @ name
      else ''/api/v1/'' @ resource_type @ ''/'' @ ns @ ''/'' @ name)"

definition or_default :: "string option \<Rightarrow> string" where
  "or_default x = (case x of Some s \<Rightarrow> s | None \<Rightarrow> ''default'')"

fun handle_resource ::
  "('j, 'f) value_api \<Rightarrow> ('j, 'w) cli_world \<Rightarrow> admin_client \<Rightarrow> string \<Rightarrow> resource_action \<Rightarrow> output_format \<Rightarrow>
     'w \<times> 'j cli_line list \<Rightarrow> (cli_error + unit) \<times> ('w \<times> 'j cli_line list)" where
  "handle_resource V W client rt (Create_Resource props) output st =
     (case parse_props V props of
        Err e \<Rightarrow> (Err (Message e), st)
      | Ok body \<Rightarrow>
          (case str_at V body ''name'' of
             None \<Rightarrow> (Err (Message ''name is required''), st)
           | Some name \<Rightarrow>
               and_then (client_put V W client (resource_path rt (or_default (str_at V body ''namespace'')) name) body st)
                 (\<lambda>result. print_lines (Text_Line (rt @ '' '' @ name @ '' created successfully'') # data_lines V result output))))"
| "handle_resource V W client rt (Delete_Resource name ns) output st =
     and_then (client_delete V W client (resource_path rt (or_default ns) name) st)
       (\<lambda>_. print_lines [Text_Line (rt @ '' '' @ name @ '' deleted successfully'')])"
| "handle_resource V W client rt (List_Resource ns) output st =
     and_then (client_get V W client
                 (case ns of Some ns \<Rightarrow> ''/api/v1/'' @ rt @ ''?namespace='' @ ns | None \<Rightarrow> ''/api/v1/'' @ rt) st)
       (\<lambda>result. print_lines (data_lines V result output))"
| "handle_resource V W client rt (Get_Resource name ns) output st =
     and_then (client_get V W client (resource_path rt (or_default ns) name) st)
       (\<lambda>result. print_lines (data_lines V result output))"

definition document_path :: "string \<Rightarrow> string \<Rightarrow> string \<Rightarrow> string" where
  "document_path ns col doc = ''/api/v1/collection/'' @ ns @ ''/'' @ col @ ''/'' @ doc"

fun handle_document ::
  "('j, 'f) value_api \<Rightarrow> ('j, 'w) cli_world \<Rightarrow> admin_client \<Rightarrow> document_action \<Rightarrow> output_format \<Rightarrow>
     'w \<times> 'j cli_line list \<Rightarrow> (cli_error + unit) \<times> ('w \<times> 'j cli_line list)" where
  "handle_document V W client (Create_Document props) output st =
     (case parse_props V props of
        Err e \<Rightarrow> (Err (Message e), st)
      | Ok body \<Rightarrow>
          (case str_at V body ''collection'' of
             None \<Rightarrow> (Err (Message ''collection is required''), st)
           | Some collection \<Rightarrow>
               (case str_at V body ''id'' of
                  None \<Rightarrow> (Err (Message ''id is required''), st)
                | Some doc \<Rightarrow>
                    (let path = document_path (or_default (str_at V body ''namespace'')) collection doc;
                         data = (case va_get V body ''data'' of Some d \<Rightarrow> d | None \<Rightarrow> body)
                     in and_then (client_put V W client path data st)
                          (\<lambda>result. print_lines (Text_Line ''Document document created successfully'' # data_lines V result output))))))"
| "handle_document V W client (Delete_Document doc collection ns) output st =
     and_then (client_delete V W client (document_path ns collection doc) st)
       (\<lambda>_. print_lines [Text_Line (''Document '' @ doc @ '' deleted successfully'')])"
| "handle_document V W client (List_Document collection ns) output st =
     and_then (client_get V W client (''/api/v1/collection/'' @ ns @ ''/'' @ collection) st)
       (\<lambda>result. print_lines (data_lines V result output))"
| "handle_document V W client (Get_Document doc collection ns) output st =
     and_then (client_get V W client (document_path ns collection doc) st)
       (\<lambda>result. print_lines (data_lines V result output))"

definition run_command ::
  "('j, 'f) value_api \<Rightarrow> ('j, 'w) cli_world \<Rightarrow> cli \<Rightarrow> 'w \<Rightarrow> (cli_error + unit) \<times> ('w \<times> 'j cli_line list)" where
  "run_command V W c w =
     (let client = admin_client_new (cli_admin c) (cli_auth c) (cli_follow c) (cli_verbose c);
          output = cli_output c; st = (w, [])
      in case cli_command c of
           Namespace_Command action \<Rightarrow> handle_resource V W client ''namespace'' action output st
         | Service_Command action \<Rightarrow> handle_resource V W client ''service'' action output st
         | Module_Command action \<Rightarrow> handle_resource V W client ''module'' action output st
         | Route_Command action \<Rightarrow> handle_resource V W client ''route'' action output st
         | Domain_Command action \<Rightarrow> handle_resource V W client ''domain'' action output st
         | Collection_Command action \<Rightarrow> handle_resource V W client ''collection'' action output st
         | Secret_Command action \<Rightarrow> handle_resource V W client ''secret'' action output st
         | Document_Command action \<Rightarrow> handle_document V W client action output st)"

text \<open>The exit status: 1 after an error, 101 after a panic.\<close>

definition exit_status :: "cli_error + unit \<Rightarrow> nat" where
  "exit_status r = (case r of Ok _ \<Rightarrow> 0 | Err (Message _) \<Rightarrow> 1 | Err Panic \<Rightarrow> 101)"

end
