(* ===== verification/Cli_Facts.thy ===== *)
theory Cli_Facts
  imports Cli Admin
begin

text \<open>
  The client against the server: which handler of the admin API's route table
  (\<open>admin_dispatch\<close>) each command of the command line client reaches.
\<close>

section \<open>The route table on plain paths\<close>

lemma split_on_sep: "split_on c (p @ c # q) = split_on c p @ split_on c q"
proof (induction p)
  case (Cons x p)
  then show ?case by (cases "split_on c p") (auto simp: split_on_not_Nil)
qed simp

text \<open>A name that a URL takes as it is, and the path of a URL without its query.\<close>

definition plain_name :: "string \<Rightarrow> bool" where
  "plain_name s \<longleftrightarrow> s \<noteq> [] \<and> set s \<subseteq> set ''abcdefghijklmnopqrstuvwxyzABCDEFGHIJKLMNOPQRSTUVWXYZ0123456789-_''"

definition before_query :: "string \<Rightarrow> string" where
  "before_query p = takeWhile (\<lambda>c. c \<noteq> CHR ''?'') p"

lemma plain_nameD:
  assumes "plain_name s"
  shows "s \<noteq> []" and "CHR ''/'' \<notin> set s" and "CHR ''?'' \<notin> set s"
  using assms by (auto simp: plain_name_def)

lemma plain_default: "plain_name ''default''"
  by (simp add: plain_name_def)

lemma before_query_path: "CHR ''?'' \<notin> set p \<Longrightarrow> before_query p = p"
  by (auto simp: before_query_def)

lemma before_query_query: "CHR ''?'' \<notin> set p \<Longrightarrow> before_query (p @ CHR ''?'' # q) = p"
  by (induction p) (auto simp: before_query_def)

definition resource_types :: "string list" where
  "resource_types = [''namespace'', ''service'', ''module'', ''route'', ''domain'', ''collection'', ''secret'']"

text \<open>The table with its patterns split into segments, None for a parameter.\<close>

definition segment_pattern :: "string \<Rightarrow> string option" where
  "segment_pattern s = (if starts_with s ''{'' then None else Some s)"

fun segments_match :: "string option list \<Rightarrow> string list \<Rightarrow> bool" where
  "segments_match [] [] = True"
| "segments_match (Some p # ps) (s # ss) = (p = s \<and> segments_match ps ss)"
| "segments_match (None # ps) (s # ss) = (s \<noteq> [] \<and> segments_match ps ss)"
| "segments_match _ _ = False"

definition split_table :: "(string \<times> string option list \<times> string) list" where
  "split_table = map (\<lambda>(m, pattern, h). (m, map segment_pattern (split_on (CHR ''/'') pattern), h)) admin_table"

lemma segments_match_eq: "segments_match (map segment_pattern ps) ss \<longleftrightarrow> list_all2 segment_matches ps ss"
proof (induction ps arbitrary: ss)
  case (Cons p ps)
  then show ?case by (cases ss) (auto simp: segment_pattern_def segment_matches_def)
qed (case_tac ss; simp)

lemma find_map_prod:
  "find P (map f xs) = map_option f (find (P \<circ> f) xs)"
  by (induction xs) auto

lemma axum_dispatch:
  assumes "axum_routing_ok matches"
  shows "admin_dispatch matches m path = admin_dispatch path_matches m path"
proof -
  have "find (\<lambda>(m', pattern, _). m' = m \<and> matches pattern path) rows = find (\<lambda>(m', pattern, _). m' = m \<and> path_matches pattern path) rows"
    if "set rows \<subseteq> set admin_table" for rows
    using that assms by (induction rows) (auto simp: axum_routing_ok_def)
  then show ?thesis by (simp add: admin_dispatch_def)
qed

lemma admin_dispatch_split:
  "admin_dispatch path_matches m path = map_option (\<lambda>(_, _, h). h)
     (find (\<lambda>(m', ps, _). m' = m \<and> segments_match ps (split_on (CHR ''/'') path)) split_table)"
  by (auto simp: admin_dispatch_def split_table_def find_map_prod path_matches_def segments_match_eq comp_def case_prod_unfold
      option.map_comp)

lemma split_table_eq:
  "split_table =
     [(''GET'', [Some [], Some []], ''root_handler''),
      (''GET'', [Some [], Some ''health''], ''health_handler''),
      (''GET'', [Some [], Some ''readyz''], ''readyz_handler''),
      (''GET'', [Some [], Some ''api'', Some ''v1'', Some ''namespace''], ''list_namespaces''),
      (''GET'', [Some [], Some ''api'', Some ''v1'', Some ''namespace'', None], ''get_namespace''),
      (''PUT'', [Some [], Some ''api'', Some ''v1'', Some ''namespace'', None], ''put_namespace''),
      (''DELETE'', [Some [], Some ''api'', Some ''v1'', Some ''namespace'', None], ''delete_namespace''),
      (''GET'', [Some [], Some ''api'', Some ''v1'', Some ''route''], ''list_routes''),
      (''GET'', [Some [], Some ''api'', Some ''v1'', Some ''route'', None, None], ''get_route''),
      (''PUT'', [Some [], Some ''api'', Some ''v1'', Some ''route'', None, None], ''put_route''),
      (''DELETE'', [Some [], Some ''api'', Some ''v1'', Some ''route'', None, None], ''delete_route''),
      (''GET'', [Some [], Some ''api'', Some ''v1'', Some ''service''], ''list_services''),
      (''GET'', [Some [], Some ''api'', Some ''v1'', Some ''service'', None, None], ''get_service''),
      (''PUT'', [Some [], Some ''api'', Some ''v1'', Some ''service'', None, None], ''put_service''),
      (''DELETE'', [Some [], Some ''api'', Some ''v1'', Some ''service'', None, None], ''delete_service''),
      (''GET'', [Some [], Some ''api'', Some ''v1'', Some ''module''], ''list_modules''),
      (''GET'', [Some [], Some ''api'', Some ''v1'', Some ''module'', None, None], ''get_module''),
      (''PUT'', [Some [], Some ''api'', Some ''v1'', Some ''module'', None, None], ''put_module''),
      (''DELETE'', [Some [], Some ''api'', Some ''v1'', Some ''module'', None, None], ''delete_module''),
      (''GET'', [Some [], Some ''api'', Some ''v1'', Some ''domain''], ''list_domains''),
      (''GET'', [Some [], Some ''api'', Some ''v1'', Some ''domain'', None, None], ''get_domain''),
      (''PUT'', [Some [], Some ''api'', Some ''v1'', Some ''domain'', None, None], ''put_domain''),
      (''DELETE'', [Some [], Some ''api'', Some ''v1'', Some ''domain'', None, None], ''delete_domain''),
      (''GET'', [Some [], Some ''api'', Some ''v1'', Some ''secret''], ''list_secrets''),
      (''GET'', [Some [], Some ''api'', Some ''v1'', Some ''secret'', None, None], ''get_secret''),
      (''PUT'', [Some [], Some ''api'', Some ''v1'', Some ''secret'', None, None], ''put_secret''),
      (''DELETE'', [Some [], Some ''api'', Some ''v1'', Some ''secret'', None, None], ''delete_secret''),
      (''GET'', [Some [], Some ''api'', Some ''v1'', Some ''collection''], ''list_collections''),
      (''GET'', [Some [], Some ''api'', Some ''v1'', Some ''collection'', None, None], ''get_collection''),
      (''PUT'', [Some [], Some ''api'', Some ''v1'', Some ''collection'', None, None], ''put_collection''),
      (''DELETE'', [Some [], Some ''api'', Some ''v1'', Some ''collection'', None, None], ''delete_collection''),
      (''GET'', [Some [], Some ''api'', Some ''v1'', Some ''document''], ''list_documents''),
      (''GET'', [Some [], Some ''api'', Some ''v1'', Some ''document'', None, None, None], ''get_document''),
      (''PUT'', [Some [], Some ''api'', Some ''v1'', Some ''document'', None, None, None], ''put_document''),
      (''DELETE'', [Some [], Some ''api'', Some ''v1'', Some ''document'', None, None, None], ''delete_document''),
      (''GET'', [Some [], Some ''api'', Some ''v1'', Some ''changelog''], ''list_changelogs''),
      (''GET'', [Some [], Some ''api'', Some ''v1'', Some ''cluster'', Some ''status''], ''cluster_status''),
      (''GET'', [Some [], Some ''api'', Some ''v1'', Some ''cluster'', Some ''members''], ''cluster_members''),
      (''PUT'', [Some [], Some ''api'', Some ''v1'', Some ''cluster'', Some ''members'', None], ''cluster_add_member''),
      (''DELETE'', [Some [], Some ''api'', Some ''v1'', Some ''cluster'', Some ''members'', None], ''cluster_remove_member''),
      (''POST'', [Some [], Some ''internal'', Some ''replicate''], ''internal_replicate''),
      (''POST'', [Some [], Some ''raft'', Some ''vote''], ''raft_vote''),
      (''POST'', [Some [], Some ''raft'', Some ''append''], ''raft_append_entries''),
      (''POST'', [Some [], Some ''raft'', Some ''snapshot''], ''raft_install_snapshot''),
      (''POST'', [Some [], Some ''tempo'', Some ''message''], ''tempo_message'')]"
  by code_simp

text \<open>No path matches two rows of one method, so the order of the table does not matter.\<close>

fun patterns_meet :: "string option list \<Rightarrow> string option list \<Rightarrow> bool" where
  "patterns_meet [] [] = True"
| "patterns_meet (Some p # ps) (Some q # qs) = (p = q \<and> patterns_meet ps qs)"
| "patterns_meet (p # ps) (q # qs) = patterns_meet ps qs"
| "patterns_meet _ _ = False"

lemma segments_match_meet: "segments_match ps ss \<Longrightarrow> segments_match qs ss \<Longrightarrow> patterns_meet ps qs"
proof (induction ps ss arbitrary: qs rule: segments_match.induct)
  case (2 p ps s ss)
  then show ?case by (cases qs; cases "hd qs") auto
next
  case (3 ps s ss)
  then show ?case by (cases qs; cases "hd qs") auto
qed (auto elim: segments_match.elims)

fun no_meeting :: "(string \<times> string option list \<times> string) list \<Rightarrow> bool" where
  "no_meeting [] = True"
| "no_meeting ((m, ps, h) # rows) =
     (list_all (\<lambda>(m', qs, _). m' \<noteq> m \<or> \<not> patterns_meet ps qs) rows \<and> no_meeting rows)"

lemma admin_table_unambiguous: "no_meeting split_table"
  unfolding split_table_eq by code_simp

lemma find_no_meeting:
  "no_meeting rows \<Longrightarrow> (m, ps, h) \<in> set rows \<Longrightarrow> segments_match ps ss \<Longrightarrow>
    find (\<lambda>(m', qs, _). m' = m \<and> segments_match qs ss) rows = Some (m, ps, h)"
proof (induction rows rule: no_meeting.induct)
  case (2 m1 ps1 h1 rows)
  show ?case
  proof (cases "m1 = m \<and> segments_match ps1 ss")
    case True
    then have "(m, ps, h) \<notin> set rows"
      using 2(2,4) segments_match_meet [of ps1 ss ps] by (force simp: list_all_iff)
    with 2(3) True show ?thesis by auto
  qed (use 2 in auto)
qed simp

lemma admin_dispatch_row:
  assumes "(m, ps, h) \<in> set split_table" and "segments_match ps (split_on (CHR ''/'') path)"
  shows "admin_dispatch path_matches m path = Some h"
  unfolding admin_dispatch_split find_no_meeting [OF admin_table_unambiguous assms] by simp

section \<open>Dispatch of the client's paths\<close>

lemma split_api:
  assumes "plain_name a" and "plain_name b" and "plain_name c" and "CHR ''/'' \<notin> set rt"
  shows "split_on (CHR ''/'') (''/api/v1/'' @ rt) = [[], ''api'', ''v1'', rt]"
    and "split_on (CHR ''/'') (''/api/v1/'' @ rt @ ''/'' @ a) = [[], ''api'', ''v1'', rt, a]"
    and "split_on (CHR ''/'') (''/api/v1/'' @ rt @ ''/'' @ a @ ''/'' @ b) = [[], ''api'', ''v1'', rt, a, b]"
    and "split_on (CHR ''/'') (''/api/v1/'' @ rt @ ''/'' @ a @ ''/'' @ b @ ''/'' @ c) = [[], ''api'', ''v1'', rt, a, b, c]"
  using assms(4) assms(1-3) [THEN plain_nameD(2)] by (simp_all add: split_on_sep split_on_no_sep)

definition dispatch_segments :: "string \<Rightarrow> string list \<Rightarrow> string option" where
  "dispatch_segments m ss =
     map_option (\<lambda>(_, _, h). h) (find (\<lambda>(m', ps, _). m' = m \<and> segments_match ps ss) split_table)"

definition resource_segments :: "string \<Rightarrow> string \<Rightarrow> string \<Rightarrow> string list" where
  "resource_segments rt ns name = [[], ''api'', ''v1'', rt] @ (if rt = ''namespace'' then [] else [ns]) @ [name]"

lemma dispatch_rows:
  "list_all (\<lambda>rt. dispatch_segments ''GET'' (resource_segments rt (c # cs) (d # ds)) = Some (''get_'' @ rt)) resource_types"
  "list_all (\<lambda>rt. dispatch_segments ''PUT'' (resource_segments rt (c # cs) (d # ds)) = Some (''put_'' @ rt)) resource_types"
  "list_all (\<lambda>rt. dispatch_segments ''DELETE'' (resource_segments rt (c # cs) (d # ds)) = Some (''delete_'' @ rt)) resource_types"
  "list_all (\<lambda>rt. dispatch_segments ''GET'' [[], ''api'', ''v1'', rt] = Some (''list_'' @ rt @ ''s'')) resource_types"
  by code_simp+

lemma dispatch_document_rows:
  "list_all (\<lambda>m. dispatch_segments m [[], ''api'', ''v1'', ''collection'', c # cs, d # ds, e # es] = None) [''GET'', ''PUT'', ''DELETE'']"
  "dispatch_segments ''GET'' [[], ''api'', ''v1'', ''collection'', c # cs, d # ds] = Some ''get_collection''"
  by code_simp+

lemma resource_type_plain: "rt \<in> set resource_types \<Longrightarrow> CHR ''/'' \<notin> set rt \<and> CHR ''?'' \<notin> set rt"
  by (auto simp: resource_types_def)

lemma admin_dispatch_eq: "admin_dispatch path_matches m path = dispatch_segments m (split_on (CHR ''/'') path)"
  by (simp add: admin_dispatch_split dispatch_segments_def)

lemma resource_path_segments:
  assumes "rt \<in> set resource_types" and "plain_name ns" and "plain_name name"
  shows "split_on (CHR ''/'') (resource_path rt ns name) = resource_segments rt ns name"
  using split_api [OF assms(2,3,3), of rt] split_api [OF assms(3,3,3), of rt] resource_type_plain [OF assms(1)]
    plain_nameD(2) [OF assms(3)]
  by (auto simp: resource_path_def resource_segments_def split_on_no_sep)

lemma dispatch_resource:
  assumes "rt \<in> set resource_types" and "plain_name ns" and "plain_name name"
  shows "admin_dispatch path_matches ''GET'' (resource_path rt ns name) = Some (''get_'' @ rt)"
    and "admin_dispatch path_matches ''PUT'' (resource_path rt ns name) = Some (''put_'' @ rt)"
    and "admin_dispatch path_matches ''DELETE'' (resource_path rt ns name) = Some (''delete_'' @ rt)"
proof -
  obtain c cs d ds where "ns = c # cs" "name = d # ds"
    using assms(2,3) [THEN plain_nameD(1)] by (meson neq_Nil_conv)
  then show "admin_dispatch path_matches ''GET'' (resource_path rt ns name) = Some (''get_'' @ rt)"
    "admin_dispatch path_matches ''PUT'' (resource_path rt ns name) = Some (''put_'' @ rt)"
    "admin_dispatch path_matches ''DELETE'' (resource_path rt ns name) = Some (''delete_'' @ rt)"
    using dispatch_rows(1-3) [of c cs d ds] assms(1)
    unfolding admin_dispatch_eq resource_path_segments [OF assms] list_all_iff by blast+
qed

lemma dispatch_list:
  assumes "rt \<in> set resource_types"
  shows "admin_dispatch path_matches ''GET'' (''/api/v1/'' @ rt) = Some (''list_'' @ rt @ ''s'')"
  using dispatch_rows(4) resource_type_plain [OF assms] split_api(1) [OF plain_default plain_default plain_default, of rt] assms
  unfolding admin_dispatch_eq list_all_iff by simp

lemma dispatch_document:
  assumes "plain_name ns" and "plain_name col" and "plain_name doc"
  shows "m \<in> {''GET'', ''PUT'', ''DELETE''} \<Longrightarrow> admin_dispatch path_matches m (document_path ns col doc) = None"
    and "admin_dispatch path_matches ''GET'' (''/api/v1/collection/'' @ ns @ ''/'' @ col) = Some ''get_collection''"
proof -
  obtain c cs d ds e es where names: "ns = c # cs" "col = d # ds" "doc = e # es"
    using assms [THEN plain_nameD(1)] by (meson neq_Nil_conv)
  have "CHR ''/'' \<notin> set ''collection''" by simp
  note segments = split_api [OF assms this]
  show "admin_dispatch path_matches m (document_path ns col doc) = None" if "m \<in> {''GET'', ''PUT'', ''DELETE''}"
    using dispatch_document_rows(1) [of c cs d ds e es] segments(4) that
    by (auto simp: admin_dispatch_eq document_path_def names)
  show "admin_dispatch path_matches ''GET'' (''/api/v1/collection/'' @ ns @ ''/'' @ col) = Some ''get_collection''"
    using dispatch_document_rows(2) [of c cs d ds] segments(3) by (simp add: admin_dispatch_eq names)
qed

section \<open>What a command sends\<close>

text \<open>A network that records the requests and answers each the same way.\<close>

definition recording ::
  "('j, 'j cli_request list) cli_world \<Rightarrow> ('j cli_request \<Rightarrow> string + nat \<times> (string + string)) \<Rightarrow> ('j, 'j cli_request list) cli_world" where
  "recording W answer = W\<lparr>cw_send := \<lambda>request sent. (answer request, sent @ [request])\<rparr>"

definition sent :: "(cli_error + unit) \<times> ('j cli_request list \<times> 'j cli_line list) \<Rightarrow> 'j cli_request list" where
  "sent result = fst (snd result)"

lemma recording_sel [simp]:
  "cw_send (recording W answer) request log = (answer request, log @ [request])"
  "client_headers (recording W answer) client = client_headers W client"
  by (simp_all add: recording_def client_headers_def Let_def split: option.split)

lemma sent_print: "sent (and_then m (\<lambda>r. print_lines (f r))) = fst (snd m)"
  by (auto simp: sent_def and_then_def print_lines_def split: prod.split sum.split)

lemma sent_client_send:
  assumes "client_headers W client = Some headers"
  shows "fst (snd (client_send V (recording W answer) client verb path body (log, out))) =
    log @ [\<lparr>cr_verb = verb, cr_url = ac_base_url client @ path, cr_headers = headers, cr_body = body\<rparr>]"
  using assms by (auto simp: client_send_def Let_def split: prod.split sum.split)

text \<open>One request, and the handler of the admin API that its verb and path select.\<close>

definition reaches :: "(string \<Rightarrow> string \<Rightarrow> bool) \<Rightarrow> admin_client \<Rightarrow> 'j cli_request list \<Rightarrow> string option \<Rightarrow> bool" where
  "reaches matches client requests handler \<longleftrightarrow>
     (\<exists>request path. requests = [request] \<and> cr_url request = ac_base_url client @ path \<and>
        admin_dispatch matches (verb_name (cr_verb request)) (before_query path) = handler)"

lemma reaches_one:
  "admin_dispatch matches (verb_name verb) (before_query path) = handler \<Longrightarrow>
    reaches matches client [\<lparr>cr_verb = verb, cr_url = ac_base_url client @ path, cr_headers = headers, cr_body = body\<rparr>] handler"
  by (auto simp: reaches_def)

lemmas sent_simps = sent_print client_get_def client_put_def client_delete_def

lemma resource_path_no_query:
  assumes "rt \<in> set resource_types" and "plain_name ns" and "plain_name name"
  shows "before_query (resource_path rt ns name) = resource_path rt ns name"
  using resource_type_plain [OF assms(1)] plain_nameD(3) [OF assms(2)] plain_nameD(3) [OF assms(3)]
  by (intro before_query_path) (auto simp: resource_path_def)

lemma document_path_no_query:
  assumes "plain_name ns" and "plain_name col" and "plain_name doc"
  shows "before_query (document_path ns col doc) = document_path ns col doc"
  using assms [THEN plain_nameD(3)] by (intro before_query_path) (auto simp: document_path_def)

text \<open>An instance: values as a datatype, and a world without a terminal.\<close>

datatype sample_value = SV_Bool bool | SV_Int int | SV_String string | SV_Object "string \<Rightarrow> sample_value option"

definition sample_values :: "(sample_value, unit) value_api" where
  "sample_values =
     \<lparr>va_from_str = (\<lambda>s. Err ''no array or object''), va_bool = SV_Bool, va_i64 = SV_Int, va_f64 = (\<lambda>_. None),
      va_string = SV_String, va_object = SV_Object,
      va_get = (\<lambda>j k. case j of SV_Object m \<Rightarrow> m k | _ \<Rightarrow> None),
      va_as_str = (\<lambda>j. case j of SV_String s \<Rightarrow> Some s | _ \<Rightarrow> None),
      va_as_array = (\<lambda>_. None), va_is_object = (\<lambda>j. case j of SV_Object _ \<Rightarrow> True | _ \<Rightarrow> False),
      va_parse_f64 = (\<lambda>_. None)\<rparr>"

definition sample_world :: "(sample_value, sample_value cli_request list) cli_world" where
  "sample_world =
     \<lparr>cw_send = (\<lambda>_ log. (Err ''offline'', log)), cw_prompt = (\<lambda>_. []), cw_base64 = (\<lambda>s. s), cw_header_value = (\<lambda>_. True)\<rparr>"

definition sample_client :: admin_client where
  "sample_client = admin_client_new ''http://localhost:9080/'' None False False"

lemma sample_headers: "client_headers sample_world sample_client \<noteq> None"
  by (simp add: client_headers_def sample_client_def admin_client_new_def)

lemma path_matches_routing: "axum_routing_ok path_matches"
  by (simp add: axum_routing_ok_def)

lemma sample_values_ok: "value_api_ok sample_values"
  by (simp add: value_api_ok_def sample_values_def)

section \<open>Properties\<close>

text \<open>
  C25. Every resource command reaches the handler it is for: with a plain name and a plain
  namespace (or none), get, delete and list of a resource type send one request, and the admin
  API's table sends it to the get, delete or list handler of that type; a create whose
  properties have the name sends one put to the put handler.
\<close>

theorem cli_reaches_handlers:
  assumes "rt \<in> set resource_types" and "plain_name name" and "plain_name (or_default ns)"
    and "client_headers W client \<noteq> None" and "axum_routing_ok matches"
  shows "reaches matches client (sent (handle_resource V (recording W answer) client rt (Get_Resource name ns) output ([], [])))
           (Some (''get_'' @ rt)) \<and>
         reaches matches client (sent (handle_resource V (recording W answer) client rt (Delete_Resource name ns) output ([], [])))
           (Some (''delete_'' @ rt)) \<and>
         reaches matches client (sent (handle_resource V (recording W answer) client rt (List_Resource ns) output ([], [])))
           (Some (''list_'' @ rt @ ''s'')) \<and>
         (\<forall>props body. parse_props V props = Ok body \<longrightarrow> str_at V body ''name'' = Some name \<longrightarrow>
            str_at V body ''namespace'' = ns \<longrightarrow>
            reaches matches client (sent (handle_resource V (recording W answer) client rt (Create_Resource props) output ([], [])))
              (Some (''put_'' @ rt)))"
proof -
  obtain headers where headers: "client_headers W client = Some headers" using assms(4) by blast
  note one = dispatch_resource [OF assms(1,3,2)] resource_path_no_query [OF assms(1,3,2)]
  have query: "before_query (''/api/v1/'' @ rt @ q) = ''/api/v1/'' @ rt" if "q = [] \<or> hd q = CHR ''?''" for q
    using that before_query_query [of "''/api/v1/'' @ rt" "tl q"] before_query_path [of "''/api/v1/'' @ rt"]
      resource_type_plain [OF assms(1)] by (cases q) auto
  have list: "reaches matches client (sent (handle_resource V (recording W answer) client rt (List_Resource ns) output ([], [])))
      (Some (''list_'' @ rt @ ''s''))"
    using query [of "[]"] query [of "''?namespace='' @ the ns"] dispatch_list [OF assms(1)]
    by (cases ns) (simp_all add: sent_simps sent_client_send [OF headers] reaches_def axum_dispatch [OF assms(5)])
  show ?thesis
    by (intro conjI list allI impI) (simp_all add: sent_simps sent_client_send [OF headers] reaches_one one axum_dispatch [OF assms(5)])
qed

theorem cli_reaches_handlers_witness:
  "reaches path_matches sample_client
     (sent (handle_resource sample_values (recording sample_world (\<lambda>_. Err ''offline'')) sample_client ''route''
        (Create_Resource [''name=home'', ''namespace=shop'']) Table_Format ([], [])))
     (Some ''put_route'')"
proof -
  have "parse_props sample_values [''name=home'', ''namespace=shop''] =
      Ok (SV_Object [''name'' \<mapsto> SV_String ''home'', ''namespace'' \<mapsto> SV_String ''shop''])"
    by (simp add: parse_props_def prop_value_def prop_key_def parse_i64_def is_digit_def starts_with_def sample_values_def)
  moreover have "str_at sample_values (SV_Object [''name'' \<mapsto> SV_String ''home'', ''namespace'' \<mapsto> SV_String ''shop'']) ''name'' = Some ''home''"
    "str_at sample_values (SV_Object [''name'' \<mapsto> SV_String ''home'', ''namespace'' \<mapsto> SV_String ''shop'']) ''namespace'' = Some ''shop''"
    by (simp_all add: str_at_def sample_values_def)
  moreover have "''route'' \<in> set resource_types" "plain_name ''home''" "plain_name (or_default (Some ''shop''))"
    by (simp_all add: resource_types_def plain_name_def or_default_def)
  ultimately show ?thesis
    using cli_reaches_handlers [OF _ _ _ sample_headers path_matches_routing, of "''route''" "''home''" "Some ''shop''" sample_values "\<lambda>_. Err ''offline''" Table_Format]
    by simp
qed

text \<open>
  C37. The document commands miss the handlers: create, delete and get of a document send their
  request to \<open>/api/v1/collection/{ns}/{collection}/{id}\<close>, which no row of the admin API's table
  takes (its document rows are under \<open>/api/v1/document\<close>), and list sends its request to the
  handler that reads the collection itself.
\<close>

theorem cli_documents_miss:
  assumes "plain_name doc" and "plain_name col" and "plain_name ns" and "client_headers W client \<noteq> None"
    and "axum_routing_ok matches"
  shows "reaches matches client (sent (handle_document V (recording W answer) client (Delete_Document doc col ns) output ([], []))) None \<and>
         reaches matches client (sent (handle_document V (recording W answer) client (Get_Document doc col ns) output ([], []))) None \<and>
         reaches matches client (sent (handle_document V (recording W answer) client (List_Document col ns) output ([], [])))
           (Some ''get_collection'') \<and>
         (\<forall>props body. parse_props V props = Ok body \<longrightarrow> str_at V body ''id'' = Some doc \<longrightarrow>
            str_at V body ''collection'' = Some col \<longrightarrow> or_default (str_at V body ''namespace'') = ns \<longrightarrow>
            reaches matches client (sent (handle_document V (recording W answer) client (Create_Document props) output ([], []))) None)"
proof -
  obtain headers where headers: "client_headers W client = Some headers" using assms(4) by blast
  note misses = dispatch_document [OF assms(3,2,1)] document_path_no_query [OF assms(3,2,1)]
  have list: "before_query (''/api/v1/collection/'' @ ns @ ''/'' @ col) = ''/api/v1/collection/'' @ ns @ ''/'' @ col"
    using assms(2,3) [THEN plain_nameD(3)] by (intro before_query_path) simp
  show ?thesis
  proof (intro conjI allI impI)
    show "reaches matches client (sent (handle_document V (recording W answer) client (List_Document col ns) output ([], [])))
        (Some ''get_collection'')"
      unfolding handle_document.simps sent_simps sent_client_send [OF headers] append_Nil
      by (rule reaches_one) (simp only: list misses verb_name.simps axum_dispatch [OF assms(5)])
  qed (simp_all add: sent_simps sent_client_send [OF headers] reaches_one misses axum_dispatch [OF assms(5)] Let_def)
qed

theorem cli_documents_miss_witness:
  "reaches path_matches sample_client
     (sent (handle_document sample_values (recording sample_world (\<lambda>_. Err ''offline'')) sample_client
        (Get_Document ''1'' ''notes'' ''default'') Table_Format ([], []))) None"
  using cli_documents_miss [OF _ _ _ sample_headers path_matches_routing, of "''1''" "''notes''" "''default''" sample_values "\<lambda>_. Err ''offline''" Table_Format]
  by (simp add: plain_name_def)

text \<open>
  A name on the command line must not look like another JSON value: the create command
  refuses a name that reads as a number or a truth value, and sends nothing; any other plain
  name is sent as it is, with the namespace it was given or with the default one.
\<close>

lemma cli_name_coerced:
  assumes "value_api_ok V" and "plain_name name" and "va_parse_f64 V name = None" and "client_headers W client = Some headers"
  shows "(name = ''true'' \<or> name = ''false'' \<or> parse_i64 name \<noteq> None \<longrightarrow>
          handle_resource V (recording W answer) client rt (Create_Resource [''name='' @ name]) output ([], []) =
            (Err (Message ''name is required''), ([], []))) \<and>
         (name \<noteq> ''true'' \<longrightarrow> name \<noteq> ''false'' \<longrightarrow> parse_i64 name = None \<longrightarrow>
          sent (handle_resource V (recording W answer) client rt (Create_Resource [''name='' @ name]) output ([], [])) =
            [\<lparr>cr_verb = Http_PUT, cr_url = ac_base_url client @ resource_path rt ''default'' name, cr_headers = headers,
              cr_body = Some (va_object V [''name'' \<mapsto> va_string V name])\<rparr>])"
proof -
  have key: "split_once (CHR ''='') (''name='' @ name) = Some (''name'', name)"
    using split_once_append [of "CHR ''=''" "''name''" name] by simp
  have val: "\<not> starts_with name ''['' \<and> \<not> starts_with name ''{''"
    using assms(2) by (cases name) (auto simp: plain_name_def starts_with_def)
  have parsed: "parse_props V [''name='' @ name] = Ok (va_object V [''name'' \<mapsto>
      (if name = ''true'' then va_bool V True else if name = ''false'' then va_bool V False
       else case parse_i64 name of Some n \<Rightarrow> va_i64 V n | None \<Rightarrow> va_string V name)])"
    using val assms(3) unfolding parse_props_def parse_props_loop.simps key
    by (simp add: prop_value_def prop_key_def split: option.split)
  show ?thesis
    using assms(1) unfolding handle_resource.simps parsed
    by (auto simp: str_at_def value_api_ok_def sent_simps sent_client_send [OF assms(4)] or_default_def split: option.splits)
qed

end
