(* ===== verification/Interleaving.thy ===== *)
theory Interleaving
  imports Prelude
begin

text \<open>
  Tasks that run concurrently on shared state. A program is a sequence of atomic actions, each of
  which changes the state and continues with what it read; tasks interleave between actions. The
  theory has no code of its own: the programs are in \<open>Concurrent_Changes\<close>.
\<close>

section \<open>Programs\<close>

datatype ('st, 'a) prog = Return 'a | Atomic "'st \<Rightarrow> 'st" "'st \<Rightarrow> ('st, 'a) prog"

definition atomically :: "('st \<Rightarrow> 'a \<times> 'st) \<Rightarrow> ('st, 'a) prog" where
  "atomically f = Atomic (\<lambda>s. snd (f s)) (\<lambda>s. Return (fst (f s)))"

primrec followed_by :: "('st, 'a) prog \<Rightarrow> ('a \<Rightarrow> ('st, 'b) prog) \<Rightarrow> ('st, 'b) prog" where
  "followed_by (Return x) k = k x"
| "followed_by (Atomic u n) k = Atomic u (\<lambda>s. followed_by (n s) k)"

text \<open>\<open>p?\<close> and what follows it.\<close>

definition attempt :: "('st, 'e + 'a) prog \<Rightarrow> ('a \<Rightarrow> ('st, 'e + 'b) prog) \<Rightarrow> ('st, 'e + 'b) prog" where
  "attempt p k = followed_by p (\<lambda>r. case r of Ok x \<Rightarrow> k x | Err e \<Rightarrow> Return (Err e))"

text \<open>The program alone, without another task between its actions.\<close>

primrec run_alone :: "('st, 'a) prog \<Rightarrow> 'st \<Rightarrow> 'a \<times> 'st" where
  "run_alone (Return x) s = (x, s)"
| "run_alone (Atomic u k) s = run_alone (k s) (u s)"

lemma run_atomically [simp]: "run_alone (atomically f) s = f s"
  by (simp add: atomically_def)

lemma run_followed_by [simp]:
  "run_alone (followed_by p k) s = (case run_alone p s of (x, s') \<Rightarrow> run_alone (k x) s')"
  by (induction p arbitrary: s) simp_all

lemma run_attempt [simp]: "run_alone (attempt p k) s = and_then (run_alone p s) (\<lambda>x. run_alone (k x))"
  by (cases "run_alone p s"; cases "fst (run_alone p s)") (auto simp: attempt_def)

lemma attempt_Return [simp]:
  "attempt (Return (Ok x)) k = k x" "attempt (Return (Err e)) k = Return (Err e)"
  by (simp_all add: attempt_def)

section \<open>Interleaving\<close>

inductive prog_step :: "('st, 'a) prog \<times> 'st \<Rightarrow> ('st, 'a) prog \<times> 'st \<Rightarrow> bool" where
  action: "prog_step (Atomic u k, s) (k s, u s)"

abbreviation prog_steps :: "('st, 'a) prog \<times> 'st \<Rightarrow> ('st, 'a) prog \<times> 'st \<Rightarrow> bool" where
  "prog_steps \<equiv> prog_step\<^sup>*\<^sup>*"

text \<open>Any task of the list may take its next action.\<close>

inductive par_step :: "('st, 'a) prog list \<times> 'st \<Rightarrow> ('st, 'a) prog list \<times> 'st \<Rightarrow> bool" where
  task: "i < length ps \<Longrightarrow> ps ! i = Atomic u k \<Longrightarrow> par_step (ps, s) (ps[i := k s], u s)"

abbreviation par_run :: "('st, 'a) prog list \<times> 'st \<Rightarrow> ('st, 'a) prog list \<times> 'st \<Rightarrow> bool" where
  "par_run \<equiv> par_step\<^sup>*\<^sup>*"

inductive_cases prog_stepE: "prog_step (p, s) c"
inductive_cases par_stepE: "par_step c c'"

lemma prog_steps_par:
  assumes "prog_steps (p, s) (p', s')" and "i < length ps" and "ps ! i = p"
  shows "par_run (ps, s) (ps[i := p'], s')"
  using assms(1)
proof (induction "(p', s')" arbitrary: p' s' rule: rtranclp_induct)
  case base
  show ?case using assms(3) by (simp add: list_update_id [of ps i, unfolded assms(3)])
next
  case (step c)
  obtain q t where c: "c = (q, t)" by (cases c)
  with step.hyps(2) obtain u k where q: "q = Atomic u k" "p' = k t" "s' = u t" by (auto elim: prog_stepE)
  have "par_step (ps[i := q], t) (ps[i := q, i := k t], u t)"
    by (rule par_step.task) (use assms(2) q(1) in simp_all)
  with step.hyps(3) [OF c] q show ?case by (simp add: rtranclp.rtrancl_into_rtrancl)
qed

lemma prog_steps_followed_by:
  assumes "prog_steps (p, s) (p', s')"
  shows "prog_steps (followed_by p k, s) (followed_by p' k, s')"
  using assms
proof (induction "(p', s')" arbitrary: p' s' rule: rtranclp_induct)
  case (step c)
  obtain q t where c: "c = (q, t)" by (cases c)
  with step.hyps(2) obtain u n where q: "q = Atomic u n" "p' = n t" "s' = u t" by (auto elim: prog_stepE)
  have "prog_step (followed_by q k, t) (followed_by p' k, s')"
    using prog_step.action [of u "\<lambda>s. followed_by (n s) k" t] by (simp add: q)
  with step.hyps(3) [OF c] show ?case by (rule rtranclp.rtrancl_into_rtrancl)
qed simp

lemma prog_steps_run: "prog_steps (p, s) (Return (fst (run_alone p s)), snd (run_alone p s))"
proof (induction p arbitrary: s)
  case (Atomic u k)
  have "prog_step (Atomic u k, s) (k s, u s)" by (rule prog_step.action)
  then show ?case using Atomic.IH [OF rangeI] by (simp add: converse_rtranclp_into_rtranclp)
qed simp

lemma prog_steps_continue:
  assumes "run_alone p s = (x, s')" and "k x = q"
  shows "prog_steps (followed_by p k, s) (q, s')"
  using prog_steps_followed_by [OF prog_steps_run [of p s], of k] by (simp add: assms)

lemma prog_steps_attempt:
  assumes "run_alone p s = (Ok x, s')"
  shows "prog_steps (attempt p k, s) (k x, s')"
  unfolding attempt_def by (rule prog_steps_continue [OF assms]) simp

lemma par_run_task:
  assumes "i < length ps" and "run_alone (ps ! i) s = (x, s')"
  shows "par_run (ps, s) (ps[i := Return x], s')"
  using prog_steps_par [OF prog_steps_run assms(1) refl, of s] assms(2) by simp

text \<open>Every way of interleaving tasks ends.\<close>

definition prog_next :: "(('st, 'a) prog \<times> ('st, 'a) prog) set" where
  "prog_next = {(p', p). \<exists>u k s. p = Atomic u k \<and> p' = k s}"

lemma wf_prog_next: "wf (prog_next :: (('st, 'a) prog \<times> ('st, 'a) prog) set)"
  unfolding wf_def
proof (intro allI impI)
  fix P :: "('st, 'a) prog \<Rightarrow> bool" and p
  assume step: "\<forall>p. (\<forall>p'. (p', p) \<in> prog_next \<longrightarrow> P p') \<longrightarrow> P p"
  show "P p"
  proof (induction p)
    case (Return x)
    have "\<forall>p'. (p', Return x) \<in> prog_next \<longrightarrow> P p'" by (simp add: prog_next_def)
    then show ?case using step by blast
  next
    case (Atomic u k)
    have "\<forall>p'. (p', Atomic u k) \<in> prog_next \<longrightarrow> P p'" using Atomic by (auto simp: prog_next_def)
    then show ?case using step by blast
  qed
qed

lemma wf_par_step: "wf {(c', c). par_step c (c' :: ('st, 'a) prog list \<times> 'st)}"
proof (rule wf_subset)
  show "wf (inv_image (listrel1 prog_next) fst :: (('st, 'a) prog list \<times> 'st) rel)"
    by (rule wf_inv_image) (simp add: wf_prog_next)
  show "{(c', c). par_step c (c' :: ('st, 'a) prog list \<times> 'st)} \<subseteq> inv_image (listrel1 prog_next) fst"
  proof
    fix x :: "(('st, 'a) prog list \<times> 'st) \<times> (('st, 'a) prog list \<times> 'st)"
    assume "x \<in> {(c', c). par_step c c'}"
    then obtain i ps u k s where x: "i < length ps" "ps ! i = Atomic u k" "x = ((ps[i := k s], u s), (ps, s))"
      by (auto elim: par_stepE)
    have "(k s, ps ! i) \<in> prog_next" using x(2) by (auto simp: prog_next_def)
    then have "(take i ps @ k s # drop (Suc i) ps, take i ps @ ps ! i # drop (Suc i) ps) \<in> listrel1 prog_next"
      by (rule listrel1I) (rule refl)+
    then have "(ps[i := k s], ps) \<in> listrel1 prog_next"
      using x(1) by (simp add: upd_conv_take_nth_drop id_take_nth_drop [symmetric])
    then show "x \<in> inv_image (listrel1 prog_next) fst" by (simp add: x(3) inv_image_def)
  qed
qed

lemma par_progress:
  assumes "\<forall>c. \<not> par_step (ps, s) c"
  shows "\<forall>p \<in> set ps. \<exists>x. p = Return x"
proof
  fix p
  assume "p \<in> set ps"
  then obtain i where "i < length ps" "ps ! i = p" by (auto simp: in_set_conv_nth)
  with assms par_step.task [of i ps] show "\<exists>x. p = Return x" by (cases p) blast+
qed

lemma par_run_completes:
  fixes ps :: "('st, 'a) prog list"
  shows "\<exists>ps' s'. par_run (ps, s) (ps', s') \<and> (\<forall>p \<in> set ps'. \<exists>x. p = Return x)"
proof -
  have "\<exists>c'. par_run c c' \<and> (\<forall>c''. \<not> par_step c' c'')" for c :: "('st, 'a) prog list \<times> 'st"
    using wf_par_step
  proof (induction c rule: wf_induct_rule)
    case (less c)
    show ?case
    proof (cases "\<exists>c1. par_step c c1")
      case True
      then obtain c1 where c1: "par_step c c1" by blast
      then obtain c' where "par_run c1 c'" "\<forall>c''. \<not> par_step c' c''" using less [of c1] by auto
      with c1 show ?thesis by (meson converse_rtranclp_into_rtranclp)
    qed blast
  qed
  from this [of "(ps, s)"] obtain ps' s' where run: "par_run (ps, s) (ps', s')" and stuck: "\<forall>c. \<not> par_step (ps', s') c" by auto
  from run par_progress [OF stuck] show ?thesis by (intro exI conjI)
qed

text \<open>What no action of a program changes, and programs that only read a part of the state.\<close>

primrec leaves :: "('st \<Rightarrow> 'v) \<Rightarrow> ('st, 'a) prog \<Rightarrow> bool" where
  "leaves v (Return x) = True"
| "leaves v (Atomic u k) = (\<forall>s. v (u s) = v s \<and> leaves v (k s))"

definition determined :: "('st \<Rightarrow> 'v) \<Rightarrow> ('st \<Rightarrow> 'a) \<Rightarrow> bool" where
  "determined v f \<longleftrightarrow> (\<forall>s t. v s = v t \<longrightarrow> f s = f t)"

primrec reads_only :: "('st \<Rightarrow> 'v) \<Rightarrow> ('st, 'a) prog \<Rightarrow> bool" where
  "reads_only v (Return x) = True"
| "reads_only v (Atomic u k) = (u = id \<and> determined v k \<and> (\<forall>s. reads_only v (k s)))"

lemma leaves_followed_by: "leaves v p \<Longrightarrow> (\<And>x. leaves v (k x)) \<Longrightarrow> leaves v (followed_by p k)"
  by (induction p) auto

lemma leaves_attempt: "leaves v p \<Longrightarrow> (\<And>x. leaves v (k x)) \<Longrightarrow> leaves v (attempt p k)"
  unfolding attempt_def by (rule leaves_followed_by) (auto split: sum.split)

lemma leaves_atomically: "leaves v (atomically f) \<longleftrightarrow> (\<forall>s. v (snd (f s)) = v s)"
  by (simp add: atomically_def)

lemma reads_only_followed_by: "reads_only v p \<Longrightarrow> (\<And>x. reads_only v (k x)) \<Longrightarrow> reads_only v (followed_by p k)"
proof (induction p)
  case (Atomic u n)
  then have "determined v (\<lambda>s. followed_by (n s) k)" unfolding determined_def by (metis reads_only.simps(2) determined_def)
  with Atomic show ?case by simp
qed simp

lemma reads_only_attempt: "reads_only v p \<Longrightarrow> (\<And>x. reads_only v (k x)) \<Longrightarrow> reads_only v (attempt p k)"
  unfolding attempt_def by (rule reads_only_followed_by) (auto split: sum.split)

lemma reads_only_leaves: "reads_only v p \<Longrightarrow> leaves w p"
  by (induction p) simp_all

lemma followed_by_followed_by: "followed_by (followed_by p f) g = followed_by p (\<lambda>x. followed_by (f x) g)"
  by (induction p) simp_all

lemma followed_by_result:
  "followed_by (case r of Err e \<Rightarrow> Return (Err e) | Ok x \<Rightarrow> k x) f =
     (case r of Err e \<Rightarrow> f (Err e) | Ok x \<Rightarrow> followed_by (k x) f)"
  by (cases r) simp_all

lemma attempt_attempt: "attempt (attempt p k) k' = attempt p (\<lambda>x. attempt (k x) k')"
  by (simp add: attempt_def followed_by_followed_by followed_by_result cong: sum.case_cong)

lemma prog_steps_alone: "prog_steps (p, s) (p', s') \<Longrightarrow> run_alone p s = run_alone p' s'"
proof (induction "(p', s')" arbitrary: p' s' rule: rtranclp_induct)
  case (step c)
  obtain q t where c: "c = (q, t)" by (cases c)
  with step.hyps(2) have "run_alone q t = run_alone p' s'" by (auto elim!: prog_stepE)
  with step.hyps(3) [OF c] show ?case by simp
qed simp

section \<open>What tasks keep for each other\<close>

text \<open>
  \<open>R s t\<close> says what a task may find changed after another's action, and has to keep itself. A
  program started where \<open>P\<close> holds \<open>meets\<close> its postcondition \<open>Q\<close> whatever of this kind happens
  between its actions.
\<close>

primrec meets :: "('st \<Rightarrow> 'st \<Rightarrow> bool) \<Rightarrow> ('a \<Rightarrow> 'st \<Rightarrow> bool) \<Rightarrow> ('st, 'a) prog \<Rightarrow> ('st \<Rightarrow> bool) \<Rightarrow> bool" where
  "meets R Q (Return x) = (\<lambda>P. \<forall>s. P s \<longrightarrow> Q x s)"
| "meets R Q (Atomic u k) = (\<lambda>P. \<forall>s. P s \<longrightarrow> R s (u s) \<and> meets R Q (k s) (R (u s)))"

lemma meets_pre: "meets R Q p P \<Longrightarrow> (\<And>s. P' s \<Longrightarrow> P s) \<Longrightarrow> meets R Q p P'"
  by (cases p) auto

lemma meets_post: "meets R Q' p P \<Longrightarrow> (\<And>x s. Q' x s \<Longrightarrow> Q x s) \<Longrightarrow> meets R Q p P"
proof (induction p arbitrary: P)
  case (Atomic u k)
  show ?case using Atomic.prems(1) Atomic.IH [OF rangeI _ Atomic.prems(2)] by simp
qed simp

lemma meets_followed_by:
  assumes "\<And>x. meets R Q (k x) (Q' x)"
  shows "meets R Q' p P \<Longrightarrow> meets R Q (followed_by p k) P"
proof (induction p arbitrary: P)
  case (Return x)
  then show ?case using meets_pre [OF assms] by simp
next
  case (Atomic u n)
  then show ?case using Atomic.IH [OF rangeI] by simp
qed

lemma meets_attempt:
  assumes "meets R Q' p P" and "\<And>x. meets R Q (k x) (Q' (Ok x))" and "\<And>e s. Q' (Err e) s \<Longrightarrow> Q (Err e) s"
  shows "meets R Q (attempt p k) P"
  unfolding attempt_def
  by (rule meets_followed_by [OF _ assms(1)]) (auto split: sum.split simp: assms(2,3))

lemma meets_atomically:
  assumes "\<And>s. P s \<Longrightarrow> R s (snd (f s))" and "\<And>s t. P s \<Longrightarrow> R (snd (f s)) t \<Longrightarrow> Q (fst (f s)) t"
  shows "meets R Q (atomically f) P"
  using assms by (simp add: atomically_def)

text \<open>A program that reads only what the others leave alone gets what it gets alone.\<close>

lemma meets_reads_only:
  assumes "\<And>s. R s s" and "\<And>s t. R s t \<Longrightarrow> v t = v s"
  shows "reads_only v p \<Longrightarrow> meets R (\<lambda>x t. v t = v s\<^sub>0 \<and> x = fst (run_alone p s\<^sub>0)) p (\<lambda>t. v t = v s\<^sub>0)"
proof (induction p arbitrary: s\<^sub>0)
  case (Atomic u k)
  have "R s (u s) \<and> meets R (\<lambda>x t. v t = v s\<^sub>0 \<and> x = fst (run_alone (Atomic u k) s\<^sub>0)) (k s) (R (u s))"
    if s: "v s = v s\<^sub>0" for s
  proof
    from Atomic.prems have id: "u = id" and det: "determined v k" and k: "reads_only v (k s\<^sub>0)" by simp_all
    have same: "k s = k s\<^sub>0" using det s unfolding determined_def by blast
    note u = fun_cong [OF id, of s, unfolded id_apply] fun_cong [OF id, of s\<^sub>0, unfolded id_apply] same
    show "R s (u s)" using u(1) assms(1) by simp
    have ih: "meets R (\<lambda>x t. v t = v s\<^sub>0 \<and> x = fst (run_alone (k s\<^sub>0) s\<^sub>0)) (k s\<^sub>0) (\<lambda>t. v t = v s\<^sub>0)"
      by (rule Atomic.IH [OF rangeI k])
    have "meets R (\<lambda>x t. v t = v s\<^sub>0 \<and> x = fst (run_alone (k s\<^sub>0) s\<^sub>0)) (k s\<^sub>0) (R s)"
      by (rule meets_pre [OF ih]) (use assms(2) [of s] s in simp)
    then show "meets R (\<lambda>x t. v t = v s\<^sub>0 \<and> x = fst (run_alone (Atomic u k) s\<^sub>0)) (k s) (R (u s))"
      by (simp only: u run_alone.simps)
  qed
  then show ?case by simp
qed simp

locale evolution =
  fixes R :: "'st \<Rightarrow> 'st \<Rightarrow> bool"
  assumes evolves_refl: "R s s"
    and evolves_trans: "R s t \<Longrightarrow> R t u \<Longrightarrow> R s u"
begin

definition stable :: "('st \<Rightarrow> bool) \<Rightarrow> bool" where
  "stable P \<longleftrightarrow> (\<forall>s t. P s \<longrightarrow> R s t \<longrightarrow> P t)"

lemma stable_from: "stable (R s)"
  using evolves_trans by (auto simp: stable_def)

lemma meets_leaves:
  assumes "\<And>s t. v t = v s \<Longrightarrow> R s t" and "stable A"
  shows "leaves v p \<Longrightarrow> meets R (\<lambda>_. A) p A"
proof (induction p)
  case (Atomic u k)
  have "R s (u s) \<and> meets R (\<lambda>_. A) (k s) (R (u s))" if s: "A s" for s
  proof
    show r: "R s (u s)" using Atomic.prems assms(1) by simp
    have "A t" if "R (u s) t" for t using s r that assms(2) unfolding stable_def by blast
    moreover have "meets R (\<lambda>_. A) (k s) A" using Atomic by simp
    ultimately show "meets R (\<lambda>_. A) (k s) (R (u s))" by (auto intro: meets_pre)
  qed
  then show ?case by simp
qed simp

lemma meets_atomic:
  assumes "\<And>s. P s \<Longrightarrow> R s (snd (f s)) \<and> Q (fst (f s)) (snd (f s))" and "\<And>x. stable (Q x)"
  shows "meets R Q (atomically f) P"
  by (rule meets_atomically) (use assms in \<open>auto simp: stable_def\<close>)

text \<open>Where each task is: what it has still to do meets its postcondition from here.\<close>

definition on_course :: "(nat \<Rightarrow> 'a \<Rightarrow> 'st \<Rightarrow> bool) \<Rightarrow> ('st, 'a) prog list \<Rightarrow> 'st \<Rightarrow> bool" where
  "on_course Q ps s \<longleftrightarrow> (\<forall>i < length ps. \<exists>P. stable P \<and> P s \<and> meets R (Q i) (ps ! i) P)"

lemma on_course_step:
  assumes "par_step (ps, s) (ps', s')" and "on_course Q ps s"
  shows "on_course Q ps' s' \<and> length ps' = length ps \<and> R s s'"
proof -
  from assms(1) obtain i u k where i: "i < length ps" "ps ! i = Atomic u k" "ps' = ps[i := k s]" "s' = u s"
    by (auto elim: par_stepE)
  from assms(2) i(1) obtain P where "P s" "meets R (Q i) (ps ! i) P" unfolding on_course_def by blast
  then have P: "P s" "meets R (Q i) (Atomic u k) P" by (simp_all only: i(2))
  then have r: "R s s'" and own: "meets R (Q i) (k s) (R s')" by (auto simp: i(4))
  have "\<exists>P. stable P \<and> P s' \<and> meets R (Q j) (ps' ! j) P" if j: "j < length ps" for j
  proof (cases "j = i")
    case True
    then show ?thesis using own stable_from evolves_refl i by (intro exI [of _ "R s'"]) simp
  next
    case False
    from assms(2) j obtain P' where "stable P'" "P' s" "meets R (Q j) (ps ! j) P'" by (auto simp: on_course_def)
    with r False show ?thesis by (intro exI [of _ P']) (auto simp: stable_def i(3))
  qed
  with r i(3) show ?thesis by (simp add: on_course_def)
qed

lemma par_run_meets:
  assumes "par_run (ps, s) (ps', s')" and "on_course Q ps s"
  shows "on_course Q ps' s' \<and> length ps' = length ps \<and> R s s'"
  using assms(1)
proof (induction "(ps', s')" arbitrary: ps' s' rule: rtranclp_induct)
  case base
  then show ?case using assms(2) evolves_refl by simp
next
  case (step c)
  obtain qs t where c: "c = (qs, t)" by (cases c)
  from step.hyps(3) [OF c] on_course_step [of qs t ps' s' Q] step.hyps(2) evolves_trans [of s t s']
  show ?case by (simp add: c)
qed

lemma par_run_returned:
  assumes "par_run (ps, s) (ps', s')" and "\<And>i. i < length ps \<Longrightarrow> meets R (Q i) (ps ! i) (R s)"
    and "i < length ps" and "ps' ! i = Return x"
  shows "Q i x s'"
proof -
  have "on_course Q ps s" using assms(2) stable_from evolves_refl by (auto simp: on_course_def)
  from par_run_meets [OF assms(1) this] assms(3) obtain P where "P s'" "meets R (Q i) (ps' ! i) P"
    unfolding on_course_def by metis
  with assms(4) show ?thesis by simp
qed

lemma par_run_evolves:
  assumes "par_run (ps, s) (ps', s')" and "\<And>i. i < length ps \<Longrightarrow> meets R (Q i) (ps ! i) (R s)"
  shows "R s s'" and "length ps' = length ps"
proof -
  have "on_course Q ps s" using assms(2) stable_from evolves_refl by (auto simp: on_course_def)
  from par_run_meets [OF assms(1) this] show "R s s'" "length ps' = length ps" by simp_all
qed

end

end
