(* ===== verification/Server.thy ===== *)
theory Server
  imports Proxy_Start File_Storage
begin

text \<open>
  The server, \<open>src/main.rs\<close>: the log level, the choice of the storage
  (\<open>create_storage\<close> of \<open>storage/mod.rs\<close>), and the start: the admin API listens first, then the
  cluster is joined, the change logs are replayed, the configured resources are applied, and last
  the proxy listens. Parsing and binding an address are parameters. The changes the admin API
  takes while the rest of the start runs are in \<open>Concurrent_Changes\<close>, the program around the start
  in \<open>Server_Main\<close>.
\<close>

section \<open>Logging\<close>

datatype log_level = TRACE | DEBUG | INFO | WARN | ERROR

text \<open>\<open>to_lowercase\<close> is Unicode; no character outside ASCII has an image in one of these names.\<close>

definition log_level_of :: "string \<Rightarrow> log_level" where
  "log_level_of name =
     (let level = to_ascii_lowercase name
      in if level = ''trace'' then TRACE
         else if level = ''debug'' then DEBUG
         else if level = ''info'' then INFO
         else if level = ''warn'' \<or> level = ''warning'' then WARN
         else if level = ''error'' then ERROR
         else INFO)"

section \<open>The storage of the configuration\<close>

text \<open>\<open>FileStorage::new\<close>: \<open>mkdir\<close> is \<open>create_dir_all\<close> and \<open>open_db\<close> is \<open>redb::Database::create\<close>.\<close>

definition file_storage_new :: "(string \<Rightarrow> string + unit) \<Rightarrow> (string \<Rightarrow> string + 'db) \<Rightarrow> string \<Rightarrow> storage_error + 'db" where
  "file_storage_new mkdir open_db path =
     result_bind (case path_parent path of Some parent \<Rightarrow> map_err SE_Io (mkdir parent) | None \<Rightarrow> Ok ()) (\<lambda>_.
       map_err SE_Database (open_db path))"

datatype 'db backend = Memory_Backend mem_storage | File_Backend 'db

text \<open>\<open>create_storage\<close>; None is the panic of \<open>expect\<close>.\<close>

definition create_storage :: "(string \<Rightarrow> string + unit) \<Rightarrow> (string \<Rightarrow> string + 'db) \<Rightarrow> 'j storage_config \<Rightarrow> 'db backend option" where
  "create_storage mkdir open_db config =
     (case stc_storage_type config of
        ST_Memory \<Rightarrow> Some (Memory_Backend mem_new)
      | ST_File \<Rightarrow>
          let dir = (case stc_dir config of Some d \<Rightarrow> d | None \<Rightarrow> ''.dgate/data''); path = dir @ ''/dgate.redb''
          in map_option File_Backend (result_ok (file_storage_new mkdir open_db path)))"

section \<open>The start\<close>

record 'addr listener_env =
  le_parse :: "string \<Rightarrow> string + 'addr"
  le_bind :: "'addr \<Rightarrow> string + unit"

definition host_port :: "string \<Rightarrow> u16 \<Rightarrow> string" where
  "host_port host port = host @ '':'' @ show_nat (unat port)"

text \<open>The addresses listened on so far are kept beside the proxy's state.\<close>

definition listen_on :: "'addr listener_env \<Rightarrow> string \<Rightarrow> string list \<times> 't \<Rightarrow> (string + unit) \<times> (string list \<times> 't)" where
  "listen_on N address st =
     (case result_bind (le_parse N address) (le_bind N) of
        Ok _ \<Rightarrow> (Ok (), (fst st @ [address], snd st))
      | Err e \<Rightarrow> (Err e, st))"

definition on_proxy :: "('t \<Rightarrow> (string + unit) \<times> 't) \<Rightarrow> string list \<times> 't \<Rightarrow> (string + unit) \<times> (string list \<times> 't)" where
  "on_proxy f st = (case f (snd st) of (r, t) \<Rightarrow> (r, (fst st, t)))"

definition start_admin :: "'addr listener_env \<Rightarrow> 'j dgate_config \<Rightarrow> string list \<times> 't \<Rightarrow> (string + unit) \<times> (string list \<times> 't)" where
  "start_admin N config st =
     (case cfg_admin config of
        Some a \<Rightarrow> listen_on N (host_port (ac_host a) (ac_port a)) st
      | None \<Rightarrow> (Ok (), st))"

definition start_server ::
  "('s, 'j, 'r) proxy_env \<Rightarrow> 'j config_env \<Rightarrow> 'addr listener_env \<Rightarrow> (cluster_config \<Rightarrow> 's \<Rightarrow> string + 'n) \<Rightarrow>
   ('n \<Rightarrow> (string + unit) \<times> 'n) \<Rightarrow> ('j changelog \<Rightarrow> 'n \<times> 's \<Rightarrow> (string + 'resp) \<times> ('n \<times> 's)) \<Rightarrow>
   (nat \<Rightarrow> string \<times> datetime) \<Rightarrow> 'j dgate_config \<Rightarrow> 's \<Rightarrow>
   (string + unit) \<times> (string list \<times> ('s, 'j, 'r, 'n) proxy_state)" where
  "start_server E W N new_manager initialize propose stamp config store =
     and_then (start_admin N config ([], proxy_new config store)) (\<lambda>_ st.
     and_then (on_proxy (init_cluster new_manager initialize) st) (\<lambda>_ st.
     and_then (on_proxy (\<lambda>st. map_err_st proxy_error_to_string (restore_from_changelogs E st)) st) (\<lambda>_ st.
     and_then (on_proxy (\<lambda>st. map_err_st proxy_error_to_string (init_from_config E W propose stamp st)) st) (\<lambda>_ st.
       listen_on N (host_port (pc_host (cfg_proxy config)) (pc_port (cfg_proxy config))) st))))"

section \<open>The configured resources\<close>

lemma changelog_new_wf:
  assumes "serde_ok S" and "step \<in> set (init_steps S b W dir init)" and "step stamp = Ok cl"
    and "CHR '':'' \<notin> set (cl_namespace cl)"
  shows "changelog_wf S cl"
proof -
  note item = changelog_new_item [OF serde_ok_route [OF assms(1)] TrueI] changelog_new_item [OF serde_ok_service [OF assms(1)] TrueI]
    changelog_new_item [OF serde_ok_module [OF assms(1)] TrueI]
  show ?thesis
    using assms(2-4) unfolding init_steps_def set_append Un_iff set_map image_iff
    by (elim disjE bexE) (auto simp: init_step_of_def result_bind_eq_Ok changelog_wf_def item case_prod_unfold)
qed

lemma rebuild_ready [simp]:
  "px_ready (snd (rebuild_router E ns st)) = px_ready st"
  "px_ready (snd (rebuild_domains E st)) = px_ready st"
  "px_ready (snd (px_add_module E m st)) = px_ready st"
  "px_ready (px_remove_module ns name st) = px_ready st"
  by (simp_all add: rebuild_router_def rebuild_domains_def px_add_module_def px_remove_module_def case_prod_unfold
      split: sum.splits)

lemma px_after_ready [simp]: "px_ready (snd (px_after E cl st)) = px_ready st"
proof (cases "cl_cmd cl = AddModule")
  case True
  show ?thesis
  proof (cases "from_value (sd_module (ps_serde (pe_store E))) (cl_item cl)")
    case (Inr m)
    then show ?thesis
      using rebuild_ready(3) [of E m st]
      by (cases "px_add_module E m st"; cases "fst (px_add_module E m st)") (auto simp: px_after_def True)
  qed (simp add: px_after_def True)
next
  case False
  then show ?thesis by (cases "cl_cmd cl") (simp_all add: px_after_def)
qed

lemma process_changelog_ready: "px_ready (snd (process_changelog E cl st)) = px_ready st"
  using process_changelog_split [of E cl st]
  by (auto simp: split_change_def Let_def split: if_splits)

lemma apply_standalone_cluster:
  assumes "px_cluster st = None"
  shows "px_cluster (snd (apply_changelog E propose cl st)) = None"
    and "px_config (snd (apply_changelog E propose cl st)) = px_config st"
    and "px_ready (snd (apply_changelog E propose cl st)) = px_ready st"
proof -
  obtain r s where a: "append_changelog (pe_store E) (px_store st) cl = (r, s)" by (rule prod.exhaust)
  let ?q = "process_changelog E cl (with_store st s)"
  have q: "px_cluster (snd ?q) = None" "px_config (snd ?q) = px_config st" "px_ready (snd ?q) = px_ready st"
    using assms process_changelog_frame [of E cl "with_store st s"] process_changelog_ready [of E cl "with_store st s"] by simp_all
  show "px_cluster (snd (apply_changelog E propose cl st)) = None"
    "px_config (snd (apply_changelog E propose cl st)) = px_config st"
    "px_ready (snd (apply_changelog E propose cl st)) = px_ready st"
    using q assms by (cases r; cases ?q; cases "fst ?q"; simp add: apply_standalone [OF assms] a)+
qed

lemma init_steps_inv:
  fixes E :: "(mem_storage, 'j, 'r) proxy_env"
  assumes "ps_storage (pe_store E) = mem_ops place" and "serde_ok (ps_serde (pe_store E))"
  shows "apply_init_steps E propose stamp i steps st = (Ok (), st') \<Longrightarrow>
    \<forall>step \<in> set steps. \<forall>stamp cl. step stamp = Ok cl \<longrightarrow> changelog_wf (ps_serde (pe_store E)) cl \<Longrightarrow>
    px_cluster st = None \<Longrightarrow> px_inv E mem_ok mem_content st \<Longrightarrow>
    px_inv E mem_ok mem_content st' \<and> px_cluster st' = None \<and> px_ready st' = px_ready st"
proof (induction steps arbitrary: i st)
  case (Cons step steps)
  then obtain cl where cl: "step (stamp i) = Ok cl" by (cases "step (stamp i)") auto
  obtain r st1 where a: "apply_changelog E propose cl st = (r, st1)" by (rule prod.exhaust)
  with Cons.prems(1) cl have r: "r = Ok ()" and rest: "apply_init_steps E propose stamp (Suc i) steps st1 = (Ok (), st')"
    by (cases r; simp)+
  have wf: "changelog_wf (ps_serde (pe_store E)) cl" using Cons.prems(2) cl by (meson list.set_intros(1))
  have "px_inv E mem_ok mem_content st1"
    using mem.apply_changelog_inv [OF assms(1) subset_UNIV UNIV_I assms(2) wf Cons.prems(3,4), of propose] a r by simp
  moreover have "px_cluster st1 = None" "px_ready st1 = px_ready st"
    using apply_standalone_cluster [OF Cons.prems(3), of E propose cl] a by simp_all
  ultimately show ?case using Cons.IH [OF rest] Cons.prems(2) by simp
qed simp

lemma replay_cluster:
  "px_cluster (fold (\<lambda>cl st. snd (process_changelog E cl st)) cls st) = px_cluster st"
  "px_config (fold (\<lambda>cl st. snd (process_changelog E cl st)) cls st) = px_config st"
  by (induction cls arbitrary: st) (simp_all add: process_changelog_frame)

lemma restore_standalone:
  assumes "restore_from_changelogs E st = (Ok (), st')"
  shows "px_cluster st' = px_cluster st" and "px_config st' = px_config st" and "px_ready st'"
proof -
  obtain xs where xs: "list_changelogs (pe_store E) (px_store st) = Ok xs"
    using assms by (cases "list_changelogs (pe_store E) (px_store st)") (auto simp: restore_from_changelogs_def)
  obtain r q where e: "ensure_default E (fold (\<lambda>cl st. snd (process_changelog E cl st)) (sort_key cl_timestamp xs) st) = (r, q)"
    by (rule prod.exhaust)
  have q: "px_cluster q = px_cluster st" "px_config q = px_config st"
    using e replay_cluster [of E "sort_key cl_timestamp xs" st]
    by (auto simp: ensure_default_def case_prod_unfold and_then_def split: if_splits sum.splits prod.splits)
  with assms e show "px_cluster st' = px_cluster st" "px_config st' = px_config st" "px_ready st'"
    by (cases r; auto simp: restore_eq [OF xs])+
qed

lemma ensure_default_config: "px_config (snd (ensure_default E st)) = px_config st"
  by (auto simp: ensure_default_def case_prod_unfold and_then_def split: sum.splits)

definition standalone :: "'j dgate_config \<Rightarrow> bool" where
  "standalone config \<longleftrightarrow> (case cfg_cluster config of None \<Rightarrow> True | Some c \<Rightarrow> \<not> cc_enabled c)"

lemma init_cluster_standalone:
  assumes "standalone (px_config st)"
  shows "init_cluster new_manager initialize st = (Ok (), st)"
  using assms by (auto simp: init_cluster_def standalone_def split: option.splits)

definition admin_addresses :: "'j dgate_config \<Rightarrow> string list" where
  "admin_addresses config =
     (case cfg_admin config of Some a \<Rightarrow> [host_port (ac_host a) (ac_port a)] | None \<Rightarrow> [])"

lemma start_admin_cases:
  obtains "start_admin N config ([], t) = (Ok (), (admin_addresses config, t))"
  | e where "start_admin N config ([], t) = (Err e, ([], t))"
proof (cases "cfg_admin config")
  case (Some a)
  then show ?thesis
    using that
    by (cases "result_bind (le_parse N (host_port (ac_host a) (ac_port a))) (le_bind N)")
      (auto simp: start_admin_def admin_addresses_def listen_on_def)
qed (use that(1) in \<open>simp add: start_admin_def admin_addresses_def\<close>)

lemma start_server_after_admin:
  fixes E :: "('s, 'j, 'r) proxy_env" and st1 :: "('s, 'j, 'r, 'n) proxy_state"
  assumes "start_admin N config ([], proxy_new config store :: ('s, 'j, 'r, 'n) proxy_state) = (Ok (), (B, proxy_new config store))"
    and "standalone config" and "restore_from_changelogs E (proxy_new config store) = (r1, st1)"
    and "init_from_config E W propose stamp st1 = (r2, st2)"
  shows "start_server E W N new_manager initialize propose stamp config store =
    (case r1 of Err e \<Rightarrow> (Err (proxy_error_to_string e), (B, st1))
     | Ok _ \<Rightarrow> (case r2 of Err e \<Rightarrow> (Err (proxy_error_to_string e), (B, st2))
        | Ok _ \<Rightarrow> listen_on N (host_port (pc_host (cfg_proxy config)) (pc_port (cfg_proxy config))) (B, st2)))"
proof -
  have cluster: "init_cluster new_manager initialize (proxy_new config store) = (Ok (), proxy_new config store)"
    using assms(2) by (intro init_cluster_standalone) (simp add: proxy_new_def)
  show ?thesis
    using assms(3,4) by (cases r1; cases r2) (simp_all add: start_server_def assms(1) on_proxy_def cluster map_err_st_def)
qed

lemma restore_fresh:
  fixes E :: "(mem_storage, 'j, 'r) proxy_env" and st :: "(mem_storage, 'j, 'r, 'n) proxy_state"
  assumes "ps_storage (pe_store E) = mem_ops place" and "serde_ok (ps_serde (pe_store E))"
    and "restore_from_changelogs E (proxy_new config mem_new) = (Ok (), st)"
  shows "px_inv E mem_ok mem_content st" and "px_cluster st = None" and "px_ready st" and "px_config st = config"
proof -
  let ?st0 = "proxy_new config mem_new :: (mem_storage, 'j, 'r, 'n) proxy_state"
  have ok: "mem_ok (px_store ?st0)" by (simp add: proxy_new_def mem_ok_new)
  have "changelog_table (ps_serde (pe_store E)) [] (mem_content (px_store ?st0) TBL_CHANGELOGS)"
    by (simp add: changelog_table_def proxy_new_def mem_content_new)
  then obtain xs where xs: "list_changelogs (pe_store E) (px_store ?st0) = Ok xs" "sort_key cl_timestamp xs = []"
    using mem.list_changelogs_table [OF assms(1) UNIV_I ok] by (metis sorted_wrt.simps(1) list.simps(8))
  then have eq: "restore_from_changelogs E ?st0 = and_then (ensure_default E ?st0) (\<lambda>_ st. (Ok (), st\<lparr>px_ready := True\<rparr>))"
    by (simp add: restore_eq [OF xs(1)])
  obtain q where "ensure_default E ?st0 = (Ok (), q)" "px_inv E mem_ok mem_content q"
    using mem.ensure_default_spec [OF assms(1) subset_UNIV assms(2) proxy_new_inv] by blast
  with assms(3) eq show "px_inv E mem_ok mem_content st" by (auto simp: px_inv_def)
  show "px_cluster st = None" "px_config st = config" "px_ready st"
    using restore_standalone [OF assms(3)] by (simp_all add: proxy_new_def)
qed

lemma init_from_config_inv:
  fixes E :: "(mem_storage, 'j, 'r) proxy_env"
  assumes "ps_storage (pe_store E) = mem_ops place" and "serde_ok (ps_serde (pe_store E))"
    and "init_from_config E W propose stamp st = (Ok (), st')"
    and "px_inv E mem_ok mem_content st" and "px_cluster st = None" and "px_ready st"
    and "\<And>init step stamp cl. pc_init_resources (cfg_proxy (px_config st)) = Some init \<Longrightarrow>
           step \<in> set (init_steps (ps_serde (pe_store E)) (pe_base64 E) W (cfg_config_dir (px_config st)) init) \<Longrightarrow>
           step stamp = Ok cl \<Longrightarrow> CHR '':'' \<notin> set (cl_namespace cl)"
  shows "px_inv E mem_ok mem_content st' \<and> px_ready st'"
proof (cases "pc_init_resources (cfg_proxy (px_config st))")
  case (Some init)
  let ?steps = "init_steps (ps_serde (pe_store E)) (pe_base64 E) W (cfg_config_dir (px_config st)) init"
  have "\<forall>step \<in> set ?steps. \<forall>stamp cl. step stamp = Ok cl \<longrightarrow> changelog_wf (ps_serde (pe_store E)) cl"
    using changelog_new_wf [OF assms(2)] assms(7) [OF Some] by blast
  moreover have "apply_init_steps E propose stamp 0 ?steps st = (Ok (), st')"
    using assms(3) by (simp add: init_from_config_def Some)
  ultimately show ?thesis using init_steps_inv [OF assms(1,2) _ _ assms(5,4)] assms(6) by blast
qed (use assms(3,4,6) in \<open>simp add: init_from_config_def\<close>)

section \<open>Properties\<close>

text \<open>
  C27. A server that starts serves what its store says: on empty in-memory storage without a
  cluster, with configured resources whose namespaces have no colon, a start that succeeds has the
  proxy ready, its routers in agreement with the store, and listens on the admin address, if there
  is one, and last on the proxy's; and a start that fails has never listened on the proxy's
  address: it got no further than the admin API's.
\<close>

theorem server_start_coherent:
  fixes E :: "(mem_storage, 'j, 'r) proxy_env" and st :: "(mem_storage, 'j, 'r, 'n) proxy_state"
  assumes "ps_storage (pe_store E) = mem_ops place" and "serde_ok (ps_serde (pe_store E))" and "standalone config"
    and "\<And>init step stamp cl. pc_init_resources (cfg_proxy config) = Some init \<Longrightarrow>
           step \<in> set (init_steps (ps_serde (pe_store E)) (pe_base64 E) W (cfg_config_dir config) init) \<Longrightarrow>
           step stamp = Ok cl \<Longrightarrow> CHR '':'' \<notin> set (cl_namespace cl)"
    and "start_server E W N new_manager initialize propose stamp config mem_new = (r, (bound, st))"
  shows "(r = Ok () \<longrightarrow>
            px_ready st \<and> px_inv E mem_ok mem_content st \<and>
            bound = admin_addresses config @ [host_port (pc_host (cfg_proxy config)) (pc_port (cfg_proxy config))]) \<and>
         (r \<noteq> Ok () \<longrightarrow> bound \<in> {[], admin_addresses config})"
proof -
  let ?st0 = "proxy_new config mem_new :: (mem_storage, 'j, 'r, 'n) proxy_state"
  consider (listening) "start_admin N config ([], ?st0) = (Ok (), (admin_addresses config, ?st0))"
    | (failed) e where "start_admin N config ([], ?st0) = (Err e, ([], ?st0))"
    by (rule start_admin_cases)
  then show ?thesis
  proof cases
    case listening
    obtain r1 st1 where restore: "restore_from_changelogs E ?st0 = (r1, st1)" by (rule prod.exhaust)
    obtain r2 st2 where init: "init_from_config E W propose stamp st1 = (r2, st2)" by (rule prod.exhaust)
    note start = start_server_after_admin [OF listening assms(3) restore init, of new_manager initialize, unfolded assms(5)]
    show ?thesis
    proof (cases "r1 = Ok () \<and> r2 = Ok ()")
      case False
      with start show ?thesis by (cases r1; cases r2) auto
    next
      case True
      note fresh = restore_fresh [OF assms(1,2) restore [unfolded conjunct1 [OF True]]]
      have "px_inv E mem_ok mem_content st2 \<and> px_ready st2"
        by (rule init_from_config_inv [OF assms(1,2) _ fresh(1,2,3)]) (use assms(4) init True fresh(4) in auto)
      with start True show ?thesis by (auto simp: listen_on_def split: sum.splits)
    qed
  qed (use assms(5) in \<open>auto simp: start_server_def\<close>)
qed

definition open_listeners :: "string listener_env" where
  "open_listeners = \<lparr>le_parse = Ok, le_bind = (\<lambda>_. Ok ())\<rparr>"

definition sample_start :: "(string + unit) \<times> (string list \<times> (mem_storage, string, rx list, unit) proxy_state)" where
  "sample_start =
     start_server sample_env sample_config_env open_listeners (\<lambda>_ _. Err ''no manager'') (\<lambda>n. (Ok (), n)) no_cluster
       (\<lambda>i. (show_nat i, int i)) (dgate_config_default sample_config_env) mem_new"

lemma sample_start_ok: "fst sample_start = Ok ()"
  by code_simp

theorem server_start_coherent_witness:
  "px_ready (snd (snd sample_start)) \<and> px_inv sample_env mem_ok mem_content (snd (snd sample_start)) \<and>
   fst (snd sample_start) = [''0.0.0.0:80'']"
proof -
  obtain r bound st where start: "sample_start = (r, (bound, st))" by (metis prod.collapse)
  have r: "r = Ok ()" using sample_start_ok unfolding start by (rule trans [OF fst_conv [symmetric]])
  have "standalone (dgate_config_default sample_config_env)" by (simp add: standalone_def dgate_config_default_def)
  moreover have "pc_init_resources (cfg_proxy (dgate_config_default sample_config_env)) = None"
    by (simp add: dgate_config_default_def proxy_config_default_def)
  moreover have "admin_addresses (dgate_config_default sample_config_env) = []"
    "host_port (pc_host (cfg_proxy (dgate_config_default sample_config_env)))
       (pc_port (cfg_proxy (dgate_config_default sample_config_env))) = ''0.0.0.0:80''"
    by code_simp+
  ultimately show ?thesis
    using server_start_coherent [OF sample_env_sel(1) _ _ _ start [unfolded sample_start_def]] r
    by (simp add: sample_serde_ok start)
qed

end
