(* ===== verification/Concurrent_Changes.thy ===== *)
theory Concurrent_Changes
  imports Interleaving Server
begin

text \<open>
  The changes of \<open>src/proxy/mod.rs\<close> as tasks that run at the same time: the handlers of the admin
  API run on several threads, and the start of \<open>main.rs\<close> replays the log while the admin API
  already answers. The programs are those of \<open>Proxy\<close> cut where they touch shared state: one
  operation of the store, one update of a cache, and one proposal to the cluster is an atomic
  action. The lock of the executor, which an added module holds while the router is rebuilt, is
  left out, so the tasks interleave in more ways than in the code.
\<close>

section \<open>The programs\<close>

type_synonym ('s, 'j, 'r, 'n, 'a) task = "(('s, 'j, 'r, 'n) proxy_state, proxy_error + 'a) prog"

definition store_read :: "('s \<Rightarrow> storage_error + 'a) \<Rightarrow> ('s, 'j, 'r, 'n, 'a) task" where
  "store_read f = atomically (\<lambda>st. (map_err px_storage_error (f (px_store st)), st))"

definition store_write :: "('s \<Rightarrow> (storage_error + unit) \<times> 's) \<Rightarrow> ('s, 'j, 'r, 'n, unit) task" where
  "store_write f =
     atomically (\<lambda>st. case f (px_store st) of (r, s) \<Rightarrow> (map_err px_storage_error r, with_store st s))"

fun get_modules_task :: "('s, 'j, 'r) proxy_env \<Rightarrow> string \<Rightarrow> string list \<Rightarrow> ('s, 'j, 'r, 'n, module list) task" where
  "get_modules_task E namespace [] = Return (Ok [])"
| "get_modules_task E namespace (mod_name # rest) =
     attempt (store_read (\<lambda>s. get_module (pe_store E) s namespace mod_name)) (\<lambda>found.
     attempt (get_modules_task E namespace rest) (\<lambda>modules.
     Return (Ok (case found of Some m \<Rightarrow> m # modules | None \<Rightarrow> modules))))"

definition compile_route_task ::
  "('s, 'j, 'r) proxy_env \<Rightarrow> string \<Rightarrow> namespace \<Rightarrow> route \<Rightarrow> ('s, 'j, 'r, 'n, 'r compiled_route) task" where
  "compile_route_task E namespace ns route =
     attempt
       (case rt_service route of
          Some service_name \<Rightarrow> store_read (\<lambda>s. get_service (pe_store E) s namespace service_name)
        | None \<Rightarrow> Return (Ok None)) (\<lambda>service.
     attempt (get_modules_task E namespace (rt_modules route)) (\<lambda>modules.
     Return (Ok \<lparr>cpr_route = route, cpr_namespace = ns, cpr_service = service, cpr_modules = modules,
         cpr_path_patterns =
           List.map_filter (\<lambda>p. result_ok (compile_path_pattern (pe_alphanumeric E) (pe_regex E) p)) (rt_paths route),
         cpr_methods = rt_methods route\<rparr>)))"

fun add_routes_task ::
  "('s, 'j, 'r) proxy_env \<Rightarrow> string \<Rightarrow> namespace \<Rightarrow> route list \<Rightarrow> 'r ns_router \<Rightarrow> ('s, 'j, 'r, 'n, 'r ns_router) task" where
  "add_routes_task E namespace ns [] router = Return (Ok router)"
| "add_routes_task E namespace ns (route # routes) router =
     attempt (compile_route_task E namespace ns route) (\<lambda>compiled.
       add_routes_task E namespace ns routes (ns_router_add compiled router))"

definition build_router_task ::
  "('s, 'j, 'r) proxy_env \<Rightarrow> string \<Rightarrow> ('s, 'j, 'r, 'n, 'r ns_router) task" where
  "build_router_task E namespace =
     attempt (store_read (\<lambda>s. get_namespace (pe_store E) s namespace)) (\<lambda>found.
     case found of
       None \<Rightarrow> Return (Err (PE_NotFound (''Namespace '' @ namespace @ '' not found'')))
     | Some ns \<Rightarrow>
     attempt (store_read (\<lambda>s. list_routes (pe_store E) s namespace)) (\<lambda>routes.
       add_routes_task E namespace ns routes (ns_router_new ns)))"

definition publish_router :: "string \<Rightarrow> 'r ns_router \<Rightarrow> ('s, 'j, 'r, 'n, unit) task" where
  "publish_router namespace router =
     atomically (\<lambda>st. (Ok (), st\<lparr>px_routers := (px_routers st)(namespace \<mapsto> router)\<rparr>))"

definition rebuild_router_task :: "('s, 'j, 'r) proxy_env \<Rightarrow> string \<Rightarrow> ('s, 'j, 'r, 'n, unit) task" where
  "rebuild_router_task E namespace = attempt (build_router_task E namespace) (publish_router namespace)"

fun resolve_domains_task ::
  "('s, 'j, 'r) proxy_env \<Rightarrow> domain list \<Rightarrow> ('s, 'j, 'r, 'n, resolved_domain list) task" where
  "resolve_domains_task E [] = Return (Ok [])"
| "resolve_domains_task E (d # ds) =
     attempt (store_read (\<lambda>s. get_namespace (pe_store E) s (dom_namespace d))) (\<lambda>found.
     attempt (resolve_domains_task E ds) (\<lambda>resolved.
     Return (Ok (case found of
           Some ns \<Rightarrow> \<lparr>rd_domain = d, rd_namespace = ns\<rparr> # resolved
         | None \<Rightarrow> resolved))))"

definition rebuild_domains_task :: "('s, 'j, 'r) proxy_env \<Rightarrow> ('s, 'j, 'r, 'n, unit) task" where
  "rebuild_domains_task E =
     attempt (store_read (\<lambda>s. list_all_domains (pe_store E) s)) (\<lambda>all_domains.
     attempt (resolve_domains_task E all_domains) (\<lambda>resolved.
     atomically (\<lambda>st. (Ok (), st\<lparr>px_domains := sort_domains resolved\<rparr>))))"

definition set_task ::
  "('j, 't) codec \<Rightarrow> ('s \<Rightarrow> 't \<Rightarrow> (storage_error + unit) \<times> 's) \<Rightarrow> 'j \<Rightarrow> ('s, 'j, 'r, 'n, 't) task" where
  "set_task c setter item =
     (case map_err PE_Deserialization (from_value c item) of
        Err e \<Rightarrow> Return (Err e)
      | Ok x \<Rightarrow> attempt (store_write (\<lambda>s. setter s x)) (\<lambda>_. Return (Ok x)))"

definition process_task :: "('s, 'j, 'r) proxy_env \<Rightarrow> 'j changelog \<Rightarrow> ('s, 'j, 'r, 'n, unit) task" where
  "process_task E cl =
     (let P = pe_store E; S = ps_serde P; item = cl_item cl; ns = cl_namespace cl; name = cl_name cl
      in case cl_cmd cl of
        AddNamespace \<Rightarrow> attempt (set_task (sd_namespace S) (set_namespace P) item) (\<lambda>_. Return (Ok ()))
      | DeleteNamespace \<Rightarrow>
          attempt (store_write (\<lambda>s. delete_namespace P s name)) (\<lambda>_.
            atomically (\<lambda>st. (Ok (), st\<lparr>px_routers := (px_routers st)(name := None)\<rparr>)))
      | AddRoute \<Rightarrow> attempt (set_task (sd_route S) (set_route P) item) (\<lambda>_. rebuild_router_task E ns)
      | DeleteRoute \<Rightarrow> attempt (store_write (\<lambda>s. delete_route P s ns name)) (\<lambda>_. rebuild_router_task E ns)
      | AddService \<Rightarrow> attempt (set_task (sd_service S) (set_service P) item) (\<lambda>_. rebuild_router_task E ns)
      | DeleteService \<Rightarrow> attempt (store_write (\<lambda>s. delete_service P s ns name)) (\<lambda>_. rebuild_router_task E ns)
      | AddModule \<Rightarrow>
          attempt (set_task (sd_module S) (set_module P) item) (\<lambda>m.
          attempt (atomically (\<lambda>st. map_err_st (PE_Module \<circ> module_error_to_string) (px_add_module E m st))) (\<lambda>_.
            rebuild_router_task E ns))
      | DeleteModule \<Rightarrow>
          attempt (store_write (\<lambda>s. delete_module P s ns name)) (\<lambda>_.
          attempt (atomically (\<lambda>st. (Ok (), px_remove_module ns name st))) (\<lambda>_.
            rebuild_router_task E ns))
      | AddDomain \<Rightarrow> attempt (set_task (sd_domain S) (set_domain P) item) (\<lambda>_. rebuild_domains_task E)
      | DeleteDomain \<Rightarrow> attempt (store_write (\<lambda>s. delete_domain P s ns name)) (\<lambda>_. rebuild_domains_task E)
      | AddSecret \<Rightarrow> attempt (set_task (sd_secret S) (set_secret P) item) (\<lambda>_. Return (Ok ()))
      | DeleteSecret \<Rightarrow> store_write (\<lambda>s. delete_secret P s ns name)
      | AddCollection \<Rightarrow> attempt (set_task (sd_collection S) (set_collection P) item) (\<lambda>_. Return (Ok ()))
      | DeleteCollection \<Rightarrow> store_write (\<lambda>s. delete_collection P s ns name)
      | AddDocument \<Rightarrow> attempt (set_task (sd_document S) (set_document P) item) (\<lambda>_. Return (Ok ()))
      | DeleteDocument \<Rightarrow>
          (case map_err PE_Deserialization (from_value (sd_document S) item) of
             Err e \<Rightarrow> Return (Err e)
           | Ok doc \<Rightarrow> store_write (\<lambda>s. delete_document P s ns (doc_collection doc) name)))"

definition count_change :: "('s, 'j, 'r, 'n, unit) task" where
  "count_change = atomically (\<lambda>st. (Ok (), st\<lparr>px_change_hash := px_change_hash st + 1\<rparr>))"

definition standalone_task :: "('s, 'j, 'r) proxy_env \<Rightarrow> 'j changelog \<Rightarrow> ('s, 'j, 'r, 'n, unit) task" where
  "standalone_task E cl =
     attempt (store_write (\<lambda>s. append_changelog (pe_store E) s cl)) (\<lambda>_.
     attempt (process_task E cl) (\<lambda>_. count_change))"

text \<open>The cluster is never given up, so the one that is asked is the one that was found.\<close>

definition change_task ::
  "('s, 'j, 'r) proxy_env \<Rightarrow> ('j changelog \<Rightarrow> 'n \<times> 's \<Rightarrow> (string + 'resp) \<times> ('n \<times> 's)) \<Rightarrow> 'j changelog \<Rightarrow>
   ('s, 'j, 'r, 'n, unit) task" where
  "change_task E propose cl =
     followed_by (atomically (\<lambda>st. (px_cluster st, st))) (\<lambda>found.
     case found of
       Some cluster \<Rightarrow>
         atomically (\<lambda>st.
           case propose cl (case px_cluster st of Some c \<Rightarrow> c | None \<Rightarrow> cluster, px_store st) of
             (r, cluster, s) \<Rightarrow>
               (result_bind (map_err PE_Cluster r) (\<lambda>_. Ok ()), st\<lparr>px_cluster := Some cluster, px_store := s\<rparr>))
     | None \<Rightarrow> standalone_task E cl)"

section \<open>The start\<close>

fun replay_task :: "('s, 'j, 'r) proxy_env \<Rightarrow> 'j changelog list \<Rightarrow> ('s, 'j, 'r, 'n, unit) task" where
  "replay_task E [] = Return (Ok ())"
| "replay_task E (cl # cls) = followed_by (process_task E cl) (\<lambda>_. replay_task E cls)"

definition ensure_default_task :: "('s, 'j, 'r) proxy_env \<Rightarrow> ('s, 'j, 'r, 'n, unit) task" where
  "ensure_default_task E =
     attempt (atomically (\<lambda>st.
       (Ok (\<not> cfg_disable_default_namespace (px_config st) \<and>
            (case get_namespace (pe_store E) (px_store st) ''default'' of Ok (Some _) \<Rightarrow> False | _ \<Rightarrow> True)), st))) (\<lambda>missing.
     if missing then
       attempt (store_write (\<lambda>s. set_namespace (pe_store E) s default_namespace)) (\<lambda>_.
       followed_by (rebuild_router_task E ''default'') (\<lambda>_. Return (Ok ())))
     else Return (Ok ()))"

definition replay_from_task :: "('s, 'j, 'r) proxy_env \<Rightarrow> 'j changelog list \<Rightarrow> ('s, 'j, 'r, 'n, unit) task" where
  "replay_from_task E changelogs =
     attempt (replay_task E (sort_key cl_timestamp changelogs)) (\<lambda>_.
     attempt (ensure_default_task E) (\<lambda>_.
     atomically (\<lambda>st. (Ok (), st\<lparr>px_ready := True\<rparr>))))"

definition restore_task :: "('s, 'j, 'r) proxy_env \<Rightarrow> ('s, 'j, 'r, 'n, unit) task" where
  "restore_task E = attempt (store_read (\<lambda>s. list_changelogs (pe_store E) s)) (replay_from_task E)"

fun init_steps_task ::
  "('s, 'j, 'r) proxy_env \<Rightarrow> ('j changelog \<Rightarrow> 'n \<times> 's \<Rightarrow> (string + 'resp) \<times> ('n \<times> 's)) \<Rightarrow>
   (nat \<Rightarrow> string \<times> datetime) \<Rightarrow> nat \<Rightarrow> 'j init_step list \<Rightarrow> ('s, 'j, 'r, 'n, unit) task" where
  "init_steps_task E propose stamp i [] = Return (Ok ())"
| "init_steps_task E propose stamp i (step # steps) =
     (case step (stamp i) of
        Err e \<Rightarrow> Return (Err e)
      | Ok cl \<Rightarrow> attempt (change_task E propose cl) (\<lambda>_. init_steps_task E propose stamp (Suc i) steps))"

definition init_from_config_task ::
  "('s, 'j, 'r) proxy_env \<Rightarrow> 'j config_env \<Rightarrow> ('j changelog \<Rightarrow> 'n \<times> 's \<Rightarrow> (string + 'resp) \<times> ('n \<times> 's)) \<Rightarrow>
   (nat \<Rightarrow> string \<times> datetime) \<Rightarrow> ('s, 'j, 'r, 'n, unit) task" where
  "init_from_config_task E W propose stamp =
     followed_by (atomically (\<lambda>st. (px_config st, st))) (\<lambda>config.
     case pc_init_resources (cfg_proxy config) of
       None \<Rightarrow> Return (Ok ())
     | Some init \<Rightarrow>
         init_steps_task E propose stamp 0
           (init_steps (ps_serde (pe_store E)) (pe_base64 E) W (cfg_config_dir config) init))"

definition start_task ::
  "('s, 'j, 'r) proxy_env \<Rightarrow> 'j config_env \<Rightarrow> ('j changelog \<Rightarrow> 'n \<times> 's \<Rightarrow> (string + 'resp) \<times> ('n \<times> 's)) \<Rightarrow>
   (nat \<Rightarrow> string \<times> datetime) \<Rightarrow> ('s, 'j, 'r, 'n, unit) task" where
  "start_task E W propose stamp =
     attempt (restore_task E) (\<lambda>_. init_from_config_task E W propose stamp)"

section \<open>A task alone\<close>

lemma run_store_read [simp]: "run_alone (store_read f) st = (map_err px_storage_error (f (px_store st)), st)"
  by (simp add: store_read_def)

lemma run_store_write [simp]: "run_alone (store_write f) st = px_delete f st"
  by (simp add: store_write_def px_delete_def)

lemma map_filter_id: "List.map_filter id (x # xs) = (case x of Some y \<Rightarrow> y # List.map_filter id xs | None \<Rightarrow> List.map_filter id xs)"
  by (simp add: List.map_filter_simps)

lemma run_get_modules [simp]:
  "run_alone (get_modules_task E ns names) st =
     (result_bind (collect_results (map (\<lambda>n. map_err px_storage_error (get_module (pe_store E) (px_store st) ns n)) names))
       (\<lambda>found. Ok (List.map_filter id found)), st)"
proof (induction names)
  case (Cons n names)
  show ?case
    by (cases "get_module (pe_store E) (px_store st) ns n";
        cases "collect_results (map (\<lambda>n. map_err px_storage_error (get_module (pe_store E) (px_store st) ns n)) names)")
      (simp_all add: Cons map_filter_id)
qed simp

lemma run_compile_route [simp]:
  "run_alone (compile_route_task E ns n route) st = (compile_route E (px_store st) ns n route, st)"
proof (cases "rt_service route")
  case None
  show ?thesis
    by (cases "collect_results (map (\<lambda>n. map_err px_storage_error (get_module (pe_store E) (px_store st) ns n)) (rt_modules route))")
      (simp_all add: compile_route_task_def compile_route_def None)
next
  case (Some name)
  show ?thesis
    by (cases "get_service (pe_store E) (px_store st) ns name";
        cases "collect_results (map (\<lambda>n. map_err px_storage_error (get_module (pe_store E) (px_store st) ns n)) (rt_modules route))")
      (simp_all add: compile_route_task_def compile_route_def Some)
qed

lemma run_add_routes [simp]:
  "run_alone (add_routes_task E ns n routes router) st =
     (result_bind (collect_results (map (compile_route E (px_store st) ns n) routes))
       (\<lambda>compiled. Ok (fold ns_router_add compiled router)), st)"
proof (induction routes arbitrary: router)
  case (Cons route routes)
  show ?case
    by (cases "compile_route E (px_store st) ns n route";
        cases "collect_results (map (compile_route E (px_store st) ns n) routes)") (simp_all add: Cons)
qed simp

lemma run_build_router [simp]: "run_alone (build_router_task E ns) st = (compute_router E (px_store st) ns, st)"
proof (cases "get_namespace (pe_store E) (px_store st) ns")
  case (Inr found)
  then show ?thesis
    by (cases found; cases "list_routes (pe_store E) (px_store st) ns") (simp_all add: build_router_task_def compute_router_def)
qed (simp add: build_router_task_def compute_router_def)

lemma run_rebuild_router [simp]: "run_alone (rebuild_router_task E ns) = rebuild_router E ns"
proof
  fix st
  show "run_alone (rebuild_router_task E ns) st = rebuild_router E ns st"
    by (cases "compute_router E (px_store st) ns")
      (simp_all add: rebuild_router_task_def publish_router_def rebuild_router_def)
qed

lemma run_resolve_domains [simp]:
  "run_alone (resolve_domains_task E ds) st = (resolve_domains E (px_store st) ds, st)"
proof (induction ds)
  case (Cons d ds)
  show ?case
    by (cases "get_namespace (pe_store E) (px_store st) (dom_namespace d)"; cases "resolve_domains E (px_store st) ds")
      (simp_all add: Cons split: option.split)
qed simp

lemma run_rebuild_domains [simp]: "run_alone (rebuild_domains_task E) = rebuild_domains E"
proof
  fix st
  show "run_alone (rebuild_domains_task E) st = rebuild_domains E st"
  proof (cases "list_all_domains (pe_store E) (px_store st)")
    case (Inr all)
    then show ?thesis
      by (cases "resolve_domains E (px_store st) all") (simp_all add: rebuild_domains_task_def rebuild_domains_def compute_domains_def)
  qed (simp add: rebuild_domains_task_def rebuild_domains_def compute_domains_def)
qed

lemma run_set_task [simp]: "run_alone (set_task c setter item) st = px_set c setter item st"
proof (cases "from_value c item")
  case (Inr x)
  then show ?thesis
    by (cases "setter (px_store st) x"; cases "fst (setter (px_store st) x)") (auto simp: set_task_def px_set_def px_delete_def)
qed (simp add: set_task_def px_set_def)

text \<open>The same for a continuation, which is not applied to a state.\<close>

lemma run_funs:
  "run_alone (Return x) = (\<lambda>st. (x, st))"
  "run_alone (attempt p k) = (\<lambda>st. and_then (run_alone p st) (\<lambda>x. run_alone (k x)))"
  "run_alone (followed_by p k') = (\<lambda>st. run_alone (k' (fst (run_alone p st))) (snd (run_alone p st)))"
  "run_alone (atomically f) = f"
  by (rule ext, simp add: case_prod_unfold)+

lemma run_process: "run_alone (process_task E cl) = process_changelog E cl"
  by (rule ext, cases "cl_cmd cl"; cases "from_value (sd_document (ps_serde (pe_store E))) (cl_item cl)")
    (simp_all add: process_task_def process_changelog_def Let_def run_funs)

lemma run_change: "run_alone (change_task E propose cl) = apply_changelog E propose cl"
proof
  fix st
  show "run_alone (change_task E propose cl) st = apply_changelog E propose cl st"
  proof (cases "px_cluster st")
    case None
    then show ?thesis
      by (cases "append_changelog (pe_store E) (px_store st) cl")
        (simp add: change_task_def standalone_task_def count_change_def apply_changelog_def px_delete_def run_process run_funs)
  qed (simp add: change_task_def apply_changelog_def)
qed

lemma run_replay: "run_alone (replay_task E cls) st = (Ok (), fold (\<lambda>cl st. snd (process_changelog E cl st)) cls st)"
  by (induction cls arbitrary: st) (simp_all add: run_process case_prod_unfold)

lemma run_ensure_default: "run_alone (ensure_default_task E) = ensure_default E"
  by (rule ext)
    (simp add: ensure_default_task_def ensure_default_def px_delete_def run_funs case_prod_unfold)

lemma run_replay_from:
  "run_alone (replay_from_task E xs) st =
    and_then (ensure_default E (fold (\<lambda>cl st. snd (process_changelog E cl st)) (sort_key cl_timestamp xs) st))
      (\<lambda>_ st. (Ok (), st\<lparr>px_ready := True\<rparr>))"
  by (simp add: replay_from_task_def run_replay run_ensure_default run_funs)

lemma run_restore: "run_alone (restore_task E) st = restore_from_changelogs E st"
proof (cases "list_changelogs (pe_store E) (px_store st)")
  case (Inr xs)
  then show ?thesis by (simp add: restore_task_def restore_eq run_replay_from)
qed (simp add: restore_task_def restore_from_changelogs_def)

lemma run_init_steps: "run_alone (init_steps_task E propose stamp i steps) = apply_init_steps E propose stamp i steps"
proof (induction steps arbitrary: i)
  case (Cons step steps)
  show ?case
    by (rule ext, cases "step (stamp i)") (simp_all add: run_change Cons run_funs)
qed (simp add: fun_eq_iff)

lemma run_init_from_config:
  "run_alone (init_from_config_task E W propose stamp) st = init_from_config E W propose stamp st"
  by (simp add: init_from_config_task_def init_from_config_def run_init_steps split: option.split)

lemma run_start:
  "run_alone (start_task E W propose stamp) st =
     and_then (restore_from_changelogs E st) (\<lambda>_. init_from_config E W propose stamp)"
  by (simp add: start_task_def run_restore) (simp add: and_then_def run_init_from_config split: prod.split sum.split)

end
