(* ===== verification/Concurrent_Facts.thy ===== *)
theory Concurrent_Facts
  imports Concurrent_Changes Gateway
begin

text \<open>
  What concurrent changes keep and what they can lose. Kept: a task alone is the operation of
  \<open>Proxy\<close>; every change that returns is logged and, unless another change writes the same entry,
  stored; routers rebuilt after the last write show the store. Lost: the router of a namespace
  can miss a stored route, a delete during the start can be undone, and the log can order two
  changes differently than the store had them.
\<close>

section \<open>One write, then caches\<close>

abbreviation persistent :: "('s, 'j, 'r, 'n) proxy_state \<Rightarrow> 's \<times> 'n option" where
  "persistent st \<equiv> (px_store st, px_cluster st)"

lemma leaves_store_read [simp]: "leaves v (store_read f)"
  by (simp add: store_read_def leaves_atomically)

lemma reads_only_store_read [simp]: "reads_only px_store (store_read f)"
  by (auto simp: store_read_def atomically_def determined_def fun_eq_iff)

lemma reads_only_build [simp]: "reads_only px_store (build_router_task E ns)"
proof -
  have modules: "reads_only px_store (get_modules_task E ns names)" for names
    by (induction names) (auto intro!: reads_only_attempt)
  have route: "reads_only px_store (compile_route_task E ns n route)" for n route
    unfolding compile_route_task_def by (auto intro!: reads_only_attempt modules split: option.split)
  have "reads_only px_store (add_routes_task E ns n routes router)" for n routes router
    by (induction routes arbitrary: router) (auto intro!: reads_only_attempt route)
  then show ?thesis
    unfolding build_router_task_def by (auto intro!: reads_only_attempt split: option.split)
qed

lemma leaves_rebuild [simp]: "leaves persistent (rebuild_router_task E ns)"
  unfolding rebuild_router_task_def publish_router_def
  by (intro leaves_attempt reads_only_leaves [OF reads_only_build]) (simp add: leaves_atomically)

lemma leaves_domains [simp]: "leaves persistent (rebuild_domains_task E)"
proof -
  have "leaves persistent (resolve_domains_task E ds)" for ds
    by (induction ds) (auto intro!: leaves_attempt)
  then show ?thesis
    unfolding rebuild_domains_task_def by (intro leaves_attempt) (simp_all add: leaves_atomically)
qed

lemma leaves_executor [simp]:
  "leaves persistent (atomically (\<lambda>st. map_err_st f (px_add_module E m st)))"
  "leaves persistent (atomically (\<lambda>st. (r, px_remove_module ns name st)))"
  "leaves persistent count_change"
  by (simp_all add: leaves_atomically count_change_def)

text \<open>A processed change stops before it writes, or writes what \<open>store_change\<close> writes and then only caches.\<close>

definition writes_once :: "('s, 'j, 'r) proxy_env \<Rightarrow> 'j changelog \<Rightarrow> ('s, 'j, 'r, 'n, unit) task \<Rightarrow> bool" where
  "writes_once E cl p \<longleftrightarrow>
     (\<exists>e. p = Return (Err e) \<and> \<not> is_ok (change_effect (ps_serde (pe_store E)) cl)) \<or>
     (\<exists>f k. p = attempt (store_write f) k \<and> leaves persistent (k ()) \<and>
        (\<forall>s. snd (f s) = snd (store_change (pe_store E) s cl) \<and>
             is_ok (fst (f s)) = is_ok (fst (store_change (pe_store E) s cl))))"

lemma writes_onceI:
  assumes "leaves persistent (k ())"
    and "\<And>s. snd (f s) = snd (store_change (pe_store E) s cl) \<and>
              is_ok (fst (f s)) = is_ok (fst (store_change (pe_store E) s cl))"
  shows "writes_once E cl (attempt (store_write f) k)"
  using assms unfolding writes_once_def by blast

lemma attempt_set_task:
  "attempt (set_task c setter item) k =
     (case from_value c item of
        Err e \<Rightarrow> Return (Err (PE_Deserialization e))
      | Ok x \<Rightarrow> attempt (store_write (\<lambda>s. setter s x)) (\<lambda>_. k x))"
  by (simp add: set_task_def attempt_attempt split: sum.split)

lemma writes_once_set:
  assumes "\<And>s. store_change (pe_store E) s cl = change_add c setter msg (cl_item cl) s"
    and "\<And>x. leaves persistent (k x)"
    and "\<And>e. from_value c (cl_item cl) = Err e \<Longrightarrow> \<not> is_ok (change_effect (ps_serde (pe_store E)) cl)"
  shows "writes_once E cl (attempt (set_task c setter (cl_item cl)) k)"
proof (cases "from_value c (cl_item cl)")
  case (Inr x)
  have "snd (setter s x) = snd (change_add c setter msg (cl_item cl) s) \<and>
      is_ok (fst (setter s x)) = is_ok (fst (change_add c setter msg (cl_item cl) s))" for s
    by (cases "setter s x"; cases "fst (setter s x)") (auto simp: change_add_def Inr)
  then have "writes_once E cl (attempt (store_write (\<lambda>s. setter s x)) (\<lambda>_. k x))"
    using assms(1,2) by (intro writes_onceI) simp_all
  then show ?thesis by (simp add: attempt_set_task Inr)
qed (use assms(3) in \<open>auto simp: writes_once_def attempt_set_task\<close>)

lemma writes_once_delete:
  assumes "\<And>s. store_change (pe_store E) s cl = change_delete f msg s" and "leaves persistent (k ())"
  shows "writes_once E cl (attempt (store_write f) k)"
proof -
  have "snd (f s) = snd (change_delete f msg s) \<and> is_ok (fst (f s)) = is_ok (fst (change_delete f msg s))" for s
    by (cases "f s"; cases "fst (f s)") (auto simp: change_delete_def)
  then show ?thesis using assms by (intro writes_onceI) simp_all
qed

lemma followed_by_Return: "followed_by p Return = p"
  by (induction p) simp_all

lemma attempt_Return_unit: "attempt p (\<lambda>_. Return (Ok ())) = (p :: ('st, 'e + unit) prog)"
proof -
  have "(\<lambda>r :: 'e + unit. case r of Err e \<Rightarrow> Return (Err e) | Ok _ \<Rightarrow> Return (Ok ())) = (Return :: 'e + unit \<Rightarrow> ('st, 'e + unit) prog)"
    by (rule ext) (simp split: sum.split)
  then show ?thesis by (simp only: attempt_def followed_by_Return)
qed

lemma writes_once_delete_only:
  assumes "\<And>s. store_change (pe_store E) s cl = change_delete f msg s"
  shows "writes_once E cl (store_write f)"
  using writes_once_delete [OF assms, of "\<lambda>_. Return (Ok ())"] by (simp add: attempt_Return_unit)

lemma process_writes_once: "writes_once E cl (process_task E cl)"
proof (cases "cl_cmd cl = DeleteDocument")
  case True
  show ?thesis
  proof (cases "from_value (sd_document (ps_serde (pe_store E))) (cl_item cl)")
    case (Inl e)
    with True show ?thesis by (simp add: writes_once_def process_task_def Let_def change_effect_def)
  next
    case (Inr doc)
    have "writes_once E cl
        (store_write (\<lambda>s. delete_document (pe_store E) s (cl_namespace cl) (doc_collection doc) (cl_name cl)))"
      by (rule writes_once_delete_only [where msg = "deleted ''Document'' (cl_name cl)"])
        (simp add: store_change_cmds True Inr)
    with True Inr show ?thesis by (simp add: process_task_def Let_def)
  qed
next
  case False
  show ?thesis
    by (cases "cl_cmd cl")
      (use False in \<open>auto simp: process_task_def Let_def leaves_atomically change_effect_def put_effect_def
        intro!: writes_once_set [OF store_change_cmds(1)] writes_once_delete [OF store_change_cmds(2)]
          writes_once_set [OF store_change_cmds(3)] writes_once_delete [OF store_change_cmds(4)]
          writes_once_set [OF store_change_cmds(5)] writes_once_delete [OF store_change_cmds(6)]
          writes_once_set [OF store_change_cmds(7)] writes_once_delete [OF store_change_cmds(8)]
          writes_once_set [OF store_change_cmds(9)] writes_once_delete [OF store_change_cmds(10)]
          writes_once_set [OF store_change_cmds(11)] writes_once_delete_only [OF store_change_cmds(12)]
          writes_once_set [OF store_change_cmds(13)] writes_once_delete_only [OF store_change_cmds(14)]
          writes_once_set [OF store_change_cmds(15)] leaves_attempt\<close>)
qed

section \<open>What a run of changes keeps\<close>

definition logged :: "'j serde \<Rightarrow> 'j changelog \<Rightarrow> kv \<Rightarrow> bool" where
  "logged S cl m \<longleftrightarrow> (\<exists>b. m TBL_CHANGELOGS (cl_id cl) = Some b \<and> from_slice (sd_changelog S) b = Ok cl)"

definition took_effect :: "'j serde \<Rightarrow> 'j changelog \<Rightarrow> kv \<Rightarrow> bool" where
  "took_effect S cl m \<longleftrightarrow>
     (\<exists>w msg. change_effect S cl = Ok (w, msg) \<and> m (write_table w) (write_key w) = write_value w)"

text \<open>Another change of the run writes the same entry.\<close>

definition contested :: "'j serde \<Rightarrow> 'j changelog list \<Rightarrow> 'j changelog \<Rightarrow> bool" where
  "contested S cls cl \<longleftrightarrow>
     (\<exists>cl' \<in> set cls. cl_id cl' \<noteq> cl_id cl \<and>
        (\<exists>w msg w' msg'. change_effect S cl = Ok (w, msg) \<and> change_effect S cl' = Ok (w', msg') \<and>
           write_table w' = write_table w \<and> write_key w' = write_key w))"

definition store_inv ::
  "('s, 'j, 'r) proxy_env \<Rightarrow> ('s \<Rightarrow> bool) \<Rightarrow> ('s \<Rightarrow> kv) \<Rightarrow> ('s, 'j, 'r, 'n) proxy_state \<Rightarrow> bool" where
  "store_inv E ok content st \<longleftrightarrow>
     ok (px_store st) \<and> resource_wf (ps_serde (pe_store E)) (content (px_store st)) \<and> px_cluster st = None"

definition changes_kept ::
  "('s, 'j, 'r) proxy_env \<Rightarrow> ('s \<Rightarrow> bool) \<Rightarrow> ('s \<Rightarrow> kv) \<Rightarrow> 'j changelog list \<Rightarrow>
   ('s, 'j, 'r, 'n) proxy_state \<Rightarrow> ('s, 'j, 'r, 'n) proxy_state \<Rightarrow> bool" where
  "changes_kept E ok content cls s t \<longleftrightarrow>
     (store_inv E ok content s \<longrightarrow>
        store_inv E ok content t \<and>
        (let S = ps_serde (pe_store E); m = content (px_store s); m' = content (px_store t)
         in \<forall>cl \<in> set cls. (logged S cl m \<longrightarrow> logged S cl m') \<and>
              (\<not> contested S cls cl \<longrightarrow> took_effect S cl m \<longrightarrow> took_effect S cl m')))"

interpretation kept: evolution "changes_kept E ok content cls" for E ok content cls
  by unfold_locales (auto simp: changes_kept_def Let_def)

lemma changes_kept_persistent: "persistent t = persistent s \<Longrightarrow> changes_kept E ok content cls s t"
  by (simp add: changes_kept_def store_inv_def Let_def)

text \<open>What a task knows from some point on.\<close>

definition known ::
  "('s, 'j, 'r) proxy_env \<Rightarrow> ('s \<Rightarrow> bool) \<Rightarrow> ('s \<Rightarrow> kv) \<Rightarrow> 'j changelog list \<Rightarrow> 'j changelog \<Rightarrow> bool \<Rightarrow> bool \<Rightarrow>
   ('s, 'j, 'r, 'n) proxy_state \<Rightarrow> bool" where
  "known E ok content cls cl l e t \<longleftrightarrow>
     store_inv E ok content t \<and> (l \<longrightarrow> logged (ps_serde (pe_store E)) cl (content (px_store t))) \<and>
     (e \<longrightarrow> \<not> contested (ps_serde (pe_store E)) cls cl \<longrightarrow> took_effect (ps_serde (pe_store E)) cl (content (px_store t)))"

lemma known_stable: "cl \<in> set cls \<Longrightarrow> kept.stable E ok content cls (known E ok content cls cl l e)"
  by (auto simp: kept.stable_def changes_kept_def known_def Let_def)

context total_storage
begin

lemma write_kept:
  assumes "ps_storage (pe_store E) = ops" and "resource_tables \<subseteq> tables" and "serde_ok (ps_serde (pe_store E))"
    and "cl \<in> set cls" and "inj_on cl_id (set cls)" and "changelog_wf (ps_serde (pe_store E)) cl"
    and "store_inv E ok content s"
    and "t = with_store s (snd (store_change (pe_store E) (px_store s) cl))"
  shows "changes_kept E ok content cls s t"
    and "is_ok (fst (store_change (pe_store E) (px_store s) cl)) \<Longrightarrow>
      took_effect (ps_serde (pe_store E)) cl (content (px_store t))"
proof -
  let ?S = "ps_serde (pe_store E)" and ?m = "content (px_store s)"
  have inv: "ok (px_store s)" "resource_wf ?S ?m" "px_cluster s = None" using assms(7) by (simp_all add: store_inv_def)
  note total = store_change_total [OF assms(1) inv(1) assms(2), of cl]
  have t: "ok (px_store t)" "px_cluster t = None"
    using store_change_effect [OF assms(1) inv(1) assms(2), of cl] inv(3) by (simp_all add: assms(8))
  show kept: "changes_kept E ok content cls s t"
  proof (cases "change_effect ?S cl")
    case (Inl e)
    with total(2) t inv show ?thesis by (simp add: changes_kept_def store_inv_def assms(8))
  next
    case (Inr wm)
    then obtain w msg where w: "change_effect ?S cl = Ok (w, msg)" by (cases wm) simp
    with total(2) have m': "content (px_store t) = apply_write w ?m" by (simp add: assms(8))
    have "write_table w \<noteq> TBL_CHANGELOGS" using change_effect_table [OF w] changelogs_not_resource by metis
    moreover have "took_effect ?S cl' (apply_write w ?m)"
      if "cl' \<in> set cls" "\<not> contested ?S cls cl'" "took_effect ?S cl' ?m" for cl'
    proof (cases "cl_id cl = cl_id cl'")
      case True
      with assms(4,5) that(1) have "cl' = cl" by (metis inj_onD)
      with w show ?thesis by (auto simp: took_effect_def apply_write_apply)
    next
      case False
      from that(3) obtain w' msg' where w': "change_effect ?S cl' = Ok (w', msg')"
        "?m (write_table w') (write_key w') = write_value w'" by (auto simp: took_effect_def)
      with that(2) False assms(4) w have "write_table w \<noteq> write_table w' \<or> write_key w \<noteq> write_key w'"
        unfolding contested_def by blast
      with w' show ?thesis by (auto simp: took_effect_def apply_write_apply)
    qed
    moreover have "resource_wf ?S (apply_write w ?m)" by (rule resource_wf_write [OF inv(2) w assms(3,6)])
    ultimately show ?thesis using t by (simp add: changes_kept_def store_inv_def Let_def m' logged_def apply_write_apply)
  qed
  show "took_effect ?S cl (content (px_store t))" if "is_ok (fst (store_change (pe_store E) (px_store s) cl))"
    using that total by (cases "change_effect ?S cl") (auto simp: took_effect_def apply_write_apply assms(8))
qed

lemma append_kept:
  assumes "ps_storage (pe_store E) = ops" and "TBL_CHANGELOGS \<in> tables" and "serde_ok (ps_serde (pe_store E))"
    and "cl \<in> set cls" and "inj_on cl_id (set cls)" and "store_inv E ok content s"
    and "t = with_store s (snd (append_changelog (pe_store E) (px_store s) cl))"
  shows "changes_kept E ok content cls s t" and "logged (ps_serde (pe_store E)) cl (content (px_store t))"
proof -
  let ?S = "ps_serde (pe_store E)" and ?m = "content (px_store s)"
  have inv: "ok (px_store s)" "resource_wf ?S ?m" "px_cluster s = None" using assms(6) by (simp_all add: store_inv_def)
  obtain b where b: "to_vec (sd_changelog ?S) cl = Ok b" "from_slice (sd_changelog ?S) b = Ok cl"
    by (rule codec_ok_vec [OF serde_ok_changelog [OF assms(3)] TrueI])
  have m': "content (px_store t) = kv_put TBL_CHANGELOGS (cl_id cl) b ?m"
    using set_typed_eq(2) [OF assms(1) inv(1) assms(2) b(1)] by (simp add: assms(7) append_changelog_def)
  have ok: "ok (px_store t)" "px_cluster t = None"
    using set_typed_ok [OF assms(1) inv(1) assms(2), of "sd_changelog ?S" "cl_id cl" cl] inv(3)
    by (simp_all add: append_changelog_def assms(7))
  show logged: "logged ?S cl (content (px_store t))" by (simp add: logged_def m' kv_put_def b(2))
  have "TBL_CHANGELOGS \<notin> {TBL_NAMESPACES, TBL_ROUTES, TBL_SERVICES, TBL_MODULES}" by (simp add: tbl_defs)
  then have "resource_wf ?S (content (px_store t))" using inv(2) by (auto simp: m' resource_wf_def kv_put_def)
  moreover have "logged ?S cl' (content (px_store t))" if "cl' \<in> set cls" "logged ?S cl' ?m" for cl'
  proof (cases "cl_id cl' = cl_id cl")
    case True
    with assms(4,5) that(1) have "cl' = cl" by (metis inj_onD)
    with logged show ?thesis by simp
  qed (use that in \<open>simp add: logged_def m' kv_put_def\<close>)
  moreover have "took_effect ?S cl' (content (px_store t))" if effect: "took_effect ?S cl' ?m" for cl'
  proof -
    obtain w msg where w: "change_effect ?S cl' = Ok (w, msg)" "?m (write_table w) (write_key w) = write_value w"
      using effect by (auto simp: took_effect_def)
    moreover have "write_table w \<noteq> TBL_CHANGELOGS" using change_effect_table [OF w(1)] changelogs_not_resource by metis
    ultimately show ?thesis by (simp add: took_effect_def m' kv_put_def)
  qed
  ultimately show "changes_kept E ok content cls s t" using ok by (simp add: changes_kept_def store_inv_def Let_def)
qed

lemma process_meets:
  fixes E :: "('s, 'j, 'r) proxy_env"
  assumes "ps_storage (pe_store E) = ops" and "resource_tables \<subseteq> tables" and "serde_ok (ps_serde (pe_store E))"
    and "cl \<in> set cls" and "inj_on cl_id (set cls)" and "changelog_wf (ps_serde (pe_store E)) cl"
  shows "meets (changes_kept E ok content cls) (\<lambda>r. known E ok content cls cl True (is_ok r))
    (process_task E cl :: ('s, 'j, 'r, 'n, unit) task)
    (known E ok content cls cl True False)"
proof -
  let ?R = "changes_kept E ok content cls" and ?K = "known E ok content cls cl"
  let ?p = "process_task E cl :: ('s, 'j, 'r, 'n, unit) task"
  from process_writes_once [of E cl] consider (failed) e where "?p = Return (Err e)"
    | (wrote) f k where "?p = attempt (store_write f) k" "leaves persistent (k ())"
        "\<And>s. snd (f s) = snd (store_change (pe_store E) s cl) \<and> is_ok (fst (f s)) = is_ok (fst (store_change (pe_store E) s cl))"
    unfolding writes_once_def by blast
  then show ?thesis
  proof cases
    case wrote
    have stores: "meets ?R (\<lambda>r. ?K True (is_ok r)) (store_write f) (?K True False)"
      unfolding store_write_def
    proof (rule kept.meets_atomic)
      fix s
      assume s: "?K True False s"
      then have inv: "store_inv E ok content s" by (simp add: known_def)
      let ?t = "with_store s (snd (store_change (pe_store E) (px_store s) cl))"
      note w = write_kept [OF assms inv refl]
      have "?K True False ?t" using w(1) s known_stable [OF assms(4)] unfolding kept.stable_def by blast
      then have "?K True (is_ok (fst (f (px_store s)))) ?t" using w(2) wrote(3) by (auto simp: known_def)
      then show "?R s (snd (case f (px_store s) of (r, s') \<Rightarrow> (map_err px_storage_error r, with_store s s'))) \<and>
          ?K True (is_ok (fst (case f (px_store s) of (r, s') \<Rightarrow> (map_err px_storage_error r, with_store s s'))))
            (snd (case f (px_store s) of (r, s') \<Rightarrow> (map_err px_storage_error r, with_store s s')))"
        using w(1) wrote(3) [of "px_store s"] by (cases "f (px_store s)"; cases "fst (f (px_store s))") auto
    qed (rule known_stable [OF assms(4)])
    have caches: "meets ?R (\<lambda>r. ?K True (is_ok r)) (k ()) (?K True True)"
      by (rule meets_post [OF kept.meets_leaves [where v = persistent, OF changes_kept_persistent known_stable [OF assms(4)] wrote(2)]])
        (auto simp: known_def)
    show ?thesis
      unfolding wrote(1)
    proof (rule meets_attempt [OF stores])
      show "meets ?R (\<lambda>r. ?K True (is_ok r)) (k x) (?K True (is_ok (Ok x)))" for x using caches by (cases x) simp
    qed simp
  qed (simp add: known_def)
qed

lemma change_meets:
  fixes E :: "('s, 'j, 'r) proxy_env" and propose :: "'j changelog \<Rightarrow> 'n \<times> 's \<Rightarrow> (string + 'resp) \<times> ('n \<times> 's)"
  assumes "ps_storage (pe_store E) = ops" and "resource_tables \<subseteq> tables" and "TBL_CHANGELOGS \<in> tables"
    and "serde_ok (ps_serde (pe_store E))"
    and "cl \<in> set cls" and "inj_on cl_id (set cls)" and "changelog_wf (ps_serde (pe_store E)) cl"
  shows "meets (changes_kept E ok content cls) (\<lambda>r. known E ok content cls cl (is_ok r) (is_ok r)) (change_task E propose cl)
    (known E ok content cls cl False False)"
proof -
  let ?R = "changes_kept E ok content cls" and ?K = "known E ok content cls cl"
  let ?Q = "\<lambda>r. ?K (is_ok r) (is_ok r)"
  have append: "meets ?R (\<lambda>r. ?K (is_ok r) False) (store_write (\<lambda>s. append_changelog (pe_store E) s cl) :: ('s, 'j, 'r, 'n, unit) task) (?K False False)"
    unfolding store_write_def
  proof (rule kept.meets_atomic)
    fix s
    assume s: "?K False False s"
    then have inv: "store_inv E ok content s" by (simp add: known_def)
    let ?r = "append_changelog (pe_store E) (px_store s) cl"
    note a = append_kept [OF assms(1,3,4,5,6) inv refl]
    have "?K False False (with_store s (snd ?r))" using a(1) s known_stable [OF assms(5)] unfolding kept.stable_def by blast
    with a show "?R s (snd (case ?r of (r, s') \<Rightarrow> (map_err px_storage_error r, with_store s s'))) \<and>
        ?K (is_ok (fst (case ?r of (r, s') \<Rightarrow> (map_err px_storage_error r, with_store s s')))) False
          (snd (case ?r of (r, s') \<Rightarrow> (map_err px_storage_error r, with_store s s')))"
      by (cases ?r) (simp add: known_def)
  qed (rule known_stable [OF assms(5)])
  have process: "meets ?R ?Q (attempt (process_task E cl) (\<lambda>_. count_change) :: ('s, 'j, 'r, 'n, unit) task) (?K True False)"
  proof (rule meets_attempt [OF process_meets [OF assms(1,2,4-7)]])
    show "meets ?R ?Q count_change (?K True (is_ok (Ok x)))" for x
      by (rule meets_post [OF kept.meets_leaves [where v = persistent, OF changes_kept_persistent known_stable [OF assms(5)]]]) (auto simp: known_def)
  qed (simp add: known_def)
  have standalone: "meets ?R ?Q (standalone_task E cl :: ('s, 'j, 'r, 'n, unit) task) (?K False False)"
    unfolding standalone_task_def by (rule meets_attempt [OF append]) (simp_all add: process)
  have "meets ?R (\<lambda>found t. ?K False False t \<and> found = None)
      (atomically (\<lambda>st :: ('s, 'j, 'r, 'n) proxy_state. (px_cluster st, st))) (?K False False)"
  proof (rule kept.meets_atomic)
    show "kept.stable E ok content cls (\<lambda>t :: ('s, 'j, 'r, 'n) proxy_state. ?K False False t \<and> found = None)" for found :: "'n option"
      using known_stable [OF assms(5), of E ok content False False] unfolding kept.stable_def by blast
  qed (auto simp: known_def store_inv_def kept.evolves_refl)
  then show ?thesis
    unfolding change_task_def
  proof (rule meets_followed_by [rotated])
    show "meets ?R ?Q (case found of None \<Rightarrow> standalone_task E cl | Some cluster \<Rightarrow>
        atomically (\<lambda>st. case propose cl (case px_cluster st of None \<Rightarrow> cluster | Some c \<Rightarrow> c, px_store st) of
          (r, cluster, s) \<Rightarrow> (result_bind (map_err PE_Cluster r) (\<lambda>_. Ok ()), st\<lparr>px_cluster := Some cluster, px_store := s\<rparr>)))
      (\<lambda>t. ?K False False t \<and> found = None)" for found
      using standalone by (cases found) (auto intro: meets_pre simp: atomically_def)
  qed
qed

end

section \<open>What rebuilding tasks keep\<close>

definition fresh_router :: "('s, 'j, 'r) proxy_env \<Rightarrow> ('s, 'j, 'r, 'n) proxy_state \<Rightarrow> string \<Rightarrow> bool" where
  "fresh_router E st ns \<longleftrightarrow> (\<exists>router. px_routers st ns = Some router \<and> compute_router E (px_store st) ns = Ok router)"

definition routers_kept ::
  "('s, 'j, 'r) proxy_env \<Rightarrow> ('s, 'j, 'r, 'n) proxy_state \<Rightarrow> ('s, 'j, 'r, 'n) proxy_state \<Rightarrow> bool" where
  "routers_kept E s t \<longleftrightarrow> px_store t = px_store s \<and> (\<forall>ns. fresh_router E s ns \<longrightarrow> fresh_router E t ns)"

interpretation routers: evolution "routers_kept E" for E
  by unfold_locales (auto simp: routers_kept_def)

lemma publish_kept:
  assumes "compute_router E (px_store s) ns = Ok router" and "t = s\<lparr>px_routers := (px_routers s)(ns \<mapsto> router)\<rparr>"
  shows "routers_kept E s t" and "fresh_router E t ns"
  using assms by (auto simp: routers_kept_def fresh_router_def)

lemma rebuild_meets:
  fixes E :: "('s, 'j, 'r) proxy_env" and s\<^sub>0 :: "('s, 'j, 'r, 'n) proxy_state"
  shows "meets (routers_kept E) (\<lambda>r t. px_store t = px_store s\<^sub>0 \<and> (r = Ok () \<longrightarrow> fresh_router E t ns))
    (rebuild_router_task E ns :: ('s, 'j, 'r, 'n, unit) task) (\<lambda>t. px_store t = px_store s\<^sub>0)"
proof -
  let ?R = "routers_kept E :: ('s, 'j, 'r, 'n) proxy_state \<Rightarrow> _"
  let ?Q = "\<lambda>(r :: proxy_error + unit) t. px_store t = px_store s\<^sub>0 \<and> (r = Ok () \<longrightarrow> fresh_router E t ns)"
  have stable: "routers.stable E (?Q r)" for r by (auto simp: routers.stable_def routers_kept_def)
  have "meets ?R (\<lambda>x t. px_store t = px_store s\<^sub>0 \<and> x = fst (run_alone (build_router_task E ns) s\<^sub>0))
      (build_router_task E ns) (\<lambda>t. px_store t = px_store s\<^sub>0)"
    by (rule meets_reads_only) (simp_all add: routers.evolves_refl, simp add: routers_kept_def)
  then have build: "meets ?R (\<lambda>x t. px_store t = px_store s\<^sub>0 \<and> x = compute_router E (px_store s\<^sub>0) ns)
      (build_router_task E ns) (\<lambda>t. px_store t = px_store s\<^sub>0)" by simp
  have publish: "meets ?R ?Q (publish_router ns router) (\<lambda>t. px_store t = px_store s\<^sub>0 \<and> Ok router = compute_router E (px_store s\<^sub>0) ns)"
    for router
    unfolding publish_router_def by (rule routers.meets_atomic [OF _ stable])
      (auto dest!: sym [of "Ok router"] intro!: publish_kept [OF _ refl])
  show ?thesis
    unfolding rebuild_router_task_def by (rule meets_attempt [OF build publish]) simp
qed

section \<open>Properties\<close>

text \<open>
  A task that runs alone is the operation: for every change log, in standalone mode and
  through a cluster, and for the replay of the log and the configured resources at the start.
\<close>

lemma tasks_alone:
  "run_alone (change_task E propose cl) st = apply_changelog E propose cl st \<and>
   run_alone (restore_task E) st = restore_from_changelogs E st \<and>
   run_alone (init_from_config_task E W propose stamp) st = init_from_config E W propose stamp st"
  by (simp add: run_change run_restore run_init_from_config)

text \<open>
  C7. No change is lost from the store: however any number of changes with distinct ids
  interleave on a standalone proxy, at every moment the store is well formed, every change that
  has returned Ok is in the log, and its write is in the store unless another of the changes
  writes the same entry; and from there all of them can run to their end.
\<close>

theorem concurrent_changes_kept:
  fixes E :: "(mem_storage, 'j, 'r) proxy_env"
  assumes "ps_storage (pe_store E) = mem_ops place" and "serde_ok (ps_serde (pe_store E))"
    and "\<forall>cl \<in> set cls. changelog_wf (ps_serde (pe_store E)) cl" and "distinct (map cl_id cls)"
    and "store_inv E mem_ok mem_content st"
    and "par_run (map (change_task E propose) cls, st) (ps, st')"
  shows "store_inv E mem_ok mem_content st' \<and> length ps = length cls \<and>
         (\<forall>i < length cls. ps ! i = Return (Ok ()) \<longrightarrow>
            logged (ps_serde (pe_store E)) (cls ! i) (mem_content (px_store st')) \<and>
            (\<not> contested (ps_serde (pe_store E)) cls (cls ! i) \<longrightarrow>
             took_effect (ps_serde (pe_store E)) (cls ! i) (mem_content (px_store st')))) \<and>
         (\<exists>ps'' st''. par_run (ps, st') (ps'', st'') \<and> (\<forall>p \<in> set ps''. \<exists>r. p = Return r))"
proof -
  let ?R = "changes_kept E mem_ok mem_content cls"
  let ?Q = "\<lambda>i r. known E mem_ok mem_content cls (cls ! i) (is_ok r) (is_ok r)"
  have inj: "inj_on cl_id (set cls)" using assms(4) by (simp add: distinct_map)
  have meets: "meets ?R (?Q i) (map (change_task E propose) cls ! i) (?R st)"
    if i: "i < length (map (change_task E propose) cls)" for i
  proof -
    have cl: "cls ! i \<in> set cls" "changelog_wf (ps_serde (pe_store E)) (cls ! i)" using i assms(3) by simp_all
    have "known E mem_ok mem_content cls (cls ! i) False False t" if "?R st t" for t
      using that assms(5) by (simp add: changes_kept_def known_def)
    then show ?thesis
      using i by (auto intro: meets_pre [OF mem.change_meets [OF assms(1) subset_UNIV UNIV_I assms(2) cl(1) inj cl(2)]])
  qed
  note evolves = kept.par_run_evolves [OF assms(6) meets]
  have "store_inv E mem_ok mem_content st'" using evolves(1) assms(5) by (simp add: changes_kept_def)
  moreover have "?Q i (Ok ()) st'" if "i < length cls" "ps ! i = Return (Ok ())" for i
    using kept.par_run_returned [OF assms(6) meets, of i "Ok ()"] that by simp
  ultimately show ?thesis using evolves(2) par_run_completes [of ps st'] by (simp add: known_def)
qed

lemma sample_interleaving:
  "par_run (map (change_task sample_env no_cluster) [add_namespace_change, add_route_change], fresh_proxy)
     ([Return (Ok ()), Return (Ok ())], snd (apply_changelog sample_env no_cluster add_route_change with_namespace))"
proof -
  let ?ps = "map (change_task sample_env no_cluster) [add_namespace_change, add_route_change]"
  have "run_alone (?ps ! 0) fresh_proxy = (Ok (), with_namespace)"
    using sample_applies(1) by (simp add: run_change with_namespace_def prod_eq_iff)
  from par_run_task [OF _ this] have first: "par_run (?ps, fresh_proxy) (?ps[0 := Return (Ok ())], with_namespace)" by simp
  have "run_alone (?ps[0 := Return (Ok ())] ! 1) with_namespace =
      (Ok (), snd (apply_changelog sample_env no_cluster add_route_change with_namespace))"
    using sample_applies(2) by (simp add: run_change prod_eq_iff)
  from par_run_task [OF _ this] first show ?thesis by simp
qed

lemma fresh_proxy_inv: "store_inv sample_env mem_ok mem_content fresh_proxy"
  using proxy_new_inv [of sample_env "dgate_config_default undefined"]
  by (simp add: store_inv_def fresh_proxy_def px_inv_def proxy_new_def)

theorem concurrent_changes_kept_witness:
  "logged sample_serde add_namespace_change
     (mem_content (px_store (snd (apply_changelog sample_env no_cluster add_route_change with_namespace)))) \<and>
   took_effect sample_serde add_route_change
     (mem_content (px_store (snd (apply_changelog sample_env no_cluster add_route_change with_namespace))))"
proof -
  let ?cls = "[add_namespace_change, add_route_change]"
  have "change_effect sample_serde add_namespace_change = Ok (w, m) \<Longrightarrow> write_table w = TBL_NAMESPACES" for w m
    by (auto simp: change_effect_def add_namespace_change_def dest: put_effect_table)
  moreover have "change_effect sample_serde add_route_change = Ok (w, m) \<Longrightarrow> write_table w = TBL_ROUTES" for w m
    by (auto simp: change_effect_def add_route_change_def dest: put_effect_table)
  ultimately have "\<not> contested sample_serde ?cls add_route_change"
    by (fastforce simp: contested_def tbl_defs)
  moreover have "distinct (map cl_id ?cls)" by (simp add: add_namespace_change_def add_route_change_def)
  ultimately show ?thesis
    using concurrent_changes_kept [OF sample_env_sel(1) _ _ _ fresh_proxy_inv sample_interleaving]
    by (simp add: sample_serde_ok sample_changes_wf All_less_Suc)
qed

text \<open>
  C10. Routers rebuilt after the last write show the store: however tasks interleave that have all
  made their writes and have only to rebuild the routers of their namespaces, the store stays as
  it is and the router of the namespace of every task that has returned Ok has exactly the routes
  stored for it, with their services and modules, even if it was stale before.
\<close>

theorem rebuilds_settle:
  fixes E :: "(mem_storage, 'j, 'r) proxy_env"
  assumes "ps_storage (pe_store E) = mem_ops place" and "mem_ok (px_store st)"
    and "resource_wf (ps_serde (pe_store E)) (mem_content (px_store st))" and "\<forall>ns \<in> set nss. CHR '':'' \<notin> set ns"
    and "par_run (map (rebuild_router_task E) nss, st) (ps, st')"
  shows "px_store st' = px_store st \<and> length ps = length nss \<and>
         (\<forall>i < length nss. ps ! i = Return (Ok ()) \<longrightarrow>
            (\<exists>router. px_routers st' (nss ! i) = Some router \<and>
               shows_store E (mem_content (px_store st')) (nss ! i) router))"
proof -
  let ?Q = "\<lambda>i r t. px_store t = px_store st \<and> (r = Ok () \<longrightarrow> fresh_router E t (nss ! i))"
  have meets: "meets (routers_kept E) (?Q i) (map (rebuild_router_task E) nss ! i) (routers_kept E st)"
    if "i < length (map (rebuild_router_task E) nss)" for i
    using that by (auto intro: meets_pre [OF rebuild_meets] simp: routers_kept_def)
  note evolves = routers.par_run_evolves [OF assms(5) meets]
  have store: "px_store st' = px_store st" using evolves(1) by (simp add: routers_kept_def)
  have "\<exists>router. px_routers st' (nss ! i) = Some router \<and> shows_store E (mem_content (px_store st')) (nss ! i) router"
    if i: "i < length nss" "ps ! i = Return (Ok ())" for i
  proof -
    have "fresh_router E st' (nss ! i)"
      using routers.par_run_returned [OF assms(5) meets, of i "Ok ()"] i by simp
    then obtain router where "px_routers st' (nss ! i) = Some router" "compute_router E (px_store st') (nss ! i) = Ok router"
      by (auto simp: fresh_router_def)
    moreover have "CHR '':'' \<notin> set (nss ! i)" using assms(4) i(1) by simp
    ultimately show ?thesis
      using mem.compute_router_spec [OF assms(1,2) subset_UNIV assms(3), of "nss ! i"] unfolding store
      by (auto split: option.splits)
  qed
  with store evolves(2) show ?thesis by simp
qed

definition stale_proxy :: "(mem_storage, string, rx list, unit) proxy_state" where
  "stale_proxy = (snd (apply_changelog sample_env no_cluster add_route_change with_namespace))\<lparr>px_routers := Map.empty\<rparr>"

lemma stale_rebuild: "fst (rebuild_router sample_env ''a'' stale_proxy) = Ok ()"
  by code_simp

theorem rebuilds_settle_witness:
  "\<exists>st' router. par_run ([rebuild_router_task sample_env ''a''], stale_proxy) ([Return (Ok ())], st') \<and>
     px_routers st' ''a'' = Some router \<and> shows_store sample_env (mem_content (px_store st')) ''a'' router"
proof -
  let ?ps = "map (rebuild_router_task sample_env) [''a'']"
  obtain st1 where "rebuild_router sample_env ''a'' stale_proxy = (Ok (), st1)"
    using stale_rebuild by (cases "rebuild_router sample_env ''a'' stale_proxy") simp
  then have "run_alone (?ps ! 0) stale_proxy = (Ok (), st1)"
    by simp
  from par_run_task [OF _ this]
  have run: "par_run (?ps, stale_proxy) ([Return (Ok ())], st1)" by simp
  have "px_inv sample_env mem_ok mem_content (snd (apply_changelog sample_env no_cluster add_route_change with_namespace))"
    by (rule mem.apply_changelog_inv [of sample_env "\<lambda>_. []"])
      (simp_all add: sample_applies sample_serde_ok sample_changes_wf with_namespace_inv)
  then have "mem_ok (px_store stale_proxy)" "resource_wf sample_serde (mem_content (px_store stale_proxy))"
    by (simp_all add: px_inv_def stale_proxy_def)
  with rebuilds_settle [OF sample_env_sel(1) _ _ _ run] run show ?thesis by auto
qed

end
