(* ===== verification/Concurrent_Races.thy ===== *)
theory Concurrent_Races
  imports Concurrent_Facts
begin

text \<open>
  What interleaved changes lose: schedules of the tasks of \<open>Concurrent_Changes\<close> in which every
  task returns Ok and a route that is stored is not served, a delete is undone by the start, or
  the log and the store disagree on which of two changes is the later one.
\<close>

section \<open>A change of a route, action by action\<close>

lemma prog_steps_trans: "prog_steps c c' \<Longrightarrow> prog_steps c' c'' \<Longrightarrow> prog_steps c c''"
  by (rule rtranclp_trans)

lemma prog_steps_attempt_inner:
  "prog_steps (p, s) (p', s') \<Longrightarrow> prog_steps (attempt p k, s) (attempt p' k, s')"
  unfolding attempt_def by (rule prog_steps_followed_by)

definition route_change :: "('s, 'j, 'r) proxy_env \<Rightarrow> 'j changelog \<Rightarrow> kv_write \<Rightarrow> bool" where
  "route_change E cl w \<longleftrightarrow>
     cl_cmd cl \<in> {AddRoute, DeleteRoute} \<and> changelog_wf (ps_serde (pe_store E)) cl \<and>
     (\<exists>msg. change_effect (ps_serde (pe_store E)) cl = Ok (w, msg))"

lemma route_change_process:
  fixes E :: "('s, 'j, 'r) proxy_env"
  assumes "route_change E cl w"
  obtains f where
    "(process_task E cl :: ('s, 'j, 'r, 'n, unit) task) = attempt (store_write f) (\<lambda>_. rebuild_router_task E (cl_namespace cl))"
    and "\<And>s. snd (f s) = snd (store_change (pe_store E) s cl) \<and>
              is_ok (fst (f s)) = is_ok (fst (store_change (pe_store E) s cl))"
proof (cases "cl_cmd cl = AddRoute")
  case True
  with assms obtain x where x: "from_value (sd_route (ps_serde (pe_store E))) (cl_item cl) = Ok x"
    by (auto simp: route_change_def change_effect_def Let_def put_effect_def result_bind_eq_Ok)
  have "snd (set_route (pe_store E) s x) = snd (store_change (pe_store E) s cl) \<and>
      is_ok (fst (set_route (pe_store E) s x)) = is_ok (fst (store_change (pe_store E) s cl))" for s
    by (cases "set_route (pe_store E) s x"; cases "fst (set_route (pe_store E) s x)")
      (auto simp: store_change_cmds(3) [OF True] change_add_def x)
  then show ?thesis
    by (intro that [of "\<lambda>s. set_route (pe_store E) s x"]) (simp_all add: process_task_def True attempt_set_task x Let_def)
next
  case False
  with assms have del: "cl_cmd cl = DeleteRoute" by (simp add: route_change_def)
  let ?f = "\<lambda>s. delete_route (pe_store E) s (cl_namespace cl) (cl_name cl)"
  have "snd (?f s) = snd (store_change (pe_store E) s cl) \<and> is_ok (fst (?f s)) = is_ok (fst (store_change (pe_store E) s cl))" for s
    by (cases "?f s"; cases "fst (?f s)") (auto simp: store_change_cmds(4) [OF del] change_delete_def)
  then show ?thesis by (intro that [of ?f]) (simp_all add: process_task_def del Let_def)
qed

lemma route_change_table: "route_change E cl w \<Longrightarrow> write_table w = TBL_ROUTES"
  by (auto simp: route_change_def change_effect_def Let_def dest: put_effect_table)

lemma attempt_store_write:
  assumes "is_ok (fst (f (px_store st)))"
  shows "prog_steps (attempt (store_write f) k, st) (k (), with_store st (snd (f (px_store st))))"
proof (rule prog_steps_attempt)
  show "run_alone (store_write f) st = (Ok (), with_store st (snd (f (px_store st))))"
    using assms by (cases "f (px_store st)"; cases "fst (f (px_store st))") (auto simp: px_delete_def)
qed

context total_storage
begin

lemma append_steps:
  assumes "ps_storage (pe_store E) = ops" and "TBL_CHANGELOGS \<in> tables" and "serde_ok (ps_serde (pe_store E))"
    and "store_inv E ok content st"
  obtains s b where "prog_steps (change_task E propose cl, st) (attempt (process_task E cl) (\<lambda>_. count_change), with_store st s)"
    and "store_inv E ok content (with_store st s)" and "from_slice (sd_changelog (ps_serde (pe_store E))) b = Ok cl"
    and "content s = kv_put TBL_CHANGELOGS (cl_id cl) b (content (px_store st))"
proof -
  let ?S = "ps_serde (pe_store E)" and ?f = "\<lambda>s. append_changelog (pe_store E) s cl"
  have inv: "ok (px_store st)" "px_cluster st = None" using assms(4) by (simp_all add: store_inv_def)
  obtain b where b: "to_vec (sd_changelog ?S) cl = Ok b" "from_slice (sd_changelog ?S) b = Ok cl"
    by (rule codec_ok_vec [OF serde_ok_changelog [OF assms(3)] TrueI])
  note set = set_typed_eq [OF assms(1) inv(1) assms(2) b(1), of "cl_id cl"]
  have "prog_steps (change_task E propose cl, st) (standalone_task E cl, st)"
    unfolding change_task_def by (rule prog_steps_continue [where x = None]) (simp_all add: inv(2))
  moreover have "prog_steps (standalone_task E cl, st)
      (attempt (process_task E cl) (\<lambda>_. count_change), with_store st (snd (?f (px_store st))))"
    unfolding standalone_task_def by (rule attempt_store_write) (simp add: append_changelog_def set(1))
  moreover have "store_inv E ok content (with_store st (snd (?f (px_store st))))"
    using append_kept(1) [OF assms(1-3), of cl "[cl]" st] assms(4) by (simp add: changes_kept_def)
  ultimately show ?thesis
    using set(2) b(2) by (intro that [of "snd (?f (px_store st))" b]) (auto simp: append_changelog_def)
qed

lemma process_steps:
  fixes E :: "('s, 'j, 'r) proxy_env" and st :: "('s, 'j, 'r, 'n) proxy_state" and k :: "unit \<Rightarrow> ('s, 'j, 'r, 'n, 'b) task"
  assumes "ps_storage (pe_store E) = ops" and "resource_tables \<subseteq> tables" and "serde_ok (ps_serde (pe_store E))"
    and "route_change E cl w" and "store_inv E ok content st"
    and "content (px_store st) TBL_NAMESPACES (cl_namespace cl) \<noteq> None"
  obtains s router where "prog_steps (attempt (process_task E cl) k, st) (attempt (publish_router (cl_namespace cl) router) k, with_store st s)"
    and "store_inv E ok content (with_store st s)" and "content s = apply_write w (content (px_store st))"
    and "shows_store E (content s) (cl_namespace cl) router"
proof -
  let ?S = "ps_serde (pe_store E)" and ?ns = "cl_namespace cl"
  obtain f where f: "(process_task E cl :: ('s, 'j, 'r, 'n, unit) task) = attempt (store_write f) (\<lambda>_. rebuild_router_task E ?ns)"
    "\<And>s. snd (f s) = snd (store_change (pe_store E) s cl) \<and> is_ok (fst (f s)) = is_ok (fst (store_change (pe_store E) s cl))"
    using route_change_process [OF assms(4), where 'n = 'n] by blast
  define s where "s = snd (f (px_store st))"
  from assms(4) obtain msg where eff: "change_effect ?S cl = Ok (w, msg)" and wf: "changelog_wf ?S cl" by (auto simp: route_change_def)
  have inv: "ok (px_store st)" using assms(5) by (simp add: store_inv_def)
  note total = store_change_total [OF assms(1) inv assms(2), of cl, unfolded eff]
  have s: "content s = apply_write w (content (px_store st))" using total(2) f(2) by (simp add: s_def)
  have inv': "store_inv E ok content (with_store st s)"
    using write_kept(1) [OF assms(1-3), of cl "[cl]" st] wf assms(5) f(2) by (simp add: changes_kept_def s_def)
  have ns: "CHR '':'' \<notin> set ?ns" using wf by (simp add: changelog_wf_def)
  have "content s TBL_NAMESPACES ?ns \<noteq> None"
    using assms(6) route_change_table [OF assms(4)] by (simp add: s apply_write_apply tbl_defs)
  moreover have "case content s TBL_NAMESPACES ?ns of None \<Rightarrow> \<not> is_ok (compute_router E s ?ns)
      | Some _ \<Rightarrow> \<exists>router. compute_router E s ?ns = Ok router \<and> shows_store E (content s) ?ns router"
    by (rule compute_router_spec [OF assms(1) _ assms(2) _ ns]) (use inv' in \<open>simp_all add: store_inv_def\<close>)
  ultimately obtain router where router: "compute_router E s ?ns = Ok router" "shows_store E (content s) ?ns router"
    by (auto split: option.splits)
  have "prog_steps (process_task E cl, st) (rebuild_router_task E ?ns, with_store st s)"
    unfolding f(1) s_def by (rule attempt_store_write) (simp add: f(2) total(1))
  moreover have "prog_steps (rebuild_router_task E ?ns, with_store st s) (publish_router ?ns router, with_store st s)"
    unfolding rebuild_router_task_def by (rule prog_steps_attempt) (simp add: router(1))
  ultimately have "prog_steps (attempt (process_task E cl) k, st) (attempt (publish_router ?ns router) k, with_store st s)"
    by (intro prog_steps_attempt_inner) (rule prog_steps_trans)
  then show ?thesis using that inv' s router(2) by blast
qed

lemma route_change_applies:
  fixes st :: "('s, 'j, 'r, 'n) proxy_state"
  assumes "ps_storage (pe_store E) = ops" and "resource_tables \<subseteq> tables" and "TBL_CHANGELOGS \<in> tables"
    and "serde_ok (ps_serde (pe_store E))" and "route_change E cl w" and "store_inv E ok content st"
    and "content (px_store st) TBL_NAMESPACES (cl_namespace cl) \<noteq> None"
  obtains s router b where
    "prog_steps (change_task E propose cl, st) (attempt (publish_router (cl_namespace cl) router) (\<lambda>_. count_change), with_store st s)"
    and "store_inv E ok content (with_store st s)" and "from_slice (sd_changelog (ps_serde (pe_store E))) b = Ok cl"
    and "content s = apply_write w (kv_put TBL_CHANGELOGS (cl_id cl) b (content (px_store st)))"
    and "shows_store E (content s) (cl_namespace cl) router"
proof -
  obtain s b where a: "prog_steps (change_task E propose cl, st) (attempt (process_task E cl) (\<lambda>_. count_change), with_store st s)"
    "store_inv E ok content (with_store st s)" "from_slice (sd_changelog (ps_serde (pe_store E))) b = Ok cl"
    "content s = kv_put TBL_CHANGELOGS (cl_id cl) b (content (px_store st))"
    by (rule append_steps [OF assms(1,3,4,6)])
  have "content (px_store (with_store st s)) TBL_NAMESPACES (cl_namespace cl) \<noteq> None"
    using assms(7) by (simp add: a(4) kv_put_def tbl_defs)
  from process_steps [OF assms(1,2,4,5) a(2) this, where k = "\<lambda>_. count_change"] obtain s' router where
    "prog_steps (attempt (process_task E cl) (\<lambda>_. count_change), with_store st s)
       (attempt (publish_router (cl_namespace cl) router) (\<lambda>_. count_change), with_store (with_store st s) s')"
    "store_inv E ok content (with_store (with_store st s) s')" "content s' = apply_write w (content (px_store (with_store st s)))"
    "shows_store E (content s') (cl_namespace cl) router" by metis
  with a that [of router s' b] show ?thesis by (auto intro: prog_steps_trans)
qed

end

text \<open>What is left of a change after its router is built.\<close>

lemma publish_and_count:
  "run_alone (attempt (publish_router ns router) (\<lambda>_. count_change)) st =
     (Ok (), st\<lparr>px_routers := (px_routers st)(ns \<mapsto> router), px_change_hash := px_change_hash st + 1\<rparr>)"
  by (simp add: publish_router_def count_change_def)

definition put_of :: "('s, 'j, 'r) proxy_env \<Rightarrow> 'j changelog \<Rightarrow> route \<Rightarrow> bool" where
  "put_of E cl r \<longleftrightarrow>
     cl_cmd cl = AddRoute \<and> changelog_wf (ps_serde (pe_store E)) cl \<and>
     from_value (sd_route (ps_serde (pe_store E))) (cl_item cl) = Ok r"

lemma put_of_change:
  assumes "put_of E cl r" and "serde_ok (ps_serde (pe_store E))"
  obtains b where "route_change E cl (KV_Put TBL_ROUTES (route_key r) b)"
    and "from_slice (sd_route (ps_serde (pe_store E))) b = Ok r" and "rt_namespace r = cl_namespace cl"
proof -
  obtain b where b: "to_vec (sd_route (ps_serde (pe_store E))) r = Ok b" "from_slice (sd_route (ps_serde (pe_store E))) b = Ok r"
    by (rule codec_ok_vec [OF serde_okD(2) [OF assms(2)] TrueI])
  have "route_change E cl (KV_Put TBL_ROUTES (route_key r) b)"
    using assms(1) b(1) by (simp add: put_of_def route_change_def change_effect_def Let_def put_effect_def)
  moreover have "rt_namespace r = cl_namespace cl" using assms(1) by (auto simp: put_of_def changelog_wf_def)
  ultimately show ?thesis using that b(2) by blast
qed

lemma px_inv_store_inv: "px_inv E ok content st \<Longrightarrow> px_cluster st = None \<Longrightarrow> store_inv E ok content st"
  by (simp add: px_inv_def store_inv_def)

text \<open>The first task builds its router; the second runs to its end; the first publishes.\<close>

lemma overtaken:
  assumes "prog_steps (p, st) (attempt (publish_router ns router) (\<lambda>_. count_change), st1)"
    and "run_alone q st1 = (Ok (), st2)"
  shows "par_run ([p, q], st) ([Return (Ok ()), Return (Ok ())],
    st2\<lparr>px_routers := (px_routers st2)(ns \<mapsto> router), px_change_hash := px_change_hash st2 + 1\<rparr>)"
proof -
  let ?p' = "attempt (publish_router ns router) (\<lambda>_. count_change)"
  have "par_run ([p, q], st) ([?p', q], st1)" using prog_steps_par [OF assms(1), of 0 "[p, q]"] by simp
  moreover have "par_run ([?p', q], st1) ([?p', Return (Ok ())], st2)"
    using par_run_task [of 1 "[?p', q]" st1] assms(2) by simp
  moreover have "par_run ([?p', Return (Ok ())], st2) ([Return (Ok ()), Return (Ok ())],
      st2\<lparr>px_routers := (px_routers st2)(ns \<mapsto> router), px_change_hash := px_change_hash st2 + 1\<rparr>)"
    using par_run_task [of 0 "[?p', Return (Ok ())]" st2] publish_and_count [of ns router st2] by simp
  ultimately show ?thesis by (meson rtranclp_trans)
qed

text \<open>The replay of a log, from whatever store it starts.\<close>

lemma replay_result:
  fixes E :: "(mem_storage, 'j, 'r) proxy_env" and st :: "(mem_storage, 'j, 'r, 'n) proxy_state"
  assumes "ps_storage (pe_store E) = mem_ops place" and "serde_ok (ps_serde (pe_store E))"
    and "run_wf E cls" and "sort_key cl_timestamp xs = cls" and "px_inv E mem_ok mem_content st"
  obtains st2 where "run_alone (replay_from_task E xs) st = (Ok (), st2)" and "px_ready st2"
    and "\<And>t k. (t, k) \<noteq> (TBL_NAMESPACES, ''default'') \<Longrightarrow>
           mem_content (px_store st2) t k = apply_writes (writes_of (ps_serde (pe_store E)) cls) (mem_content (px_store st)) t k"
proof -
  define q where "q = fold (\<lambda>cl st. snd (process_changelog E cl st)) cls st"
  have "mem_ok (px_store st)" using assms(5) by (simp add: px_inv_def)
  then have content: "mem_content (px_store q) = apply_writes (writes_of (ps_serde (pe_store E)) cls) (mem_content (px_store st))"
    using mem.replay_content [OF assms(1) subset_UNIV, of st cls] by (simp add: q_def)
  have "px_inv E mem_ok mem_content q"
    unfolding q_def by (rule mem.replay_inv [OF assms(1) subset_UNIV assms(2,3,5)])
  from mem.ensure_default_spec [OF assms(1) subset_UNIV assms(2) this] obtain st' where st': "ensure_default E q = (Ok (), st')"
    "\<And>t k. (t, k) \<noteq> (TBL_NAMESPACES, ''default'') \<Longrightarrow> mem_content (px_store st') t k = mem_content (px_store q) t k" by blast
  have "run_alone (replay_from_task E xs) st = (Ok (), st'\<lparr>px_ready := True\<rparr>)"
    by (simp add: run_replay_from assms(4) q_def [symmetric] st'(1))
  then show ?thesis by (rule that) (simp_all add: st'(2) content)
qed

lemma run_slot:
  assumes "apply_writes ws m t k = Some b" and "m t k = None"
  shows "apply_writes ws m' t k = Some b"
proof -
  have "(t, k) \<in> write_slots ws" using assms apply_writes_other [of t k ws m] by fastforce
  then show ?thesis using apply_writes_cong [of t k ws m' m] assms(1) by simp
qed

section \<open>Properties\<close>

text \<open>
  C8. Two puts at the same time can lose a route: for any two routes of a namespace that is there,
  with different names and the second not stored yet, there is a schedule of the two changes in
  which both return Ok and both routes are stored, but no path is served by the second. (The first
  lists the routes before the second stores its own, and publishes its router last.)
\<close>

theorem concurrent_puts_lose_route:
  fixes E :: "(mem_storage, 'j, 'r) proxy_env" and st :: "(mem_storage, 'j, 'r, 'n) proxy_state"
  assumes "ps_storage (pe_store E) = mem_ops place" and "serde_ok (ps_serde (pe_store E))"
    and "px_cluster st = None" and "px_inv E mem_ok mem_content st"
    and "put_of E cl1 r1" and "put_of E cl2 r2" and "cl_namespace cl1 = ns" and "cl_namespace cl2 = ns"
    and "rt_name r1 \<noteq> rt_name r2" and "mem_content (px_store st) TBL_NAMESPACES ns \<noteq> None"
    and "mem_content (px_store st) TBL_ROUTES (route_key r2) = None"
  shows "\<exists>st' router. par_run ([change_task E propose cl1, change_task E propose cl2], st) ([Return (Ok ()), Return (Ok ())], st') \<and>
           {r1, r2} \<subseteq> stored (sd_route (ps_serde (pe_store E))) (mem_content (px_store st') TBL_ROUTES) \<and>
           px_routers st' ns = Some router \<and>
           (\<forall>hplace path meth c params.
              find_route (pe_regex E) hplace router path meth = Some (c, params) \<longrightarrow> rt_name (cpr_route c) \<noteq> rt_name r2)"
proof -
  let ?S = "ps_serde (pe_store E)"
  obtain b1 where b1: "route_change E cl1 (KV_Put TBL_ROUTES (route_key r1) b1)" "from_slice (sd_route ?S) b1 = Ok r1"
    "rt_namespace r1 = ns" by (rule put_of_change [OF assms(5,2)]) (use assms(7) in auto)
  obtain b2 where b2: "route_change E cl2 (KV_Put TBL_ROUTES (route_key r2) b2)" "from_slice (sd_route ?S) b2 = Ok r2"
    "rt_namespace r2 = ns" by (rule put_of_change [OF assms(6,2)]) (use assms(8) in auto)
  have keys: "route_key r1 \<noteq> route_key r2" using assms(9) b1(3) b2(3) by (simp add: scoped_key_def)
  note mem = assms(1) subset_UNIV UNIV_I assms(2)
  have there1: "mem_content (px_store st) TBL_NAMESPACES (cl_namespace cl1) \<noteq> None" using assms(7,10) by simp
  obtain s1 router l1 where one: "prog_steps (change_task E propose cl1, st)
        (attempt (publish_router (cl_namespace cl1) router) (\<lambda>_. count_change), with_store st s1)"
      "store_inv E mem_ok mem_content (with_store st s1)"
      "mem_content s1 = apply_write (KV_Put TBL_ROUTES (route_key r1) b1) (kv_put TBL_CHANGELOGS (cl_id cl1) l1 (mem_content (px_store st)))"
      "shows_store E (mem_content s1) (cl_namespace cl1) router"
    by (rule mem.route_change_applies [OF mem b1(1) px_inv_store_inv [OF assms(4,3)] there1])
  have there2: "mem_content (px_store (with_store st s1)) TBL_NAMESPACES (cl_namespace cl2) \<noteq> None"
    using assms(8,10) by (simp add: one(3) kv_put_def tbl_defs)
  obtain s2 router2 l2 where two: "prog_steps (change_task E propose cl2, with_store st s1)
        (attempt (publish_router (cl_namespace cl2) router2) (\<lambda>_. count_change), with_store (with_store st s1) s2)"
      "mem_content s2 = apply_write (KV_Put TBL_ROUTES (route_key r2) b2) (kv_put TBL_CHANGELOGS (cl_id cl2) l2 (mem_content s1))"
    by (rule mem.route_change_applies [OF mem b2(1) one(2) there2]) (auto intro: that)
  obtain st2 where st2: "run_alone (change_task E propose cl2) (with_store st s1) = (Ok (), st2)" "px_store st2 = s2"
    using prog_steps_alone [OF two(1), unfolded publish_and_count] by (rule that) simp
  note run = overtaken [OF one(1) st2(1)]
  have "mem_content s2 TBL_ROUTES (route_key r1) = Some b1" "mem_content s2 TBL_ROUTES (route_key r2) = Some b2"
    using keys by (simp_all add: two(2) one(3) kv_put_def tbl_defs)
  with b1(2) b2(2) have "{r1, r2} \<subseteq> stored (sd_route ?S) (mem_content s2 TBL_ROUTES)" by (auto simp: stored_def)
  moreover have "rt_name (cpr_route c) \<noteq> rt_name r2" if c: "c \<in> set (nr_routes router)" for c
  proof
    assume name: "rt_name (cpr_route c) = rt_name r2"
    have "cpr_route c \<in> stored (sd_route ?S) (mem_content s1 TBL_ROUTES)" "rt_namespace (cpr_route c) = ns"
      using shows_store_route [OF one(4) c] assms(7) by simp_all
    moreover have "table_wf (sd_route ?S) route_key (mem_content s1 TBL_ROUTES)"
      using one(2) by (simp add: store_inv_def resource_wf_def)
    moreover have "mem_content s1 TBL_ROUTES (route_key r2) = None"
      using keys assms(11) by (simp add: one(3) kv_put_def tbl_defs)
    ultimately show False using name b2(3) by (fastforce simp: stored_def table_wf_def)
  qed
  ultimately show ?thesis
    using run st2(2) assms(7) find_route_mem
    by (intro exI [of _ "st2\<lparr>px_routers := (px_routers st2)(cl_namespace cl1 \<mapsto> router), px_change_hash := px_change_hash st2 + 1\<rparr>"]
        exI [of _ router]) (simp, blast)
qed

definition other_route_change :: "string changelog" where
  "other_route_change =
     changelog_new ''null'' (sd_route sample_serde) ''3'' 3 AddRoute ''a'' ''q''
       ((route_new ''q'' ''a'')\<lparr>rt_paths := [''/y'']\<rparr>)"

lemma sample_puts:
  "put_of sample_env add_route_change ((route_new ''r'' ''a'')\<lparr>rt_paths := [''/x'']\<rparr>)"
  "put_of sample_env other_route_change ((route_new ''q'' ''a'')\<lparr>rt_paths := [''/y'']\<rparr>)"
proof -
  note item = changelog_new_item [OF serde_ok_route [OF sample_serde_ok] TrueI]
  show "put_of sample_env add_route_change ((route_new ''r'' ''a'')\<lparr>rt_paths := [''/x'']\<rparr>)"
    using sample_changes_wf(2) by (simp add: put_of_def) (simp add: add_route_change_def item)
  show "put_of sample_env other_route_change ((route_new ''q'' ''a'')\<lparr>rt_paths := [''/y'']\<rparr>)"
    by (simp add: put_of_def changelog_wf_def other_route_change_def item) (simp add: route_new_def)
qed

lemma with_namespace_content:
  "mem_content (px_store with_namespace) TBL_NAMESPACES ''a'' \<noteq> None"
  "mem_content (px_store with_namespace) TBL_ROUTES k = None"
proof -
  obtain nb where "to_vec (sd_namespace sample_serde) (namespace_new ''a'') = Ok nb"
    by (rule codec_ok_vec [OF serde_okD(1) [OF sample_serde_ok] TrueI])
  then have effect: "change_effect sample_serde add_namespace_change = Ok (KV_Put TBL_NAMESPACES ''a'' nb, created ''Namespace'' ''a'')"
    by (simp add: change_effect_def add_namespace_change_def put_effect_def namespace_new_def
        changelog_new_item [OF serde_okD(1) [OF sample_serde_ok] TrueI])
  have fresh: "px_cluster fresh_proxy = None" "mem_ok (px_store fresh_proxy)" "mem_content (px_store fresh_proxy) t k = None" for t k
    by (simp_all add: fresh_proxy_def proxy_new_def mem_ok_new mem_content_new)
  obtain lb where "mem_content (px_store with_namespace) =
      apply_writes (KV_Put TBL_CHANGELOGS (cl_id add_namespace_change) lb # writes_of sample_serde [add_namespace_change])
        (mem_content (px_store fresh_proxy))"
    using mem.apply_content [OF sample_env_sel(1) subset_UNIV UNIV_I _ fresh(1,2), of add_namespace_change no_cluster]
    by (auto simp: sample_serde_ok with_namespace_def)
  then show "mem_content (px_store with_namespace) TBL_NAMESPACES ''a'' \<noteq> None"
    "mem_content (px_store with_namespace) TBL_ROUTES k = None"
    by (simp_all add: effect kv_put_def tbl_defs fresh(3))
qed

theorem concurrent_puts_lose_route_witness:
  "\<exists>st' router. par_run ([change_task sample_env no_cluster add_route_change, change_task sample_env no_cluster other_route_change],
        with_namespace) ([Return (Ok ()), Return (Ok ())], st') \<and>
     px_routers st' ''a'' = Some router \<and>
     (\<forall>hplace path meth c params.
        find_route sample_regex hplace router path meth = Some (c, params) \<longrightarrow> rt_name (cpr_route c) \<noteq> ''q'')"
proof -
  have ns: "cl_namespace add_route_change = ''a''" "cl_namespace other_route_change = ''a''"
    "pe_regex sample_env = sample_regex" "serde_ok (ps_serde (pe_store sample_env))"
    by (simp_all add: add_route_change_def other_route_change_def sample_env_def sample_serde_ok)
  have names: "rt_name ((route_new ''r'' ''a'')\<lparr>rt_paths := [''/x'']\<rparr>) \<noteq> rt_name ((route_new ''q'' ''a'')\<lparr>rt_paths := [''/y'']\<rparr>)"
    "rt_name ((route_new ''q'' ''a'')\<lparr>rt_paths := [''/y'']\<rparr>) = ''q''" by (simp_all add: route_new_def)
  from concurrent_puts_lose_route [OF sample_env_sel(1) ns(4) with_namespace_inv sample_puts ns(1,2) names(1)
      with_namespace_content(1) with_namespace_content(2), of no_cluster]
  show ?thesis unfolding ns(3) names(2) by blast
qed

text \<open>
  C9. The start can undo a delete: \<open>main.rs\<close> serves the admin API before it replays the log. For
  any store a standalone run left, and any route stored in it, there is a schedule of the replay
  and the delete of that route in which both return Ok and the delete is in the log, but the route
  is stored again. (The delete runs after the log has been listed.)
\<close>

theorem start_undoes_delete:
  fixes E :: "(mem_storage, 'j, 'r) proxy_env" and st0 :: "(mem_storage, 'j, 'r, 'n) proxy_state"
  assumes "ps_storage (pe_store E) = mem_ops place" and "serde_ok (ps_serde (pe_store E))"
    and "px_cluster st0 = None" and "px_inv E mem_ok mem_content st0"
    and "mem_content (px_store st0) TBL_CHANGELOGS = Map.empty" and "mem_content (px_store st0) TBL_ROUTES = Map.empty"
    and "run_wf E cls" and "distinct (map cl_id cls)" and "sorted_wrt (<) (map cl_timestamp cls)"
    and "s = px_store (run_changes E propose cls st0)"
    and "cl_cmd d = DeleteRoute" and "cl_namespace d = ns" and "CHR '':'' \<notin> set ns"
    and "mem_content s TBL_ROUTES (scoped_key ns (cl_name d)) = Some b" and "mem_content s TBL_NAMESPACES ns \<noteq> None"
  shows "\<exists>st2. par_run ([restore_task E, change_task E propose d], proxy_new config s) ([Return (Ok ()), Return (Ok ())], st2) \<and>
           px_ready st2 \<and> logged (ps_serde (pe_store E)) d (mem_content (px_store st2)) \<and>
           mem_content (px_store st2) TBL_ROUTES (scoped_key ns (cl_name d)) = Some b"
proof -
  let ?S = "ps_serde (pe_store E)" and ?key = "scoped_key ns (cl_name d)"
  let ?n = "proxy_new config s :: (mem_storage, 'j, 'r, 'n) proxy_state" and ?change = "change_task E propose d"
  note mem = assms(1) subset_UNIV UNIV_I assms(2)
  note run = mem.run_content [OF mem assms(3-5,7,8), of propose]
  have "px_inv E mem_ok mem_content (run_changes E propose cls st0)"
    using mem.run_inv [OF mem assms(3,4,7), of propose] by simp
  then have inv: "px_inv E mem_ok mem_content ?n"
    by (simp add: px_inv_def proxy_new_def coherent_def assms(10))
  have n: "px_cluster ?n = None" "px_store ?n = s" by (simp_all add: proxy_new_def)
  have ok: "mem_ok s" using inv n(2) by (simp add: px_inv_def)
  have "changelog_table ?S cls (mem_content s TBL_CHANGELOGS)" using run by (simp add: assms(10))
  then obtain xs where xs: "list_changelogs (pe_store E) s = Ok xs" "sort_key cl_timestamp xs = cls"
    by (rule mem.list_changelogs_table [OF assms(1) UNIV_I ok _ assms(9)])
  have wf: "changelog_wf ?S d" using assms(11-13) by (simp add: changelog_wf_def)
  then have change: "route_change E d (KV_Del TBL_ROUTES ?key)"
    using assms(11,12) by (simp add: route_change_def change_effect_def Let_def)
  have there: "mem_content (px_store ?n) TBL_NAMESPACES (cl_namespace d) \<noteq> None" using assms(12,15) by (simp add: n)
  obtain s1 router lb where del: "prog_steps (?change, ?n)
        (attempt (publish_router (cl_namespace d) router) (\<lambda>_. count_change), with_store ?n s1)"
      "from_slice (sd_changelog ?S) lb = Ok d"
      "mem_content s1 = apply_write (KV_Del TBL_ROUTES ?key) (kv_put TBL_CHANGELOGS (cl_id d) lb (mem_content (px_store ?n)))"
    by (rule mem.route_change_applies [OF mem change px_inv_store_inv [OF inv n(1)] there]) (auto intro: that)
  obtain n' where n': "run_alone ?change ?n = (Ok (), n')" "px_store n' = s1"
    using prog_steps_alone [OF del(1), unfolded publish_and_count] by (rule that) simp
  have applied: "apply_changelog E propose d ?n = (Ok (), n')" using n'(1) by (simp add: run_change)
  have "px_inv E mem_ok mem_content (snd (apply_changelog E propose d ?n))"
    by (rule mem.apply_changelog_inv [OF mem wf n(1) inv]) (simp add: applied)
  then have inv': "px_inv E mem_ok mem_content n'" by (simp add: applied)
  obtain st2 where st2: "run_alone (replay_from_task E xs) n' = (Ok (), st2)" "px_ready st2"
    "\<And>t k. (t, k) \<noteq> (TBL_NAMESPACES, ''default'') \<Longrightarrow>
       mem_content (px_store st2) t k = apply_writes (writes_of ?S cls) (mem_content s1) t k"
    by (rule replay_result [OF assms(1,2,7) xs(2) inv']) (auto simp: n'(2) intro: that)
  have "prog_steps (restore_task E, ?n) (replay_from_task E xs, ?n)"
    unfolding restore_task_def by (rule prog_steps_attempt) (simp add: n(2) xs(1))
  from prog_steps_par [OF this, of 0 "[restore_task E, ?change]"]
  have "par_run ([restore_task E, ?change], ?n) ([replay_from_task E xs, ?change], ?n)" by simp
  moreover have "par_run ([replay_from_task E xs, ?change], ?n) ([replay_from_task E xs, Return (Ok ())], n')"
    using par_run_task [of 1 "[replay_from_task E xs, ?change]" ?n] n'(1) by simp
  moreover have "par_run ([replay_from_task E xs, Return (Ok ())], n') ([Return (Ok ()), Return (Ok ())], st2)"
    using par_run_task [of 0 "[replay_from_task E xs, Return (Ok ())]" n'] st2(1) by simp
  ultimately have "par_run ([restore_task E, ?change], ?n) ([Return (Ok ()), Return (Ok ())], st2)" by (meson rtranclp_trans)
  moreover have "mem_content (px_store st2) TBL_ROUTES ?key = Some b"
  proof -
    have "apply_writes (writes_of ?S cls) (mem_content (px_store st0)) TBL_ROUTES ?key = Some b"
      using run assms(14) by (simp add: assms(10) tbl_defs)
    from run_slot [OF this] assms(6) st2(3) show ?thesis by (simp add: tbl_defs)
  qed
  moreover have "logged ?S d (mem_content (px_store st2))"
    using st2(3) [of TBL_CHANGELOGS] resource_writes_changelogs [of ?S cls "mem_content s1"] del(2,3)
    by (simp add: logged_def tbl_defs kv_put_def kv_del_def)
  ultimately show ?thesis using st2(2) by blast
qed

definition delete_route_change :: "string changelog" where
  "delete_route_change =
     changelog_new ''null'' (sd_route sample_serde) ''9'' 9 DeleteRoute ''a'' ''r'' (route_new ''r'' ''a'')"

lemma sample_effects:
  obtains nb rb where
    "writes_of sample_serde [add_namespace_change, add_route_change] =
       [KV_Put TBL_NAMESPACES ''a'' nb, KV_Put TBL_ROUTES (scoped_key ''a'' ''r'') rb]"
proof -
  note new = changelog_new_add_effect
  obtain nb where "change_effect sample_serde add_namespace_change = Ok (KV_Put TBL_NAMESPACES ''a'' nb, created ''Namespace'' ''a'')"
    using new [OF serde_ok_namespace [OF sample_serde_ok], of TBL_NAMESPACES ns_name "\<lambda>x. created ''Namespace'' (ns_name x)"
        "''null''" "''1''" 1 AddNamespace "''a''" "''a''" "namespace_new ''a''"]
    by (auto simp: change_effect_def add_namespace_change_def namespace_new_def)
  moreover obtain rb where
    "change_effect sample_serde add_route_change = Ok (KV_Put TBL_ROUTES (scoped_key ''a'' ''r'') rb, created ''Route'' ''r'')"
    using new [OF serde_ok_route [OF sample_serde_ok], of TBL_ROUTES route_key "\<lambda>x. created ''Route'' (rt_name x)"
        "''null''" "''2''" 2 AddRoute "''a''" "''r''" "(route_new ''r'' ''a'')\<lparr>rt_paths := [''/x'']\<rparr>"]
    by (auto simp: change_effect_def add_route_change_def route_new_def)
  ultimately show ?thesis using that by simp
qed

theorem start_undoes_delete_witness:
  "\<exists>st2 :: (mem_storage, string, rx list, unit) proxy_state.
     par_run ([restore_task sample_env, change_task sample_env no_cluster delete_route_change],
        proxy_new (dgate_config_default undefined)
          (px_store (run_changes sample_env no_cluster [add_namespace_change, add_route_change] fresh_proxy)))
       ([Return (Ok ()), Return (Ok ())], st2) \<and>
     logged sample_serde delete_route_change (mem_content (px_store st2)) \<and>
     mem_content (px_store st2) TBL_ROUTES (scoped_key ''a'' ''r'') \<noteq> None"
proof -
  let ?cls = "[add_namespace_change, add_route_change]"
  have payload: "payload_ok sample_env add_namespace_change" "payload_ok sample_env add_route_change"
    by (simp_all add: payload_ok_def add_namespace_change_def add_route_change_def)
  then have wf: "run_wf sample_env ?cls" by (simp add: run_wf_def sample_changes_wf)
  have fresh: "px_cluster fresh_proxy = None" "px_inv sample_env mem_ok mem_content fresh_proxy"
    "mem_content (px_store fresh_proxy) t = Map.empty" for t
    unfolding fresh_proxy_def by (simp_all add: proxy_new_inv) (simp_all add: proxy_new_def mem_content_new)
  have log: "distinct (map cl_id ?cls)" "sorted_wrt (<) (map cl_timestamp ?cls)"
    by (simp_all add: add_namespace_change_def add_route_change_def)
  have serde: "serde_ok (ps_serde (pe_store sample_env))" by (simp add: sample_serde_ok)
  obtain nb rb where writes: "writes_of sample_serde ?cls = [KV_Put TBL_NAMESPACES ''a'' nb, KV_Put TBL_ROUTES (scoped_key ''a'' ''r'') rb]"
    by (rule sample_effects)
  have "mem_content (px_store (run_changes sample_env no_cluster ?cls fresh_proxy)) t =
      apply_writes (writes_of sample_serde ?cls) (mem_content (px_store fresh_proxy)) t" if "t \<noteq> TBL_CHANGELOGS" for t
    using mem.run_content [OF sample_env_sel(1) subset_UNIV UNIV_I serde fresh(1,2,3) wf log(1), of no_cluster] that by simp
  then have content: "mem_content (px_store (run_changes sample_env no_cluster ?cls fresh_proxy)) TBL_ROUTES (scoped_key ''a'' ''r'') = Some rb"
    "mem_content (px_store (run_changes sample_env no_cluster ?cls fresh_proxy)) TBL_NAMESPACES ''a'' \<noteq> None"
    by (simp_all add: writes kv_put_def tbl_defs del: writes_of_simps)
  have d: "cl_cmd delete_route_change = DeleteRoute" "cl_namespace delete_route_change = ''a''" "cl_name delete_route_change = ''r''"
    "CHR '':'' \<notin> set ''a''" by (simp_all add: delete_route_change_def)
  from start_undoes_delete [OF sample_env_sel(1) serde fresh(1,2,3,3) wf log refl d(1,2,4) _ content(2), of rb "dgate_config_default undefined"]
  show ?thesis using content(1) unfolding d(3) by (metis option.distinct(1) sample_env_sel(2))
qed

text \<open>
  C11. A restart can change which of two changes counts: for any two puts of the same route at
  increasing times there is a schedule in which both return Ok and the store, and so the gateway,
  has the first version, while a restart on that store replays the log and serves the second. (The
  first is logged before the second runs, and stored after it.)
\<close>

theorem restart_swaps_versions:
  fixes E :: "(mem_storage, 'j, 'r) proxy_env" and st :: "(mem_storage, 'j, 'r, 'n) proxy_state"
  assumes "ps_storage (pe_store E) = mem_ops place" and "serde_ok (ps_serde (pe_store E))"
    and "px_cluster st = None" and "px_inv E mem_ok mem_content st"
    and "changelog_table (ps_serde (pe_store E)) cls (mem_content (px_store st) TBL_CHANGELOGS)" and "run_wf E cls"
    and "distinct (map cl_id [cl1, cl2])" and "{cl_id cl1, cl_id cl2} \<inter> cl_id ` set cls = {}"
    and "sorted_wrt (<) (map cl_timestamp (cls @ [cl1, cl2]))"
    and "put_of E cl1 r1" and "put_of E cl2 r2" and "route_key r1 = k" and "route_key r2 = k"
    and "mem_content (px_store st) TBL_NAMESPACES (cl_namespace cl1) \<noteq> None"
    and "mem_content (px_store st) TBL_NAMESPACES (cl_namespace cl2) \<noteq> None"
  shows "\<exists>st' st2 :: (mem_storage, 'j, 'r, 'n) proxy_state.
           par_run ([change_task E propose cl1, change_task E propose cl2], st) ([Return (Ok ()), Return (Ok ())], st') \<and>
           entry_of (sd_route (ps_serde (pe_store E))) (mem_content (px_store st') TBL_ROUTES) k = Some r1 \<and>
           restore_from_changelogs E (proxy_new config (px_store st')) = (Ok (), st2) \<and>
           entry_of (sd_route (ps_serde (pe_store E))) (mem_content (px_store st2) TBL_ROUTES) k = Some r2"
proof -
  let ?S = "ps_serde (pe_store E)" and ?c1 = "change_task E propose cl1" and ?c2 = "change_task E propose cl2"
  let ?K = "\<lambda>_ :: unit. count_change :: (mem_storage, 'j, 'r, 'n, unit) task"
  note mem = assms(1) subset_UNIV UNIV_I assms(2)
  obtain b1 where b1: "route_change E cl1 (KV_Put TBL_ROUTES k b1)" "from_slice (sd_route ?S) b1 = Ok r1"
    by (rule put_of_change [OF assms(10,2)]) (auto simp: assms(12) [symmetric] intro: that)
  obtain b2 where b2: "route_change E cl2 (KV_Put TBL_ROUTES k b2)" "from_slice (sd_route ?S) b2 = Ok r2"
    by (rule put_of_change [OF assms(11,2)]) (auto simp: assms(13) [symmetric] intro: that)
  obtain s1 l1 where one: "prog_steps (?c1, st) (attempt (process_task E cl1) ?K, with_store st s1)"
      "store_inv E mem_ok mem_content (with_store st s1)" "from_slice (sd_changelog ?S) l1 = Ok cl1"
      "mem_content s1 = kv_put TBL_CHANGELOGS (cl_id cl1) l1 (mem_content (px_store st))"
    by (rule mem.append_steps [OF assms(1) UNIV_I assms(2) px_inv_store_inv [OF assms(4,3)]])
  have there2: "mem_content (px_store (with_store st s1)) TBL_NAMESPACES (cl_namespace cl2) \<noteq> None"
    using assms(15) by (simp add: one(4) kv_put_def tbl_defs)
  obtain s2 router2 l2 where two: "prog_steps (?c2, with_store st s1)
        (attempt (publish_router (cl_namespace cl2) router2) ?K, with_store (with_store st s1) s2)"
      "store_inv E mem_ok mem_content (with_store (with_store st s1) s2)" "from_slice (sd_changelog ?S) l2 = Ok cl2"
      "mem_content s2 = apply_write (KV_Put TBL_ROUTES k b2) (kv_put TBL_CHANGELOGS (cl_id cl2) l2 (mem_content s1))"
    by (rule mem.route_change_applies [OF mem b2(1) one(2) there2]) (auto intro: that)
  obtain st2 where st2: "run_alone ?c2 (with_store st s1) = (Ok (), st2)" "px_store st2 = s2" "store_inv E mem_ok mem_content st2"
    using prog_steps_alone [OF two(1), unfolded publish_and_count]
    by (rule that) (use two(2) in \<open>simp_all add: store_inv_def\<close>)
  have there1: "mem_content (px_store st2) TBL_NAMESPACES (cl_namespace cl1) \<noteq> None"
    using assms(14) by (simp add: st2(2) two(4) one(4) kv_put_def tbl_defs)
  obtain s3 router where three: "prog_steps (attempt (process_task E cl1) ?K, st2)
        (attempt (publish_router (cl_namespace cl1) router) ?K, with_store st2 s3)"
      "store_inv E mem_ok mem_content (with_store st2 s3)" "mem_content s3 = apply_write (KV_Put TBL_ROUTES k b1) (mem_content s2)"
    by (rule mem.process_steps [OF assms(1) subset_UNIV assms(2) b1(1) st2(3) there1, where k = ?K]) (auto simp: st2(2) intro: that)
  obtain st' where st': "run_alone (attempt (process_task E cl1) ?K) st2 = (Ok (), st')" "px_store st' = s3"
    using prog_steps_alone [OF three(1), unfolded publish_and_count] by (rule that) simp
  have "par_run ([?c1, ?c2], st) ([attempt (process_task E cl1) ?K, ?c2], with_store st s1)"
    using prog_steps_par [OF one(1), of 0 "[?c1, ?c2]"] by simp
  moreover have "par_run ([attempt (process_task E cl1) ?K, ?c2], with_store st s1)
      ([attempt (process_task E cl1) ?K, Return (Ok ())], st2)"
    using par_run_task [of 1 "[attempt (process_task E cl1) ?K, ?c2]" "with_store st s1"] st2(1) by simp
  moreover have "par_run ([attempt (process_task E cl1) ?K, Return (Ok ())], st2) ([Return (Ok ()), Return (Ok ())], st')"
    using par_run_task [of 0 "[attempt (process_task E cl1) ?K, Return (Ok ())]" st2] st'(1) by simp
  ultimately have run: "par_run ([?c1, ?c2], st) ([Return (Ok ()), Return (Ok ())], st')" by (meson rtranclp_trans)
  let ?n = "proxy_new config s3 :: (mem_storage, 'j, 'r, 'n) proxy_state" and ?log = "cls @ [cl1] @ [cl2]"
  have inv: "px_inv E mem_ok mem_content ?n" using three(2) by (simp add: store_inv_def px_inv_def proxy_new_def coherent_def)
  have "changelog_table ?S ((cls @ [cl1]) @ [cl2]) ((mem_content (px_store st) TBL_CHANGELOGS)(cl_id cl1 \<mapsto> l1, cl_id cl2 \<mapsto> l2))"
    by (intro changelog_table_snoc assms(5) one(3) two(3)) (use assms(7,8) in auto)
  then have log: "changelog_table ?S ?log (mem_content s3 TBL_CHANGELOGS)"
    by (simp add: three(3) two(4) one(4) kv_put_def tbl_defs)
  have sorted: "sorted_wrt (<) (map cl_timestamp ?log)" using assms(9) by simp
  have ok: "mem_ok s3" using three(2) by (simp add: store_inv_def)
  obtain xs where xs: "list_changelogs (pe_store E) s3 = Ok xs" "sort_key cl_timestamp xs = ?log"
    by (rule mem.list_changelogs_table [OF assms(1) UNIV_I ok log sorted])
  have wf: "run_wf E ?log" using assms(6,10,11) by (auto simp: run_wf_def put_of_def payload_ok_def)
  obtain final where final: "run_alone (replay_from_task E xs) ?n = (Ok (), final)"
    "\<And>t k. (t, k) \<noteq> (TBL_NAMESPACES, ''default'') \<Longrightarrow>
       mem_content (px_store final) t k = apply_writes (writes_of ?S ?log) (mem_content (px_store ?n)) t k"
    by (rule replay_result [OF assms(1,2) wf xs(2) inv]) (auto intro: that)
  have "restore_from_changelogs E ?n = run_alone (restore_task E) ?n" by (simp add: run_restore)
  also have "\<dots> = (Ok (), final)" by (simp add: restore_task_def proxy_new_def xs(1)) (use final(1) in \<open>simp add: proxy_new_def\<close>)
  finally have restored: "restore_from_changelogs E (proxy_new config (px_store st')) = (Ok (), final)" by (simp add: st'(2))
  obtain msg where "change_effect ?S cl2 = Ok (KV_Put TBL_ROUTES k b2, msg)" using b2(1) by (auto simp: route_change_def)
  then have "mem_content (px_store final) TBL_ROUTES k = Some b2"
    using final(2) by (simp add: tbl_defs writes_of_append apply_writes_append kv_put_def del: append_Cons)
  moreover have "mem_content (px_store st') TBL_ROUTES k = Some b1" by (simp add: st'(2) three(3) kv_put_def)
  ultimately show ?thesis using run restored b1(2) b2(2) by (auto simp: entry_of_def)
qed

definition newer_route_change :: "string changelog" where
  "newer_route_change =
     changelog_new ''null'' (sd_route sample_serde) ''4'' 4 AddRoute ''a'' ''r''
       ((route_new ''r'' ''a'')\<lparr>rt_paths := [''/z'']\<rparr>)"

theorem restart_swaps_versions_witness:
  "\<exists>st' st2 :: (mem_storage, string, rx list, unit) proxy_state.
     par_run ([change_task sample_env no_cluster add_route_change, change_task sample_env no_cluster newer_route_change],
       with_namespace) ([Return (Ok ()), Return (Ok ())], st') \<and>
     entry_of (sd_route sample_serde) (mem_content (px_store st') TBL_ROUTES) (scoped_key ''a'' ''r'') =
       Some ((route_new ''r'' ''a'')\<lparr>rt_paths := [''/x'']\<rparr>) \<and>
     restore_from_changelogs sample_env (proxy_new (dgate_config_default undefined) (px_store st')) = (Ok (), st2) \<and>
     entry_of (sd_route sample_serde) (mem_content (px_store st2) TBL_ROUTES) (scoped_key ''a'' ''r'') =
       Some ((route_new ''r'' ''a'')\<lparr>rt_paths := [''/z'']\<rparr>)"
proof -
  have serde: "serde_ok (ps_serde (pe_store sample_env))" by (simp add: sample_serde_ok)
  have wf: "run_wf sample_env [add_namespace_change]"
    by (simp add: run_wf_def sample_changes_wf payload_ok_def) (simp add: add_namespace_change_def)
  have fresh: "px_cluster fresh_proxy = None" "px_inv sample_env mem_ok mem_content fresh_proxy"
    "mem_content (px_store fresh_proxy) TBL_CHANGELOGS = Map.empty"
    unfolding fresh_proxy_def by (simp_all add: proxy_new_inv) (simp_all add: proxy_new_def mem_content_new)
  have "changelog_table (ps_serde (pe_store sample_env)) [add_namespace_change] (mem_content (px_store with_namespace) TBL_CHANGELOGS)"
    using mem.run_content [OF sample_env_sel(1) subset_UNIV UNIV_I serde fresh wf, of no_cluster]
    by (simp add: run_changes_def with_namespace_def)
  moreover have "put_of sample_env newer_route_change ((route_new ''r'' ''a'')\<lparr>rt_paths := [''/z'']\<rparr>)"
    by (simp add: put_of_def changelog_wf_def newer_route_change_def changelog_new_item [OF serde_ok_route [OF sample_serde_ok] TrueI])
      (simp add: route_new_def)
  moreover have "distinct (map cl_id [add_route_change, newer_route_change])"
    "{cl_id add_route_change, cl_id newer_route_change} \<inter> cl_id ` set [add_namespace_change] = {}"
    "sorted_wrt (<) (map cl_timestamp ([add_namespace_change] @ [add_route_change, newer_route_change]))"
    "cl_namespace add_route_change = ''a''" "cl_namespace newer_route_change = ''a''"
    by (simp_all add: add_namespace_change_def add_route_change_def newer_route_change_def)
  moreover have "route_key ((route_new ''r'' ''a'')\<lparr>rt_paths := p\<rparr>) = scoped_key ''a'' ''r''" for p
    by (simp add: route_new_def)
  ultimately show ?thesis
    using restart_swaps_versions [OF sample_env_sel(1) serde with_namespace_inv _ wf _ _ _ sample_puts(1), of newer_route_change
        "(route_new ''r'' ''a'')\<lparr>rt_paths := [''/z'']\<rparr>" "scoped_key ''a'' ''r''" no_cluster "dgate_config_default undefined"]
      with_namespace_content(1)
    by simp
qed

end
