(* ===== verification/Server_Main.thy ===== *)
theory Server_Main
  imports Server
begin

text \<open>
  The program of \<open>src/main.rs\<close> from its first line to its end: the TLS provider, the command line,
  the banner, the configuration, the log, the storage, the start of \<open>Server\<close> and the shutdown.
  What clap makes of the arguments, the root certificates and what serving until the signal returns
  are parameters.
\<close>

section \<open>The banner\<close>

definition server_version :: string where
  "server_version = ''2.0.0''"

definition banner :: string where
  \<open>banner = join [CHR 10]
     [[],
      ''_________________      _____      '',
      ''___  __ '' @ [CHR 0x5C] @ ''_  ____/_____ __  /_____ '',
      ''__  / / /  / __ _  __ `/  __/  _ '' @ [CHR 0x5C] @ '''',
      ''_  /_/ // /_/ / / /_/ // /_ /  __/'',
      ''/_____/ '' @ [CHR 0x5C] @ ''____/  '' @ [CHR 0x5C] @ ''__,_/ '' @ [CHR 0x5C] @ ''__/ '' @ [CHR 0x5C] @ ''___/ '',
      ''                                   '',
      ''DGate - API Gateway Server (Rust Edition)'',
      ''-----------------------------------'',
      []]\<close>

definition banner_of :: "'j config_env \<Rightarrow> string" where
  "banner_of W =
     (case ce_env_var W ''DG_DISABLE_BANNER'' of
        None \<Rightarrow> banner @ ''Version: v'' @ server_version @ [CHR 10, CHR 10]
      | Some _ \<Rightarrow> [])"

section \<open>The program\<close>

text \<open>\<open>Exited\<close> is clap's end of the process, for an error or after help and version.\<close>

datatype main_outcome = Panicked string | Exited int | Failed string | Finished

record ('s, 'j) main_env =
  me_install_crypto :: "string + unit"
  me_args :: "int + string option"
  me_open_storage :: "'j storage_config \<Rightarrow> 's option"
  me_native_roots :: "string + unit"
  me_serve :: "string + unit"

record ('s, 'j, 'r, 'n) server_run =
  sr_printed :: string
  sr_logging :: "(log_level \<times> bool) option"
  sr_listening :: "string list"
  sr_state :: "('s, 'j, 'r, 'n) proxy_state option"

text \<open>
  \<open>ProxyState::new\<close>: None where opening the storage or loading the root certificates panics.
\<close>

definition new_proxy_state :: "('s, 'j) main_env \<Rightarrow> 'j dgate_config \<Rightarrow> ('s, 'j, 'r, 'n) proxy_state option" where
  "new_proxy_state M config =
     (case me_open_storage M (cfg_storage config) of
        None \<Rightarrow> None
      | Some store \<Rightarrow> (case me_native_roots M of Err _ \<Rightarrow> None | Ok _ \<Rightarrow> Some (proxy_new config store)))"

text \<open>\<open>me_serve\<close>: what serving with graceful shutdown returns, once the signal came or on an error.\<close>

definition serve_until_signal :: "('s, 'j) main_env \<Rightarrow> main_outcome" where
  "serve_until_signal M = (case me_serve M of Err e \<Rightarrow> Failed e | Ok _ \<Rightarrow> Finished)"

definition run_main ::
  "('s, 'j) main_env \<Rightarrow> ('s, 'j, 'r) proxy_env \<Rightarrow> 'j config_env \<Rightarrow> 'addr listener_env \<Rightarrow>
   (cluster_config \<Rightarrow> 's \<Rightarrow> string + 'n) \<Rightarrow> ('n \<Rightarrow> (string + unit) \<times> 'n) \<Rightarrow>
   ('j changelog \<Rightarrow> 'n \<times> 's \<Rightarrow> (string + 'resp) \<times> ('n \<times> 's)) \<Rightarrow> (nat \<Rightarrow> string \<times> datetime) \<Rightarrow>
   main_outcome \<times> ('s, 'j, 'r, 'n) server_run" where
  "run_main M E W N new_manager initialize propose stamp =
     (let run = \<lparr>sr_printed = [], sr_logging = None, sr_listening = [], sr_state = None\<rparr>
      in (case me_install_crypto M of
        Err _ \<Rightarrow> (Panicked ''Failed to install rustls crypto provider'', run)
      | Ok _ \<Rightarrow>
     (case me_args M of
        Err code \<Rightarrow> (Exited code, run)
      | Ok path \<Rightarrow>
     (let run = run\<lparr>sr_printed := banner_of W\<rparr>
      in (case load_config W path of
        Err (Load_Error e) \<Rightarrow> (Failed e, run)
      | Err Load_Panic \<Rightarrow> (Panicked ''Regex::new'', run)
      | Ok config \<Rightarrow>
     (let run = run\<lparr>sr_logging := Some (log_level_of (cfg_log_level config), cfg_log_json config)\<rparr>
      in (case new_proxy_state M config :: ('s, 'j, 'r, 'n) proxy_state option of
        None \<Rightarrow> (Panicked ''ProxyState::new'', run)
      | Some st \<Rightarrow>
     (case start_server E W N new_manager initialize propose stamp config (px_store st) of
        (r, (listening, st)) \<Rightarrow>
          ((case r of Err e \<Rightarrow> Failed e | Ok _ \<Rightarrow> serve_until_signal M),
           run\<lparr>sr_listening := listening, sr_state := Some st\<rparr>)))))))))"

text \<open>
  The router of the proxy: both patterns, with any method, go to \<open>handle_request\<close>, the argument
  \<open>handle\<close>; \<open>matches\<close> is axum's match of a pattern, and None its own answer for a path without one.
\<close>

definition proxy_patterns :: "string list" where
  "proxy_patterns = [''/{*path}'', ''/'']"

definition proxy_router :: "(string \<Rightarrow> string \<Rightarrow> bool) \<Rightarrow> ('req \<Rightarrow> 't \<Rightarrow> 'resp \<times> 't) \<Rightarrow> string \<Rightarrow> 'req \<Rightarrow> 't \<Rightarrow> ('resp \<times> 't) option" where
  "proxy_router matches handle path req st =
     (if \<exists>pattern \<in> set proxy_patterns. matches pattern path then Some (handle req st) else None)"

section \<open>Lemmas\<close>

text \<open>A wildcard takes a rest of the path that is not empty, so every path is the proxy's.\<close>

lemma proxy_router_total:
  assumes "\<And>path. matches ''/'' path \<longleftrightarrow> path = ''/''"
    and "\<And>path. matches ''/{*path}'' path \<longleftrightarrow> (\<exists>c rest. path = ''/'' @ c # rest)"
    and "starts_with path ''/''"
  shows "proxy_router matches handle path req st = Some (handle req st)"
proof -
  obtain rest where "path = ''/'' @ rest" using assms(3) by (auto simp: starts_with_iff)
  then show ?thesis using assms(1,2) by (cases rest) (auto simp: proxy_router_def proxy_patterns_def)
qed

text \<open>A program that finished has served: its configuration was read and its start succeeded.\<close>

lemma run_main_finished:
  assumes "run_main M E W N new_manager initialize propose stamp = (Finished, run)"
  obtains path config store where "me_args M = Ok path" and "load_config W path = Ok config"
    and "me_open_storage M (cfg_storage config) = Some store" and "sr_logging run = Some (log_level_of (cfg_log_level config), cfg_log_json config)"
    and "start_server E W N new_manager initialize propose stamp config store = (Ok (), (sr_listening run, the (sr_state run)))"
    and "sr_printed run = banner_of W"
proof -
  obtain path where path: "me_args M = Ok path" and crypto: "me_install_crypto M = Ok ()"
    using assms by (cases "me_install_crypto M"; cases "me_args M") (auto simp: run_main_def Let_def)
  obtain config where config: "load_config W path = Ok config"
    using assms by (cases "load_config W path") (auto simp: run_main_def Let_def path crypto split: load_failure.splits)
  obtain store where store: "me_open_storage M (cfg_storage config) = Some store" and roots: "me_native_roots M = Ok ()"
    using assms by (cases "me_open_storage M (cfg_storage config)"; cases "me_native_roots M")
      (auto simp: run_main_def Let_def path crypto config new_proxy_state_def)
  obtain r listening st where start: "start_server E W N new_manager initialize propose stamp config store = (r, (listening, st))"
    by (metis surj_pair)
  from assms have "r = Ok ()" and run: "run = \<lparr>sr_printed = banner_of W,
      sr_logging = Some (log_level_of (cfg_log_level config), cfg_log_json config), sr_listening = listening, sr_state = Some st\<rparr>"
    by (cases r; auto simp: run_main_def Let_def path crypto config new_proxy_state_def store roots proxy_new_def start)+
  with that path config store start show ?thesis by simp
qed

text \<open>Nothing listens and no state is there unless the configuration was read.\<close>

lemma run_main_without_config:
  assumes "\<And>path. me_args M = Ok path \<Longrightarrow> \<not> is_ok (load_config W path)"
  shows "sr_listening (snd (run_main M E W N new_manager initialize propose stamp)) = []"
    and "sr_state (snd (run_main M E W N new_manager initialize propose stamp)) = None"
  using assms
  by (cases "me_install_crypto M"; cases "me_args M"; cases "load_config W (projr (me_args M))";
      fastforce simp: run_main_def Let_def split: load_failure.split)+

lemma banner_shown: "banner_of W \<noteq> [] \<longleftrightarrow> ce_env_var W ''DG_DISABLE_BANNER'' = None"
  by (simp add: banner_of_def split: option.split)

end
