(* ===== verification/Echo_Server.thy ===== *)
theory Echo_Server
  imports Prelude
begin

text \<open>
  The echo server of the performance tests, \<open>src/bin/echo-server.rs\<close>: the port it takes from the
  command line and the handler with its global counter. Accepting connections and HTTP framing
  are hyper's.
\<close>

section \<open>The port\<close>

text \<open>\<open>str::parse::<u16>\<close>: an optional plus sign, at least one digit, every step checked.\<close>

fun parse_u16_digits :: "int \<Rightarrow> string \<Rightarrow> int option" where
  "parse_u16_digits acc [] = Some acc"
| "parse_u16_digits acc (c # cs) =
     (if c \<in> set ''0123456789''
      then let acc' = 10 * acc + (of_char c - 48) in if acc' < 65536 then parse_u16_digits acc' cs else None
      else None)"

definition parse_u16 :: "string \<Rightarrow> u16 option" where
  "parse_u16 s =
     (let digits = (case s of c # cs \<Rightarrow> if c = CHR ''+'' then cs else s | [] \<Rightarrow> [])
      in if digits = [] then None else map_option of_int (parse_u16_digits 0 digits))"

definition echo_port :: "string list \<Rightarrow> u16" where
  "echo_port args =
     (case dropWhile (\<lambda>a. a \<noteq> ''--port'') args of
        _ # p # _ \<Rightarrow> (case parse_u16 p of Some port \<Rightarrow> port | None \<Rightarrow> 9999)
      | _ \<Rightarrow> 9999)"

section \<open>The handler\<close>

record echo_response =
  ec_status :: u16
  ec_headers :: "(string \<times> string) list"
  ec_body :: string

text \<open>The request is not read; \<open>fetch_add\<close> returns the old count and wraps around.\<close>

definition echo :: "u64 \<Rightarrow> echo_response \<times> u64" where
  \<open>echo hits =
     (\<lparr>ec_status = 200, ec_headers = [(''Content-Type'', ''application/json'')],
       ec_body = ''{"ok":true,"n":'' @ show_nat (unat hits) @ ''}''\<rparr>, hits + 1)\<close>

primrec echo_run :: "nat \<Rightarrow> u64 \<Rightarrow> echo_response list \<times> u64" where
  "echo_run 0 hits = ([], hits)"
| "echo_run (Suc n) hits = (case echo hits of (r, c) \<Rightarrow> case echo_run n c of (rs, c') \<Rightarrow> (r # rs, c'))"

section \<open>Lemmas\<close>

lemma echo_run_eq:
  "echo_run n hits = (map (\<lambda>i. fst (echo (hits + of_nat i))) [0..<n], hits + of_nat n)"
proof (induction n arbitrary: hits)
  case (Suc n)
  have "[0..<Suc n] = 0 # map Suc [0..<n]" by (simp add: upt_conv_Cons map_Suc_upt del: upt_Suc)
  then show ?case
    using Suc.IH [of "hits + 1"] by (simp add: echo_def comp_def add.assoc del: upt_Suc)
qed simp

text \<open>The responses of fewer than \<open>2^64\<close> requests carry pairwise different numbers.\<close>

lemma echo_count_distinct:
  assumes "n \<le> 2 ^ 64"
  shows "distinct (map (\<lambda>i. hits + of_nat i :: u64) [0..<n])"
proof -
  have "i = j" if "i < n" "j < n" "hits + of_nat i = (hits + of_nat j :: u64)" for i j
    using that assms by (simp add: word_of_nat_eq_iff take_bit_eq_mod)
  then show ?thesis by (auto simp: distinct_map inj_on_def)
qed

lemma parse_u16_digits_bound:
  "parse_u16_digits acc s = Some n \<Longrightarrow> 0 \<le> acc \<Longrightarrow> acc < 65536 \<Longrightarrow> 0 \<le> n \<and> n < 65536"
  by (induction acc s rule: parse_u16_digits.induct) (auto simp: Let_def split: if_splits)

lemma parse_u16_exact:
  assumes "parse_u16_digits 0 digits = Some n"
  shows "uint (of_int n :: u16) = n"
  using parse_u16_digits_bound [OF assms] by (simp add: uint_word_of_int_eq take_bit_eq_mod)

lemma dropWhile_absent:
  "x \<notin> set xs \<Longrightarrow> dropWhile (\<lambda>a. a \<noteq> x) (xs @ ys) = dropWhile (\<lambda>a. a \<noteq> x) ys"
  by (induction xs) auto

lemma echo_port_default:
  assumes "''--port'' \<notin> set args"
  shows "echo_port args = 9999"
proof -
  have absent: "dropWhile (\<lambda>a. a \<noteq> ''--port'') args = []"
    using dropWhile_absent [OF assms, of "[]"] by (simp only: append_Nil2 dropWhile.simps(1))
  show ?thesis unfolding echo_port_def absent by simp
qed

lemma echo_port_given:
  assumes "''--port'' \<notin> set pre"
  shows "echo_port (pre @ ''--port'' # p # rest) = (case parse_u16 p of Some port \<Rightarrow> port | None \<Rightarrow> 9999)"
  unfolding echo_port_def dropWhile_absent [OF assms] by simp

lemma echo_port_examples:
  "echo_port [''echo-server'', ''--port'', ''+8080''] = 8080"
  "echo_port [''echo-server'', ''--port'', ''65536''] = 9999"
  "echo_port [''echo-server'', ''--port'', ''--port''] = 9999"
  "echo_port [''echo-server'', ''--port''] = 9999"
  by code_simp+

end
