(* ===== verification/Spec2Isabelle.thy ===== *)
theory Spec2Isabelle
  imports File_Storage Tempo_System Cluster Js_Helpers Request_Forwarding Ws_Relay Gateway Cli_Facts
    Concurrent_Races Server_Main Echo_Server
begin

text \<open>
  Verification of DGate, an API gateway in Rust (\<open>src/src\<close>).

  The program. A node keeps resources (namespaces, services, routes, modules, domains, secrets,
  collections, documents) in a key-value store. Every change is a change log: a command and the
  resource as JSON. The admin API makes change logs; the proxy state appends them to the store
  and applies them, or, in a cluster, proposes them to a consensus implementation (Raft over
  openraft, or the program's own Tempo protocol) whose nodes apply them and tell the proxy. From
  the store the proxy keeps caches: per namespace a router of compiled routes, the resolved
  domains, the decoded modules. A request is served from the caches: host to namespace, path and
  method to route, then JavaScript modules, an upstream service, a WebSocket relay or gRPC. A
  restart replays the change logs.

  Conventions (\<open>Prelude\<close>). A \<open>Result\<close> is a sum with \<open>Ok\<close> and \<open>Err\<close>; an operation on shared
  state returns its result with the new state; a struct is a record, an enum a datatype, a \<open>u64\<close> a
  64-bit word; strings are their UTF-8 bytes. A \<open>HashMap\<close> is its entries in an iteration order
  that a parameter chooses (\<open>Hash_Map\<close>), so what is proved holds for every order. Code that is not
  in the repository is a parameter: serde (\<open>codec\<close>, \<open>serde\<close>), redb, the regex crate, QuickJS,
  openraft, reqwest, h2, clap, the clock, UUIDs. Laws of such code that proofs need are named
  hypotheses (\<open>serde_ok\<close>, \<open>regex_documented\<close>, \<open>env_regex_ok\<close>, \<open>value_api_ok\<close>,
  \<open>redb_ok\<close> and others) and hold of concrete instances (\<open>Sample_Serde\<close> and the samples of each
  theory), on which the witnesses run.

  Theories and code.

  \<^item> \<open>Resources\<close>: \<open>resources/mod.rs\<close>. \<open>Storage\<close>: the trait \<open>Storage\<close> as a record of operations
    and as the locale \<open>kv_storage\<close> of its laws, \<open>MemoryStorage\<close> and its interpretation.
    \<open>File_Storage\<close>: \<open>FileStorage\<close> over redb, with the same laws on the nine known tables. \<open>Proxy_Store\<close>:
    the typed operations of \<open>ProxyStore\<close>, proved once in the locale. All of \<open>storage/mod.rs\<close>.
  \<^item> \<open>Regex_Engine\<close>: what the regex crate documents of the syntax the program uses, a reader of
    patterns and a backtracking matcher; the hypotheses about the crate say that it agrees with
    them on every pattern they read, and the proofs derive what the program's patterns match.
  \<^item> \<open>Config\<close>: \<open>config/mod.rs\<close>, with the expansion of environment variables, whose pattern is read by
    that theory, and module payloads.
  \<^item> \<open>Changes\<close>: what a change log does to the store, the specification that the three appliers of
    the code (Raft, Tempo, proxy) are proved to meet; \<open>appliers_agree\<close> below compares them.
  \<^item> \<open>Tempo_Clock\<close>, \<open>Tempo_State\<close>, \<open>Tempo_Node\<close>: \<open>cluster/tempo/\<close>. \<open>Tempo_System\<close>: a cluster of
    nodes as a step relation over messages that may be lost, repeated and reordered, with its
    invariants by rule induction.
  \<^item> \<open>Raft_Log\<close>, \<open>Raft_SM\<close>, \<open>Raft\<close>: \<open>cluster/raft/\<close>, the log store, the state machine with its
    snapshots, the wrapper around openraft and its network. \<open>Consensus\<close>, \<open>Discovery\<close>, \<open>Cluster\<close>:
    \<open>cluster/consensus.rs\<close>, \<open>discovery.rs\<close>, \<open>mod.rs\<close>.
  \<^item> \<open>Path_Pattern\<close>, \<open>Routing\<close>: the compilation of path patterns, the match of routes and domains.
    \<open>Proxy\<close>: the state of the proxy, change logs, start. \<open>Proxy_Changes\<close>, \<open>Proxy_Start\<close>: the caches
    agree with the store, and a restart restores them. \<open>Requests\<close>: \<open>handle_request\<close> with its four
    ways out. \<open>Request_Safety\<close>, \<open>Request_Forwarding\<close>: what a request may read, change, send and
    answer. \<open>Ws_Relay\<close>: the two loops of the WebSocket relay as a step relation. All of
    \<open>proxy/mod.rs\<close>.
  \<^item> \<open>Modules\<close>, \<open>Js_Helpers\<close>: \<open>modules/mod.rs\<close>, the execution of modules and the JavaScript it embeds.
  \<^item> \<open>Admin\<close>, \<open>Admin_Facts\<close>: \<open>admin/mod.rs\<close>, the handlers and the route table. \<open>Gateway\<close>: what a put
    or delete of a route through the API means for the routes served.
  \<^item> \<open>Cli\<close>, \<open>Cli_Facts\<close>: \<open>bin/dgate-cli.rs\<close>, and which handler each command reaches.
  \<^item> \<open>Server\<close>, \<open>Server_Main\<close>: \<open>main.rs\<close>, the order of the start and the program around it.
  \<^item> \<open>Interleaving\<close>: programs of atomic actions, tasks that interleave, and rely conditions as a
    locale. \<open>Concurrent_Changes\<close>: the changes of \<open>proxy/mod.rs\<close> and the replay of the start as such
    programs. \<open>Concurrent_Facts\<close>, \<open>Concurrent_Races\<close>: what interleaved changes keep and lose.
  \<^item> \<open>Echo_Server\<close>: \<open>bin/echo-server.rs\<close>, its port and its counting handler.

  What the lemmas show. Storage: both backends are a map from table and key to bytes; typed
  operations read back what was written and, without colons in names, stay in their namespace.
  Changes: one effect per change log, the same from all appliers; replicas that apply the same
  entries agree and give the same answers; a built snapshot transfers the state. Proxy: routers show
  the store after every change, but for an AddModule that is refused after it was stored, and after
  a restart. Paths: the expression built from a pattern means the pattern, in which the slash of
  \<open>/**\<close> is required. WebSockets: the relay ends, and has passed on one stream completely. Tempo: what is applied has a quorum, every dot is applied once per node,
  and nodes agree on its meaning; but not on the order (\<open>tempo_replicas_diverge\<close>). Requests: a
  module writes and sees only what visibility lets it. Concurrency: a task alone is the operation; no
  schedule loses a change from the log or the store, and routers rebuilt after the last write show
  it; but some schedules leave a stored route unserved, undo a delete during the start, or let a
  restart change versions (\<open>Concurrent_Races\<close>). Where the code does not do what it documents, the
  theorem states what it does (\<open>wildcard_needs_slash\<close>, \<open>strip_path_forwards_root\<close>, \<open>colon_crosses_namespaces\<close>,
  \<open>refused_route_is_stored\<close>, \<open>cli_documents_miss\<close> and others).

  Bounds. No definition needs fuel: loops are structural or have a measure, and the loops that
  run for ever (accepting connections, timers, the receive loops of tasks) are step relations or
  the function of one turn. Words wrap as in a release build.

  Not modelled. Logging and metrics; the scheduling of tokio tasks, beyond the interleavings of
  \<open>Tempo_Clock\<close>, \<open>Tempo_System\<close>, \<open>Ws_Relay\<close> and \<open>Concurrent_Changes\<close>; locks, whose critical sections are atomic steps; time
  limits of clients, which are errors of the parameters; the parsing of the server's
  and the client's command lines; the integration test and the functional and performance tests.
\<close>

section \<open>One change, three appliers\<close>

text \<open>
  C13. The code that applies a change log to the store is written three times: in the Raft state
  machine, in the Tempo node and in the proxy of a standalone node. From the same store they make
  the same store, whatever the change log is and whether it succeeds or fails; Raft and Tempo
  succeed together and with the same message; and where the proxy succeeds they do too (it can
  still fail after the store has changed, when it rebuilds its caches).
\<close>

theorem appliers_agree:
  shows "snd (raft_store_change (pe_store E) (px_store st) cl) = snd (tempo_store_change (pe_store E) (px_store st) cl) \<and>
         px_store (snd (process_changelog E cl st)) = snd (tempo_store_change (pe_store E) (px_store st) cl) \<and>
         fst (raft_store_change (pe_store E) (px_store st) cl) =
           (case fst (tempo_store_change (pe_store E) (px_store st) cl) of
              Err e \<Rightarrow> Err e
            | Ok msg \<Rightarrow> Ok \<lparr>cr_success = True, cr_message = Some msg\<rparr>) \<and>
         (fst (process_changelog E cl st) = Ok () \<longrightarrow> is_ok (fst (tempo_store_change (pe_store E) (px_store st) cl)))"
  using process_changelog_split [of E cl st]
  by (auto simp: raft_store_change_spec tempo_store_change_spec respond_def success_response_def process_changelog_frame
      split_change_def Let_def split: sum.split if_splits)

theorem appliers_agree_witness:
  "is_ok (fst (tempo_store_change (pe_store sample_env) (px_store fresh_proxy) add_namespace_change))"
proof -
  have "fst (process_changelog sample_env add_namespace_change fresh_proxy) = Ok ()"
    by code_simp
  then show ?thesis using appliers_agree [of sample_env fresh_proxy add_namespace_change] by blast
qed

end
